(* ===== verification/Prelude.thy ===== *)
theory Prelude
  imports Main "HOL-Library.AList" "HOL-Library.Sublist"
begin

text \<open>
  What every component of the development shares: the collection of simplification rules of the gateway's state, the
  JavaScript \<open>Map\<close> and \<open>Set\<close> as insertion-ordered association lists and distinct lists, the
  contract of a keyed store that the stateful components rely on, the contract of a transition
  system with its invariant rule, and generic lemmas on lists.

  A JavaScript \<open>Map\<close> (and a plain object used as a dictionary) is an association list whose order
  is the enumeration order: \<open>set\<close> replaces the value of a present key in place and appends a new
  one, \<open>delete\<close> removes the entry. A JavaScript \<open>Set\<close> is a list without duplicates in insertion
  order.
\<close>

named_theorems gateway_simps "equations of the live gateway's state operations"

section \<open>JavaScript maps and sets\<close>

type_synonym ('k, 'v) jmap = "('k \<times> 'v) list"

abbreviation jget :: "('k, 'v) jmap \<Rightarrow> 'k \<Rightarrow> 'v option" where
  "jget \<equiv> map_of"

abbreviation jset :: "'k \<Rightarrow> 'v \<Rightarrow> ('k, 'v) jmap \<Rightarrow> ('k, 'v) jmap" where
  "jset \<equiv> AList.update"

abbreviation jdelete :: "'k \<Rightarrow> ('k, 'v) jmap \<Rightarrow> ('k, 'v) jmap" where
  "jdelete \<equiv> AList.delete"

abbreviation jkeys :: "('k, 'v) jmap \<Rightarrow> 'k list" where
  "jkeys m \<equiv> map fst m"

definition jhas :: "('k, 'v) jmap \<Rightarrow> 'k \<Rightarrow> bool" where
  "jhas m k \<longleftrightarrow> k \<in> set (jkeys m)"

text \<open>\<open>new Set(xs)\<close> keeps the first occurrence of every element, in order.\<close>

fun jset_of :: "'a list \<Rightarrow> 'a list" where
  "jset_of [] = []"
| "jset_of (x # xs) = x # filter (\<lambda>y. y \<noteq> x) (jset_of xs)"

text \<open>\<open>set.add(x)\<close>.\<close>

definition jadd :: "'a \<Rightarrow> 'a list \<Rightarrow> 'a list" where
  "jadd x xs = (if x \<in> set xs then xs else xs @ [x])"

lemma set_jset_of [simp]: "set (jset_of xs) = set xs"
  by (induction xs) auto

lemma distinct_jset_of [simp]: "distinct (jset_of xs)"
  by (induction xs) (auto simp: distinct_filter)

lemma jset_of_distinct: "distinct xs \<Longrightarrow> jset_of xs = xs"
  by (induction xs) (auto intro: filter_True)

lemma set_jadd [simp]: "set (jadd x xs) = insert x (set xs)"
  by (auto simp: jadd_def)

lemma distinct_jadd [simp]: "distinct xs \<Longrightarrow> distinct (jadd x xs)"
  by (auto simp: jadd_def)

lemma jget_jset [simp]: "jget (jset k v m) k' = (if k' = k then Some v else jget m k')"
  by (simp add: update_conv')

lemma jget_jdelete [simp]: "jget (jdelete k m) k' = (if k' = k then None else jget m k')"
  by (simp add: delete_conv')

lemma jhas_iff: "jhas m k \<longleftrightarrow> jget m k \<noteq> None"
  by (simp add: jhas_def map_of_eq_None_iff image_iff)

lemma jget_None_iff: "jget m k = None \<longleftrightarrow> k \<notin> set (jkeys m)"
  by (simp add: map_of_eq_None_iff)

section \<open>The contract of a keyed store\<close>

text \<open>
  What the stateful components rely on when they keep state in a \<open>Map\<close>: a lookup after an update
  or a deletion, and that keys stay unique. The lemmas are proved once from the laws.
\<close>

locale keyed_store =
  fixes lookup :: "'m \<Rightarrow> 'k \<Rightarrow> 'v option"
    and update :: "'k \<Rightarrow> 'v \<Rightarrow> 'm \<Rightarrow> 'm"
    and remove :: "'k \<Rightarrow> 'm \<Rightarrow> 'm"
    and keys :: "'m \<Rightarrow> 'k list"
    and wf :: "'m \<Rightarrow> bool"
  assumes lookup_update: "lookup (update k v m) k' = (if k' = k then Some v else lookup m k')"
    and lookup_remove: "lookup (remove k m) k' = (if k' = k then None else lookup m k')"
    and keys_lookup: "k \<in> set (keys m) \<longleftrightarrow> lookup m k \<noteq> None"
    and wf_update: "wf m \<Longrightarrow> wf (update k v m)"
    and wf_remove: "wf m \<Longrightarrow> wf (remove k m)"
begin

lemma update_other: "k' \<noteq> k \<Longrightarrow> lookup (update k v m) k' = lookup m k'"
  by (simp add: lookup_update)

lemma keys_update: "set (keys (update k v m)) = insert k (set (keys m))"
  by (auto simp: keys_lookup lookup_update split: if_splits)

lemma keys_remove: "set (keys (remove k m)) = set (keys m) - {k}"
  by (auto simp: keys_lookup lookup_remove split: if_splits)

lemma remove_update: "lookup (remove k (update k v m)) = lookup (remove k m)"
  by (rule ext) (simp add: lookup_update lookup_remove)

lemma fold_remove:
  "lookup (fold remove ks m) k = (if k \<in> set ks then None else lookup m k)"
  by (induction ks arbitrary: m) (auto simp: lookup_remove)

lemma wf_fold_remove: "wf m \<Longrightarrow> wf (fold remove ks m)"
  by (induction ks arbitrary: m) (auto simp: wf_remove)

end

interpretation jm: keyed_store jget jset jdelete jkeys "\<lambda>m. distinct (jkeys m)"
proof (unfold_locales, goal_cases)
  case (3 k m)
  show ?case by (simp add: map_of_eq_None_iff image_iff)
qed (auto simp: distinct_update distinct_delete)

section \<open>The contract of a transition system\<close>

text \<open>
  Reachable states of a component whose behaviour is a set of initial states and a step relation;
  an invariant is a predicate that holds initially and that every step keeps.
\<close>

inductive reachable_from :: "('s \<Rightarrow> bool) \<Rightarrow> ('s \<Rightarrow> 's \<Rightarrow> bool) \<Rightarrow> 's \<Rightarrow> bool"
  for init step where
  reach_start: "init s \<Longrightarrow> reachable_from init step s"
| reach_next: "reachable_from init step s \<Longrightarrow> step s t \<Longrightarrow> reachable_from init step t"

locale invariant_system =
  fixes init :: "'s \<Rightarrow> bool"
    and step :: "'s \<Rightarrow> 's \<Rightarrow> bool"
    and inv :: "'s \<Rightarrow> bool"
  assumes inv_init: "init s \<Longrightarrow> inv s"
    and inv_step: "inv s \<Longrightarrow> step s t \<Longrightarrow> inv t"
begin

lemma inv_reachable: "reachable_from init step s \<Longrightarrow> inv s"
  by (induction rule: reachable_from.induct) (auto intro: inv_init inv_step)

lemma inv_steps: "step\<^sup>*\<^sup>* s t \<Longrightarrow> inv s \<Longrightarrow> inv t"
  by (induction rule: rtranclp_induct) (auto intro: inv_step)

end

section \<open>Lists\<close>

lemma fold_invariant:
  assumes "P s" and "\<And>x s. x \<in> set xs \<Longrightarrow> P s \<Longrightarrow> P (f x s)"
  shows "P (fold f xs s)"
  using assms by (induction xs arbitrary: s) auto

lemma dropWhile_sorted_filter:
  "sorted xs \<Longrightarrow> dropWhile (\<lambda>x. x < c) xs = filter (\<lambda>x. c \<le> x) xs"
  for c :: "'a :: linorder"
proof (induction xs)
  case (Cons x xs)
  then show ?case
    by (cases "x < c") (auto intro!: filter_True [symmetric])
qed simp

lemma sorted_dropWhile_less: "sorted xs \<Longrightarrow> sorted (dropWhile P xs)"
  for xs :: "'a :: linorder list"
  by (rule sorted_wrt_dropWhile)

end
