(* ===== verification/Js_String.thy ===== *)
theory Js_String
  imports Prelude "HOL-Library.Multiset"
begin

text \<open>
  The string operations of the JavaScript standard library that the program uses. A string is a
  list of characters in the range of \<open>char\<close> (code units up to 255); white space is what
  \<open>String.prototype.trim\<close> removes in that range: tab, line feed, vertical tab, form feed, carriage
  return, space and the no-break space.
\<close>

section \<open>Trimming\<close>

definition js_space :: "char \<Rightarrow> bool" where
  "js_space c \<longleftrightarrow> of_char c \<in> {9, 10, 11, 12, 13, 32, 160 :: nat}"

definition trim :: "string \<Rightarrow> string" where
  "trim s = rev (dropWhile js_space (rev (dropWhile js_space s)))"

lemma trim_Nil [simp]: "trim [] = []"
  by (simp add: trim_def)

lemma dropWhile_rev_noop: "xs = [] \<or> \<not> P (last xs) \<Longrightarrow> dropWhile P (rev xs) = rev xs"
  by (cases xs rule: rev_cases) auto

lemma last_dropWhile: "dropWhile P xs \<noteq> [] \<Longrightarrow> last (dropWhile P xs) = last xs"
  by (induction xs) (auto split: if_splits)

lemma trim_eq_self: "s = [] \<or> (\<not> js_space (hd s) \<and> \<not> js_space (last s)) \<Longrightarrow> trim s = s"
  using dropWhile_rev_noop [of s js_space] unfolding trim_def by (cases s) auto

lemma trim_ends:
  assumes "trim s \<noteq> []"
  shows "\<not> js_space (hd (trim s))" and "\<not> js_space (last (trim s))"
proof -
  let ?d = "dropWhile js_space s"
  let ?r = "dropWhile js_space (rev ?d)"
  from assms have r: "?r \<noteq> []" by (simp add: trim_def)
  then have "last ?r = hd ?d"
    using last_dropWhile [OF r] by (metis dropWhile.simps(1) hd_rev rev_rev_ident rev_is_Nil_conv)
  moreover have "?d \<noteq> []" using r by (metis dropWhile.simps(1) rev.simps(1))
  ultimately show "\<not> js_space (hd (trim s))"
    using r hd_dropWhile [of js_space s] by (simp add: trim_def hd_rev)
  show "\<not> js_space (last (trim s))"
    using r hd_dropWhile [of js_space "rev ?d"] by (simp add: trim_def last_rev)
qed

lemma trim_idem [simp]: "trim (trim s) = trim s"
  using trim_ends [of s] by (intro trim_eq_self) auto

lemma set_trim: "set (trim s) \<subseteq> set s"
  unfolding trim_def by (metis set_dropWhileD set_rev subsetI)

section \<open>Prefixes, searching, splitting and joining\<close>

definition starts_with :: "string \<Rightarrow> string \<Rightarrow> bool" where
  "starts_with p s \<longleftrightarrow> take (length p) s = p"

lemma starts_with_append [simp]: "starts_with p (p @ s)"
  by (simp add: starts_with_def)

lemma starts_with_iff: "starts_with p s \<longleftrightarrow> (\<exists>r. s = p @ r)"
  by (auto simp: starts_with_def dest: sym [of _ p]) (metis append_take_drop_id)

text \<open>The text before and after the first occurrence of a separator.\<close>

fun cut_first :: "string \<Rightarrow> string \<Rightarrow> (string \<times> string) option" where
  "cut_first sep [] = (if sep = [] then Some ([], []) else None)"
| "cut_first sep (c # cs) =
     (if starts_with sep (c # cs) then Some ([], drop (length sep) (c # cs))
      else map_option (\<lambda>(a, b). (c # a, b)) (cut_first sep cs))"

definition index_of :: "string \<Rightarrow> string \<Rightarrow> nat option" where
  "index_of sep s = map_option (\<lambda>(a, b). length a) (cut_first sep s)"

definition str_includes :: "string \<Rightarrow> string \<Rightarrow> bool" where
  "str_includes s sep \<longleftrightarrow> cut_first sep s \<noteq> None"

lemma cut_first_append: "cut_first sep s = Some (a, b) \<Longrightarrow> s = a @ sep @ b"
  by (induction s arbitrary: a) (auto simp: starts_with_iff split: if_splits)

lemma cut_first_length: "cut_first sep s = Some (a, b) \<Longrightarrow> sep \<noteq> [] \<Longrightarrow> length b < length s"
  by (drule cut_first_append) auto

text \<open>\<open>s.split(sep)\<close> for a non-empty separator.\<close>

function js_split :: "string \<Rightarrow> string \<Rightarrow> string list" where
  "js_split sep s =
     (if sep = [] then [s]
      else case cut_first sep s of None \<Rightarrow> [s] | Some (a, b) \<Rightarrow> a # js_split sep b)"
  by pat_completeness auto
termination
  by (relation "measure (\<lambda>(sep, s). length s)") (auto dest: cut_first_length)

declare js_split.simps [simp del]

fun join :: "string \<Rightarrow> string list \<Rightarrow> string" where
  "join sep [] = []"
| "join sep [x] = x"
| "join sep (x # y # ys) = x @ sep @ join sep (y # ys)"

lemma join_Cons: "join sep (x # xs) = (if xs = [] then x else x @ sep @ join sep xs)"
  by (cases xs) auto

lemma js_split_nonempty [simp]: "js_split sep s \<noteq> []"
  by (subst js_split.simps) (auto split: option.splits)

lemma join_js_split: "join sep (js_split sep s) = s"
proof (induction sep s rule: js_split.induct)
  case (1 sep s)
  then show ?case
    by (subst js_split.simps)
      (auto simp: join_Cons dest: cut_first_append split: option.splits)
qed

text \<open>A text that does not overlap the separator is found at its end.\<close>

lemma cut_first_char_None: "c \<notin> set s \<Longrightarrow> cut_first [c] s = None"
  by (induction s) (auto simp: starts_with_def)

lemma cut_first_char: "c \<notin> set s \<Longrightarrow> cut_first [c] (s @ c # r) = Some (s, r)"
  by (induction s) (auto simp: starts_with_def)

lemma js_split_char_none: "c \<notin> set s \<Longrightarrow> js_split [c] s = [s]"
  by (subst js_split.simps) (simp add: cut_first_char_None)

lemma js_split_char: "c \<notin> set s \<Longrightarrow> js_split [c] (s @ c # r) = s # js_split [c] r"
  by (subst js_split.simps) (simp add: cut_first_char)

lemma set_js_split_char: "p \<in> set (js_split [c] s) \<Longrightarrow> c \<notin> set p"
proof (induction "[c]" s arbitrary: p rule: js_split.induct)
  case (1 s)
  have cut: "cut_first [c] s = Some (a, b) \<Longrightarrow> c \<notin> set a" for a b
    by (induction s arbitrary: a) (auto simp: starts_with_def split: if_splits)
  have none: "cut_first [c] s = None \<Longrightarrow> c \<notin> set s"
    by (induction s) (auto simp: starts_with_def split: if_splits)
  from 1 show ?case
    by (subst (asm) js_split.simps) (auto split: option.splits dest: cut none)
qed

lemma js_split_join:
  "xs \<noteq> [] \<Longrightarrow> \<forall>x \<in> set xs. c \<notin> set x \<Longrightarrow> js_split [c] (join [c] xs) = xs"
  by (induction xs) (auto simp: join_Cons js_split_char js_split_char_none)

text \<open>The text before and after the last occurrence of a character (\<open>lastIndexOf\<close>).\<close>

definition cut_last :: "char \<Rightarrow> string \<Rightarrow> (string \<times> string) option" where
  "cut_last c s = map_option (\<lambda>(a, b). (rev b, rev a)) (cut_first [c] (rev s))"

lemma cut_last_append: "cut_last c s = Some (a, b) \<Longrightarrow> s = a @ c # b"
  by (auto simp: cut_last_def dest!: cut_first_append) (metis append.assoc append_Cons append_Nil
      rev.simps(2) rev_append rev_rev_ident)

lemma cut_last_char: "c \<notin> set b \<Longrightarrow> cut_last c (a @ c # b) = Some (a, b)"
  by (simp add: cut_last_def cut_first_char)

lemma cut_last_None: "c \<notin> set s \<Longrightarrow> cut_last c s = None"
  by (simp add: cut_last_def cut_first_char_None)

section \<open>Letter case\<close>

text \<open>
  \<open>toLowerCase\<close> and \<open>toUpperCase\<close> on the letters of ASCII; every other character is kept.
\<close>

definition to_lower :: "string \<Rightarrow> string" where
  "to_lower = map (\<lambda>c. if of_char c \<in> {65..90 :: nat} then char_of (of_char c + 32 :: nat) else c)"

definition to_upper :: "string \<Rightarrow> string" where
  "to_upper = map (\<lambda>c. if of_char c \<in> {97..122 :: nat} then char_of (of_char c - 32 :: nat) else c)"

section \<open>Optional strings\<close>

text \<open>
  \<open>value?.trim()\<close> turned into \<open>null\<close> when it is missing or blank: the normalisation that
  \<open>parseOptionalEnvValue\<close>, \<open>normalizeOptionalString\<close> and their copies in the packages perform.
\<close>

definition blank_to_none :: "string option \<Rightarrow> string option" where
  "blank_to_none v = (case v of None \<Rightarrow> None
     | Some s \<Rightarrow> if trim s = [] then None else Some (trim s))"

lemma blank_to_none_simps [simp]:
  "blank_to_none None = None"
  "blank_to_none (Some s) = (if trim s = [] then None else Some (trim s))"
  by (simp_all add: blank_to_none_def)

lemma blank_to_none_idem [simp]: "blank_to_none (blank_to_none v) = blank_to_none v"
  by (cases v) auto

lemma blank_to_none_Some: "blank_to_none v = Some s \<Longrightarrow> trim s = s \<and> s \<noteq> []"
  by (cases v) (auto split: if_splits)

section \<open>Sorting by text\<close>

text \<open>
  \<open>xs.sort((a, b) => key(a).localeCompare(key(b)))\<close>: a stable sort. The order of the locale is not
  part of the repository; it is the argument \<open>le\<close>.
\<close>

fun insert_by :: "(string \<Rightarrow> string \<Rightarrow> bool) \<Rightarrow> ('a \<Rightarrow> string) \<Rightarrow> 'a \<Rightarrow> 'a list \<Rightarrow> 'a list" where
  "insert_by le key k [] = [k]"
| "insert_by le key k (x # xs) = (if le (key k) (key x) then k # x # xs else x # insert_by le key k xs)"

definition sort_by :: "(string \<Rightarrow> string \<Rightarrow> bool) \<Rightarrow> ('a \<Rightarrow> string) \<Rightarrow> 'a list \<Rightarrow> 'a list" where
  "sort_by le key xs = foldr (insert_by le key) xs []"

lemma set_insert_by [simp]: "set (insert_by le key k xs) = insert k (set xs)"
  by (induction xs) auto

lemma set_sort_by [simp]: "set (sort_by le key xs) = set xs"
  by (induction xs) (auto simp: sort_by_def)

lemma mset_insert_by [simp]: "mset (insert_by le key k xs) = add_mset k (mset xs)"
  by (induction xs) auto

lemma mset_sort_by [simp]: "mset (sort_by le key xs) = mset xs"
  by (induction xs) (auto simp: sort_by_def)

lemma length_sort_by [simp]: "length (sort_by le key xs) = length xs"
  by (metis mset_sort_by size_mset)

end
