(* ===== verification/Topics.thy ===== *)
theory Topics
  imports Js_String
begin

text \<open>
  The live gateway's configuration and topic codec (\<open>apps/live-gateway/src/config.ts\<close>): how
  environment values are normalised, which TURN urls are dropped, how the MQTT topic of a device
  is built and how an incoming topic is taken apart again. The regular expression of
  \<open>parseDeviceTopic\<close> only has segments without a slash, so it is read off the topic's segments;
  the optional \<open>service\<close> group is tried first, as the matcher does.
\<close>

section \<open>Environment values\<close>

definition parseOptionalEnvValue :: "string option \<Rightarrow> string option" where
  "parseOptionalEnvValue v = blank_to_none v"

definition parseOptionalEnvValues :: "string option \<Rightarrow> string list" where
  "parseOptionalEnvValues v = (case v of None \<Rightarrow> []
     | Some s \<Rightarrow> filter (\<lambda>c. c \<noteq> []) (map trim (js_split '','' s)))"

definition isLoopbackHostname :: "string \<Rightarrow> bool" where
  "isLoopbackHostname hostname =
     (let h = to_lower (trim hostname)
      in h = ''localhost'' \<or> h = ''127.0.0.1'' \<or> h = ''::1'' \<or> h = ''0.0.0.0'')"

definition getTurnHostname :: "string \<Rightarrow> string option" where
  "getTurnHostname turnUrl =
     (let u = trim turnUrl in
      if u = [] then None
      else case cut_first '':'' u of
        None \<Rightarrow> None
      | Some (scheme, rest) \<Rightarrow>
          if scheme = [] then None
          else
            let authority = (if starts_with ''//'' rest then drop 2 rest else rest);
                hostPort = (case cut_last CHR ''@'' authority of None \<Rightarrow> authority | Some (_, h) \<Rightarrow> h)
            in if hostPort = [] then None
               else if starts_with ''['' hostPort then
                 (case cut_first '']'' hostPort of
                    None \<Rightarrow> None
                  | Some (a, _) \<Rightarrow> if length a > 1 then Some (drop 1 a) else None)
               else (case cut_last CHR '':'' hostPort of
                    None \<Rightarrow> Some hostPort
                  | Some (h, _) \<Rightarrow> if h \<noteq> [] then Some h else Some hostPort))"

record turn_config =
  turn_credential :: string
  turn_urls :: "string list"
  turn_username :: string

definition resolveTurnConfig :: "string option \<Rightarrow> string \<Rightarrow> string \<Rightarrow> turn_config option" where
  "resolveTurnConfig serverUrl credential username =
     (let urls = filter (\<lambda>u. case getTurnHostname u of None \<Rightarrow> True
                            | Some h \<Rightarrow> \<not> isLoopbackHostname h)
                   (parseOptionalEnvValues serverUrl)
      in if urls = [] then None
         else Some \<lparr>turn_credential = credential, turn_urls = urls, turn_username = username\<rparr>)"

section \<open>Topics\<close>

datatype topic_error = SubtopicRequired

record parsed_topic =
  pt_deviceId :: string
  pt_service :: "string option"
  pt_subtopic :: string

definition topicBase :: "string \<Rightarrow> string option \<Rightarrow> string" where
  "topicBase deviceId service =
     (let d = trim deviceId; s = trim (case service of None \<Rightarrow> [] | Some x \<Rightarrow> x)
      in if s \<noteq> [] then ''trakrai/device/'' @ d @ ''/service/'' @ s
         else ''trakrai/device/'' @ d)"

definition normalizeTopicSubtopic :: "string \<Rightarrow> string" where
  "normalizeTopicSubtopic subtopic = trim (dropWhile (\<lambda>c. c = CHR ''/'') subtopic)"

definition buildDeviceTopic :: "string \<Rightarrow> string \<Rightarrow> string option \<Rightarrow> topic_error + string" where
  "buildDeviceTopic deviceId subtopic service =
     (let n = normalizeTopicSubtopic subtopic
      in if n = [] then Inl SubtopicRequired else Inr (topicBase deviceId service @ ''/'' @ n))"

definition topic_or :: "topic_error + string \<Rightarrow> string" where
  "topic_or r = (case r of Inl _ \<Rightarrow> [] | Inr t \<Rightarrow> t)"

definition subscribeTopicsForDevice :: "string \<Rightarrow> string list" where
  "subscribeTopicsForDevice deviceId =
     (let base = topicBase deviceId None @ ''/service/+''
      in [topic_or (buildDeviceTopic deviceId ''response'' None),
          topic_or (buildDeviceTopic deviceId ''status'' None),
          base @ ''/response'', base @ ''/status'', base @ ''/webrtc/offer'', base @ ''/webrtc/ice''])"

definition known_subtopics :: "string list" where
  "known_subtopics =
     [''command'', ''response'', ''status'', ''webrtc/offer'', ''webrtc/answer'', ''webrtc/ice'']"

definition parseDeviceTopic :: "string \<Rightarrow> parsed_topic option" where
  "parseDeviceTopic topic =
     (let segs = js_split ''/'' topic; rest = drop 3 segs in
      if length segs > 3 \<and> segs ! 0 = ''trakrai'' \<and> segs ! 1 = ''device'' \<and> segs ! 2 \<noteq> [] then
        (if length rest > 2 \<and> rest ! 0 = ''service'' \<and> rest ! 1 \<noteq> []
            \<and> join ''/'' (drop 2 rest) \<in> set known_subtopics then
           Some \<lparr>pt_deviceId = segs ! 2, pt_service = Some (rest ! 1),
                 pt_subtopic = join ''/'' (drop 2 rest)\<rparr>
         else if join ''/'' rest \<in> set known_subtopics then
           Some \<lparr>pt_deviceId = segs ! 2, pt_service = None, pt_subtopic = join ''/'' rest\<rparr>
         else None)
      else None)"

text \<open>An identifier that survives the codec: one non-empty trimmed topic segment.\<close>

definition topic_segment :: "string \<Rightarrow> bool" where
  "topic_segment s \<longleftrightarrow> s \<noteq> [] \<and> trim s = s \<and> CHR ''/'' \<notin> set s"

lemma known_subtopics_split:
  assumes "sub \<in> set known_subtopics"
  obtains ss where "sub = join ''/'' ss" and "ss \<noteq> []" and "\<forall>x \<in> set ss. CHR ''/'' \<notin> set x"
    and "hd ss \<noteq> ''service''"
proof -
  have "join ''/'' (js_split ''/'' sub) = sub" by (rule join_js_split)
  moreover have "\<forall>x \<in> set (js_split ''/'' sub). CHR ''/'' \<notin> set x" by (auto dest: set_js_split_char)
  moreover have "hd (js_split ''/'' sub) \<noteq> ''service''"
    using assms unfolding known_subtopics_def
    by (auto simp: js_split.simps starts_with_def)
  ultimately show ?thesis using that [of "js_split ''/'' sub"] by simp
qed

lemma build_segments:
  assumes d: "topic_segment d" and sub: "sub = join ''/'' ss" "ss \<noteq> []" "normalizeTopicSubtopic sub = sub"
      "sub \<noteq> []"
  shows "buildDeviceTopic d sub None = Inr (join ''/'' ([''trakrai'', ''device'', d] @ ss))"
    and "topic_segment v \<Longrightarrow>
      buildDeviceTopic d sub (Some v) = Inr (join ''/'' ([''trakrai'', ''device'', d, ''service'', v] @ ss))"
  using assms unfolding buildDeviceTopic_def topicBase_def topic_segment_def
  by (auto simp: join_Cons)

lemma known_subtopics_normal:
  "sub \<in> set known_subtopics \<Longrightarrow> normalizeTopicSubtopic sub = sub \<and> sub \<noteq> []"
  unfolding known_subtopics_def normalizeTopicSubtopic_def
  by (auto intro!: trim_eq_self simp: js_space_def)

lemma parse_segments:
  assumes d: "topic_segment d" and ss: "ss \<noteq> []" "\<forall>x \<in> set ss. CHR ''/'' \<notin> set x"
    "join ''/'' ss \<in> set known_subtopics" "hd ss \<noteq> ''service''"
  shows "parseDeviceTopic (join ''/'' ([''trakrai'', ''device'', d] @ ss)) =
      Some \<lparr>pt_deviceId = d, pt_service = None, pt_subtopic = join ''/'' ss\<rparr>"
    and "topic_segment v \<Longrightarrow>
      parseDeviceTopic (join ''/'' ([''trakrai'', ''device'', d, ''service'', v] @ ss)) =
      Some \<lparr>pt_deviceId = d, pt_service = Some v, pt_subtopic = join ''/'' ss\<rparr>"
proof -
  have "js_split ''/'' (join ''/'' ([''trakrai'', ''device'', d] @ ss)) = [''trakrai'', ''device'', d] @ ss"
    using d ss by (intro js_split_join) (auto simp: topic_segment_def)
  then show "parseDeviceTopic (join ''/'' ([''trakrai'', ''device'', d] @ ss)) =
      Some \<lparr>pt_deviceId = d, pt_service = None, pt_subtopic = join ''/'' ss\<rparr>"
    using d ss unfolding parseDeviceTopic_def topic_segment_def by (auto simp: Let_def hd_conv_nth)
  assume v: "topic_segment v"
  have "js_split ''/'' (join ''/'' ([''trakrai'', ''device'', d, ''service'', v] @ ss)) =
      [''trakrai'', ''device'', d, ''service'', v] @ ss"
    using d v ss by (intro js_split_join) (auto simp: topic_segment_def)
  then show "parseDeviceTopic (join ''/'' ([''trakrai'', ''device'', d, ''service'', v] @ ss)) =
      Some \<lparr>pt_deviceId = d, pt_service = Some v, pt_subtopic = join ''/'' ss\<rparr>"
    using d v ss unfolding parseDeviceTopic_def topic_segment_def by (auto simp: Let_def)
qed

text \<open>
  The topic codec round-trips: for a device id and an optional service name that are one
  non-empty trimmed topic segment and for every subtopic of the protocol, \<open>buildDeviceTopic\<close>
  succeeds and \<open>parseDeviceTopic\<close> returns exactly the device, the service and the subtopic.
\<close>

theorem topic_roundtrip:
  assumes "topic_segment d" and "\<forall>v. svc = Some v \<longrightarrow> topic_segment v" and "sub \<in> set known_subtopics"
  shows "\<exists>t. buildDeviceTopic d sub svc = Inr t \<and>
    parseDeviceTopic t = Some \<lparr>pt_deviceId = d, pt_service = svc, pt_subtopic = sub\<rparr>"
proof -
  from assms(3) obtain ss where ss: "sub = join ''/'' ss" "ss \<noteq> []" "\<forall>x \<in> set ss. CHR ''/'' \<notin> set x"
    "hd ss \<noteq> ''service''" by (rule known_subtopics_split)
  note norm = known_subtopics_normal [OF assms(3)]
  show ?thesis
  proof (cases svc)
    case None
    then show ?thesis
      using assms ss norm build_segments(1) [of d sub ss] parse_segments(1) [of d ss] by auto
  next
    case (Some v)
    then show ?thesis
      using assms ss norm build_segments(2) [of d sub ss v] parse_segments(2) [of d ss v] by auto
  qed
qed

theorem topic_roundtrip_witness:
  "\<exists>t. buildDeviceTopic ''dev-1'' ''webrtc/ice'' (Some ''live-feed'') = Inr t \<and>
     parseDeviceTopic t = Some \<lparr>pt_deviceId = ''dev-1'', pt_service = Some ''live-feed'', pt_subtopic = ''webrtc/ice''\<rparr>"
  using topic_roundtrip [of "''dev-1''" "Some ''live-feed''" "''webrtc/ice''"]
  by (simp add: topic_segment_def known_subtopics_def trim_def js_space_def)

end
