(* ===== verification/Mqtt_Client.thy ===== *)
theory Mqtt_Client
  imports Topics
begin

text \<open>
  The gateway's MQTT client (\<open>apps/live-gateway/src/mqtt-client.ts\<close>). The broker connection belongs
  to a third-party package: what the code asks of it is a list of requests, and what it reports
  back (connected, closed, failed, the outcome of a subscription) are events. The module's state is
  whether \<open>client\<close> was set, and the reference count of every subscribed device.
\<close>

section \<open>The initial connection\<close>

text \<open>The promise of \<open>connectMqtt\<close> and its \<open>settled\<close> flag; \<open>client = c\<close> happens on every connect.\<close>

datatype promise = PromisePending | PromiseResolved | PromiseRejected string

datatype connection_event = EvConnect | EvError string | EvReconnect | EvClose

record connect_state =
  cs_settled :: bool
  cs_promise :: promise
  cs_client :: bool

definition connect_start :: "bool \<Rightarrow> connect_state" where
  "connect_start c = \<lparr>cs_settled = False, cs_promise = PromisePending, cs_client = c\<rparr>"

definition resolveOnce :: "connect_state \<Rightarrow> connect_state" where
  "resolveOnce s = (if cs_settled s then s else s\<lparr>cs_settled := True, cs_promise := PromiseResolved\<rparr>)"

definition rejectOnce :: "string \<Rightarrow> connect_state \<Rightarrow> connect_state" where
  "rejectOnce e s = (if cs_settled s then s else s\<lparr>cs_settled := True, cs_promise := PromiseRejected e\<rparr>)"

fun connectMqtt :: "connection_event \<Rightarrow> connect_state \<Rightarrow> connect_state" where
  "connectMqtt EvConnect s = resolveOnce (s\<lparr>cs_client := True\<rparr>)"
| "connectMqtt (EvError e) s = rejectOnce e s"
| "connectMqtt EvReconnect s = s"
| "connectMqtt EvClose s = rejectOnce ''mqtt disconnected before initial connect'' s"

text \<open>What the first event that settles the promise makes of it.\<close>

fun first_outcome :: "connection_event list \<Rightarrow> promise" where
  "first_outcome [] = PromisePending"
| "first_outcome (EvConnect # es) = PromiseResolved"
| "first_outcome (EvError e # es) = PromiseRejected e"
| "first_outcome (EvReconnect # es) = first_outcome es"
| "first_outcome (EvClose # es) = PromiseRejected ''mqtt disconnected before initial connect''"

lemma connect_settled:
  "cs_settled s \<Longrightarrow> cs_settled (fold connectMqtt es s) \<and> cs_promise (fold connectMqtt es s) = cs_promise s"
proof (induction es arbitrary: s)
  case (Cons e es)
  have "cs_settled (connectMqtt e s) \<and> cs_promise (connectMqtt e s) = cs_promise s"
    using Cons.prems by (cases e) (auto simp: resolveOnce_def rejectOnce_def)
  then show ?case using Cons.IH [of "connectMqtt e s"] by simp
qed simp

lemma connect_client: "cs_client (fold connectMqtt es s) \<longleftrightarrow> cs_client s \<or> EvConnect \<in> set es"
proof (induction es arbitrary: s)
  case (Cons e es)
  have "cs_client (connectMqtt e s) \<longleftrightarrow> cs_client s \<or> e = EvConnect"
    by (cases e) (auto simp: resolveOnce_def rejectOnce_def)
  then show ?case using Cons.IH [of "connectMqtt e s"] by auto
qed simp

lemma connect_promise:
  "\<not> cs_settled s \<Longrightarrow> cs_promise s = PromisePending \<Longrightarrow> cs_promise (fold connectMqtt es s) = first_outcome es"
proof (induction es arbitrary: s)
  case (Cons e es)
  show ?case
  proof (cases "e = EvReconnect")
    case False
    then have "cs_settled (connectMqtt e s) \<and> cs_promise (connectMqtt e s) = first_outcome (e # es)"
      using Cons.prems by (cases e) (auto simp: resolveOnce_def rejectOnce_def)
    then show ?thesis using connect_settled [of "connectMqtt e s" es] by simp
  qed (use Cons in simp)
qed simp

section \<open>Reference-counted subscriptions\<close>

record mqtt_state =
  mq_client :: bool
  subscriptionRefs :: "(string, nat) jmap"

datatype 'p mqtt_request =
    MqSubscribe "string list"
  | MqUnsubscribe "string list"
  | MqPublish string 'p

datatype mqtt_error = NotConnected | BrokerError string

datatype subscribe_result = SubRejected mqtt_error | SubResolved | SubPending

definition subscribeToDevice ::
  "string \<Rightarrow> mqtt_state \<Rightarrow> mqtt_state \<times> 'p mqtt_request list \<times> subscribe_result" where
  "subscribeToDevice deviceId m =
     (if \<not> mq_client m then (m, [], SubRejected NotConnected)
      else
        let next = (case jget (subscriptionRefs m) deviceId of None \<Rightarrow> 0 | Some n \<Rightarrow> n) + 1;
            m' = m\<lparr>subscriptionRefs := jset deviceId next (subscriptionRefs m)\<rparr>
        in if next > 1 then (m', [], SubResolved)
           else (m', [MqSubscribe (subscribeTopicsForDevice deviceId)], SubPending))"

text \<open>The callback of the broker's \<open>subscribe\<close>, for a pending subscription.\<close>

definition subscribe_callback ::
  "string \<Rightarrow> string option \<Rightarrow> mqtt_state \<Rightarrow> mqtt_state \<times> subscribe_result" where
  "subscribe_callback deviceId err m =
     (case err of
        Some e \<Rightarrow> (m\<lparr>subscriptionRefs := jdelete deviceId (subscriptionRefs m)\<rparr>, SubRejected (BrokerError e))
      | None \<Rightarrow> (m, SubResolved))"

definition unsubscribeFromDevice :: "string \<Rightarrow> mqtt_state \<Rightarrow> mqtt_state \<times> 'p mqtt_request list" where
  "unsubscribeFromDevice deviceId m =
     (if \<not> mq_client m then (m, [])
      else case jget (subscriptionRefs m) deviceId of
        None \<Rightarrow> (m, [])
      | Some n \<Rightarrow>
          if n > 1 then (m\<lparr>subscriptionRefs := jset deviceId (n - 1) (subscriptionRefs m)\<rparr>, [])
          else (m\<lparr>subscriptionRefs := jdelete deviceId (subscriptionRefs m)\<rparr>,
                [MqUnsubscribe (subscribeTopicsForDevice deviceId)]))"

text \<open>\<open>publishMqtt\<close> raises what \<open>buildDeviceTopic\<close> raises, but only when the client is there.\<close>

definition publishMqtt ::
  "mqtt_state \<Rightarrow> string \<Rightarrow> string \<Rightarrow> 'p \<Rightarrow> string option \<Rightarrow> topic_error + 'p mqtt_request list" where
  "publishMqtt m deviceId subtopic payload service =
     (if \<not> mq_client m then Inr []
      else case buildDeviceTopic deviceId subtopic service of
        Inl e \<Rightarrow> Inl e
      | Inr topic \<Rightarrow> Inr [MqPublish topic payload])"

text \<open>Every handler that was registered sees every message, in the order of registration.\<close>

definition dispatch_message :: "('h \<Rightarrow> string \<Rightarrow> string \<Rightarrow> 's \<Rightarrow> 's) \<Rightarrow> 'h list \<Rightarrow> string \<Rightarrow> string \<Rightarrow> 's \<Rightarrow> 's" where
  "dispatch_message run handlers topic payload s = fold (\<lambda>h. run h topic payload) handlers s"

definition onMqttMessage :: "'h \<Rightarrow> 'h list \<Rightarrow> 'h list" where
  "onMqttMessage h handlers = jadd h handlers"

text \<open>How many references the table holds for a device, an absent entry being none.\<close>

definition ref_count :: "mqtt_state \<Rightarrow> string \<Rightarrow> nat" where
  "ref_count m d = (case jget (subscriptionRefs m) d of None \<Rightarrow> 0 | Some n \<Rightarrow> n)"

definition refs_positive :: "mqtt_state \<Rightarrow> bool" where
  "refs_positive m \<longleftrightarrow> (\<forall>d n. jget (subscriptionRefs m) d = Some n \<longrightarrow> 0 < n)"

lemma subscribe_client [simp]: "mq_client (fst (subscribeToDevice d m)) = mq_client m"
  by (simp add: subscribeToDevice_def Let_def)

lemma callback_client [simp]: "mq_client (fst (subscribe_callback d e m)) = mq_client m"
  by (simp add: subscribe_callback_def split: option.splits)

lemma unsubscribe_client [simp]: "mq_client (fst (unsubscribeFromDevice d m)) = mq_client m"
  by (simp add: unsubscribeFromDevice_def split: option.splits)

lemma ref_count_subscribe:
  "mq_client m \<Longrightarrow> ref_count (fst (subscribeToDevice d m)) d' = ref_count m d' + (if d' = d then 1 else 0)"
  by (auto simp: subscribeToDevice_def ref_count_def Let_def split: option.splits)

lemma ref_count_unsubscribe:
  "mq_client m \<Longrightarrow> ref_count (fst (unsubscribeFromDevice d m)) d' = ref_count m d' - (if d' = d then 1 else 0)"
  by (auto simp: unsubscribeFromDevice_def ref_count_def split: option.splits)

lemma ref_count_callback_ok: "fst (subscribe_callback d None m) = m"
  by (simp add: subscribe_callback_def)

lemma subscribe_requests:
  assumes "mq_client m"
  shows "fst (snd (subscribeToDevice d m)) =
    (if ref_count m d = 0 then [MqSubscribe (subscribeTopicsForDevice d)] else [])"
  using assms by (simp add: subscribeToDevice_def ref_count_def Let_def split: option.splits)

lemma unsubscribe_requests:
  assumes "mq_client m" and "refs_positive m"
  shows "snd (unsubscribeFromDevice d m) =
    (if ref_count m d = 1 then [MqUnsubscribe (subscribeTopicsForDevice d)] else [])"
  using assms
  by (auto simp: unsubscribeFromDevice_def ref_count_def refs_positive_def Suc_lessI split: option.splits)

lemma refs_positive_subscribe: "refs_positive m \<Longrightarrow> refs_positive (fst (subscribeToDevice d m))"
  by (auto simp: subscribeToDevice_def refs_positive_def Let_def)

lemma refs_positive_callback: "refs_positive m \<Longrightarrow> refs_positive (fst (subscribe_callback d e m))"
  by (auto simp: subscribe_callback_def refs_positive_def split: option.splits if_splits)

lemma refs_positive_unsubscribe: "refs_positive m \<Longrightarrow> refs_positive (fst (unsubscribeFromDevice d m))"
  by (auto simp: unsubscribeFromDevice_def refs_positive_def split: option.splits if_splits)

text \<open>The command topic of a device always exists, so asking for its status cannot raise.\<close>

lemma command_topic: "\<exists>t. buildDeviceTopic d ''command'' svc = Inr t"
proof -
  have "normalizeTopicSubtopic ''command'' = ''command''"
    using known_subtopics_normal [of "''command''"] by (simp add: known_subtopics_def)
  then show ?thesis by (simp add: buildDeviceTopic_def)
qed

lemma publish_command_total: "\<exists>rs. publishMqtt m d ''command'' p svc = Inr rs"
  using command_topic [of d svc] by (auto simp: publishMqtt_def split: sum.splits)

lemma publish_error_iff:
  "publishMqtt m d sub p svc = Inl e \<longleftrightarrow> mq_client m \<and> normalizeTopicSubtopic sub = []"
  by (cases e) (auto simp: publishMqtt_def buildDeviceTopic_def Let_def)

section \<open>Properties\<close>

text \<open>
  The promise of \<open>connectMqtt\<close> settles at most once and with the first decisive event: for
  every sequence of connection events its outcome is that of the first connect, error or close
  (reconnect attempts decide nothing), later events never change it, and the client becomes
  available exactly when some connect event occurred, even after a rejected promise.
\<close>

theorem connect_settles_once:
  "cs_promise (fold connectMqtt (es @ es') (connect_start c)) =
     (if first_outcome es = PromisePending then first_outcome es' else first_outcome es) \<and>
   (cs_client (fold connectMqtt es (connect_start c)) \<longleftrightarrow> c \<or> EvConnect \<in> set es)"
proof -
  have app: "first_outcome (es @ es') =
      (if first_outcome es = PromisePending then first_outcome es' else first_outcome es)"
    by (induction es rule: first_outcome.induct) auto
  have "cs_promise (fold connectMqtt (es @ es') (connect_start c)) = first_outcome (es @ es')"
    by (rule connect_promise) (simp_all add: connect_start_def)
  then show ?thesis
    using app connect_client [of es "connect_start c"] by (simp add: connect_start_def)
qed

end
