(* ===== verification/Js_Value.thy ===== *)
theory Js_Value
  imports Js_String Complex_Main
begin

text \<open>
  JavaScript values as the program meets them: what \<open>JSON.parse\<close> returns, and \<open>undefined\<close>. An
  object is the association list of its own enumerable properties in enumeration order; the
  properties every object inherits from \<open>Object.prototype\<close> are not used as keys. Numbers keep
  what the code distinguishes: \<open>NaN\<close>, the infinities, negative zero and the finite values.
\<close>

section \<open>Numbers\<close>

datatype js_number = NaN | PosInf | NegInf | NegZero | Fin rat

definition num_eq :: "js_number \<Rightarrow> js_number \<Rightarrow> bool" where
  "num_eq a b \<longleftrightarrow> a \<noteq> NaN \<and>
     (a = b \<or> (a = NegZero \<and> b = Fin 0) \<or> (a = Fin 0 \<and> b = NegZero))"

fun is_finite_num :: "js_number \<Rightarrow> bool" where
  "is_finite_num (Fin _) = True"
| "is_finite_num NegZero = True"
| "is_finite_num _ = False"

fun is_integer_num :: "js_number \<Rightarrow> bool" where
  "is_integer_num (Fin q) = (snd (quotient_of q) = 1)"
| "is_integer_num NegZero = True"
| "is_integer_num _ = False"

section \<open>Values\<close>

datatype jv =
    JUndef
  | JNull
  | JBool bool
  | JNum js_number
  | JStr string
  | JArr "jv list"
  | JObj "(string \<times> jv) list"

type_synonym jobject = "(string \<times> jv) list"

fun js_typeof :: "jv \<Rightarrow> string" where
  "js_typeof JUndef = ''undefined''"
| "js_typeof JNull = ''object''"
| "js_typeof (JBool _) = ''boolean''"
| "js_typeof (JNum _) = ''number''"
| "js_typeof (JStr _) = ''string''"
| "js_typeof (JArr _) = ''object''"
| "js_typeof (JObj _) = ''object''"

text \<open>
  \<open>a === b\<close>. Two objects (or arrays) are equal only when they are the same reference; the values
  the code compares come from different documents, so they are taken to be different references.
\<close>

fun strict_eq :: "jv \<Rightarrow> jv \<Rightarrow> bool" where
  "strict_eq JUndef JUndef = True"
| "strict_eq JNull JNull = True"
| "strict_eq (JBool a) (JBool b) = (a = b)"
| "strict_eq (JNum a) (JNum b) = num_eq a b"
| "strict_eq (JStr a) (JStr b) = (a = b)"
| "strict_eq _ _ = False"

text \<open>\<open>Object.is(a, b)\<close>: \<open>NaN\<close> is itself and the two zeros differ.\<close>

fun object_is :: "jv \<Rightarrow> jv \<Rightarrow> bool" where
  "object_is (JNum a) (JNum b) = (a = b)"
| "object_is a b = strict_eq a b"

text \<open>\<open>Array.prototype.includes\<close> compares with SameValueZero: \<open>NaN\<close> is found, the zeros are equal.\<close>

definition same_value_zero :: "jv \<Rightarrow> jv \<Rightarrow> bool" where
  "same_value_zero a b \<longleftrightarrow> strict_eq a b \<or> (a = JNum NaN \<and> b = JNum NaN)"

definition arr_includes :: "jv list \<Rightarrow> jv \<Rightarrow> bool" where
  "arr_includes xs v \<longleftrightarrow> (\<exists>x \<in> set xs. same_value_zero x v)"

text \<open>The primitive values other than \<open>undefined\<close> and \<open>NaN\<close>, on which \<open>===\<close> is reflexive.\<close>

fun plain_primitive :: "jv \<Rightarrow> bool" where
  "plain_primitive JNull = True"
| "plain_primitive (JBool _) = True"
| "plain_primitive (JNum n) = (n \<noteq> NaN)"
| "plain_primitive (JStr _) = True"
| "plain_primitive _ = False"

lemma strict_eq_refl: "plain_primitive v \<Longrightarrow> strict_eq v v"
  by (cases v) (auto simp: num_eq_def)

lemma num_eq_trans: "num_eq a b \<Longrightarrow> num_eq b c \<Longrightarrow> num_eq a c"
  by (auto simp: num_eq_def)

lemma strict_eq_sym: "strict_eq a b \<Longrightarrow> strict_eq b a"
  by (cases a; cases b) (auto simp: num_eq_def)

lemma strict_eq_trans: "strict_eq a b \<Longrightarrow> strict_eq b c \<Longrightarrow> strict_eq a c"
  by (cases a; cases b; cases c) (auto intro: num_eq_trans)

lemma strict_eq_typeof: "strict_eq a b \<Longrightarrow> js_typeof a = js_typeof b"
  by (cases a; cases b) auto

section \<open>Objects\<close>

definition obj_get :: "jobject \<Rightarrow> string \<Rightarrow> jv" where
  "obj_get obj k = (case map_of obj k of None \<Rightarrow> JUndef | Some v \<Rightarrow> v)"

definition obj_in :: "string \<Rightarrow> jobject \<Rightarrow> bool" where
  "obj_in k obj \<longleftrightarrow> map_of obj k \<noteq> None"

text \<open>The guard \<open>typeof v === 'object' && v !== null && !Array.isArray(v)\<close>.\<close>

fun as_object :: "jv \<Rightarrow> jobject option" where
  "as_object (JObj ps) = Some ps"
| "as_object _ = None"

fun as_string :: "jv \<Rightarrow> string option" where
  "as_string (JStr s) = Some s"
| "as_string _ = None"

lemma as_object_iff [simp]: "as_object v = Some ps \<longleftrightarrow> v = JObj ps"
  by (cases v) auto

lemma as_string_iff [simp]: "as_string v = Some s \<longleftrightarrow> v = JStr s"
  by (cases v) auto

lemma obj_get_simps [simp]:
  "obj_get [] k = JUndef"
  "obj_get ((k', v) # ps) k = (if k = k' then v else obj_get ps k)"
  by (auto simp: obj_get_def)

lemma obj_in_simps [simp]:
  "obj_in k [] = False"
  "obj_in k ((k', v) # ps) = (k = k' \<or> obj_in k ps)"
  by (auto simp: obj_in_def)

lemma obj_get_update: "obj_get (AList.update k v ps) k' = (if k' = k then v else obj_get ps k')"
  by (simp add: obj_get_def)

text \<open>\<open>typeof v === 'string' && v.trim() !== '' ? v.trim() : null\<close> on an unknown value.\<close>

definition trimmed_string :: "jv \<Rightarrow> string option" where
  "trimmed_string v = blank_to_none (as_string v)"

lemma trimmed_string_simps [simp]:
  "trimmed_string (JStr s) = blank_to_none (Some s)"
  "trimmed_string JUndef = None" "trimmed_string JNull = None" "trimmed_string (JBool b) = None"
  "trimmed_string (JNum n) = None" "trimmed_string (JArr xs) = None" "trimmed_string (JObj ps) = None"
  by (simp_all add: trimmed_string_def)

end
