(* ===== verification/Rate_Limit.thy ===== *)
theory Rate_Limit
  imports Js_Value
begin

text \<open>
  The inbound rate limiter of the websocket gateway (\<open>apps/live-gateway/src/ws-handler.ts\<close>):
  normalisation of its settings, pruning of expired timestamps and the two sliding windows, one
  over all messages and one over commands, that share a contract. Timestamps are the integer
  milliseconds of \<open>Date.now()\<close>.
\<close>

section \<open>Settings\<close>

record rate_limit =
  maxCommandMessages :: js_number
  maxMessages :: js_number
  maxPayloadBytes :: js_number
  windowMs :: js_number

definition defaultGatewayRateLimit :: rate_limit where
  "defaultGatewayRateLimit =
     \<lparr>maxCommandMessages = Fin 40, maxMessages = Fin 120, maxPayloadBytes = Fin (1024 * 1024),
      windowMs = Fin 5000\<rparr>"

fun num_le :: "js_number \<Rightarrow> js_number \<Rightarrow> bool" where
  "num_le NaN _ = False"
| "num_le _ NaN = False"
| "num_le NegInf _ = True"
| "num_le _ PosInf = True"
| "num_le PosInf _ = False"
| "num_le _ NegInf = False"
| "num_le NegZero NegZero = True"
| "num_le NegZero (Fin b) = (0 \<le> b)"
| "num_le (Fin a) NegZero = (a \<le> 0)"
| "num_le (Fin a) (Fin b) = (a \<le> b)"

definition num_pos :: "js_number \<Rightarrow> bool" where
  "num_pos n \<longleftrightarrow> n \<noteq> NaN \<and> \<not> num_le n (Fin 0)"

fun num_min :: "js_number \<Rightarrow> js_number \<Rightarrow> js_number" where
  "num_min NaN _ = NaN"
| "num_min _ NaN = NaN"
| "num_min a b = (if num_le a b then a else b)"

definition normalizeGatewayRateLimit :: "rate_limit option \<Rightarrow> rate_limit" where
  "normalizeGatewayRateLimit rateLimit =
     (let candidate = (case rateLimit of None \<Rightarrow> defaultGatewayRateLimit | Some r \<Rightarrow> r);
          mm = (if is_finite_num (maxMessages candidate) \<and> num_pos (maxMessages candidate)
                then maxMessages candidate else maxMessages defaultGatewayRateLimit);
          mc = (if is_finite_num (maxCommandMessages candidate) \<and> num_pos (maxCommandMessages candidate)
                   \<and> num_le (maxCommandMessages candidate) mm
                then maxCommandMessages candidate
                else num_min (maxCommandMessages defaultGatewayRateLimit) mm);
          mp = (if is_finite_num (maxPayloadBytes candidate) \<and> num_pos (maxPayloadBytes candidate)
                then maxPayloadBytes candidate else maxPayloadBytes defaultGatewayRateLimit);
          w = (if is_finite_num (windowMs candidate) \<and> num_pos (windowMs candidate)
               then windowMs candidate else windowMs defaultGatewayRateLimit)
      in \<lparr>maxCommandMessages = mc, maxMessages = mm, maxPayloadBytes = mp, windowMs = w\<rparr>)"

text \<open>What the settings are after normalisation: finite positive numbers, the command limit at most
  the message limit.\<close>

fun num_val :: "js_number \<Rightarrow> rat" where
  "num_val (Fin q) = q"
| "num_val _ = 0"

definition rate_limit_ok :: "rate_limit \<Rightarrow> bool" where
  "rate_limit_ok r \<longleftrightarrow>
     (\<exists>mc mm mp w. r = \<lparr>maxCommandMessages = Fin mc, maxMessages = Fin mm, maxPayloadBytes = Fin mp,
        windowMs = Fin w\<rparr> \<and> 0 < mc \<and> mc \<le> mm \<and> 0 < mp \<and> 0 < w)"

lemma finite_pos_Fin: "is_finite_num n \<Longrightarrow> num_pos n \<Longrightarrow> \<exists>q > 0. n = Fin q"
  by (cases n) (auto simp: num_pos_def)

section \<open>Sliding windows\<close>

text \<open>The index loop of \<open>pruneExpiredTimestamps\<close>: advance past the timestamps before the cut-off.\<close>

fun first_active :: "rat \<Rightarrow> int list \<Rightarrow> nat" where
  "first_active cutoff [] = 0"
| "first_active cutoff (t # ts) = (if of_int t < cutoff then Suc (first_active cutoff ts) else 0)"

definition pruneExpiredTimestamps :: "int list \<Rightarrow> rat \<Rightarrow> int list" where
  "pruneExpiredTimestamps timestamps cutoff =
     (let i = first_active cutoff timestamps in
      if i = 0 then timestamps
      else if i \<ge> length timestamps then []
      else drop i timestamps)"

record limiter =
  commandTimestamps :: "int list"
  messageTimestamps :: "int list"

definition new_limiter :: limiter where
  "new_limiter = \<lparr>commandTimestamps = [], messageTimestamps = []\<rparr>"

definition recordInboundMessage :: "limiter \<Rightarrow> int \<Rightarrow> rate_limit \<Rightarrow> limiter \<times> string option" where
  "recordInboundMessage l now r =
     (let ts = pruneExpiredTimestamps (messageTimestamps l) (of_int now - num_val (windowMs r)) in
      if num_val (maxMessages r) \<le> of_nat (length ts)
      then (l\<lparr>messageTimestamps := ts\<rparr>, Some ''too many websocket messages'')
      else (l\<lparr>messageTimestamps := ts @ [now]\<rparr>, None))"

definition recordInboundCommand :: "limiter \<Rightarrow> int \<Rightarrow> rate_limit \<Rightarrow> limiter \<times> string option" where
  "recordInboundCommand l now r =
     (let ts = pruneExpiredTimestamps (commandTimestamps l) (of_int now - num_val (windowMs r)) in
      if num_val (maxCommandMessages r) \<le> of_nat (length ts)
      then (l\<lparr>commandTimestamps := ts\<rparr>, Some ''too many websocket commands'')
      else (l\<lparr>commandTimestamps := ts @ [now]\<rparr>, None))"

lemma first_active_length: "first_active c ts = length (takeWhile (\<lambda>t. of_int t < c) ts)"
  by (induction ts) auto

lemma prune_dropWhile: "pruneExpiredTimestamps ts c = dropWhile (\<lambda>t. of_int t < c) ts"
  unfolding pruneExpiredTimestamps_def Let_def first_active_length
  by (auto simp: dropWhile_eq_drop)

text \<open>The loop is a filter on a window kept in the order of arrival.\<close>

lemma prune_sorted: "sorted ts \<Longrightarrow> pruneExpiredTimestamps ts c = filter (\<lambda>t. c \<le> of_int t) ts"
proof -
  assume "sorted ts"
  then have "dropWhile (\<lambda>t. of_int t < c) ts = filter (\<lambda>t. c \<le> of_int t) ts"
  proof (induction ts)
    case (Cons t ts)
    then show ?case
    proof (cases "of_int t < c")
      case False
      then have "filter (\<lambda>t. c \<le> of_int t) ts = ts"
        using Cons.prems by (intro filter_True) (auto simp: not_less intro: order_trans)
      then show ?thesis using False by (simp add: not_less)
    qed (use Cons in auto)
  qed simp
  then show ?thesis by (simp add: prune_dropWhile)
qed

section \<open>The contract of a sliding window\<close>

text \<open>The times at which a limiter accepts an event, for events arriving at the given times.\<close>

fun accepted_by :: "('w \<Rightarrow> int \<Rightarrow> 'w \<times> string option) \<Rightarrow> 'w \<Rightarrow> int list \<Rightarrow> int list" where
  "accepted_by rec w [] = []"
| "accepted_by rec w (now # nows) =
     (case rec w now of (w', None) \<Rightarrow> now # accepted_by rec w' nows
                      | (w', Some _) \<Rightarrow> accepted_by rec w' nows)"

text \<open>How many of the given times lie in the window of length \<open>width\<close> that ends at \<open>T\<close>.\<close>

definition in_window :: "rat \<Rightarrow> int \<Rightarrow> int list \<Rightarrow> nat" where
  "in_window width T ts = length (filter (\<lambda>t. of_int T - width \<le> of_int t \<and> t \<le> T) ts)"

text \<open>
  A window stores the times of the events it accepted. The laws say what the window holds after an
  event and that an event is accepted exactly when fewer than \<open>limit\<close> events were accepted since
  \<open>now - width\<close>.
\<close>

locale sliding_window =
  fixes stamps :: "'w \<Rightarrow> int list"
    and rec :: "'w \<Rightarrow> int \<Rightarrow> 'w \<times> string option"
    and limit :: rat and width :: rat
  assumes rec_stamps:
    "sorted (stamps w) \<Longrightarrow> stamps (fst (rec w now)) =
       filter (\<lambda>t. of_int now - width \<le> of_int t) (stamps w) @ (if snd (rec w now) = None then [now] else [])"
    and rec_accepts:
    "sorted (stamps w) \<Longrightarrow> snd (rec w now) = None \<longleftrightarrow>
       of_nat (length (filter (\<lambda>t. of_int now - width \<le> of_int t) (stamps w))) < limit"
begin

definition tracks :: "int list \<Rightarrow> int \<Rightarrow> 'w \<Rightarrow> bool" where
  "tracks hist t0 w \<longleftrightarrow> sorted (stamps w) \<and> (\<forall>t \<in> set (stamps w). t \<le> t0) \<and> (\<forall>t \<in> set hist. t \<le> t0) \<and>
     (\<forall>c. of_int t0 - width \<le> c \<longrightarrow>
        filter (\<lambda>t. c \<le> of_int t) hist = filter (\<lambda>t. c \<le> of_int t) (stamps w)) \<and>
     (\<forall>T. of_nat (in_window width T hist) < limit + 1)"

lemma tracks_rec:
  assumes tr: "tracks hist t0 w" and "t0 \<le> now"
  shows "tracks (hist @ (if snd (rec w now) = None then [now] else [])) now (fst (rec w now))"
proof -
  let ?f = "filter (\<lambda>t. of_int now - width \<le> of_int t)"
  from tr have s: "sorted (stamps w)" and le: "\<forall>t \<in> set (stamps w). t \<le> now" "\<forall>t \<in> set hist. t \<le> now"
    and agree: "\<And>c. of_int t0 - width \<le> c \<Longrightarrow>
        filter (\<lambda>t. c \<le> of_int t) hist = filter (\<lambda>t. c \<le> of_int t) (stamps w)"
    and bound: "\<And>T. of_nat (in_window width T hist) < limit + 1"
    using assms(2) by (auto simp: tracks_def)
  have later: "of_int t0 - width \<le> of_int now - width" using assms(2) by simp
  have agree': "filter (\<lambda>t. c \<le> of_int t) hist = filter (\<lambda>t. c \<le> of_int t) (?f (stamps w))"
    if "of_int now - width \<le> c" for c
  proof -
    have "filter (\<lambda>t. c \<le> of_int t) (?f (stamps w)) = filter (\<lambda>t. c \<le> of_int t) (stamps w)"
      unfolding filter_filter by (rule filter_cong) (use that in auto)
    then show ?thesis using agree [of c] that later by auto
  qed
  have win: "of_nat (in_window width T (hist @ [now])) < limit + 1" if acc: "snd (rec w now) = None" for T
  proof (cases "now \<le> T")
    case True
    have "in_window width T hist \<le> length (?f hist)"
    proof -
      have "filter (\<lambda>t. of_int T - width \<le> of_int t \<and> t \<le> T) hist =
          filter (\<lambda>t. of_int T - width \<le> of_int t \<and> t \<le> T) (?f hist)"
        unfolding filter_filter by (rule filter_cong) (use True in auto)
      then show ?thesis unfolding in_window_def by (metis length_filter_le)
    qed
    then have "in_window width T (hist @ [now]) \<le> length (?f hist) + 1"
      by (simp add: in_window_def)
    also have "length (?f hist) = length (?f (stamps w))" using agree [OF later] by simp
    finally show ?thesis using rec_accepts [OF s, of now] acc by simp
  next
    case False
    then have "in_window width T (hist @ [now]) = in_window width T hist" by (simp add: in_window_def)
    then show ?thesis using bound by simp
  qed
  show ?thesis
    unfolding tracks_def rec_stamps [OF s]
    using s le agree' bound win by (auto simp: sorted_append sorted_wrt_filter)
qed

lemma tracks_accepted:
  "tracks hist t0 w \<Longrightarrow> sorted (t0 # nows) \<Longrightarrow>
     of_nat (in_window width T (hist @ accepted_by rec w nows)) < limit + 1"
proof (induction nows arbitrary: hist t0 w)
  case Nil
  then show ?case by (simp add: tracks_def)
next
  case (Cons now nows)
  have "tracks (hist @ (if snd (rec w now) = None then [now] else [])) now (fst (rec w now))"
    using Cons.prems by (intro tracks_rec) auto
  from Cons.IH [OF this] Cons.prems show ?case
    by (auto split: prod.splits option.splits if_splits)
qed

text \<open>From an empty window, with a clock that never goes back, no window of length \<open>width\<close> ever
  holds more accepted events than the limit.\<close>

lemma accepted_rate:
  assumes "stamps w = []" and "sorted nows" and "0 < limit"
  shows "of_nat (in_window width T (accepted_by rec w nows)) < limit + 1"
proof (cases nows)
  case Nil
  then show ?thesis using assms by (simp add: in_window_def)
next
  case (Cons t0 ts)
  have "tracks [] t0 w" using assms by (simp add: tracks_def in_window_def)
  with Cons show ?thesis using tracks_accepted [of "[]" t0 w nows T] assms by auto
qed

end

interpretation mw: sliding_window messageTimestamps "\<lambda>l now. recordInboundMessage l now r"
  "num_val (maxMessages r)" "num_val (windowMs r)" for r
  by unfold_locales (auto simp: recordInboundMessage_def Let_def prune_sorted)

interpretation cw: sliding_window commandTimestamps "\<lambda>l now. recordInboundCommand l now r"
  "num_val (maxCommandMessages r)" "num_val (windowMs r)" for r
  by unfold_locales (auto simp: recordInboundCommand_def Let_def prune_sorted)

lemma in_window_ceiling: "of_nat (in_window w T ts) < q + 1 \<Longrightarrow> int (in_window w T ts) \<le> \<lceil>q\<rceil>"
  for q :: rat
  by linarith

lemma normalize_message_limit:
  "\<exists>q > 0. maxMessages (normalizeGatewayRateLimit cfg) = Fin q"
  unfolding normalizeGatewayRateLimit_def Let_def
  by (auto simp: defaultGatewayRateLimit_def dest: finite_pos_Fin)

lemma normalize_command_limit:
  "maxCommandMessages (normalizeGatewayRateLimit cfg) =
     (let c = maxCommandMessages (case cfg of None \<Rightarrow> defaultGatewayRateLimit | Some r \<Rightarrow> r);
          mm = maxMessages (normalizeGatewayRateLimit cfg)
      in if is_finite_num c \<and> num_pos c \<and> num_le c mm then c else num_min (Fin 40) mm)"
  by (simp add: normalizeGatewayRateLimit_def Let_def defaultGatewayRateLimit_def)

lemma normalize_ok: "rate_limit_ok (normalizeGatewayRateLimit cfg)"
proof -
  let ?c = "case cfg of None \<Rightarrow> defaultGatewayRateLimit | Some r \<Rightarrow> r"
  let ?r = "normalizeGatewayRateLimit cfg"
  obtain mm where mm: "maxMessages ?r = Fin mm" "0 < mm" using normalize_message_limit by blast
  have "\<exists>mc > 0. maxCommandMessages ?r = Fin mc \<and> mc \<le> mm"
  proof (cases "is_finite_num (maxCommandMessages ?c) \<and> num_pos (maxCommandMessages ?c) \<and>
      num_le (maxCommandMessages ?c) (maxMessages ?r)")
    case True
    then obtain q where "q > 0" "maxCommandMessages ?c = Fin q" using finite_pos_Fin by blast
    with True mm show ?thesis by (auto simp: normalize_command_limit Let_def)
  next
    case False
    then have "maxCommandMessages ?r = num_min (Fin 40) (maxMessages ?r)"
      by (subst normalize_command_limit) (auto simp: Let_def)
    then show ?thesis using mm by (cases "40 \<le> mm") auto
  qed
  moreover have "\<exists>mp > 0. maxPayloadBytes ?r = Fin mp"
    unfolding normalizeGatewayRateLimit_def Let_def
    by (auto simp: defaultGatewayRateLimit_def dest: finite_pos_Fin)
  moreover have "\<exists>w > 0. windowMs ?r = Fin w"
    unfolding normalizeGatewayRateLimit_def Let_def
    by (auto simp: defaultGatewayRateLimit_def dest: finite_pos_Fin)
  ultimately show ?thesis using mm unfolding rate_limit_ok_def by (cases ?r) auto
qed

text \<open>
  C29. Rate limiting is enforced. Whatever limits the gateway is configured with (missing, zero,
  negative or not finite values included), after \<open>normalizeGatewayRateLimit\<close> both limits are
  positive, the command limit is at most the message limit, and for messages arriving at times
  that never go back, every window of \<open>windowMs\<close> milliseconds holds at most \<open>maxMessages\<close>
  accepted messages and at most \<open>maxCommandMessages\<close> accepted commands (rounded up when the
  configured limit is not an integer).
\<close>

theorem rate_limit_enforced:
  assumes "sorted nows" and "r = normalizeGatewayRateLimit cfg"
  shows "rate_limit_ok r \<and>
    int (in_window (num_val (windowMs r)) T
      (accepted_by (\<lambda>l now. recordInboundMessage l now r) new_limiter nows)) \<le> \<lceil>num_val (maxMessages r)\<rceil> \<and>
    int (in_window (num_val (windowMs r)) T
      (accepted_by (\<lambda>l now. recordInboundCommand l now r) new_limiter nows)) \<le> \<lceil>num_val (maxCommandMessages r)\<rceil>"
proof -
  have ok: "rate_limit_ok r" using assms(2) normalize_ok by simp
  then have pos: "0 < num_val (maxMessages r)" "0 < num_val (maxCommandMessages r)"
    by (auto simp: rate_limit_ok_def)
  show ?thesis
    using ok pos mw.accepted_rate [of new_limiter nows r T] cw.accepted_rate [of new_limiter nows r T] assms(1)
    by (auto simp: new_limiter_def intro: in_window_ceiling)
qed

theorem rate_limit_enforced_witness:
  "int (in_window 1000 1500
      (accepted_by (\<lambda>l now. recordInboundCommand l now
          \<lparr>maxCommandMessages = Fin 2, maxMessages = Fin 10, maxPayloadBytes = Fin 1024, windowMs = Fin 1000\<rparr>)
        new_limiter [100, 200, 300, 1200, 1500])) \<le> 2"
proof -
  let ?r = "\<lparr>maxCommandMessages = Fin 2, maxMessages = Fin 10, maxPayloadBytes = Fin 1024, windowMs = Fin 1000\<rparr>"
  have "?r = normalizeGatewayRateLimit (Some ?r)"
    by (simp add: normalizeGatewayRateLimit_def num_pos_def)
  then show ?thesis using rate_limit_enforced [of "[100, 200, 300, 1200, 1500]" ?r "Some ?r" 1500] by simp
qed

end
