(* ===== verification/Gateway_Token.thy ===== *)
theory Gateway_Token
  imports Js_Value "HOL-Library.List_Lexorder" "HOL-Library.Char_ord"
begin

text \<open>
  The short-lived access token the backend issues for the live gateway
  (\<open>packages/core/trakrai-backend/src/lib/gateway-access-token.ts\<close>): the selector of a transport
  action, the normalised token payload, signing and verification. The JSON web token library is
  not part of the repository: its token type, \<open>sign_jwt\<close> and \<open>jwt_verify\<close> are arguments, and the one fact the code
  relies on is stated where it is used (a token that was signed is verified and gives its claims
  back).
\<close>

record token_payload =
  tp_allowedSelectors :: "string list"
  tp_allowedServiceNames :: "string list"
  tp_deviceId :: string
  tp_userId :: string

datatype token_error = SecretRequired | TokenRejected | PayloadInvalid

definition readRequiredSecret :: "string option \<Rightarrow> token_error + string" where
  "readRequiredSecret secret =
     (case blank_to_none secret of None \<Rightarrow> Inl SecretRequired | Some s \<Rightarrow> Inr s)"

definition normalizeStringList :: "string list \<Rightarrow> string list" where
  "normalizeStringList values = sort (jset_of (filter (\<lambda>v. v \<noteq> []) (map trim values)))"

definition createTransportActionSelector :: "string \<Rightarrow> string \<Rightarrow> string \<Rightarrow> string option" where
  "createTransportActionSelector serviceName subtopic type =
     (let s = trim serviceName; u = trim subtopic; t = trim type in
      if s = [] \<or> u = [] \<or> t = [] \<or> CHR '':'' \<in> set s \<or> CHR '':'' \<in> set u \<or> CHR '':'' \<in> set t
      then None
      else Some (s @ '':'' @ u @ '':'' @ t))"

text \<open>What is handed to the signer: the private claims, then the registered ones.\<close>

record jwt_request =
  jr_claims :: jobject
  jr_audience :: string
  jr_issuer :: string
  jr_subject :: string
  jr_ttlSeconds :: int

definition signDeviceGatewayAccessToken ::
  "(string \<Rightarrow> jwt_request \<Rightarrow> 'token) \<Rightarrow> string option \<Rightarrow> token_payload \<Rightarrow> int option \<Rightarrow> token_error + 'token" where
  "signDeviceGatewayAccessToken sign_jwt secret payload expiresInSeconds =
     (let ttl = (case expiresInSeconds of None \<Rightarrow> 60 * 10 | Some n \<Rightarrow> if n > 0 then n else 60 * 10) in
      case readRequiredSecret secret of
        Inl e \<Rightarrow> Inl e
      | Inr key \<Rightarrow> Inr (sign_jwt key
          \<lparr>jr_claims =
             [(''allowedSelectors'', JArr (map JStr (normalizeStringList (tp_allowedSelectors payload)))),
              (''allowedServiceNames'', JArr (map JStr (normalizeStringList (tp_allowedServiceNames payload)))),
              (''deviceId'', JStr (trim (tp_deviceId payload))),
              (''userId'', JStr (trim (tp_userId payload)))],
           jr_audience = ''trakrai-live-gateway'', jr_issuer = ''trakrai-backend'',
           jr_subject = trim (tp_userId payload), jr_ttlSeconds = ttl\<rparr>))"

definition claim_string :: "jv \<Rightarrow> string" where
  "claim_string v = (case as_string v of None \<Rightarrow> [] | Some s \<Rightarrow> trim s)"

definition claim_strings :: "jv \<Rightarrow> string list" where
  "claim_strings v = (case v of JArr xs \<Rightarrow> List.map_filter as_string xs | _ \<Rightarrow> [])"

definition verifyDeviceGatewayAccessToken ::
  "(string \<Rightarrow> string \<Rightarrow> string \<Rightarrow> 'token \<Rightarrow> jobject option) \<Rightarrow> string option \<Rightarrow> 'token \<Rightarrow> token_error + token_payload" where
  "verifyDeviceGatewayAccessToken jwt_verify secret token =
     (case readRequiredSecret secret of
        Inl e \<Rightarrow> Inl e
      | Inr key \<Rightarrow>
          (case jwt_verify key ''trakrai-live-gateway'' ''trakrai-backend'' token of
             None \<Rightarrow> Inl TokenRejected
           | Some claims \<Rightarrow>
               let userId = claim_string (obj_get claims ''userId'');
                   deviceId = claim_string (obj_get claims ''deviceId'');
                   serviceNames = claim_strings (obj_get claims ''allowedServiceNames'');
                   selectors = claim_strings (obj_get claims ''allowedSelectors'')
               in if userId = [] \<or> deviceId = [] then Inl PayloadInvalid
                  else Inr \<lparr>tp_allowedSelectors = normalizeStringList selectors,
                            tp_allowedServiceNames = normalizeStringList serviceNames,
                            tp_deviceId = deviceId, tp_userId = userId\<rparr>))"

section \<open>Normalised lists and payloads\<close>

lemma set_normalizeStringList: "set (normalizeStringList xs) = {trim x | x. x \<in> set xs \<and> trim x \<noteq> []}"
  by (auto simp: normalizeStringList_def)

lemma normalizeStringList_idem [simp]: "normalizeStringList (normalizeStringList xs) = normalizeStringList xs"
proof -
  have "\<forall>x \<in> set (normalizeStringList xs). trim x = x \<and> x \<noteq> []"
    by (auto simp: set_normalizeStringList)
  then have "filter (\<lambda>v. v \<noteq> []) (map trim (normalizeStringList xs)) = normalizeStringList xs"
    by (simp add: map_idI)
  then have "normalizeStringList (normalizeStringList xs) = sort (jset_of (normalizeStringList xs))"
    by (subst (1) normalizeStringList_def) simp
  also have "jset_of (normalizeStringList xs) = normalizeStringList xs"
    by (rule jset_of_distinct) (simp add: normalizeStringList_def)
  also have "sort (normalizeStringList xs) = normalizeStringList xs"
    by (rule sort_key_id_if_sorted) (simp add: normalizeStringList_def)
  finally show ?thesis .
qed

lemma map_filter_as_string [simp]: "List.map_filter as_string (map JStr xs) = xs"
  by (induction xs) (auto simp: List.map_filter_def)

text \<open>
  The selector determines the service, the subtopic and the type: two different actions never
  share a scoped selector.
\<close>

lemma selector_injective:
  assumes "createTransportActionSelector s u t = Some x" and "createTransportActionSelector s' u' t' = Some x"
  shows "trim s = trim s' \<and> trim u = trim u' \<and> trim t = trim t'"
proof -
  have "x = join '':'' [trim s, trim u, trim t]" "x = join '':'' [trim s', trim u', trim t']"
    and free: "\<forall>y \<in> set [trim s, trim u, trim t]. CHR '':'' \<notin> set y"
      "\<forall>y \<in> set [trim s', trim u', trim t']. CHR '':'' \<notin> set y"
    using assms by (auto simp: createTransportActionSelector_def Let_def split: if_splits)
  then have "[trim s, trim u, trim t] = [trim s', trim u', trim t']"
    using js_split_join [of _ "CHR '':''"] by (metis list.distinct(1))
  then show ?thesis by simp
qed

lemma token_roundtrip:
  assumes jwt: "\<And>key req. \<exists>registered. jwt_verify key (jr_audience req) (jr_issuer req) (sign_jwt key req) =
      Some (jr_claims req @ registered)"
    and secret: "blank_to_none secret \<noteq> None"
    and ids: "trim (tp_userId p) \<noteq> []" "trim (tp_deviceId p) \<noteq> []"
  shows "\<exists>tok. signDeviceGatewayAccessToken sign_jwt secret p ttl = Inr tok \<and>
    verifyDeviceGatewayAccessToken jwt_verify secret tok =
      Inr \<lparr>tp_allowedSelectors = normalizeStringList (tp_allowedSelectors p),
           tp_allowedServiceNames = normalizeStringList (tp_allowedServiceNames p),
           tp_deviceId = trim (tp_deviceId p), tp_userId = trim (tp_userId p)\<rparr>"
proof -
  from secret obtain key where key: "readRequiredSecret secret = Inr key"
    by (auto simp: readRequiredSecret_def)
  from key obtain req where req: "signDeviceGatewayAccessToken sign_jwt secret p ttl = Inr (sign_jwt key req)"
    "jr_audience req = ''trakrai-live-gateway''" "jr_issuer req = ''trakrai-backend''"
    "jr_claims req =
       [(''allowedSelectors'', JArr (map JStr (normalizeStringList (tp_allowedSelectors p)))),
        (''allowedServiceNames'', JArr (map JStr (normalizeStringList (tp_allowedServiceNames p)))),
        (''deviceId'', JStr (trim (tp_deviceId p))), (''userId'', JStr (trim (tp_userId p)))]"
    by (auto simp: signDeviceGatewayAccessToken_def Let_def)
  from jwt [of key req] obtain reg where
    "jwt_verify key ''trakrai-live-gateway'' ''trakrai-backend'' (sign_jwt key req) = Some (jr_claims req @ reg)"
    using req(2,3) by auto
  then show ?thesis
    using key req ids
    by (auto simp: verifyDeviceGatewayAccessToken_def claim_string_def claim_strings_def Let_def)
qed

text \<open>
  C30. A gateway token carries what it was issued with: when the token library gives back the
  claims of a token it signed with the same secret, audience and issuer, verifying a signed token
  yields the payload with trimmed ids and normalised (trimmed, duplicate-free, sorted) lists, for
  every payload whose user and device ids are not blank and every secret that is not blank.
\<close>

theorem gateway_token_roundtrip:
  assumes jwt: "\<And>key req. \<exists>registered. jwt_verify key (jr_audience req) (jr_issuer req) (sign_jwt key req) =
      Some (jr_claims req @ registered)"
    and secret: "blank_to_none secret \<noteq> None"
    and ids: "trim (tp_userId p) \<noteq> []" "trim (tp_deviceId p) \<noteq> []"
  shows "\<exists>tok. signDeviceGatewayAccessToken sign_jwt secret p ttl = Inr tok \<and>
    verifyDeviceGatewayAccessToken jwt_verify secret tok =
      Inr \<lparr>tp_allowedSelectors = normalizeStringList (tp_allowedSelectors p),
           tp_allowedServiceNames = normalizeStringList (tp_allowedServiceNames p),
           tp_deviceId = trim (tp_deviceId p), tp_userId = trim (tp_userId p)\<rparr>"
  by (rule token_roundtrip [of jwt_verify sign_jwt secret p ttl, OF jwt secret ids])

text \<open>A signer for the witness: the token is the key and the request, and a verifier that checks the
  key, the audience and the issuer.\<close>

definition demo_sign :: "string \<Rightarrow> jwt_request \<Rightarrow> string \<times> jwt_request" where
  "demo_sign key req = (key, req)"

definition demo_verify :: "string \<Rightarrow> string \<Rightarrow> string \<Rightarrow> string \<times> jwt_request \<Rightarrow> jobject option" where
  "demo_verify key audience issuer token =
     (if fst token = key \<and> jr_audience (snd token) = audience \<and> jr_issuer (snd token) = issuer
      then Some (jr_claims (snd token) @ [(''aud'', JStr audience), (''iss'', JStr issuer)]) else None)"

theorem gateway_token_roundtrip_witness:
  "let p = \<lparr>tp_allowedSelectors = [''b'', ''a '', ''b''], tp_allowedServiceNames = [''svc''],
            tp_deviceId = '' d '', tp_userId = ''u''\<rparr>
   in \<exists>tok. signDeviceGatewayAccessToken demo_sign (Some ''s'') p None = Inr tok \<and>
     verifyDeviceGatewayAccessToken demo_verify (Some ''s'') tok =
       Inr \<lparr>tp_allowedSelectors = normalizeStringList (tp_allowedSelectors p), tp_allowedServiceNames = normalizeStringList [''svc''],
            tp_deviceId = ''d'', tp_userId = ''u''\<rparr>"
proof -
  have "\<exists>registered. demo_verify key (jr_audience req) (jr_issuer req) (demo_sign key req) =
      Some (jr_claims req @ registered)" for key req
    by (simp add: demo_verify_def demo_sign_def)
  from gateway_token_roundtrip [of demo_verify demo_sign "Some ''s''"
      "\<lparr>tp_allowedSelectors = [''b'', ''a '', ''b''], tp_allowedServiceNames = [''svc''],
            tp_deviceId = '' d '', tp_userId = ''u''\<rparr>" None, OF this]
  show ?thesis by (simp add: trim_def js_space_def)
qed

end
