(* ===== verification/Ws_Handler.thy ===== *)
theory Ws_Handler
  imports Mqtt_Client Rate_Limit Gateway_Token
begin

text \<open>
  The gateway's WebSocket server (\<open>apps/live-gateway/src/ws-handler.ts\<close>): one definition per
  function of the module, in its order. A WebSocket is a number. The module's maps are the fields
  of the record \<open>gateway\<close>; the ready states of the sockets, the sockets whose \<open>message\<close>, \<open>close\<close>
  and \<open>error\<close> handlers are attached, the connections that await their subscription and the MQTT
  client's state stand beside them. A handler returns the new state and the list of what it does to
  the outside world, in order.

  Arguments stand for what is not in the repository: \<open>json_parse\<close> (the text of a frame or message
  to a value, \<open>None\<close> when it raises), \<open>query\<close> (a parameter of the request url), the token
  verification function and \<open>fresh\<close>, which gives the random id and the ISO time of the i-th
  envelope a handler builds. Messages are kept as the values that are stringified.
\<close>

section \<open>Types and module state\<close>

type_synonym ws = nat

record client_context =
  allowedSelectors :: "string list"
  allowedServiceNames :: "string list"
  cc_deviceId :: string
  cc_userId :: string

record packet =
  pk_deviceId :: string
  pk_envelope :: jobject
  pk_service :: "string option"
  pk_subtopic :: string

datatype ready_state = CONNECTING | OPEN | CLOSING | CLOSED

datatype effect =
    SendPacket ws packet
  | SendSessionInfo ws string
  | CloseSocket ws int string
  | Mqtt "jobject mqtt_request"
  | Warn string
  | Uncaught topic_error

record gateway =
  clients :: "(ws, client_context) jmap"
  requestOwners :: "(string, ws) jmap"
  sessionOwners :: "(string, ws) jmap"
  clientRequests :: "(ws, string list) jmap"
  clientSessions :: "(ws, string list) jmap"
  lastKnownStatuses :: "(string, packet) jmap"
  inboundRateLimits :: "(ws, limiter) jmap"
  ready :: "ws \<Rightarrow> ready_state"
  listening :: "ws list"
  awaiting :: "(ws, client_context) jmap"
  mqtt :: mqtt_state

type_synonym nonce = "string \<times> string"

section \<open>Requests, messages and envelopes\<close>

definition getRequestedDeviceIdFromRequest ::
  "(string \<Rightarrow> string \<Rightarrow> string option) \<Rightarrow> string option \<Rightarrow> string option" where
  "getRequestedDeviceIdFromRequest query requestUrl =
     (case requestUrl of None \<Rightarrow> None | Some u \<Rightarrow> blank_to_none (query u ''deviceId''))"

definition sendPacket :: "gateway \<Rightarrow> ws \<Rightarrow> packet \<Rightarrow> effect list" where
  "sendPacket g w p = (if ready g w = OPEN then [SendPacket w p] else [])"

definition sendSessionInfo :: "gateway \<Rightarrow> ws \<Rightarrow> string \<Rightarrow> effect list" where
  "sendSessionInfo g w d = (if ready g w = OPEN then [SendSessionInfo w d] else [])"

definition parsePayload :: "(string \<Rightarrow> jv option) \<Rightarrow> string \<Rightarrow> jv" where
  "parsePayload json_parse payload =
     (case json_parse payload of Some v \<Rightarrow> v | None \<Rightarrow> JStr payload)"

definition normalizeOptionalString :: "jv \<Rightarrow> string option" where
  "normalizeOptionalString value =
     (case value of JStr s \<Rightarrow> if trim s \<noteq> [] then Some (trim s) else None | _ \<Rightarrow> None)"

datatype auth_header = NoHeader | OneHeader string | ManyHeaders "string list"

definition readGatewayAccessTokenFromRequest ::
  "(string \<Rightarrow> string \<Rightarrow> string option) \<Rightarrow> string option \<Rightarrow> auth_header \<Rightarrow> string option" where
  "readGatewayAccessTokenFromRequest query requestUrl header =
     (let normalized = (case header of NoHeader \<Rightarrow> None | OneHeader h \<Rightarrow> Some h
                          | ManyHeaders [] \<Rightarrow> None | ManyHeaders (h # _) \<Rightarrow> Some h);
          bearer = (case normalized of None \<Rightarrow> []
             | Some h \<Rightarrow> if starts_with ''Bearer '' h then trim (drop 7 h) else [])
      in if bearer \<noteq> [] then Some bearer
         else case requestUrl of None \<Rightarrow> None
           | Some u \<Rightarrow> blank_to_none (query u ''gatewayAccessToken''))"

definition sanitizeStatusPayload :: "jv \<Rightarrow> string list \<Rightarrow> jv" where
  "sanitizeStatusPayload payload allowed =
     (case payload of
        JObj ps \<Rightarrow>
          (case obj_get ps ''services'' of
             JObj services \<Rightarrow>
               JObj (jset ''services'' (JObj (filter (\<lambda>(serviceName, _). serviceName \<in> set allowed) services)) ps)
           | _ \<Rightarrow> payload)
      | _ \<Rightarrow> payload)"

definition unwrapEnvelopePayload :: "jv \<Rightarrow> jv" where
  "unwrapEnvelopePayload value =
     (case value of
        JObj ps \<Rightarrow> if obj_in ''payload'' ps \<and> obj_get ps ''payload'' \<noteq> JUndef
                   then obj_get ps ''payload'' else value
      | _ \<Rightarrow> value)"

definition buildEnvelope :: "nonce \<Rightarrow> string \<Rightarrow> jv \<Rightarrow> jv \<Rightarrow> jv \<Rightarrow> jobject" where
  "buildEnvelope n type payload msgId timestamp =
     [(''msgId'', JStr (case normalizeOptionalString msgId of Some s \<Rightarrow> s | None \<Rightarrow> fst n)),
      (''payload'', payload),
      (''timestamp'', JStr (case normalizeOptionalString timestamp of Some s \<Rightarrow> s | None \<Rightarrow> snd n)),
      (''type'', JStr type)]"

definition requestDeviceStatus :: "nonce \<Rightarrow> mqtt_state \<Rightarrow> string \<Rightarrow> effect list" where
  "requestDeviceStatus n m deviceId =
     (case publishMqtt m deviceId ''command'' (buildEnvelope n ''get-status'' (JObj []) JUndef JUndef) None of
        Inl e \<Rightarrow> [Uncaught e] | Inr rs \<Rightarrow> map Mqtt rs)"

definition getInboundRateLimiter :: "ws \<Rightarrow> gateway \<Rightarrow> gateway \<times> limiter" where
  "getInboundRateLimiter w g =
     (case jget (inboundRateLimits g) w of
        Some l \<Rightarrow> (g, l)
      | None \<Rightarrow> (g\<lparr>inboundRateLimits := jset w new_limiter (inboundRateLimits g)\<rparr>, new_limiter))"

record routing_ids =
  requestId :: "string option"
  sessionId :: "string option"

definition readRoutingIds :: "jv \<Rightarrow> routing_ids" where
  "readRoutingIds value =
     (case unwrapEnvelopePayload value of
        JObj ps \<Rightarrow> \<lparr>requestId = normalizeOptionalString (obj_get ps ''requestId''),
                    sessionId = normalizeOptionalString (obj_get ps ''sessionId'')\<rparr>
      | _ \<Rightarrow> \<lparr>requestId = None, sessionId = None\<rparr>)"

definition readEnvelopeField :: "jv \<Rightarrow> string \<Rightarrow> string option" where
  "readEnvelopeField value field =
     (case unwrapEnvelopePayload value of
        JObj ps \<Rightarrow> normalizeOptionalString (obj_get ps field) | _ \<Rightarrow> None)"

definition isTransportEnvelope :: "jv \<Rightarrow> bool" where
  "isTransportEnvelope value =
     (case value of
        JObj ps \<Rightarrow> (case obj_get ps ''type'' of JStr t \<Rightarrow> trim t \<noteq> [] | _ \<Rightarrow> False)
      | _ \<Rightarrow> False)"

definition isPacketFrame :: "jv \<Rightarrow> bool" where
  "isPacketFrame value =
     (case value of
        JObj ps \<Rightarrow> strict_eq (obj_get ps ''kind'') (JStr ''packet'') \<and>
          (case obj_get ps ''subtopic'' of JStr s \<Rightarrow> trim s \<noteq> [] | _ \<Rightarrow> False) \<and>
          isTransportEnvelope (obj_get ps ''envelope'')
      | _ \<Rightarrow> False)"

definition isSetDeviceFrame :: "jv \<Rightarrow> bool" where
  "isSetDeviceFrame value =
     (case value of JObj ps \<Rightarrow> strict_eq (obj_get ps ''kind'') (JStr ''set-device'') | _ \<Rightarrow> False)"

definition createPacket :: "string \<Rightarrow> string option \<Rightarrow> string \<Rightarrow> jobject \<Rightarrow> packet" where
  "createPacket deviceId service subtopic envelope =
     \<lparr>pk_deviceId = deviceId, pk_envelope = envelope, pk_service = service, pk_subtopic = subtopic\<rparr>"

text \<open>\<open>envelope.type\<close> of an envelope that passed \<open>isTransportEnvelope\<close>.\<close>

definition env_type :: "jobject \<Rightarrow> string" where
  "env_type env = (case obj_get env ''type'' of JStr t \<Rightarrow> t | _ \<Rightarrow> [])"

definition normalizeIncomingEnvelope :: "nonce \<Rightarrow> jobject \<Rightarrow> jobject" where
  "normalizeIncomingEnvelope n envelope =
     buildEnvelope n (trim (env_type envelope))
       (case obj_get envelope ''payload'' of JUndef \<Rightarrow> JObj [] | JNull \<Rightarrow> JObj [] | p \<Rightarrow> p)
       (obj_get envelope ''msgId'') (obj_get envelope ''timestamp'')"

section \<open>Owners of requests and sessions\<close>

definition registerRequestOwner :: "ws \<Rightarrow> string \<Rightarrow> gateway \<Rightarrow> gateway" where
  "registerRequestOwner w r g =
     g\<lparr>requestOwners := jset r w (requestOwners g),
       clientRequests := jset w (jadd r (case jget (clientRequests g) w of None \<Rightarrow> [] | Some s \<Rightarrow> s))
         (clientRequests g)\<rparr>"

definition bindSessionOwner :: "ws \<Rightarrow> string \<Rightarrow> gateway \<Rightarrow> gateway" where
  "bindSessionOwner w s g =
     g\<lparr>sessionOwners := jset s w (sessionOwners g),
       clientSessions := jset w (jadd s (case jget (clientSessions g) w of None \<Rightarrow> [] | Some x \<Rightarrow> x))
         (clientSessions g)\<rparr>"

definition clearClientRoutes :: "ws \<Rightarrow> gateway \<Rightarrow> gateway" where
  "clearClientRoutes w g =
     (let g1 = (case jget (clientRequests g) w of None \<Rightarrow> g
                | Some rs \<Rightarrow> g\<lparr>requestOwners := fold jdelete rs (requestOwners g),
                              clientRequests := jdelete w (clientRequests g)\<rparr>)
      in case jget (clientSessions g1) w of None \<Rightarrow> g1
         | Some ss \<Rightarrow> g1\<lparr>sessionOwners := fold jdelete ss (sessionOwners g1),
                         clientSessions := jdelete w (clientSessions g1)\<rparr>)"

definition cleanupClient :: "ws \<Rightarrow> gateway \<Rightarrow> gateway \<times> effect list" where
  "cleanupClient w g =
     (let (m, rs) = (case jget (clients g) w of None \<Rightarrow> (mqtt g, [])
                     | Some c \<Rightarrow> unsubscribeFromDevice (cc_deviceId c) (mqtt g));
          g1 = clearClientRoutes w (g\<lparr>mqtt := m\<rparr>)
      in (g1\<lparr>clients := jdelete w (clients g1), inboundRateLimits := jdelete w (inboundRateLimits g1)\<rparr>,
          map Mqtt rs))"

definition resetWebSocketStateForTests :: "gateway \<Rightarrow> gateway" where
  "resetWebSocketStateForTests g =
     g\<lparr>clients := [], requestOwners := [], sessionOwners := [], clientRequests := [],
       clientSessions := [], lastKnownStatuses := [], inboundRateLimits := []\<rparr>"

section \<open>Filtering and routing\<close>

definition is_status_packet :: "packet \<Rightarrow> bool" where
  "is_status_packet p \<longleftrightarrow> pk_service p = None \<and>
     (pk_subtopic p = ''status'' \<or> (pk_subtopic p = ''response'' \<and> obj_get (pk_envelope p) ''type'' = JStr ''status''))"

definition filterPacketForClient :: "packet \<Rightarrow> client_context \<Rightarrow> packet option" where
  "filterPacketForClient p c =
     (if (case pk_service p of None \<Rightarrow> False | Some s \<Rightarrow> s \<notin> set (allowedServiceNames c)) then None
      else if \<not> is_status_packet p then Some p
      else Some (p\<lparr>pk_envelope :=
        jset ''payload'' (sanitizeStatusPayload (obj_get (pk_envelope p) ''payload'') (allowedServiceNames c))
          (pk_envelope p)\<rparr>))"

definition packetTargets :: "packet \<Rightarrow> gateway \<Rightarrow> gateway \<times> ws list option" where
  "packetTargets p g =
     (let ids = readRoutingIds (JObj (pk_envelope p));
          by_session = (case sessionId ids of None \<Rightarrow> None | Some s \<Rightarrow> map_option (\<lambda>w. [w]) (jget (sessionOwners g) s))
      in case Option.bind (requestId ids) (jget (requestOwners g)) of
           Some owner \<Rightarrow>
             ((case sessionId ids of None \<Rightarrow> g | Some s \<Rightarrow> bindSessionOwner owner s g), Some [owner])
         | None \<Rightarrow> (g, by_session))"

definition clientOwnsSession :: "gateway \<Rightarrow> ws \<Rightarrow> string option \<Rightarrow> bool" where
  "clientOwnsSession g w sid =
     (case sid of None \<Rightarrow> True
      | Some s \<Rightarrow> (case jget (sessionOwners g) s of None \<Rightarrow> True | Some owner \<Rightarrow> owner = w))"

definition gateway_error_packet ::
  "nonce \<Rightarrow> string \<Rightarrow> string \<Rightarrow> string option \<Rightarrow> string option \<Rightarrow> string option \<Rightarrow> packet" where
  "gateway_error_packet n deviceId message requestType service subtopic =
     createPacket deviceId service (case subtopic of None \<Rightarrow> ''response'' | Some s \<Rightarrow> s)
       (buildEnvelope n ''service-unavailable''
         (JObj [(''error'', JStr message),
                (''requestType'', case requestType of None \<Rightarrow> JUndef | Some t \<Rightarrow> JStr t),
                (''service'', case service of None \<Rightarrow> JNull | Some s \<Rightarrow> JStr s),
                (''subtopic'', case subtopic of None \<Rightarrow> JNull | Some s \<Rightarrow> JStr s)]) JUndef JUndef)"

definition sendGatewayError ::
  "nonce \<Rightarrow> gateway \<Rightarrow> ws \<Rightarrow> string \<Rightarrow> string \<Rightarrow> string option \<Rightarrow> string option \<Rightarrow> string option \<Rightarrow> effect list" where
  "sendGatewayError n g w deviceId message requestType service subtopic =
     sendPacket g w (gateway_error_packet n deviceId message requestType service subtopic)"

definition inboundMessageCountsAsCommand :: "jv \<Rightarrow> bool" where
  "inboundMessageCountsAsCommand message \<longleftrightarrow> isSetDeviceFrame message \<or>
     (isPacketFrame message \<and>
      (case message of JObj ps \<Rightarrow>
         (case obj_get ps ''subtopic'' of JStr s \<Rightarrow> trim s = ''command'' | _ \<Rightarrow> False) | _ \<Rightarrow> False))"

text \<open>\<open>ws.close(code, reason)\<close> starts the closing handshake.\<close>

definition close_socket :: "ws \<Rightarrow> string \<Rightarrow> gateway \<Rightarrow> gateway \<times> effect list" where
  "close_socket w reason g =
     ((if ready g w = OPEN \<or> ready g w = CONNECTING then g\<lparr>ready := (ready g)(w := CLOSING)\<rparr> else g),
      [CloseSocket w 1008 reason])"

definition closeForRateLimit :: "ws \<Rightarrow> string \<Rightarrow> gateway \<Rightarrow> gateway \<times> effect list" where
  "closeForRateLimit w reason g =
     (let (g1, es) = cleanupClient w g;
          warn = Warn (''closing websocket for rate limit violation: '' @ reason)
      in if ready g1 w = OPEN \<or> ready g1 w = CONNECTING
         then (let (g2, cs) = close_socket w reason g1 in (g2, warn # es @ cs))
         else (g1, warn # es))"

definition canClientPublishPacket :: "packet \<Rightarrow> client_context \<Rightarrow> bool" where
  "canClientPublishPacket p c =
     (case pk_service p of
        None \<Rightarrow> pk_subtopic p = ''command'' \<and>
          (env_type (pk_envelope p) = ''get-status'' \<or> env_type (pk_envelope p) \<in> set (allowedSelectors c))
      | Some s \<Rightarrow> s \<in> set (allowedServiceNames c) \<and>
          ((case createTransportActionSelector s (pk_subtopic p) (env_type (pk_envelope p)) of
              None \<Rightarrow> False | Some sel \<Rightarrow> sel \<in> set (allowedSelectors c)) \<or>
           env_type (pk_envelope p) \<in> set (allowedSelectors c)))"

text \<open>The cached status of the device, filtered for the client, and a fresh status request.\<close>

definition send_device_state :: "nonce \<Rightarrow> gateway \<Rightarrow> ws \<Rightarrow> client_context \<Rightarrow> string \<Rightarrow> effect list" where
  "send_device_state n g w c deviceId =
     sendSessionInfo g w deviceId @
     (case jget (lastKnownStatuses g) deviceId of None \<Rightarrow> []
      | Some cached \<Rightarrow> (case filterPacketForClient cached c of None \<Rightarrow> [] | Some p \<Rightarrow> sendPacket g w p)) @
     requestDeviceStatus n (mqtt g) deviceId"

definition device_switch_error :: string where
  "device_switch_error = ''Device switching is not allowed for this session.''"

definition syncClientDevice :: "nonce \<Rightarrow> string \<Rightarrow> ws \<Rightarrow> string \<Rightarrow> gateway \<Rightarrow> string + effect list" where
  "syncClientDevice n defaultDeviceId w deviceId g =
     (let next = (if trim deviceId \<noteq> [] then trim deviceId else defaultDeviceId) in
      case jget (clients g) w of
        None \<Rightarrow> Inr []
      | Some c \<Rightarrow> if cc_deviceId c \<noteq> next then Inl device_switch_error
                  else Inr (send_device_state n g w c next))"

section \<open>The handlers of \<open>setupWebSocket\<close>\<close>

definition mqtt_message_handler :: "(string \<Rightarrow> jv option) \<Rightarrow> string \<Rightarrow> string \<Rightarrow> gateway \<Rightarrow> gateway \<times> effect list" where
  "mqtt_message_handler json_parse topic payload g =
     (case parseDeviceTopic topic of
        None \<Rightarrow> (g, [])
      | Some t \<Rightarrow>
          (case parsePayload json_parse payload of
             JObj env \<Rightarrow>
               if \<not> isTransportEnvelope (JObj env) then (g, [])
               else if pt_subtopic t = ''webrtc/ice'' \<and> readEnvelopeField (JObj env) ''origin'' = Some ''browser''
               then (g, [])
               else
                 let p = createPacket (pt_deviceId t) (pt_service t) (pt_subtopic t) env;
                     g1 = (if is_status_packet p
                           then g\<lparr>lastKnownStatuses := jset (pt_deviceId t) p (lastKnownStatuses g)\<rparr> else g);
                     (g2, targets) = packetTargets p g1
                 in (g2, concat (map (\<lambda>(w, c).
                       if cc_deviceId c \<noteq> pt_deviceId t then []
                       else if (case targets of None \<Rightarrow> False | Some ts \<Rightarrow> w \<notin> set ts) then []
                       else case filterPacketForClient p c of None \<Rightarrow> [] | Some q \<Rightarrow> sendPacket g2 w q)
                     (clients g2)))
           | _ \<Rightarrow> (g, [])))"

text \<open>The part of the connection handler after the subscription settled; it ends by attaching the
  handlers of the socket.\<close>

definition mqtt_error_message :: "mqtt_error \<Rightarrow> string" where
  "mqtt_error_message e = (case e of NotConnected \<Rightarrow> ''mqtt client not connected'' | BrokerError m \<Rightarrow> m)"

definition connection_ready :: "nonce \<Rightarrow> ws \<Rightarrow> client_context \<Rightarrow> mqtt_error option \<Rightarrow> gateway \<Rightarrow> gateway \<times> effect list" where
  "connection_ready n w c err g =
     (g\<lparr>listening := jadd w (listening g)\<rparr>,
      (case err of
         None \<Rightarrow> send_device_state n g w c (cc_deviceId c)
       | Some e \<Rightarrow> sendGatewayError n g w (cc_deviceId c) (mqtt_error_message e) (Some ''set-device'') None None))"

definition context_of_token :: "token_payload \<Rightarrow> client_context" where
  "context_of_token t =
     \<lparr>allowedSelectors = jset_of (tp_allowedSelectors t),
      allowedServiceNames = jset_of (tp_allowedServiceNames t),
      cc_deviceId = tp_deviceId t, cc_userId = tp_userId t\<rparr>"

definition connection_handler ::
  "nonce \<Rightarrow> (string \<Rightarrow> string \<Rightarrow> string option) \<Rightarrow> (string \<Rightarrow> token_error + token_payload) \<Rightarrow>
   string option \<Rightarrow> auth_header \<Rightarrow> ws \<Rightarrow> gateway \<Rightarrow> gateway \<times> effect list" where
  "connection_handler n query verify url header w g =
     (case readGatewayAccessTokenFromRequest query url header of
        None \<Rightarrow> close_socket w ''missing gateway access token'' g
      | Some token \<Rightarrow>
          (case verify token of
             Inl _ \<Rightarrow> close_socket w ''invalid gateway access token'' g
           | Inr payload \<Rightarrow>
               if (case getRequestedDeviceIdFromRequest query url of
                     None \<Rightarrow> False | Some d \<Rightarrow> d \<noteq> tp_deviceId payload)
               then close_socket w ''device mismatch'' g
               else
                 let c = context_of_token payload;
                     (m, rs, result) = subscribeToDevice (cc_deviceId c) (mqtt g);
                     g1 = g\<lparr>clients := jset w c (clients g), mqtt := m\<rparr>
                 in case result of
                      SubPending \<Rightarrow> (g1\<lparr>awaiting := jset w c (awaiting g1)\<rparr>, map Mqtt rs)
                    | SubResolved \<Rightarrow> (let (g2, es) = connection_ready n w c None g1 in (g2, map Mqtt rs @ es))
                    | SubRejected e \<Rightarrow>
                        (let (g2, es) = connection_ready n w c (Some e) g1 in (g2, map Mqtt rs @ es))))"

text \<open>The broker answers a pending subscription and the connection handler goes on.\<close>

definition subscribed_handler :: "nonce \<Rightarrow> ws \<Rightarrow> string option \<Rightarrow> gateway \<Rightarrow> gateway \<times> effect list" where
  "subscribed_handler n w err g =
     (case jget (awaiting g) w of
        None \<Rightarrow> (g, [])
      | Some c \<Rightarrow>
          let (m, result) = subscribe_callback (cc_deviceId c) err (mqtt g)
          in connection_ready n w c (case result of SubRejected e \<Rightarrow> Some e | _ \<Rightarrow> None)
               (g\<lparr>mqtt := m, awaiting := jdelete w (awaiting g)\<rparr>))"

text \<open>The publishing half of the message handler, for a packet frame of a known client.\<close>

definition packet_frame_handler ::
  "(nat \<Rightarrow> nonce) \<Rightarrow> ws \<Rightarrow> client_context \<Rightarrow> jobject \<Rightarrow> gateway \<Rightarrow> gateway \<times> effect list" where
  "packet_frame_handler fresh w c frame g =
     (let env = (case obj_get frame ''envelope'' of JObj e \<Rightarrow> e | _ \<Rightarrow> []);
          subtopic = (case obj_get frame ''subtopic'' of JStr s \<Rightarrow> s | _ \<Rightarrow> []) in
      if \<not> clientOwnsSession g w (sessionId (readRoutingIds (JObj env))) then (g, [])
      else
        let p = createPacket (cc_deviceId c) (normalizeOptionalString (obj_get frame ''service'')) (trim subtopic)
                  (normalizeIncomingEnvelope (fresh 0) env)
        in if \<not> canClientPublishPacket p c
           then (g, sendGatewayError (fresh 1) g w (cc_deviceId c)
                      ''You do not have permission to publish this device app action.''
                      (Some (env_type (pk_envelope p))) (pk_service p) (Some (pk_subtopic p)))
           else
             let g1 = (case requestId (readRoutingIds (JObj (pk_envelope p))) of
                         None \<Rightarrow> g | Some r \<Rightarrow> registerRequestOwner w r g)
             in (g1, case publishMqtt (mqtt g1) (cc_deviceId c) (pk_subtopic p) (pk_envelope p) (pk_service p) of
                       Inl e \<Rightarrow> [Uncaught e] | Inr rs \<Rightarrow> map Mqtt rs))"

text \<open>The message handler from the command limiter on, for a parsed message of a known client.\<close>

definition client_message_handler ::
  "(nat \<Rightarrow> nonce) \<Rightarrow> string \<Rightarrow> rate_limit \<Rightarrow> int \<Rightarrow> ws \<Rightarrow> client_context \<Rightarrow> limiter \<Rightarrow> jv \<Rightarrow> gateway \<Rightarrow> gateway \<times> effect list" where
  "client_message_handler fresh defaultDeviceId rl now w c l message g =
     (let (l2, violation) = (if inboundMessageCountsAsCommand message
                             then recordInboundCommand l now rl else (l, None));
          h = g\<lparr>inboundRateLimits := jset w l2 (inboundRateLimits g)\<rparr> in
      case violation of
        Some reason \<Rightarrow> closeForRateLimit w reason h
      | None \<Rightarrow>
      (case message of
         JObj frame \<Rightarrow>
           if isSetDeviceFrame message then
             let next = (case normalizeOptionalString (obj_get frame ''deviceId'') of
                           Some d \<Rightarrow> d | None \<Rightarrow> defaultDeviceId)
             in if next \<noteq> cc_deviceId c
                then (h, sendGatewayError (fresh 0) h w (cc_deviceId c) device_switch_error
                           (Some ''set-device'') None None)
                else (h, case syncClientDevice (fresh 0) defaultDeviceId w next h of
                           Inr es \<Rightarrow> es
                         | Inl msg \<Rightarrow> sendGatewayError (fresh 1) h w (cc_deviceId c) msg (Some ''set-device'') None None)
           else if \<not> isPacketFrame message
           then (h, sendGatewayError (fresh 0) h w (cc_deviceId c) ''invalid transport packet frame'' None None None)
           else packet_frame_handler fresh w c frame h
       | _ \<Rightarrow> (h, sendGatewayError (fresh 0) h w (cc_deviceId c) ''invalid transport packet frame'' None None None)))"

definition message_handler ::
  "(nat \<Rightarrow> nonce) \<Rightarrow> (string \<Rightarrow> jv option) \<Rightarrow> string \<Rightarrow> rate_limit \<Rightarrow> int \<Rightarrow> ws \<Rightarrow> string \<Rightarrow> gateway \<Rightarrow> gateway \<times> effect list" where
  "message_handler fresh json_parse defaultDeviceId rl now w data g0 =
     (let (g1, l) = getInboundRateLimiter w g0;
          (l1, violation) = recordInboundMessage l now rl;
          g = g1\<lparr>inboundRateLimits := jset w l1 (inboundRateLimits g1)\<rparr> in
      case violation of
        Some reason \<Rightarrow> closeForRateLimit w reason g
      | None \<Rightarrow>
      (case json_parse data of
        None \<Rightarrow> (g, [])
      | Some message \<Rightarrow>
      (case jget (clients g) w of
        None \<Rightarrow> (g, [])
      | Some c \<Rightarrow> client_message_handler fresh defaultDeviceId rl now w c l1 message g)))"

end
