(* ===== verification/Gateway_Routes.thy ===== *)
theory Gateway_Routes
  imports Ws_Handler
begin

text \<open>
  The owner tables of the gateway: which socket a request or a session belongs to, and the inverse
  index by which a leaving client's entries are removed. The contract is stated once as a locale
  and interpreted on the request tables and on the session tables of the gateway's state.
\<close>

section \<open>The contract of an owner table\<close>

locale owner_index =
  fixes owner_of :: "'s \<Rightarrow> 'i \<Rightarrow> 'w option"
    and ids_of :: "'s \<Rightarrow> 'w \<Rightarrow> 'i set"
    and bind_owner :: "'w \<Rightarrow> 'i \<Rightarrow> 's \<Rightarrow> 's"
    and clear_owner :: "'w \<Rightarrow> 's \<Rightarrow> 's"
  assumes owner_bind: "owner_of (bind_owner w i s) j = (if j = i then Some w else owner_of s j)"
    and ids_bind: "ids_of (bind_owner w i s) v = (if v = w then insert i (ids_of s w) else ids_of s v)"
    and owner_clear: "owner_of (clear_owner w s) i = (if i \<in> ids_of s w then None else owner_of s i)"
    and ids_clear: "ids_of (clear_owner w s) v = (if v = w then {} else ids_of s v)"
begin

definition indexed :: "'s \<Rightarrow> bool" where
  "indexed s \<longleftrightarrow> (\<forall>i w. owner_of s i = Some w \<longrightarrow> i \<in> ids_of s w)"

definition owners_in :: "'w set \<Rightarrow> 's \<Rightarrow> bool" where
  "owners_in W s \<longleftrightarrow> indexed s \<and> (\<forall>w. ids_of s w \<noteq> {} \<longrightarrow> w \<in> W)"

lemma owners_inD: "owners_in W s \<Longrightarrow> owner_of s i = Some w \<Longrightarrow> w \<in> W"
  by (auto simp: owners_in_def indexed_def)

lemma owners_in_mono: "owners_in W s \<Longrightarrow> W \<subseteq> V \<Longrightarrow> owners_in V s"
  by (auto simp: owners_in_def)

lemma owners_in_bind: "owners_in W s \<Longrightarrow> w \<in> W \<Longrightarrow> owners_in W (bind_owner w i s)"
  by (auto simp: owners_in_def indexed_def owner_bind ids_bind split: if_splits)

lemma owners_in_clear: "owners_in W s \<Longrightarrow> owners_in (W - {w}) (clear_owner w s)"
  by (auto simp: owners_in_def indexed_def owner_clear ids_clear split: if_splits)

text \<open>Two states with the same tables are indistinguishable.\<close>

lemma owners_in_cong:
  "owner_of s = owner_of t \<Longrightarrow> ids_of s = ids_of t \<Longrightarrow> owners_in W s = owners_in W t"
  by (simp add: owners_in_def indexed_def)

end

section \<open>The two tables of the gateway\<close>

definition request_owner :: "gateway \<Rightarrow> string \<Rightarrow> ws option" where
  "request_owner g = jget (requestOwners g)"

definition session_owner :: "gateway \<Rightarrow> string \<Rightarrow> ws option" where
  "session_owner g = jget (sessionOwners g)"

definition request_ids :: "gateway \<Rightarrow> ws \<Rightarrow> string set" where
  "request_ids g w = (case jget (clientRequests g) w of None \<Rightarrow> {} | Some rs \<Rightarrow> set rs)"

definition session_ids :: "gateway \<Rightarrow> ws \<Rightarrow> string set" where
  "session_ids g w = (case jget (clientSessions g) w of None \<Rightarrow> {} | Some ss \<Rightarrow> set ss)"

lemmas route_defs = request_owner_def session_owner_def request_ids_def session_ids_def

lemma request_bind [gateway_simps]:
  "request_owner (registerRequestOwner w r g) j = (if j = r then Some w else request_owner g j)"
  "request_ids (registerRequestOwner w r g) v = (if v = w then insert r (request_ids g w) else request_ids g v)"
  "session_owner (registerRequestOwner w r g) = session_owner g"
  "session_ids (registerRequestOwner w r g) = session_ids g"
  by (auto simp: route_defs registerRequestOwner_def split: option.splits)

lemma session_bind [gateway_simps]:
  "session_owner (bindSessionOwner w i g) j = (if j = i then Some w else session_owner g j)"
  "session_ids (bindSessionOwner w i g) v = (if v = w then insert i (session_ids g w) else session_ids g v)"
  "request_owner (bindSessionOwner w i g) = request_owner g"
  "request_ids (bindSessionOwner w i g) = request_ids g"
  by (auto simp: route_defs bindSessionOwner_def split: option.splits)

lemma request_clear [gateway_simps]:
  "request_owner (clearClientRoutes w g) i = (if i \<in> request_ids g w then None else request_owner g i)"
  "request_ids (clearClientRoutes w g) v = (if v = w then {} else request_ids g v)"
  by (auto simp: route_defs clearClientRoutes_def Let_def jm.fold_remove split: option.splits)

lemma session_clear [gateway_simps]:
  "session_owner (clearClientRoutes w g) i = (if i \<in> session_ids g w then None else session_owner g i)"
  "session_ids (clearClientRoutes w g) v = (if v = w then {} else session_ids g v)"
  by (auto simp: route_defs clearClientRoutes_def Let_def jm.fold_remove split: option.splits)

interpretation req: owner_index request_owner request_ids registerRequestOwner clearClientRoutes
  by unfold_locales (simp_all add: gateway_simps)

interpretation ses: owner_index session_owner session_ids bindSessionOwner clearClientRoutes
  by unfold_locales (simp_all add: gateway_simps)

text \<open>The fields the route operations leave alone.\<close>

lemma route_frames [simp]:
  "clients (registerRequestOwner w r g) = clients g" "clients (bindSessionOwner w s g) = clients g"
  "clients (clearClientRoutes w g) = clients g"
  "mqtt (registerRequestOwner w r g) = mqtt g" "mqtt (bindSessionOwner w s g) = mqtt g"
  "mqtt (clearClientRoutes w g) = mqtt g"
  "lastKnownStatuses (registerRequestOwner w r g) = lastKnownStatuses g"
  "lastKnownStatuses (bindSessionOwner w s g) = lastKnownStatuses g"
  "lastKnownStatuses (clearClientRoutes w g) = lastKnownStatuses g"
  "awaiting (registerRequestOwner w r g) = awaiting g" "awaiting (bindSessionOwner w s g) = awaiting g"
  "awaiting (clearClientRoutes w g) = awaiting g"
  "listening (registerRequestOwner w r g) = listening g" "listening (bindSessionOwner w s g) = listening g"
  "listening (clearClientRoutes w g) = listening g"
  "ready (registerRequestOwner w r g) = ready g" "ready (bindSessionOwner w s g) = ready g"
  "ready (clearClientRoutes w g) = ready g"
  by (simp_all add: registerRequestOwner_def bindSessionOwner_def clearClientRoutes_def Let_def split: option.splits)

text \<open>Updates of the other fields do not touch the tables.\<close>

lemma route_other [simp]:
  "request_owner (g\<lparr>clients := x\<rparr>) = request_owner g" "request_ids (g\<lparr>clients := x\<rparr>) = request_ids g"
  "session_owner (g\<lparr>clients := x\<rparr>) = session_owner g" "session_ids (g\<lparr>clients := x\<rparr>) = session_ids g"
  "request_owner (g\<lparr>mqtt := m\<rparr>) = request_owner g" "request_ids (g\<lparr>mqtt := m\<rparr>) = request_ids g"
  "session_owner (g\<lparr>mqtt := m\<rparr>) = session_owner g" "session_ids (g\<lparr>mqtt := m\<rparr>) = session_ids g"
  "request_owner (g\<lparr>inboundRateLimits := l\<rparr>) = request_owner g"
  "request_ids (g\<lparr>inboundRateLimits := l\<rparr>) = request_ids g"
  "session_owner (g\<lparr>inboundRateLimits := l\<rparr>) = session_owner g"
  "session_ids (g\<lparr>inboundRateLimits := l\<rparr>) = session_ids g"
  "request_owner (g\<lparr>lastKnownStatuses := s\<rparr>) = request_owner g"
  "request_ids (g\<lparr>lastKnownStatuses := s\<rparr>) = request_ids g"
  "session_owner (g\<lparr>lastKnownStatuses := s\<rparr>) = session_owner g"
  "session_ids (g\<lparr>lastKnownStatuses := s\<rparr>) = session_ids g"
  "request_owner (g\<lparr>ready := r\<rparr>) = request_owner g" "request_ids (g\<lparr>ready := r\<rparr>) = request_ids g"
  "session_owner (g\<lparr>ready := r\<rparr>) = session_owner g" "session_ids (g\<lparr>ready := r\<rparr>) = session_ids g"
  "request_owner (g\<lparr>listening := ls\<rparr>) = request_owner g" "request_ids (g\<lparr>listening := ls\<rparr>) = request_ids g"
  "session_owner (g\<lparr>listening := ls\<rparr>) = session_owner g" "session_ids (g\<lparr>listening := ls\<rparr>) = session_ids g"
  "request_owner (g\<lparr>awaiting := a\<rparr>) = request_owner g" "request_ids (g\<lparr>awaiting := a\<rparr>) = request_ids g"
  "session_owner (g\<lparr>awaiting := a\<rparr>) = session_owner g" "session_ids (g\<lparr>awaiting := a\<rparr>) = session_ids g"
  by (rule ext, simp add: route_defs)+

text \<open>Both tables only name the sockets of a set.\<close>

definition routes_in :: "ws set \<Rightarrow> gateway \<Rightarrow> bool" where
  "routes_in W g \<longleftrightarrow> req.owners_in W g \<and> ses.owners_in W g"

lemma routes_in_cong:
  assumes "request_owner g = request_owner h" "request_ids g = request_ids h"
    "session_owner g = session_owner h" "session_ids g = session_ids h"
  shows "routes_in W g = routes_in W h"
  using req.owners_in_cong [of g h W] ses.owners_in_cong [of g h W] assms by (simp add: routes_in_def)

lemma routes_in_other [simp]:
  "routes_in W (g\<lparr>clients := x\<rparr>) = routes_in W g" "routes_in W (g\<lparr>mqtt := m\<rparr>) = routes_in W g"
  "routes_in W (g\<lparr>inboundRateLimits := l\<rparr>) = routes_in W g"
  "routes_in W (g\<lparr>lastKnownStatuses := s\<rparr>) = routes_in W g" "routes_in W (g\<lparr>ready := r\<rparr>) = routes_in W g"
  "routes_in W (g\<lparr>listening := ls\<rparr>) = routes_in W g" "routes_in W (g\<lparr>awaiting := a\<rparr>) = routes_in W g"
  by (rule routes_in_cong; simp)+

lemma routes_in_register: "routes_in W g \<Longrightarrow> w \<in> W \<Longrightarrow> routes_in W (registerRequestOwner w r g)"
  using ses.owners_in_cong [of "registerRequestOwner w r g" g W]
  by (simp add: routes_in_def req.owners_in_bind gateway_simps)

lemma routes_in_bind: "routes_in W g \<Longrightarrow> w \<in> W \<Longrightarrow> routes_in W (bindSessionOwner w s g)"
  using req.owners_in_cong [of "bindSessionOwner w s g" g W]
  by (simp add: routes_in_def ses.owners_in_bind gateway_simps)

lemma routes_in_clear: "routes_in W g \<Longrightarrow> routes_in (W - {w}) (clearClientRoutes w g)"
  by (simp add: routes_in_def req.owners_in_clear ses.owners_in_clear)

lemma routes_in_mono: "routes_in W g \<Longrightarrow> W \<subseteq> V \<Longrightarrow> routes_in V g"
  by (auto simp: routes_in_def intro: req.owners_in_mono ses.owners_in_mono)

end
