(* ===== verification/Gateway_System.thy ===== *)
theory Gateway_System
  imports Gateway_Routes
begin

text \<open>
  The live gateway as a transition system over the handlers of \<open>Ws_Handler\<close>: sockets connect,
  the broker answers subscriptions, frames and MQTT messages arrive, sockets close, in any order.
  JavaScript runs a handler to its end or to the next \<open>await\<close>, so one event is one step; the
  connection handler is two steps when the broker has to answer the subscription.
\<close>

section \<open>Events and steps\<close>

record gw_env =
  ge_query :: "string \<Rightarrow> string \<Rightarrow> string option"
  ge_verify :: "string \<Rightarrow> token_error + token_payload"
  ge_json_parse :: "string \<Rightarrow> jv option"
  ge_defaultDeviceId :: string
  ge_rateLimit :: rate_limit

datatype gw_event =
    EConnect nonce "string option" auth_header ws
  | ESubscribed nonce ws "string option"
  | EMessage "nat \<Rightarrow> nonce" int ws string
  | EClose ws
  | EMqttMessage string string
  | EReadyState ws ready_state
  | EMqttConnected

fun gw_handle :: "gw_env \<Rightarrow> gw_event \<Rightarrow> gateway \<Rightarrow> gateway \<times> effect list" where
  "gw_handle e (EConnect n url header w) g = connection_handler n (ge_query e) (ge_verify e) url header w g"
| "gw_handle e (ESubscribed n w err) g = subscribed_handler n w err g"
| "gw_handle e (EMessage fresh now w data) g =
     message_handler fresh (ge_json_parse e) (ge_defaultDeviceId e) (ge_rateLimit e) now w data g"
| "gw_handle e (EClose w) g = cleanupClient w g"
| "gw_handle e (EMqttMessage topic payload) g = mqtt_message_handler (ge_json_parse e) topic payload g"
| "gw_handle e (EReadyState w r) g = (g\<lparr>ready := (ready g)(w := r)\<rparr>, [])"
| "gw_handle e EMqttConnected g = (g\<lparr>mqtt := (mqtt g)\<lparr>mq_client := True\<rparr>\<rparr>, [])"

text \<open>When an event can occur: a new connection is a new socket, and frames, closes and errors of a
  socket are seen only once its handlers are attached.\<close>

fun gw_enabled :: "gw_event \<Rightarrow> gateway \<Rightarrow> bool" where
  "gw_enabled (EConnect _ _ _ w) g \<longleftrightarrow>
     w \<notin> set (listening g) \<and> \<not> jhas (awaiting g) w \<and> \<not> jhas (clients g) w"
| "gw_enabled (ESubscribed _ w _) g \<longleftrightarrow> jhas (awaiting g) w"
| "gw_enabled (EMessage _ _ w _) g \<longleftrightarrow> w \<in> set (listening g)"
| "gw_enabled (EClose w) g \<longleftrightarrow> w \<in> set (listening g)"
| "gw_enabled (EMqttMessage _ _) g \<longleftrightarrow> True"
| "gw_enabled (EReadyState _ _) g \<longleftrightarrow> True"
| "gw_enabled EMqttConnected g \<longleftrightarrow> True"

inductive gw_step :: "gw_env \<Rightarrow> gateway \<Rightarrow> gw_event \<Rightarrow> effect list \<Rightarrow> gateway \<Rightarrow> bool" for e where
  gw_event: "gw_enabled ev g \<Longrightarrow> gw_handle e ev g = (g', es) \<Longrightarrow> gw_step e g ev es g'"

inductive_cases gw_stepE: "gw_step e g ev es g'"
inductive_simps gw_step_iff: "gw_step e g ev es g'"

definition gw_init :: "gateway \<Rightarrow> bool" where
  "gw_init g \<longleftrightarrow> clients g = [] \<and> requestOwners g = [] \<and> sessionOwners g = [] \<and> clientRequests g = [] \<and>
     clientSessions g = [] \<and> lastKnownStatuses g = [] \<and> inboundRateLimits g = [] \<and> listening g = [] \<and>
     awaiting g = [] \<and> subscriptionRefs (mqtt g) = []"

definition gw_next :: "gw_env \<Rightarrow> gateway \<Rightarrow> gateway \<Rightarrow> bool" where
  "gw_next e g g' \<longleftrightarrow> (\<exists>ev es. gw_step e g ev es g')"

abbreviation gw_reachable :: "gw_env \<Rightarrow> gateway \<Rightarrow> bool" where
  "gw_reachable e \<equiv> reachable_from gw_init (gw_next e)"

section \<open>What the handlers do, case by case\<close>

lemma cleanup_fields [simp]:
  "clients (fst (cleanupClient w g)) = jdelete w (clients g)"
  "lastKnownStatuses (fst (cleanupClient w g)) = lastKnownStatuses g"
  "awaiting (fst (cleanupClient w g)) = awaiting g"
  "listening (fst (cleanupClient w g)) = listening g"
  "ready (fst (cleanupClient w g)) = ready g"
  by (auto simp: cleanupClient_def Let_def split: prod.splits option.splits)

lemma cleanup_mqtt:
  "mqtt (fst (cleanupClient w g)) = (case jget (clients g) w of None \<Rightarrow> mqtt g
     | Some c \<Rightarrow> fst (unsubscribeFromDevice (cc_deviceId c) (mqtt g) :: mqtt_state \<times> jobject mqtt_request list))"
  by (auto simp: cleanupClient_def Let_def split: prod.splits option.splits)

lemma cleanup_routes: "routes_in W g \<Longrightarrow> routes_in (W - {w}) (fst (cleanupClient w g))"
proof -
  assume "routes_in W g"
  then have "routes_in (W - {w}) (clearClientRoutes w (g\<lparr>mqtt := m\<rparr>))" for m
    by (intro routes_in_clear) simp
  then show ?thesis by (simp add: cleanupClient_def Let_def split: prod.splits)
qed

lemma close_socket_fields [simp]:
  "clients (fst (close_socket w r g)) = clients g" "mqtt (fst (close_socket w r g)) = mqtt g"
  "lastKnownStatuses (fst (close_socket w r g)) = lastKnownStatuses g"
  "awaiting (fst (close_socket w r g)) = awaiting g" "listening (fst (close_socket w r g)) = listening g"
  "request_owner (fst (close_socket w r g)) = request_owner g" "request_ids (fst (close_socket w r g)) = request_ids g"
  "session_owner (fst (close_socket w r g)) = session_owner g" "session_ids (fst (close_socket w r g)) = session_ids g"
  by (simp_all add: close_socket_def)

lemma rate_close_fields:
  "clients (fst (closeForRateLimit w r g)) = jdelete w (clients g)"
  "lastKnownStatuses (fst (closeForRateLimit w r g)) = lastKnownStatuses g"
  "awaiting (fst (closeForRateLimit w r g)) = awaiting g"
  "listening (fst (closeForRateLimit w r g)) = listening g"
  "mqtt (fst (closeForRateLimit w r g)) = mqtt (fst (cleanupClient w g))"
  "routes_in W (fst (closeForRateLimit w r g)) = routes_in W (fst (cleanupClient w g))"
proof -
  obtain g1 es where c: "cleanupClient w g = (g1, es)" by fastforce
  have "fst (closeForRateLimit w r g) = g1 \<or> fst (closeForRateLimit w r g) = fst (close_socket w r g1)"
    using c by (simp add: closeForRateLimit_def Let_def split: prod.splits)
  then show
    "clients (fst (closeForRateLimit w r g)) = jdelete w (clients g)"
    "lastKnownStatuses (fst (closeForRateLimit w r g)) = lastKnownStatuses g"
    "awaiting (fst (closeForRateLimit w r g)) = awaiting g"
    "listening (fst (closeForRateLimit w r g)) = listening g"
    "mqtt (fst (closeForRateLimit w r g)) = mqtt (fst (cleanupClient w g))"
    "routes_in W (fst (closeForRateLimit w r g)) = routes_in W (fst (cleanupClient w g))"
    using cleanup_fields [of w g] routes_in_cong [of "fst (close_socket w r g1)" g1 W] c by auto
qed

text \<open>A message of a client ends in one of five ways; before them only its rate limiter changes.\<close>

lemma client_message_cases:
  assumes client: "jget (clients g) w = Some c"
  obtains (limited) lims reason where
    "client_message_handler fresh dflt rl now w c l message g = closeForRateLimit w reason (g\<lparr>inboundRateLimits := lims\<rparr>)"
  | (refused) lims n msg rt where
    "client_message_handler fresh dflt rl now w c l message g =
       (g\<lparr>inboundRateLimits := lims\<rparr>,
        sendGatewayError n (g\<lparr>inboundRateLimits := lims\<rparr>) w (cc_deviceId c) msg rt None None)"
  | (synced) lims n where
    "client_message_handler fresh dflt rl now w c l message g =
       (g\<lparr>inboundRateLimits := lims\<rparr>, send_device_state n (g\<lparr>inboundRateLimits := lims\<rparr>) w c (cc_deviceId c))"
  | (packet) lims frame where "message = JObj frame" "isPacketFrame (JObj frame)"
    "client_message_handler fresh dflt rl now w c l message g =
       packet_frame_handler fresh w c frame (g\<lparr>inboundRateLimits := lims\<rparr>)"
proof -
  obtain l2 v2 where lv2: "(if inboundMessageCountsAsCommand message
      then recordInboundCommand l now rl else (l, None)) = (l2, v2)" by fastforce
  define lims where "lims = jset w l2 (inboundRateLimits g)"
  define h where "h = g\<lparr>inboundRateLimits := lims\<rparr>"
  have step: "client_message_handler fresh dflt rl now w c l message g =
      (case v2 of Some reason \<Rightarrow> closeForRateLimit w reason h
       | None \<Rightarrow> client_message_handler fresh dflt rl now w c l message g)"
    using lv2 by (simp add: client_message_handler_def h_def lims_def split: option.splits)
  show thesis
  proof (cases v2)
    case (Some reason)
    then show thesis using step limited [of reason lims] by (simp add: h_def)
  next
    case None
    note run = client_message_handler_def [of fresh dflt rl now w c l message g, unfolded lv2 None,
        simplified, folded lims_def, folded h_def]
    have cl: "jget (clients h) w = Some c" using client by (simp add: h_def)
    consider "isSetDeviceFrame message" | "\<not> isSetDeviceFrame message" "isPacketFrame message"
      | "\<not> isSetDeviceFrame message" "\<not> isPacketFrame message" by blast
    then show thesis
    proof cases
      case 1
      then obtain frame where fr: "message = JObj frame" by (auto simp: isSetDeviceFrame_def split: jv.splits)
      then show thesis
        using 1 run cl refused [of lims, folded h_def] synced [of lims, folded h_def]
        by (auto simp: syncClientDevice_def Let_def split: if_splits)
    next
      case 2
      then obtain frame where fr: "message = JObj frame" by (auto simp: isPacketFrame_def split: jv.splits)
      then show thesis using 2 run packet [of frame lims, folded h_def] by simp
    next
      case 3
      then show thesis using run refused [of lims, folded h_def] by (auto split: jv.splits)
    qed
  qed
qed

lemma message_handler_cases:
  obtains (limited) lims reason where
    "message_handler fresh jp dflt rl now w data g = closeForRateLimit w reason (g\<lparr>inboundRateLimits := lims\<rparr>)"
  | (ignored) lims where
    "message_handler fresh jp dflt rl now w data g = (g\<lparr>inboundRateLimits := lims\<rparr>, [])"
  | (refused) lims c n msg rt where "jget (clients g) w = Some c"
    "message_handler fresh jp dflt rl now w data g =
       (g\<lparr>inboundRateLimits := lims\<rparr>,
        sendGatewayError n (g\<lparr>inboundRateLimits := lims\<rparr>) w (cc_deviceId c) msg rt None None)"
  | (synced) lims c n where "jget (clients g) w = Some c"
    "message_handler fresh jp dflt rl now w data g =
       (g\<lparr>inboundRateLimits := lims\<rparr>, send_device_state n (g\<lparr>inboundRateLimits := lims\<rparr>) w c (cc_deviceId c))"
  | (packet) lims c frame where "jget (clients g) w = Some c" "jp data = Some (JObj frame)"
    "isPacketFrame (JObj frame)"
    "message_handler fresh jp dflt rl now w data g =
       packet_frame_handler fresh w c frame (g\<lparr>inboundRateLimits := lims\<rparr>)"
proof -
  obtain g1 l where gl: "getInboundRateLimiter w g = (g1, l)" by fastforce
  then obtain lims0 where g1: "g1 = g\<lparr>inboundRateLimits := lims0\<rparr>"
    by (cases g) (auto simp: getInboundRateLimiter_def split: option.splits)
  obtain l1 v where lv: "recordInboundMessage l now rl = (l1, v)" by fastforce
  define h where "h = g\<lparr>inboundRateLimits := jset w l1 lims0\<rparr>"
  have cls: "clients h = clients g" by (simp add: h_def)
  have hl: "h\<lparr>inboundRateLimits := lims\<rparr> = g\<lparr>inboundRateLimits := lims\<rparr>" for lims by (simp add: h_def)
  note run = message_handler_def [of fresh jp dflt rl now w data g, unfolded gl, simplified, unfolded lv g1,
      simplified, folded h_def]
  consider reason where "v = Some reason" | "v = None" "jp data = None \<or> jget (clients g) w = None"
    | message c where "v = None" "jp data = Some message" "jget (clients g) w = Some c"
    by (metis option.exhaust)
  then show thesis
  proof cases
    case 1
    then show thesis using run limited [of reason "jset w l1 lims0", folded h_def] by simp
  next
    case 2
    then show thesis using run ignored [of "jset w l1 lims0", folded h_def] cls by (auto split: option.splits)
  next
    case 3
    have cl: "jget (clients h) w = Some c" using 3 by (simp add: h_def)
    have mh: "message_handler fresh jp dflt rl now w data g = client_message_handler fresh dflt rl now w c l1 message h"
      using run 3 cl by simp
    show thesis
      by (rule client_message_cases [OF cl, of fresh dflt rl now l1 message])
        (use mh 3 limited refused synced packet in \<open>auto simp: hl\<close>)
  qed
qed

text \<open>A packet frame is dropped, refused, or published with its request registered first.\<close>

lemma packet_frame_cases:
  assumes "isPacketFrame (JObj frame)"
  obtains (foreign_session) "packet_frame_handler fresh w c frame g = (g, [])"
  | (refused) n msg rt svc sub where
    "packet_frame_handler fresh w c frame g = (g, sendGatewayError n g w (cc_deviceId c) msg rt svc sub)"
  | (published) env subtopic p where
    "obj_get frame ''envelope'' = JObj env" "obj_get frame ''subtopic'' = JStr subtopic"
    "p = createPacket (cc_deviceId c) (normalizeOptionalString (obj_get frame ''service'')) (trim subtopic)
       (normalizeIncomingEnvelope (fresh 0) env)"
    "clientOwnsSession g w (sessionId (readRoutingIds (JObj env)))"
    "canClientPublishPacket p c"
    "packet_frame_handler fresh w c frame g =
       (case requestId (readRoutingIds (JObj (pk_envelope p))) of None \<Rightarrow> g | Some r \<Rightarrow> registerRequestOwner w r g,
        case publishMqtt (mqtt g) (cc_deviceId c) (pk_subtopic p) (pk_envelope p) (pk_service p) of
          Inl e \<Rightarrow> [Uncaught e] | Inr rs \<Rightarrow> map Mqtt rs)"
proof -
  from assms obtain env subtopic where fr:
    "obj_get frame ''envelope'' = JObj env" "obj_get frame ''subtopic'' = JStr subtopic"
    by (auto simp: isPacketFrame_def isTransportEnvelope_def split: jv.splits)
  define p where "p = createPacket (cc_deviceId c) (normalizeOptionalString (obj_get frame ''service''))
      (trim subtopic) (normalizeIncomingEnvelope (fresh 0) env)"
  note run = packet_frame_handler_def [of fresh w c frame g, unfolded fr, simplified, folded p_def]
  have m: "mqtt (case x of None \<Rightarrow> g | Some r \<Rightarrow> registerRequestOwner w r g) = mqtt g" for x
    by (simp split: option.splits)
  show thesis
  proof (cases "clientOwnsSession g w (sessionId (readRoutingIds (JObj env)))")
    case False
    then show thesis using run foreign_session by simp
  next
    case owns: True
    show thesis
    proof (cases "canClientPublishPacket p c")
      case False
      then show thesis using run owns refused by (simp add: Let_def)
    next
      case True
      then show thesis
        using run owns published [OF fr p_def] m by (simp add: Let_def p_def [symmetric])
    qed
  qed
qed

section \<open>The invariant\<close>

text \<open>Every client entered through a verified token.\<close>

definition admitted :: "gw_env \<Rightarrow> client_context \<Rightarrow> bool" where
  "admitted e c \<longleftrightarrow> (\<exists>token t. ge_verify e token = Inr t \<and> c = context_of_token t)"

definition client_set :: "gateway \<Rightarrow> ws set" where
  "client_set g = {w. jget (clients g) w \<noteq> None}"

definition clients_ok :: "gw_env \<Rightarrow> gateway \<Rightarrow> bool" where
  "clients_ok e g \<longleftrightarrow> distinct (jkeys (clients g)) \<and> (\<forall>w c. jget (clients g) w = Some c \<longrightarrow> admitted e c)"

definition awaiting_ok :: "gateway \<Rightarrow> bool" where
  "awaiting_ok g \<longleftrightarrow>
     (\<forall>w c. jget (awaiting g) w = Some c \<longrightarrow> jget (clients g) w = Some c \<and> w \<notin> set (listening g))"

definition statuses_ok :: "gateway \<Rightarrow> bool" where
  "statuses_ok g \<longleftrightarrow>
     (\<forall>d p. jget (lastKnownStatuses g) d = Some p \<longrightarrow> pk_deviceId p = d \<and> is_status_packet p)"

definition gw_inv :: "gw_env \<Rightarrow> gateway \<Rightarrow> bool" where
  "gw_inv e g \<longleftrightarrow> clients_ok e g \<and> routes_in (client_set g) g \<and> awaiting_ok g \<and> statuses_ok g"

lemmas gw_inv_defs = gw_inv_def clients_ok_def awaiting_ok_def statuses_ok_def

lemma gw_inv_frame:
  assumes "gw_inv e g" "clients h = clients g" "awaiting h = awaiting g" "listening h = listening g"
    "lastKnownStatuses h = lastKnownStatuses g" "routes_in (client_set g) h"
  shows "gw_inv e h"
  using assms by (simp add: gw_inv_defs client_set_def)

lemma gw_inv_limits: "gw_inv e g \<Longrightarrow> gw_inv e (g\<lparr>inboundRateLimits := l\<rparr>)"
  by (rule gw_inv_frame [of e g]) (simp_all add: gw_inv_def)

lemma gw_inv_socket: "gw_inv e g \<Longrightarrow> gw_inv e (fst (close_socket w r g))"
  by (rule gw_inv_frame [of e g]) (simp_all add: gw_inv_def close_socket_def)

lemma gw_inv_ready: "gw_inv e g \<Longrightarrow> gw_inv e (g\<lparr>ready := r\<rparr>)"
  by (rule gw_inv_frame [of e g]) (simp_all add: gw_inv_def)

lemma gw_inv_mqtt: "gw_inv e g \<Longrightarrow> gw_inv e (g\<lparr>mqtt := m\<rparr>)"
  by (rule gw_inv_frame [of e g]) (simp_all add: gw_inv_def)

lemma gw_inv_removed:
  assumes inv: "gw_inv e g" and w: "w \<in> set (listening g)"
    and h: "clients h = jdelete w (clients g)" "awaiting h = awaiting g" "listening h = listening g"
      "lastKnownStatuses h = lastKnownStatuses g" "routes_in (client_set g - {w}) h"
  shows "gw_inv e h"
proof -
  have "client_set h = client_set g - {w}" using h(1) by (auto simp: client_set_def)
  moreover have "clients_ok e h"
    using inv unfolding gw_inv_def clients_ok_def h(1) by (auto intro: jm.wf_remove)
  moreover have "awaiting_ok h" using inv w h by (cases "jget (awaiting g) w") (auto simp: gw_inv_def awaiting_ok_def)
  moreover have "statuses_ok h" using inv h by (simp add: gw_inv_def statuses_ok_def)
  ultimately show ?thesis using h(5) by (simp add: gw_inv_def)
qed

lemma gw_inv_cleanup: "gw_inv e g \<Longrightarrow> w \<in> set (listening g) \<Longrightarrow> gw_inv e (fst (cleanupClient w g))"
  by (rule gw_inv_removed [of e g]) (auto simp: gw_inv_def cleanup_routes)

lemma gw_inv_rate_close: "gw_inv e g \<Longrightarrow> w \<in> set (listening g) \<Longrightarrow> gw_inv e (fst (closeForRateLimit w r g))"
  by (rule gw_inv_removed [of e g]) (auto simp: gw_inv_def rate_close_fields cleanup_routes)

lemma client_in_set: "jget (clients g) w = Some c \<Longrightarrow> w \<in> client_set g"
  by (simp add: client_set_def)

lemma gw_inv_register:
  "gw_inv e g \<Longrightarrow> jget (clients g) w = Some c \<Longrightarrow> gw_inv e (registerRequestOwner w r g)"
  by (rule gw_inv_frame [of e g]) (auto simp: gw_inv_def intro: routes_in_register client_in_set)

lemma gw_inv_packet:
  assumes "isPacketFrame (JObj frame)" "gw_inv e g" "jget (clients g) w = Some c"
  shows "gw_inv e (fst (packet_frame_handler fresh w c frame g))"
  using assms(1)
proof (cases rule: packet_frame_cases [of frame fresh w c g])
  case (published env subtopic p)
  then show ?thesis using assms gw_inv_register by (auto split: option.splits)
qed (use assms in auto)

lemma gw_inv_message:
  assumes inv: "gw_inv e g" and w: "w \<in> set (listening g)"
  shows "gw_inv e (fst (message_handler fresh jp dflt rl now w data g))"
proof -
  have lim: "gw_inv e (g\<lparr>inboundRateLimits := l\<rparr>)" for l using inv by (rule gw_inv_limits)
  show ?thesis
  proof (cases rule: message_handler_cases [of fresh jp dflt rl now w data g])
    case (limited lims reason)
    then show ?thesis using gw_inv_rate_close [OF lim, of w lims] w by simp
  next
    case (packet lims c frame)
    then show ?thesis using gw_inv_packet [OF packet(3) lim] by simp
  qed (use lim in auto)
qed

lemma packetTargets_fields:
  "clients (fst (packetTargets p g)) = clients g" "awaiting (fst (packetTargets p g)) = awaiting g"
  "listening (fst (packetTargets p g)) = listening g" "mqtt (fst (packetTargets p g)) = mqtt g"
  "lastKnownStatuses (fst (packetTargets p g)) = lastKnownStatuses g" "ready (fst (packetTargets p g)) = ready g"
  by (auto simp: packetTargets_def Let_def split: option.splits)

lemma gw_inv_targets: "gw_inv e g \<Longrightarrow> gw_inv e (fst (packetTargets p g))"
proof -
  assume inv: "gw_inv e g"
  then have r: "routes_in (client_set g) g" by (simp add: gw_inv_def)
  have owner: "jget (requestOwners g) i = Some w \<Longrightarrow> w \<in> client_set g" for i w
    using r req.owners_inD [of "client_set g" g i w] by (simp add: routes_in_def request_owner_def)
  have "routes_in (client_set g) (fst (packetTargets p g))"
    using r owner by (auto simp: packetTargets_def Let_def bind_eq_Some_conv split: option.splits
        intro!: routes_in_bind)
  then show ?thesis using packetTargets_fields by (intro gw_inv_frame [OF inv]) auto
qed

lemma gw_inv_status:
  "gw_inv e g \<Longrightarrow> pk_deviceId p = d \<Longrightarrow> is_status_packet p \<Longrightarrow>
     gw_inv e (g\<lparr>lastKnownStatuses := jset d p (lastKnownStatuses g)\<rparr>)"
  by (auto simp: gw_inv_defs client_set_def)

text \<open>A broker message that is not dropped is cached when it is a status and sent to its targets.\<close>

lemma broker_message_cases:
  obtains (dropped) "mqtt_message_handler jp topic payload g = (g, [])"
      "\<not> (\<exists>t env. parseDeviceTopic topic = Some t \<and> parsePayload jp payload = JObj env \<and>
         isTransportEnvelope (JObj env) \<and>
         \<not> (pt_subtopic t = ''webrtc/ice'' \<and> readEnvelopeField (JObj env) ''origin'' = Some ''browser''))"
  | (delivered) t env p g1 where "parseDeviceTopic topic = Some t" "parsePayload jp payload = JObj env"
    "p = createPacket (pt_deviceId t) (pt_service t) (pt_subtopic t) env"
    "g1 = (if is_status_packet p then g\<lparr>lastKnownStatuses := jset (pt_deviceId t) p (lastKnownStatuses g)\<rparr> else g)"
    "mqtt_message_handler jp topic payload g =
       (fst (packetTargets p g1), concat (map (\<lambda>(w, c).
          if cc_deviceId c \<noteq> pt_deviceId t then []
          else if (case snd (packetTargets p g1) of None \<Rightarrow> False | Some ts \<Rightarrow> w \<notin> set ts) then []
          else case filterPacketForClient p c of None \<Rightarrow> [] | Some q \<Rightarrow> sendPacket g w q)
        (clients g)))"
proof (cases "parseDeviceTopic topic")
  case None
  then show thesis using dropped by (simp add: mqtt_message_handler_def)
next
  case (Some t)
  show thesis
  proof (cases "parsePayload jp payload")
    case (JObj env)
    define p where "p = createPacket (pt_deviceId t) (pt_service t) (pt_subtopic t) env"
    define g1 where "g1 = (if is_status_packet p
        then g\<lparr>lastKnownStatuses := jset (pt_deviceId t) p (lastKnownStatuses g)\<rparr> else g)"
    have f: "clients (fst (packetTargets p g1)) = clients g" "ready (fst (packetTargets p g1)) = ready g"
      by (simp_all add: packetTargets_fields g1_def)
    have sp: "sendPacket (fst (packetTargets p g1)) = sendPacket g"
      by (intro ext) (simp add: sendPacket_def f)
    have tg: "packetTargets p g1 = (fst (packetTargets p g1), snd (packetTargets p g1))" by simp
    let ?dropped = "\<not> isTransportEnvelope (JObj env) \<or>
      (pt_subtopic t = ''webrtc/ice'' \<and> readEnvelopeField (JObj env) ''origin'' = Some ''browser'')"
    show thesis
    proof (cases ?dropped)
      case True
      then show thesis using dropped by (auto simp: mqtt_message_handler_def Some JObj)
    next
      case False
      then have "mqtt_message_handler jp topic payload g =
        (fst (packetTargets p g1), concat (map (\<lambda>(w, c).
          if cc_deviceId c \<noteq> pt_deviceId t then []
          else if (case snd (packetTargets p g1) of None \<Rightarrow> False | Some ts \<Rightarrow> w \<notin> set ts) then []
          else case filterPacketForClient p c of None \<Rightarrow> [] | Some q \<Rightarrow> sendPacket g w q) (clients g)))"
        unfolding mqtt_message_handler_def Some JObj option.case jv.case Let_def p_def [symmetric]
          g1_def [symmetric]
        by (subst tg, unfold prod.case f sp) auto
      then show thesis by (rule delivered [OF Some JObj p_def g1_def])
    qed
  qed (use Some dropped in \<open>simp_all add: mqtt_message_handler_def\<close>)
qed

lemma gw_inv_broker_message: "gw_inv e g \<Longrightarrow> gw_inv e (fst (mqtt_message_handler jp topic payload g))"
proof (cases rule: broker_message_cases [of jp topic payload g])
  case (delivered t env p g1)
  moreover assume "gw_inv e g"
  ultimately have "gw_inv e g1" by (auto simp: createPacket_def intro: gw_inv_status)
  then show ?thesis using delivered gw_inv_targets by simp
qed simp

text \<open>A connection is refused, or admitted with the context of its token.\<close>

lemma connection_cases:
  obtains (refused) reason where "connection_handler n q v url hdr w g = close_socket w reason g"
  | (waiting) token t c m rs where "v token = Inr t" "c = context_of_token t"
    "subscribeToDevice (cc_deviceId c) (mqtt g) = (m, rs, SubPending)"
    "connection_handler n q v url hdr w g =
      (g\<lparr>clients := jset w c (clients g), mqtt := m, awaiting := jset w c (awaiting g)\<rparr>, map Mqtt rs)"
  | (entered) token t c m rs result err g1 where "v token = Inr t" "c = context_of_token t"
    "subscribeToDevice (cc_deviceId c) (mqtt g) = (m, rs, result)" "result \<noteq> SubPending"
    "g1 = g\<lparr>clients := jset w c (clients g), mqtt := m\<rparr>"
    "connection_handler n q v url hdr w g =
      (fst (connection_ready n w c err g1), map Mqtt rs @ snd (connection_ready n w c err g1))"
proof -
  have ref: "thesis" if "\<exists>reason. connection_handler n q v url hdr w g = close_socket w reason g"
    using that refused by blast
  show thesis
  proof (cases "readGatewayAccessTokenFromRequest q url hdr")
    case None
    then show thesis using ref by (auto simp: connection_handler_def)
  next
    case tok: (Some token)
    show thesis
    proof (cases "v token")
      case (Inl x)
      then show thesis using ref tok by (auto simp: connection_handler_def)
    next
      case (Inr t)
      define c where "c = context_of_token t"
      obtain m and rs :: "jobject mqtt_request list" and result where sub: "subscribeToDevice (cc_deviceId c) (mqtt g) = (m, rs, result)"
        by (metis prod_cases3)
      note run = connection_handler_def [of n q v url hdr w g, unfolded tok Inr option.case sum.case
          c_def [symmetric] Let_def sub prod.case]
      show thesis
      proof (cases "case getRequestedDeviceIdFromRequest q url of None \<Rightarrow> False | Some d \<Rightarrow> d \<noteq> tp_deviceId t")
        case True
        then show thesis using ref run by auto
      next
        case False
        then show thesis
          using run waiting [OF Inr c_def, of m rs] entered [OF Inr c_def sub _ refl] sub
          by (cases result) (auto simp: split_def)
      qed
    qed
  qed
qed

lemma clients_ok_add: "clients_ok e g \<Longrightarrow> admitted e c \<Longrightarrow> clients h = jset w c (clients g) \<Longrightarrow> clients_ok e h"
  unfolding clients_ok_def by (auto intro: jm.wf_update split: if_splits)

lemma gw_inv_joined:
  assumes inv: "gw_inv e g" and new: "w \<notin> set (listening g)" "jget (awaiting g) w = None"
    and c: "admitted e c"
    and h: "clients h = jset w c (clients g)" "lastKnownStatuses h = lastKnownStatuses g"
      "routes_in (client_set g) h"
      "awaiting h = jset w c (awaiting g) \<and> listening h = listening g \<or>
       awaiting h = awaiting g \<and> listening h = jadd w (listening g)"
  shows "gw_inv e h"
proof -
  have "client_set g \<subseteq> client_set h" using h(1) by (auto simp: client_set_def)
  then have "routes_in (client_set h) h" using h(3) by (rule routes_in_mono [rotated])
  moreover have "clients_ok e h" using inv c h(1) by (auto simp: gw_inv_def intro: clients_ok_add)
  moreover have "awaiting_ok h"
    using inv new h(1,4) by (auto simp: gw_inv_def awaiting_ok_def split: if_splits)
  moreover have "statuses_ok h" using inv h(2) by (simp add: gw_inv_def statuses_ok_def)
  ultimately show ?thesis by (simp add: gw_inv_def)
qed

lemma connection_ready_state: "fst (connection_ready n w c err g) = g\<lparr>listening := jadd w (listening g)\<rparr>"
  by (simp add: connection_ready_def)

lemma gw_inv_connection:
  assumes inv: "gw_inv e g" and en: "gw_enabled (EConnect n url hdr w) g"
  shows "gw_inv e (fst (connection_handler n q (ge_verify e) url hdr w g))"
proof -
  have new: "w \<notin> set (listening g)" "jget (awaiting g) w = None"
    using en by (auto simp: jhas_def jget_None_iff)
  have r: "routes_in (client_set g) g" using inv by (simp add: gw_inv_def)
  show ?thesis
  proof (cases rule: connection_cases [of n q "ge_verify e" url hdr w g])
    case (refused reason)
    then show ?thesis using inv gw_inv_socket by simp
  next
    case (waiting token t c m rs)
    then have "admitted e c" by (auto simp: admitted_def)
    then show ?thesis using waiting r by (intro gw_inv_joined [OF inv new]) auto
  next
    case (entered token t c m rs result err g1)
    then have "admitted e c" by (auto simp: admitted_def)
    then show ?thesis using entered r
      by (intro gw_inv_joined [OF inv new]) (auto simp: connection_ready_state)
  qed
qed

lemma gw_inv_subscribed: "gw_inv e g \<Longrightarrow> gw_inv e (fst (subscribed_handler n w err g))"
proof (cases "jget (awaiting g) w")
  case (Some c)
  assume inv: "gw_inv e g"
  let ?h = "fst (subscribed_handler n w err g)"
  have st: "?h = g\<lparr>mqtt := fst (subscribe_callback (cc_deviceId c) err (mqtt g)),
      awaiting := jdelete w (awaiting g), listening := jadd w (listening g)\<rparr>"
    using Some by (simp add: subscribed_handler_def connection_ready_state split_def Let_def)
  show ?thesis
    using inv unfolding st gw_inv_def awaiting_ok_def
    by (auto simp: clients_ok_def statuses_ok_def client_set_def)
qed (simp add: subscribed_handler_def)

lemma gw_inv_step: "gw_inv e g \<Longrightarrow> gw_next e g g' \<Longrightarrow> gw_inv e g'"
proof -
  assume inv: "gw_inv e g" and "gw_next e g g'"
  then obtain ev es where en: "gw_enabled ev g" and run: "gw_handle e ev g = (g', es)"
    by (auto simp: gw_next_def gw_step_iff)
  from run have g': "g' = fst (gw_handle e ev g)" by simp
  show ?thesis
    using inv en unfolding g'
    by (cases ev)
      (simp_all add: gw_inv_connection gw_inv_subscribed gw_inv_message gw_inv_cleanup
        gw_inv_broker_message gw_inv_ready gw_inv_mqtt)
qed

lemma gw_inv_init: "gw_init g \<Longrightarrow> gw_inv e g"
  by (simp add: gw_init_def gw_inv_defs routes_in_def req.owners_in_def req.indexed_def ses.owners_in_def
      ses.indexed_def route_defs)

interpretation gw: invariant_system gw_init "gw_next e" "gw_inv e" for e
  by unfold_locales (auto intro: gw_inv_init gw_inv_step)

end
