(* ===== verification/Gateway_Safety.thy ===== *)
theory Gateway_Safety
  imports Gateway_System
begin

text \<open>
  What the live gateway guarantees in every reachable state: a socket only receives packets of the
  device its token names, of services the token allows and with statuses cut down to them; a frame
  is only published with the permissions of its token and inside the device's topics; an answer
  goes to the socket that asked; and the broker subscriptions follow the connected clients.
\<close>

section \<open>What a client may see\<close>

definition visible_to :: "packet \<Rightarrow> client_context \<Rightarrow> bool" where
  "visible_to p c \<longleftrightarrow> pk_deviceId p = cc_deviceId c \<and>
     (case pk_service p of None \<Rightarrow> True | Some s \<Rightarrow> s \<in> set (allowedServiceNames c)) \<and>
     (is_status_packet p \<longrightarrow> (\<forall>ps services. obj_get (pk_envelope p) ''payload'' = JObj ps \<longrightarrow>
        obj_get ps ''services'' = JObj services \<longrightarrow> set (jkeys services) \<subseteq> set (allowedServiceNames c)))"

lemma sanitize_services:
  assumes "sanitizeStatusPayload v allowed = JObj ps" and "obj_get ps ''services'' = JObj services"
    and "(a, b) \<in> set services"
  shows "a \<in> set allowed"
proof (cases v)
  case (JObj qs)
  show ?thesis
  proof (cases "obj_get qs ''services''")
    case (JObj ss)
    then show ?thesis using assms \<open>v = JObj qs\<close>
      by (auto simp: sanitizeStatusPayload_def obj_get_update)
  qed (use assms JObj in \<open>auto simp: sanitizeStatusPayload_def\<close>)
qed (use assms in \<open>auto simp: sanitizeStatusPayload_def\<close>)

lemma filter_visible:
  assumes "filterPacketForClient p c = Some q" and "pk_deviceId p = cc_deviceId c"
  shows "visible_to q c"
proof (cases "is_status_packet p")
  case True
  then have "q = p\<lparr>pk_envelope := jset ''payload''
      (sanitizeStatusPayload (obj_get (pk_envelope p) ''payload'') (allowedServiceNames c)) (pk_envelope p)\<rparr>"
    using assms(1) by (auto simp: filterPacketForClient_def split: if_splits)
  moreover have "pk_service p = None" using True by (simp add: is_status_packet_def)
  ultimately show ?thesis
    using assms(2) by (auto simp: visible_to_def obj_get_update dest: sanitize_services)
next
  case False
  then show ?thesis
    using assms by (auto simp: filterPacketForClient_def visible_to_def split: if_splits option.splits)
qed

definition gateway_error_for :: "string \<Rightarrow> packet \<Rightarrow> bool" where
  "gateway_error_for d p \<longleftrightarrow> (\<exists>n msg rt svc sub. p = gateway_error_packet n d msg rt svc sub)"

lemma gateway_error_forI: "gateway_error_for d (gateway_error_packet n d msg rt svc sub)"
  unfolding gateway_error_for_def by blast

text \<open>What a handler sends is a visible packet of the client or an error the gateway made itself.\<close>

definition proper_send :: "gateway \<Rightarrow> effect \<Rightarrow> bool" where
  "proper_send g x \<longleftrightarrow> (\<forall>w p. x = SendPacket w p \<longrightarrow>
     (\<exists>c. jget (clients g) w = Some c \<and> pk_deviceId p = cc_deviceId c \<and>
       (visible_to p c \<or> gateway_error_for (cc_deviceId c) p)))"

lemma error_packet_device: "pk_deviceId (gateway_error_packet n d msg rt svc sub) = d"
  by (simp add: gateway_error_packet_def createPacket_def)

lemma proper_error:
  "jget (clients h) w = Some c \<Longrightarrow> x \<in> set (sendGatewayError n g w (cc_deviceId c) msg rt svc sub) \<Longrightarrow> proper_send h x"
  unfolding proper_send_def sendGatewayError_def sendPacket_def
  by (auto simp: error_packet_device gateway_error_forI split: if_splits)

lemma requestDeviceStatus_effects:
  "requestDeviceStatus n m d = (if mq_client m then
     [Mqtt (MqPublish (topicBase d None @ ''/command'') (buildEnvelope n ''get-status'' (JObj []) JUndef JUndef))] else [])"
proof -
  have "normalizeTopicSubtopic ''command'' = ''command''"
    using known_subtopics_normal [of "''command''"] by (simp add: known_subtopics_def)
  then show ?thesis by (simp add: requestDeviceStatus_def publishMqtt_def buildDeviceTopic_def)
qed

lemma proper_visible:
  "visible_to p c \<Longrightarrow> jget (clients h) w = Some c \<Longrightarrow> x \<in> set (sendPacket g w p) \<Longrightarrow> proper_send h x"
  by (auto simp: proper_send_def sendPacket_def visible_to_def split: if_splits)

lemma proper_cached:
  assumes "statuses_ok g" "jget (clients h) w = Some c" "jget (lastKnownStatuses g) (cc_deviceId c) = Some p"
    "filterPacketForClient p c = Some q" "x \<in> set (sendPacket g w q)"
  shows "proper_send h x"
proof -
  have "pk_deviceId p = cc_deviceId c" using assms(1,3) by (auto simp: statuses_ok_def)
  then show ?thesis using filter_visible [OF assms(4)] proper_visible assms(2,5) by blast
qed

lemma proper_device_state:
  assumes "statuses_ok g" "jget (clients h) w = Some c" "x \<in> set (send_device_state n g w c (cc_deviceId c))"
  shows "proper_send h x"
proof -
  from assms(3) consider (info) "x = SendSessionInfo w (cc_deviceId c)" | (request) r where "x = Mqtt r"
    | (cached) p q where "jget (lastKnownStatuses g) (cc_deviceId c) = Some p" "filterPacketForClient p c = Some q"
        "x \<in> set (sendPacket g w q)"
    by (auto simp: send_device_state_def sendSessionInfo_def requestDeviceStatus_effects
        split: option.splits if_splits) metis
  then show ?thesis
    by cases (use proper_cached assms in \<open>auto simp: proper_send_def [of _ "SendSessionInfo w d" for w d]
        proper_send_def [of _ "Mqtt r" for r]\<close>)
qed

lemma proper_mqtt: "proper_send g (Mqtt r)" "proper_send g (CloseSocket w i s)" "proper_send g (Warn s)"
  "proper_send g (Uncaught e)" "proper_send g (SendSessionInfo w d)"
  by (simp_all add: proper_send_def)

lemma cleanup_effects: "x \<in> set (snd (cleanupClient w g)) \<Longrightarrow> \<exists>r. x = Mqtt r"
  by (auto simp: cleanupClient_def Let_def split: prod.splits)

lemma rate_close_effects:
  "x \<in> set (snd (closeForRateLimit w r g)) \<Longrightarrow> (\<exists>q. x = Mqtt q \<and> x \<in> set (snd (cleanupClient w g))) \<or>
     (\<exists>s. x = Warn s) \<or> (\<exists>i s. x = CloseSocket w i s)"
  using cleanup_effects [of x w g]
  by (auto simp: closeForRateLimit_def Let_def close_socket_def split: prod.splits if_splits)

lemma proper_message:
  assumes inv: "gw_inv e g" and x: "x \<in> set (snd (message_handler fresh jp dflt rl now w data g))"
  shows "proper_send (fst (message_handler fresh jp dflt rl now w data g)) x"
proof (cases rule: message_handler_cases [of fresh jp dflt rl now w data g])
  case (limited lims reason)
  then show ?thesis using x by (auto dest!: rate_close_effects simp: proper_mqtt)
next
  case (ignored lims)
  then show ?thesis using x by simp
next
  case (refused lims c n msg rt)
  then show ?thesis using x proper_error [of _ w c] by simp
next
  case (synced lims c n)
  have "statuses_ok (g\<lparr>inboundRateLimits := lims\<rparr>)" using gw_inv_limits [OF inv] by (simp add: gw_inv_def)
  then show ?thesis using x synced proper_device_state [of _ _ w c] by simp
next
  case (packet lims c frame)
  let ?h = "g\<lparr>inboundRateLimits := lims\<rparr>"
  have "proper_send (fst (packet_frame_handler fresh w c frame ?h)) x"
    using packet(3)
  proof (cases rule: packet_frame_cases [of frame fresh w c ?h])
    case (refused n msg rt svc sub)
    then show ?thesis using x packet proper_error [of ?h w c] by simp
  qed (use x packet in \<open>auto simp: proper_mqtt split: sum.splits\<close>)
  then show ?thesis using packet(4) by simp
qed

lemma proper_broker_message:
  assumes inv: "gw_inv e g" and x: "x \<in> set (snd (mqtt_message_handler jp topic payload g))"
  shows "proper_send (fst (mqtt_message_handler jp topic payload g)) x"
proof (cases rule: broker_message_cases [of jp topic payload g])
  case (delivered t env p g1)
  let ?g' = "fst (packetTargets p g1)"
  have cl: "clients ?g' = clients g" using delivered(4) by (auto simp: packetTargets_fields)
  from x delivered(5) obtain w c q where wc: "(w, c) \<in> set (clients g)"
    and d: "cc_deviceId c = pt_deviceId t" and f: "filterPacketForClient p c = Some q"
    and xs: "x \<in> set (sendPacket g w q)"
    by (auto split: if_splits option.splits) metis+
  have "jget (clients g) w = Some c"
    using inv wc by (auto simp: gw_inv_def clients_ok_def intro: map_of_is_SomeI)
  moreover have "visible_to q c" using f d delivered(3) by (auto intro: filter_visible simp: createPacket_def)
  ultimately have "proper_send ?g' x" using xs cl proper_visible by metis
  then show ?thesis using delivered(5) by simp
qed (use x in simp)

lemma proper_ready:
  assumes "statuses_ok g" "jget (clients h) w = Some c" "x \<in> set (snd (connection_ready n w c err g))"
  shows "proper_send h x"
  using assms proper_device_state [of g h w c x n] proper_error [of h w c x n g]
  by (auto simp: connection_ready_def split: option.splits)

lemma proper_connection:
  assumes inv: "gw_inv e g" and x: "x \<in> set (snd (connection_handler n q v url hdr w g))"
  shows "proper_send (fst (connection_handler n q v url hdr w g)) x"
proof (cases rule: connection_cases [of n q v url hdr w g])
  case (entered token t c m rs result err g1)
  have "statuses_ok g1" using inv entered(5) by (simp add: gw_inv_def statuses_ok_def)
  then show ?thesis
    using x entered proper_ready [of g1 "fst (connection_ready n w c err g1)" w c x n err]
    by (auto simp: proper_mqtt connection_ready_state)
qed (use x in \<open>auto simp: proper_mqtt close_socket_def\<close>)

lemma proper_subscribed:
  assumes inv: "gw_inv e g" and x: "x \<in> set (snd (subscribed_handler n w err g))"
  shows "proper_send (fst (subscribed_handler n w err g)) x"
proof (cases "jget (awaiting g) w")
  case (Some c)
  then have cl: "jget (clients g) w = Some c" using inv by (simp add: gw_inv_def awaiting_ok_def)
  obtain m result where cb: "subscribe_callback (cc_deviceId c) err (mqtt g) = (m, result)" by fastforce
  let ?h = "g\<lparr>mqtt := m, awaiting := jdelete w (awaiting g)\<rparr>"
  have "statuses_ok ?h" using inv by (simp add: gw_inv_def statuses_ok_def)
  then show ?thesis
    using x Some cb cl proper_ready [of ?h "fst (connection_ready n w c e' ?h)" w c x n e' for e']
    by (auto simp: subscribed_handler_def connection_ready_state)
qed (use x in \<open>simp add: subscribed_handler_def\<close>)

lemma proper_step: "gw_inv e g \<Longrightarrow> gw_step e g ev es g' \<Longrightarrow> x \<in> set es \<Longrightarrow> proper_send g' x"
proof (elim gw_stepE)
  assume inv: "gw_inv e g" and x: "x \<in> set es" and run: "gw_handle e ev g = (g', es)"
  then have g': "g' = fst (gw_handle e ev g)" and es: "es = snd (gw_handle e ev g)" by simp_all
  show ?thesis
    using inv x unfolding g' es
    by (cases ev)
      (simp_all add: proper_connection proper_subscribed proper_message proper_broker_message,
       auto dest: cleanup_effects simp: proper_mqtt)
qed

section \<open>What a client may publish\<close>

text \<open>A session id that is published was read from the frame before it was normalised.\<close>

lemma normalized_payload:
  "obj_get (normalizeIncomingEnvelope n env) ''payload'' =
     (case obj_get env ''payload'' of JUndef \<Rightarrow> JObj [] | JNull \<Rightarrow> JObj [] | p \<Rightarrow> p)"
  "obj_in ''payload'' (normalizeIncomingEnvelope n env)"
  by (simp_all add: normalizeIncomingEnvelope_def buildEnvelope_def)

lemma obj_in_get: "obj_get obj k \<noteq> JUndef \<Longrightarrow> obj_in k obj"
  by (auto simp: obj_get_def obj_in_def split: option.splits)

lemma normalized_session:
  assumes "sessionId (readRoutingIds (JObj (normalizeIncomingEnvelope n env))) = Some s"
  shows "sessionId (readRoutingIds (JObj env)) = Some s"
proof -
  have u: "unwrapEnvelopePayload (JObj (normalizeIncomingEnvelope n env)) =
      (case obj_get env ''payload'' of JUndef \<Rightarrow> JObj [] | JNull \<Rightarrow> JObj [] | p \<Rightarrow> p)"
    by (simp add: unwrapEnvelopePayload_def normalized_payload split: jv.splits)
  have "obj_get env ''payload'' \<noteq> JUndef \<and> obj_get env ''payload'' \<noteq> JNull"
    using assms u by (auto simp: readRoutingIds_def normalizeOptionalString_def)
  moreover from this have "unwrapEnvelopePayload (JObj env) = obj_get env ''payload''"
    by (simp add: unwrapEnvelopePayload_def obj_in_get)
  ultimately show ?thesis using assms u by (auto simp: readRoutingIds_def split: jv.splits)
qed

text \<open>
  What a token permits: to the device itself commands that it selects and status requests, to a
  service only if it is one of the token's services and the message's type, alone or qualified by
  service and subtopic, is selected.
\<close>

definition token_permits :: "client_context \<Rightarrow> string option \<Rightarrow> string \<Rightarrow> string \<Rightarrow> bool" where
  "token_permits c service subtopic type \<longleftrightarrow>
     (service = None \<longrightarrow> subtopic = ''command'' \<and> type \<in> insert ''get-status'' (set (allowedSelectors c))) \<and>
     (\<forall>s. service = Some s \<longrightarrow> s \<in> set (allowedServiceNames c) \<and>
        (\<exists>sel \<in> set (allowedSelectors c). sel = type \<or> createTransportActionSelector s subtopic type = Some sel))"

lemma can_publish_permitted:
  "canClientPublishPacket p c \<Longrightarrow> token_permits c (pk_service p) (pk_subtopic p) (env_type (pk_envelope p))"
  by (auto simp: canClientPublishPacket_def token_permits_def split: option.splits)

text \<open>The authority behind one published message.\<close>

definition publish_authorised :: "gateway \<Rightarrow> ws \<Rightarrow> client_context \<Rightarrow> string \<Rightarrow> jobject \<Rightarrow> bool" where
  "publish_authorised g w c topic env \<longleftrightarrow>
     (\<exists>service subtopic. token_permits c service subtopic (env_type env) \<and>
        buildDeviceTopic (cc_deviceId c) subtopic service = Inr topic) \<and>
     (\<forall>s. sessionId (readRoutingIds (JObj env)) = Some s \<longrightarrow> session_owner g s \<in> {None, Some w})"

definition status_request :: "client_context \<Rightarrow> string \<Rightarrow> jobject \<Rightarrow> bool" where
  "status_request c topic env \<longleftrightarrow> topic = topicBase (cc_deviceId c) None @ ''/command'' \<and>
     (\<exists>n. env = buildEnvelope n ''get-status'' (JObj []) JUndef JUndef)"

lemma status_requestI:
  "status_request c (topicBase (cc_deviceId c) None @ ''/command'') (buildEnvelope n ''get-status'' (JObj []) JUndef JUndef)"
  unfolding status_request_def by blast

definition proper_publish :: "gateway \<Rightarrow> gateway \<Rightarrow> gw_event \<Rightarrow> effect \<Rightarrow> bool" where
  "proper_publish g g' ev x \<longleftrightarrow> (\<forall>topic env. x = Mqtt (MqPublish topic env) \<longrightarrow>
     (\<exists>w c. jget (clients g') w = Some c \<and>
       (status_request c topic env \<or>
        (\<exists>fresh now data. ev = EMessage fresh now w data) \<and> publish_authorised g w c topic env)))"

lemma publish_requestsE:
  assumes "publishMqtt m d sub p svc = Inr rs" and "r \<in> set rs"
  obtains t where "buildDeviceTopic d sub svc = Inr t" "r = MqPublish t p"
  using assms by (auto simp: publishMqtt_def split: if_splits sum.splits)

lemma proper_publish_state:
  assumes "jget (clients h) w = Some c" "x \<in> set (send_device_state n g0 w c (cc_deviceId c))"
  shows "proper_publish g h ev x"
  using assms status_requestI [of c n] unfolding proper_publish_def
  by (auto simp: send_device_state_def requestDeviceStatus_effects sendSessionInfo_def
      sendPacket_def split: option.splits if_splits)

lemma proper_publish_other:
  "proper_publish g h ev (Mqtt (MqSubscribe ts))" "proper_publish g h ev (Mqtt (MqUnsubscribe ts))"
  "proper_publish g h ev (SendPacket w p)" "proper_publish g h ev (SendSessionInfo w d)"
  "proper_publish g h ev (CloseSocket w i s)" "proper_publish g h ev (Warn s)" "proper_publish g h ev (Uncaught z)"
  by (simp_all add: proper_publish_def)

lemma proper_publish_error: "x \<in> set (sendGatewayError n g0 w d msg rt svc sub) \<Longrightarrow> proper_publish g h ev x"
  by (auto simp: sendGatewayError_def sendPacket_def proper_publish_other split: if_splits)

lemma unsubscribe_effects: "r \<in> set (snd (unsubscribeFromDevice d m)) \<Longrightarrow> \<exists>ts. r = MqUnsubscribe ts"
  by (auto simp: unsubscribeFromDevice_def split: if_splits option.splits)

lemma subscribe_effects: "subscribeToDevice d m = (m', rs, z) \<Longrightarrow> r \<in> set rs \<Longrightarrow> \<exists>ts. r = MqSubscribe ts"
  by (auto simp: subscribeToDevice_def Let_def split: if_splits)

lemma cleanup_unsubscribes: "x \<in> set (snd (cleanupClient w g)) \<Longrightarrow> \<exists>ts. x = Mqtt (MqUnsubscribe ts)"
  by (auto simp: cleanupClient_def Let_def split: prod.splits option.splits dest!: unsubscribe_effects
      dest: arg_cong [of _ _ snd])

lemma proper_publish_packet:
  assumes fr: "isPacketFrame (JObj frame)" and cl: "jget (clients h) w = Some c"
    and x: "x \<in> set (snd (packet_frame_handler fresh w c frame g))" and ev: "ev = EMessage f now w data"
    and own: "session_owner g = session_owner g0"
  shows "proper_publish g0 h ev x"
  using fr
proof (cases rule: packet_frame_cases [of frame fresh w c g])
  case (published env subtopic p)
  show ?thesis
  proof (cases "publishMqtt (mqtt g) (cc_deviceId c) (pk_subtopic p) (pk_envelope p) (pk_service p)")
    case (Inl z)
    then show ?thesis using x published by (simp add: proper_publish_other)
  next
    case (Inr rs)
    then obtain r where r: "x = Mqtt r" "r \<in> set rs" using x published by auto
    from publish_requestsE [OF Inr r(2)] obtain t where
      t: "buildDeviceTopic (cc_deviceId c) (pk_subtopic p) (pk_service p) = Inr t" "r = MqPublish t (pk_envelope p)"
      by blast
    have "session_owner g0 s \<in> {None, Some w}"
      if "sessionId (readRoutingIds (JObj (pk_envelope p))) = Some s" for s
    proof -
      have "pk_envelope p = normalizeIncomingEnvelope (fresh 0) env"
        using published(3) by (simp add: createPacket_def)
      then have "sessionId (readRoutingIds (JObj env)) = Some s"
        using that normalized_session [of "fresh 0" env s] by simp
      then have "session_owner g s \<in> {None, Some w}"
        using published(4) by (auto simp: clientOwnsSession_def session_owner_def split: option.splits)
      then show ?thesis using own by simp
    qed
    then have "publish_authorised g0 w c t (pk_envelope p)"
      using can_publish_permitted [OF published(5)] t(1) unfolding publish_authorised_def by blast
    then show ?thesis using r t cl ev by (auto simp: proper_publish_def)
  qed
qed (use x in \<open>auto intro: proper_publish_error\<close>)

lemma proper_publish_message:
  assumes x: "x \<in> set (snd (message_handler fresh jp dflt rl now w data g))"
  shows "proper_publish g (fst (message_handler fresh jp dflt rl now w data g)) (EMessage fresh now w data) x"
proof (cases rule: message_handler_cases [of fresh jp dflt rl now w data g])
  case (limited lims reason)
  then show ?thesis using x
    by (auto dest!: rate_close_effects dest: cleanup_unsubscribes simp: proper_publish_other)
next
  case (refused lims c n msg rt)
  then show ?thesis using x proper_publish_error by simp
next
  case (synced lims c n)
  then show ?thesis using x proper_publish_state [of _ w c] by simp
next
  case (packet lims c frame)
  let ?h = "g\<lparr>inboundRateLimits := lims\<rparr>"
  have "clients (fst (packet_frame_handler fresh w c frame ?h)) = clients g"
    using packet(3) by (cases rule: packet_frame_cases [of frame fresh w c ?h]) (auto split: option.splits)
  then show ?thesis
    using proper_publish_packet [OF packet(3), of _ w c x fresh ?h] packet x by simp
qed (use x in simp)

lemma proper_publish_ready:
  assumes "jget (clients h) w = Some c" "x \<in> set (snd (connection_ready n w c err g0))"
  shows "proper_publish g h ev x"
  using assms proper_publish_state [of h w c x n g0 g ev] proper_publish_error [of x n g0 w _ _ _ _ _ g h ev]
  by (auto simp: connection_ready_def split: option.splits)

lemma proper_publish_connection:
  assumes x: "x \<in> set (snd (connection_handler n q v url hdr w g))"
  shows "proper_publish g (fst (connection_handler n q v url hdr w g)) ev x"
proof (cases rule: connection_cases [of n q v url hdr w g])
  case (waiting token t c m rs)
  then show ?thesis using x by (auto dest!: subscribe_effects [OF waiting(3)] simp: proper_publish_other)
next
  case (entered token t c m rs result err g1)
  have "proper_publish g (fst (connection_ready n w c err g1)) ev x"
    if "x \<in> set (snd (connection_ready n w c err g1))"
    using that entered(5) by (intro proper_publish_ready) (auto simp: connection_ready_state)
  then show ?thesis using x entered by (auto dest!: subscribe_effects [OF entered(3)] simp: proper_publish_other)
qed (use x in \<open>auto simp: proper_publish_other close_socket_def\<close>)

lemma proper_publish_subscribed:
  assumes inv: "gw_inv e g" and x: "x \<in> set (snd (subscribed_handler n w err g))"
  shows "proper_publish g (fst (subscribed_handler n w err g)) ev x"
proof (cases "jget (awaiting g) w")
  case (Some c)
  then have cl: "jget (clients g) w = Some c" using inv by (simp add: gw_inv_def awaiting_ok_def)
  obtain m result where cb: "subscribe_callback (cc_deviceId c) err (mqtt g) = (m, result)" by fastforce
  let ?h = "g\<lparr>mqtt := m, awaiting := jdelete w (awaiting g)\<rparr>"
  show ?thesis
    using x Some cb proper_publish_ready [of "fst (connection_ready n w c e' ?h)" w c x n e' ?h for e'] cl
    by (auto simp: subscribed_handler_def connection_ready_state)
qed (use x in \<open>simp add: subscribed_handler_def\<close>)

lemma proper_publish_broker:
  assumes "x \<in> set (snd (mqtt_message_handler jp topic payload g))"
  shows "proper_publish g h ev x"
proof (cases rule: broker_message_cases [of jp topic payload g])
  case (delivered t env p g1)
  then show ?thesis using assms
    by (auto simp: sendPacket_def proper_publish_other split: if_splits option.splits)
qed (use assms in simp)

lemma proper_publish_step:
  "gw_inv e g \<Longrightarrow> gw_step e g ev es g' \<Longrightarrow> x \<in> set es \<Longrightarrow> proper_publish g g' ev x"
proof (elim gw_stepE)
  assume inv: "gw_inv e g" and x: "x \<in> set es" and run: "gw_handle e ev g = (g', es)"
  then have g': "g' = fst (gw_handle e ev g)" and es: "es = snd (gw_handle e ev g)" by simp_all
  show ?thesis
    using inv x unfolding g' es
    by (cases ev)
      (auto simp: proper_publish_other intro: proper_publish_connection proper_publish_subscribed
        proper_publish_message proper_publish_broker dest!: cleanup_unsubscribes)
qed

text \<open>Every topic \<open>buildDeviceTopic\<close> makes lies below the device.\<close>

lemma topic_below_device:
  "buildDeviceTopic d sub svc = Inr t \<Longrightarrow> starts_with (''trakrai/device/'' @ trim d @ ''/'') t"
  by (auto simp: buildDeviceTopic_def topicBase_def Let_def starts_with_def split: if_splits)

section \<open>Properties\<close>

text \<open>
  C1. Device isolation. In every reachable state of the gateway, whatever event comes next, a
  packet is sent only to a connected client that was admitted with a verified token, and only if
  the packet belongs to the device that token names; the packet is either visible to the client
  (its service, if it has one, is among the services the token allows, and a status lists allowed
  services only) or an error packet the gateway made for that client itself.
\<close>

theorem gateway_device_isolation:
  assumes "gw_reachable e g" and "gw_step e g ev es g'" and "SendPacket w p \<in> set es"
  shows "\<exists>token t. ge_verify e token = Inr t \<and> jget (clients g') w = Some (context_of_token t) \<and>
    pk_deviceId p = tp_deviceId t \<and>
    (visible_to p (context_of_token t) \<or> gateway_error_for (tp_deviceId t) p)"
proof -
  have inv: "gw_inv e g" using assms(1) by (rule gw.inv_reachable)
  have "gw_next e g g'" using assms(2) by (auto simp: gw_next_def)
  then have inv': "gw_inv e g'" using inv gw_inv_step by blast
  from proper_step [OF inv assms(2,3)] obtain c where c: "jget (clients g') w = Some c"
    "pk_deviceId p = cc_deviceId c"
    "visible_to p c \<or> gateway_error_for (cc_deviceId c) p"
    by (auto simp: proper_send_def)
  then have "admitted e c" using inv' by (auto simp: gw_inv_def clients_ok_def)
  then obtain token t where "ge_verify e token = Inr t" "c = context_of_token t" by (auto simp: admitted_def)
  then show ?thesis using c by (auto simp: context_of_token_def)
qed

text \<open>
  C2. Publishing needs authority. In every reachable state, whatever event comes next, a message is
  published to the broker only on behalf of a connected client that was admitted with a verified
  token, and only below the topics of the device that token names. Apart from the gateway's own
  status requests it is published only for a frame this client just sent, only if the token's
  selectors and services permit the packet, and only if the session the message names is not
  bound to another client.
\<close>

theorem gateway_publish_authority:
  assumes "gw_reachable e g" and "gw_step e g ev es g'" and "Mqtt (MqPublish topic env) \<in> set es"
  shows "\<exists>w token t. ge_verify e token = Inr t \<and> jget (clients g') w = Some (context_of_token t) \<and>
    starts_with (''trakrai/device/'' @ trim (tp_deviceId t) @ ''/'') topic \<and>
    (status_request (context_of_token t) topic env \<or>
     (\<exists>fresh now data. ev = EMessage fresh now w data) \<and> publish_authorised g w (context_of_token t) topic env)"
proof -
  have inv: "gw_inv e g" using assms(1) by (rule gw.inv_reachable)
  have "gw_next e g g'" using assms(2) by (auto simp: gw_next_def)
  then have inv': "gw_inv e g'" using inv gw_inv_step by blast
  from proper_publish_step [OF inv assms(2,3)] obtain w c where c: "jget (clients g') w = Some c"
    "status_request c topic env \<or>
     (\<exists>fresh now data. ev = EMessage fresh now w data) \<and> publish_authorised g w c topic env"
    by (auto simp: proper_publish_def)
  then have "admitted e c" using inv' by (auto simp: gw_inv_def clients_ok_def)
  then obtain token t where t: "ge_verify e token = Inr t" "c = context_of_token t" by (auto simp: admitted_def)
  have "starts_with (''trakrai/device/'' @ trim (cc_deviceId c) @ ''/'') topic"
    using c(2) topic_below_device
    by (auto simp: status_request_def publish_authorised_def topicBase_def starts_with_def)
  moreover have "cc_deviceId c = tp_deviceId t" using t(2) by (simp add: context_of_token_def)
  ultimately show ?thesis using c t by metis
qed

end
