(* ===== verification/Gateway_Sharing.thy ===== *)
theory Gateway_Sharing
  imports Gateway_Safety
begin

text \<open>
  What the clients of the gateway share: the answers to their requests, the sessions that follow
  from them, and the broker subscription of their device. The theory also shows where the sharing
  goes wrong: an index entry that outlives its owner, a failed subscription, and a subtopic that
  makes the publisher raise.
\<close>

section \<open>Answers\<close>

lemma concat_single:
  assumes "distinct (jkeys m)" "jget m w = Some c" and "\<And>v d. v \<noteq> w \<Longrightarrow> f (v, d) = []"
  shows "concat (map f m) = f (w, c)"
  using assms
proof (induction m)
  case (Cons x m)
  show ?case
  proof (cases "fst x = w")
    case True
    then have "f y = []" if "y \<in> set m" for y
      using Cons.prems that by (cases y) (force simp: image_iff)
    then have "concat (map f m) = []" by simp
    then show ?thesis using True Cons.prems by (cases x) auto
  next
    case False
    then show ?thesis using Cons by (cases x) auto
  qed
qed simp


section \<open>Broker subscriptions follow the clients\<close>

text \<open>The gateway while no subscription fails, started after the MQTT client connected.\<close>

definition gw_online :: "gateway \<Rightarrow> bool" where
  "gw_online g \<longleftrightarrow> gw_init g \<and> mq_client (mqtt g)"

definition gw_healthy :: "gw_env \<Rightarrow> gateway \<Rightarrow> gateway \<Rightarrow> bool" where
  "gw_healthy e g g' \<longleftrightarrow> (\<exists>ev es. gw_step e g ev es g' \<and> (\<forall>n w err. ev \<noteq> ESubscribed n w (Some err)))"

definition device_clients :: "gateway \<Rightarrow> string \<Rightarrow> nat" where
  "device_clients g d = length (filter (\<lambda>(w, c). cc_deviceId c = d) (clients g))"

definition refs_match :: "gateway \<Rightarrow> bool" where
  "refs_match g \<longleftrightarrow> mq_client (mqtt g) \<and> refs_positive (mqtt g) \<and>
     (\<forall>d. ref_count (mqtt g) d = device_clients g d)"

definition shared_inv :: "gw_env \<Rightarrow> gateway \<Rightarrow> bool" where
  "shared_inv e g \<longleftrightarrow> gw_inv e g \<and> refs_match g"

lemma refs_match_frame: "refs_match g \<Longrightarrow> clients h = clients g \<Longrightarrow> mqtt h = mqtt g \<Longrightarrow> refs_match h"
  by (simp add: refs_match_def device_clients_def)

lemma count_new:
  "jget m w = None \<Longrightarrow> length (filter (\<lambda>(w, c). P c) (jset w c m)) = length (filter (\<lambda>(w, c). P c) m) + (if P c then 1 else 0)"
  by (induction m) (auto split: if_splits)

lemma delete_absent: "jget m w = None \<Longrightarrow> jdelete w m = m"
  by (induction m) (auto split: if_splits)

lemma count_removed:
  assumes "distinct (jkeys m)" "jget m w = Some c"
  shows "length (filter (\<lambda>(w, c). P c) (jdelete w m)) = length (filter (\<lambda>(w, c). P c) m) - (if P c then 1 else 0)"
  using assms
proof (induction m)
  case (Cons x m)
  then show ?case
  proof (cases "fst x = w")
    case True
    then have "jdelete w m = m" using Cons.prems by (intro delete_absent) (auto simp: map_of_eq_None_iff)
    then show ?thesis using True Cons.prems by (cases x) auto
  next
    case False
    have "P c \<Longrightarrow> 0 < length (filter (\<lambda>(w, c). P c) m)" if "jget m w = Some c"
      using map_of_SomeD [OF that] by (force simp: filter_empty_conv)
    then show ?thesis using False Cons by (cases x) auto
  qed
qed simp

lemma refs_match_cleanup:
  assumes "refs_match g" and "distinct (jkeys (clients g))"
  shows "refs_match (fst (cleanupClient w g))"
proof (cases "jget (clients g) w")
  case None
  then show ?thesis using assms
    by (intro refs_match_frame [OF assms(1)]) (simp_all add: delete_absent cleanup_mqtt)
next
  case (Some c)
  then show ?thesis
    using assms count_removed [OF assms(2) Some]
    by (auto simp: refs_match_def device_clients_def cleanup_mqtt ref_count_unsubscribe refs_positive_unsubscribe)
qed

lemma refs_match_joined:
  assumes "refs_match g" "jget (clients g) w = None" "clients h = jset w c (clients g)"
    "subscribeToDevice (cc_deviceId c) (mqtt g) = (mqtt h, rs, z)"
  shows "refs_match h"
proof -
  note h = arg_cong [OF assms(4), of fst, symmetric, simplified]
  have "refs_positive (mqtt h) \<and> mq_client (mqtt h)"
    using assms(1) unfolding h by (simp add: refs_match_def refs_positive_subscribe)
  moreover have "ref_count (mqtt h) d = device_clients h d" for d
    using assms(1) count_new [OF assms(2), of "\<lambda>c. cc_deviceId c = d" c] unfolding h
    by (auto simp: refs_match_def device_clients_def ref_count_subscribe assms(3))
  ultimately show ?thesis by (simp add: refs_match_def)
qed

lemma packet_handler_frame:
  assumes "isPacketFrame (JObj frame)"
  shows "clients (fst (packet_frame_handler fresh w c frame g)) = clients g"
    and "mqtt (fst (packet_frame_handler fresh w c frame g)) = mqtt g"
  using assms by (cases rule: packet_frame_cases [of frame fresh w c g]; auto split: option.splits)+

lemma refs_match_message:
  assumes "refs_match g" "distinct (jkeys (clients g))"
  shows "refs_match (fst (message_handler fresh jp dflt rl now w data g))"
proof -
  have lim: "refs_match (g\<lparr>inboundRateLimits := l\<rparr>)" for l
    using assms(1) by (rule refs_match_frame) simp_all
  show ?thesis
  proof (cases rule: message_handler_cases [of fresh jp dflt rl now w data g])
    case (limited lims reason)
    let ?h = "g\<lparr>inboundRateLimits := lims\<rparr>"
    have "refs_match (fst (cleanupClient w ?h))" using lim assms(2) by (intro refs_match_cleanup) simp_all
    then have "refs_match (fst (closeForRateLimit w reason ?h))"
      by (rule refs_match_frame) (simp_all add: rate_close_fields)
    then show ?thesis using limited by simp
  next
    case (packet lims c frame)
    then show ?thesis using refs_match_frame [OF lim] packet_handler_frame [OF packet(3)] by simp
  qed (use lim in auto)
qed

lemma refs_match_connection:
  assumes "refs_match g" "jget (clients g) w = None"
  shows "refs_match (fst (connection_handler n q v url hdr w g))"
proof (cases rule: connection_cases [of n q v url hdr w g])
  case (refused reason)
  then show ?thesis using refs_match_frame [OF assms(1)] by simp
next
  case (waiting token t c m rs)
  then show ?thesis using refs_match_joined [OF assms, of _ c rs SubPending] by simp
next
  case (entered token t c m rs result err g1)
  then show ?thesis
    using refs_match_joined [OF assms, of _ c rs result] by (simp add: connection_ready_state)
qed

lemma refs_match_broker:
  assumes "refs_match g"
  shows "refs_match (fst (mqtt_message_handler jp topic payload g))"
proof (cases rule: broker_message_cases [of jp topic payload g])
  case (delivered t env p g1)
  then show ?thesis using refs_match_frame [OF assms] by (auto simp: packetTargets_fields)
qed (use assms in simp)

lemma refs_match_subscribed:
  assumes "refs_match g"
  shows "refs_match (fst (subscribed_handler n w None g))"
  using refs_match_frame [OF assms]
  by (auto simp: subscribed_handler_def subscribe_callback_def connection_ready_state Let_def assms split: option.splits)

lemma shared_inv_step: "shared_inv e g \<Longrightarrow> gw_healthy e g g' \<Longrightarrow> shared_inv e g'"
proof -
  assume sh: "shared_inv e g" and st: "gw_healthy e g g'"
  then obtain ev es where en: "gw_enabled ev g" and run: "gw_handle e ev g = (g', es)"
    and ok: "\<forall>n w err. ev \<noteq> ESubscribed n w (Some err)"
    by (auto simp: gw_healthy_def gw_step_iff)
  have inv: "gw_inv e g" and rm: "refs_match g" using sh by (simp_all add: shared_inv_def)
  then have d: "distinct (jkeys (clients g))" by (simp add: gw_inv_def clients_ok_def)
  have "gw_next e g g'" using st by (auto simp: gw_healthy_def gw_next_def)
  then have "gw_inv e g'" using inv gw_inv_step by blast
  moreover have "refs_match (fst (gw_handle e ev g))"
  proof (cases ev)
    case (EConnect n url hdr w)
    then show ?thesis using en rm by (auto simp: jhas_def jget_None_iff intro: refs_match_connection)
  next
    case (ESubscribed n w err)
    then show ?thesis using ok rm refs_match_subscribed by (cases err) auto
  next
    case EMqttConnected
    then show ?thesis using rm by (simp add: refs_match_def refs_positive_def ref_count_def device_clients_def)
  qed (use rm d refs_match_message refs_match_cleanup refs_match_broker refs_match_frame [OF rm] in auto)
  ultimately show ?thesis using run by (simp add: shared_inv_def)
qed

lemma shared_inv_init: "gw_online g \<Longrightarrow> shared_inv e g"
  by (simp add: gw_online_def shared_inv_def gw_inv_init)
     (simp add: gw_init_def refs_match_def refs_positive_def ref_count_def device_clients_def)

interpretation gws: invariant_system gw_online "gw_healthy e" "shared_inv e" for e
  by unfold_locales (auto intro: shared_inv_init shared_inv_step)

lemma cleanup_unsubscribe_last:
  assumes "refs_match g" "distinct (jkeys (clients g))" "Mqtt (MqUnsubscribe ts) \<in> set (snd (cleanupClient w g))"
  shows "\<exists>c. jget (clients g) w = Some c \<and> ts = subscribeTopicsForDevice (cc_deviceId c) \<and>
    device_clients (fst (cleanupClient w g)) (cc_deviceId c) = 0"
proof (cases "jget (clients g) w")
  case None
  then show ?thesis using assms(3) by (simp add: cleanupClient_def Let_def)
next
  case (Some c)
  have "MqUnsubscribe ts \<in> set (snd (unsubscribeFromDevice (cc_deviceId c) (mqtt g) :: mqtt_state \<times> jobject mqtt_request list))"
    using assms(3) Some by (auto simp: cleanupClient_def Let_def split: prod.splits)
  moreover have m: "mq_client (mqtt g)" "refs_positive (mqtt g)" using assms(1) by (simp_all add: refs_match_def)
  ultimately have one: "ref_count (mqtt g) (cc_deviceId c) = 1" and ts: "ts = subscribeTopicsForDevice (cc_deviceId c)"
    by (auto simp: unsubscribe_requests split: if_splits)
  have "refs_match (fst (cleanupClient w g))" using assms(1,2) by (rule refs_match_cleanup)
  then have "device_clients (fst (cleanupClient w g)) (cc_deviceId c) =
      ref_count (mqtt (fst (cleanupClient w g))) (cc_deviceId c)" by (simp add: refs_match_def)
  also have "\<dots> = 0" using Some one m by (simp add: cleanup_mqtt ref_count_unsubscribe)
  finally show ?thesis using Some ts by simp
qed


section \<open>Where the sharing goes wrong\<close>

text \<open>The characters that \<open>normalizeTopicSubtopic\<close> removes from a blank subtopic.\<close>

lemma trim_blank: "trim s = [] \<Longrightarrow> x \<in> set s \<Longrightarrow> js_space x"
proof -
  assume e: "trim s = []" and x: "x \<in> set s"
  have "dropWhile js_space (rev (dropWhile js_space s)) = []" using e by (simp add: trim_def)
  then have d: "\<forall>y \<in> set (dropWhile js_space s). js_space y" by (simp add: dropWhile_eq_Nil_conv)
  show "js_space x"
  proof (cases "dropWhile js_space s = []")
    case True
    then show ?thesis using x by (simp add: dropWhile_eq_Nil_conv)
  next
    case False
    then show ?thesis using d hd_dropWhile [OF False] hd_in_set [OF False] by blast
  qed
qed

lemma blank_subtopic_chars:
  assumes "normalizeTopicSubtopic s = []" and "x \<in> set s"
  shows "x = CHR ''/'' \<or> js_space x"
proof -
  have "x \<in> set (takeWhile (\<lambda>c. c = CHR ''/'') s) \<or> x \<in> set (dropWhile (\<lambda>c. c = CHR ''/'') s)"
    using assms(2) by (metis Un_iff set_append takeWhile_dropWhile_id)
  then show ?thesis
    using assms(1) trim_blank by (auto simp: normalizeTopicSubtopic_def dest: set_takeWhileD)
qed

text \<open>The subtopic of the packet frame an event carries.\<close>

fun frame_subtopic :: "gw_env \<Rightarrow> gw_event \<Rightarrow> string option" where
  "frame_subtopic e (EMessage fresh now w data) =
     (case ge_json_parse e data of
        Some (JObj frame) \<Rightarrow> if isPacketFrame (JObj frame) then as_string (obj_get frame ''subtopic'') else None
      | _ \<Rightarrow> None)"
| "frame_subtopic e _ = None"

definition raises_only_blank :: "gw_env \<Rightarrow> gw_event \<Rightarrow> effect \<Rightarrow> bool" where
  "raises_only_blank e ev x \<longleftrightarrow> (\<forall>z. x = Uncaught z \<longrightarrow>
     (\<exists>sub. frame_subtopic e ev = Some sub \<and> normalizeTopicSubtopic (trim sub) = []))"

lemma send_state_no_raise: "Uncaught z \<notin> set (send_device_state n g w c d)"
  by (auto simp: send_device_state_def sendSessionInfo_def sendPacket_def requestDeviceStatus_effects
      split: option.splits)

lemma error_no_raise: "Uncaught z \<notin> set (sendGatewayError n g w d msg rt svc sub)"
  by (simp add: sendGatewayError_def sendPacket_def)

lemma ready_no_raise: "Uncaught z \<notin> set (snd (connection_ready n w c err g))"
  by (simp add: connection_ready_def send_state_no_raise error_no_raise split: option.splits)

lemma subscribed_no_raise: "Uncaught z \<notin> set (snd (subscribed_handler n w err g))"
  by (simp add: subscribed_handler_def Let_def split_def ready_no_raise split: option.splits)

lemma packet_raises:
  assumes "isPacketFrame (JObj frame)" "Uncaught z \<in> set (snd (packet_frame_handler fresh w c frame g))"
  shows "\<exists>sub. obj_get frame ''subtopic'' = JStr sub \<and> normalizeTopicSubtopic (trim sub) = []"
  using assms(1)
proof (cases rule: packet_frame_cases [of frame fresh w c g])
  case (published env subtopic p)
  have "publishMqtt (mqtt g) (cc_deviceId c) (pk_subtopic p) (pk_envelope p) (pk_service p) = Inl z"
    using assms(2) published(6) by (auto split: sum.splits)
  then have "normalizeTopicSubtopic (pk_subtopic p) = []" by (simp add: publish_error_iff)
  then show ?thesis using published(2,3) by (simp add: createPacket_def)
qed (use assms(2) error_no_raise in auto)

lemma raises_step: "gw_step e g ev es g' \<Longrightarrow> x \<in> set es \<Longrightarrow> raises_only_blank e ev x"
proof (elim gw_stepE)
  assume x: "x \<in> set es" and run: "gw_handle e ev g = (g', es)"
  have "raises_only_blank e ev x" if "x = Uncaught z" for z
  proof (cases ev)
    case (EConnect n url hdr w)
    then show ?thesis using x run that
      by (cases rule: connection_cases [of n "ge_query e" "ge_verify e" url hdr w g])
        (auto simp: close_socket_def ready_no_raise)
  next
    case (ESubscribed n w err)
    then show ?thesis using x run that subscribed_no_raise [of z n w err g] by simp
  next
    case (EMessage fresh now w data)
    then have mh: "Uncaught z \<in> set (snd (message_handler fresh (ge_json_parse e) (ge_defaultDeviceId e)
        (ge_rateLimit e) now w data g))" using x run that by simp
    show ?thesis
    proof (cases rule: message_handler_cases [of fresh "ge_json_parse e" "ge_defaultDeviceId e" "ge_rateLimit e"
          now w data g])
      case (limited lims reason)
      then show ?thesis using mh by (auto dest: rate_close_effects)
    next
      case (packet lims c frame)
      then show ?thesis using mh EMessage packet_raises [OF packet(3)] by (auto simp: raises_only_blank_def)
    qed (use mh send_state_no_raise error_no_raise in auto)
  next
    case (EMqttMessage topic payload)
    then show ?thesis using x run that
      by (cases rule: broker_message_cases [of "ge_json_parse e" topic payload g])
        (auto simp: sendPacket_def split: if_splits option.splits)
  next
    case (EClose w)
    then show ?thesis using x run that cleanup_effects [of "Uncaught z" w g] by simp
  qed (use x run in auto)
  then show ?thesis by (auto simp: raises_only_blank_def)
qed

section \<open>Concrete runs\<close>

text \<open>Runs of the handlers on a list of events, for the witnesses: every event has to be enabled.\<close>

fun gw_run :: "gw_env \<Rightarrow> gw_event list \<Rightarrow> gateway \<Rightarrow> gateway" where
  "gw_run e [] g = g"
| "gw_run e (ev # evs) g = gw_run e evs (fst (gw_handle e ev g))"

fun gw_runnable :: "gw_env \<Rightarrow> gw_event list \<Rightarrow> gateway \<Rightarrow> bool" where
  "gw_runnable e [] g = True"
| "gw_runnable e (ev # evs) g \<longleftrightarrow> gw_enabled ev g \<and> gw_runnable e evs (fst (gw_handle e ev g))"

lemma gw_step_handle: "gw_enabled ev g \<Longrightarrow> gw_step e g ev (snd (gw_handle e ev g)) (fst (gw_handle e ev g))"
  by (simp add: gw_step_iff)

lemma gw_run_reachable: "gw_reachable e g \<Longrightarrow> gw_runnable e evs g \<Longrightarrow> gw_reachable e (gw_run e evs g)"
proof (induction evs arbitrary: g)
  case (Cons ev evs)
  have "gw_next e g (fst (gw_handle e ev g))"
    using Cons.prems gw_step_handle [of ev g e] unfolding gw_next_def by auto
  then show ?case using Cons reach_next by fastforce
qed simp

fun broker_failure :: "gw_event \<Rightarrow> bool" where
  "broker_failure (ESubscribed n w (Some err)) = True"
| "broker_failure _ = False"

lemma gw_run_healthy:
  "reachable_from gw_online (gw_healthy e) g \<Longrightarrow> gw_runnable e evs g \<Longrightarrow> list_all (\<lambda>ev. \<not> broker_failure ev) evs \<Longrightarrow>
     reachable_from gw_online (gw_healthy e) (gw_run e evs g)"
proof (induction evs arbitrary: g)
  case (Cons ev evs)
  have "gw_healthy e g (fst (gw_handle e ev g))"
    using Cons.prems gw_step_handle [of ev g e] unfolding gw_healthy_def by fastforce
  then show ?case using Cons reach_next by fastforce
qed simp

text \<open>A gateway with one device, one service and two kinds of frames.\<close>

definition demo_token :: token_payload where
  "demo_token = \<lparr>tp_allowedSelectors = [''run''], tp_allowedServiceNames = [''svc''],
     tp_deviceId = ''d'', tp_userId = ''u''\<rparr>"

definition demo_parse :: "string \<Rightarrow> jv option" where
  "demo_parse s =
     (if s = ''run'' then Some (JObj [(''kind'', JStr ''packet''), (''service'', JStr ''svc''), (''subtopic'', JStr ''command''),
          (''envelope'', JObj [(''type'', JStr ''run''), (''payload'', JObj [(''requestId'', JStr ''r1'')])])])
      else if s = ''slash'' then Some (JObj [(''kind'', JStr ''packet''), (''service'', JStr ''svc''), (''subtopic'', JStr ''/''),
          (''envelope'', JObj [(''type'', JStr ''run'')])])
      else if s = ''reply'' then Some (JObj [(''type'', JStr ''done''), (''payload'', JObj [(''requestId'', JStr ''r1'')])])
      else None)"

definition demo_env :: gw_env where
  "demo_env = \<lparr>ge_query = (\<lambda>_ _. None),
     ge_verify = (\<lambda>t. if t = ''tok'' then Inr demo_token else Inl TokenRejected),
     ge_json_parse = demo_parse, ge_defaultDeviceId = ''default'', ge_rateLimit = defaultGatewayRateLimit\<rparr>"

definition demo_start :: gateway where
  "demo_start = \<lparr>clients = [], requestOwners = [], sessionOwners = [], clientRequests = [], clientSessions = [],
     lastKnownStatuses = [], inboundRateLimits = [], ready = (\<lambda>_. OPEN), listening = [], awaiting = [],
     mqtt = \<lparr>mq_client = True, subscriptionRefs = []\<rparr>\<rparr>"

definition demo_nonce :: "nat \<Rightarrow> nonce" where
  "demo_nonce _ = (''id'', ''now'')"

definition demo_join :: "ws \<Rightarrow> gw_event" where
  "demo_join w = EConnect (''id'', ''now'') None (OneHeader ''Bearer tok'') w"

definition demo_opening :: "gw_event list" where
  "demo_opening = [demo_join 0, ESubscribed (''id'', ''now'') 0 None, demo_join 1]"

definition demo_gateway :: gateway where
  "demo_gateway = gw_run demo_env demo_opening demo_start"

lemmas demo_defs = demo_token_def demo_parse_def demo_env_def demo_start_def demo_nonce_def demo_join_def
  demo_opening_def demo_gateway_def

lemma demo_opening_runs: "gw_runnable demo_env demo_opening demo_start"
  by code_simp

lemma demo_start_online: "gw_online demo_start"
  by (simp add: gw_online_def gw_init_def demo_start_def)

lemma demo_reachable: "gw_reachable demo_env demo_gateway"
  unfolding demo_gateway_def
  by (rule gw_run_reachable [OF reach_start demo_opening_runs]) (use demo_start_online gw_online_def in simp)

lemma demo_healthy: "reachable_from gw_online (gw_healthy demo_env) demo_gateway"
  unfolding demo_gateway_def
  by (rule gw_run_healthy [OF reach_start demo_opening_runs]) (simp_all add: demo_start_online demo_opening_def demo_join_def)

section \<open>Witnesses and failures\<close>

theorem gateway_device_isolation_witness:
  "SendPacket 1 (createPacket ''d'' (Some ''svc'') ''response'' [(''type'', JStr ''done''),
       (''payload'', JObj [(''requestId'', JStr ''r1'')])])
     \<in> set (snd (gw_handle demo_env (EMqttMessage ''trakrai/device/d/service/svc/response'' ''reply'') demo_gateway)) \<and>
   (\<exists>token t. ge_verify demo_env token = Inr t \<and> tp_deviceId t = ''d'')"
proof -
  let ?ev = "EMqttMessage ''trakrai/device/d/service/svc/response'' ''reply''"
  let ?p = "createPacket ''d'' (Some ''svc'') ''response'' [(''type'', JStr ''done''),
       (''payload'', JObj [(''requestId'', JStr ''r1'')])]"
  have sent: "SendPacket 1 ?p \<in> set (snd (gw_handle demo_env ?ev demo_gateway))" by code_simp
  have "gw_step demo_env demo_gateway ?ev (snd (gw_handle demo_env ?ev demo_gateway)) (fst (gw_handle demo_env ?ev demo_gateway))"
    by (rule gw_step_handle) simp
  from gateway_device_isolation [OF demo_reachable this sent]
  obtain token t where "ge_verify demo_env token = Inr t" "pk_deviceId ?p = tp_deviceId t" by blast
  moreover have "pk_deviceId ?p = ''d''" by (simp add: createPacket_def)
  ultimately show ?thesis using sent by metis
qed

definition demo_frame :: gw_event where
  "demo_frame = EMessage demo_nonce 1000 0 ''run''"

theorem gateway_publish_authority_witness:
  "\<exists>env. Mqtt (MqPublish ''trakrai/device/d/service/svc/command'' env) \<in> set (snd (gw_handle demo_env demo_frame demo_gateway)) \<and>
     (\<exists>token t. ge_verify demo_env token = Inr t \<and>
        starts_with (''trakrai/device/'' @ trim (tp_deviceId t) @ ''/'') ''trakrai/device/d/service/svc/command'')"
proof -
  let ?env = "[(''msgId'', JStr ''id''), (''payload'', JObj [(''requestId'', JStr ''r1'')]), (''timestamp'', JStr ''now''),
     (''type'', JStr ''run'')]"
  have sent: "Mqtt (MqPublish ''trakrai/device/d/service/svc/command'' ?env)
      \<in> set (snd (gw_handle demo_env demo_frame demo_gateway))" by code_simp
  have "gw_enabled demo_frame demo_gateway" by code_simp
  then have "gw_step demo_env demo_gateway demo_frame (snd (gw_handle demo_env demo_frame demo_gateway))
      (fst (gw_handle demo_env demo_frame demo_gateway))" by (rule gw_step_handle)
  from gateway_publish_authority [OF demo_reachable this sent] sent show ?thesis by metis
qed

definition demo_asked :: gateway where
  "demo_asked = gw_run demo_env (demo_opening @ [demo_frame]) demo_start"

lemma demo_asked_reachable: "gw_reachable demo_env demo_asked"
proof -
  have "gw_runnable demo_env (demo_opening @ [demo_frame]) demo_start" by code_simp
  then show ?thesis
    unfolding demo_asked_def
    by (intro gw_run_reachable reach_start) (use demo_start_online gw_online_def in simp_all)
qed



text \<open>
  The only exception a handler of the gateway lets escape is the missing subtopic of
  \<open>buildDeviceTopic\<close>, and the only event that causes it is a packet frame whose subtopic is made of
  slashes and white space. \<open>isPacketFrame\<close> accepts such a frame (it only requires a subtopic that
  is not blank), so the witness, a permitted client sending the subtopic \<open>/\<close>, raises in the message
  listener, where nothing catches it.
\<close>

theorem gateway_uncaught_exception:
  assumes "gw_step e g ev es g'" and "Uncaught z \<in> set es"
  shows "\<exists>sub. frame_subtopic e ev = Some sub \<and> (\<forall>x \<in> set (trim sub). x = CHR ''/'' \<or> js_space x)"
proof -
  from raises_step [OF assms] obtain sub where
    "frame_subtopic e ev = Some sub" "normalizeTopicSubtopic (trim sub) = []"
    by (auto simp: raises_only_blank_def)
  then show ?thesis using blank_subtopic_chars by blast
qed

theorem gateway_uncaught_exception_witness:
  "Uncaught SubtopicRequired \<in> set (snd (gw_handle demo_env (EMessage demo_nonce 1000 0 ''slash'') demo_gateway)) \<and>
   (\<exists>sub. frame_subtopic demo_env (EMessage demo_nonce 1000 0 ''slash'') = Some sub \<and>
      (\<forall>x \<in> set (trim sub). x = CHR ''/'' \<or> js_space x))"
proof -
  let ?ev = "EMessage demo_nonce 1000 0 ''slash''"
  have up: "Uncaught SubtopicRequired \<in> set (snd (gw_handle demo_env ?ev demo_gateway))" by code_simp
  have "gw_enabled ?ev demo_gateway" by code_simp
  from gateway_uncaught_exception [OF gw_step_handle [OF this] up] up show ?thesis by (rule conjI [rotated])
qed

text \<open>
  A request id shared by two clients loses its owner. When a second client registers a request
  id the first one used, the table names the second, but the first client's index still holds the
  id: when the first client leaves, the entry of the second, still connected, is deleted, so that
  the answer no longer goes to the client that asked alone.
\<close>

theorem gateway_lost_request_owner:
  assumes "w \<noteq> v" and "jget (clients g) v = Some c"
  shows "request_owner (registerRequestOwner v r (registerRequestOwner w r g)) r = Some v \<and>
    jget (clients (fst (cleanupClient w (registerRequestOwner v r (registerRequestOwner w r g))))) v = Some c \<and>
    request_owner (fst (cleanupClient w (registerRequestOwner v r (registerRequestOwner w r g)))) r = None"
proof -
  have "request_owner (fst (cleanupClient w h)) r = request_owner (clearClientRoutes w h) r" for h
    by (simp add: cleanupClient_def Let_def gateway_simps split: prod.splits)
  then show ?thesis using assms by (simp add: gateway_simps)
qed

theorem gateway_lost_request_owner_witness:
  "request_owner (fst (cleanupClient 0 (registerRequestOwner 1 ''r1'' (registerRequestOwner 0 ''r1'' demo_gateway)))) ''r1'' = None"
proof -
  have "jget (clients demo_gateway) 1 = Some (context_of_token demo_token)" by code_simp
  from gateway_lost_request_owner [OF _ this, of 0] show ?thesis by simp
qed

text \<open>
  A failed subscription breaks the sharing. The gateway forgets the reference count of the
  device but keeps the client, so a run exists in which the broker refuses the first subscription,
  a later one succeeds, and the close of the client whose subscription had failed makes the gateway
  unsubscribe from the device while two of its clients are still connected.
\<close>

theorem gateway_failed_subscription:
  "let evs = [demo_join 0, demo_join 1, ESubscribed (''id'', ''now'') 0 (Some ''refused''), demo_join 2,
              ESubscribed (''id'', ''now'') 2 None];
       g = gw_run demo_env evs demo_start;
       (g', es) = gw_handle demo_env (EClose 0) g
   in gw_runnable demo_env (evs @ [EClose 0]) demo_start \<and>
      Mqtt (MqUnsubscribe (subscribeTopicsForDevice ''d'')) \<in> set es \<and>
      device_clients g' ''d'' = 2"
  unfolding device_clients_def by code_simp

end
