(* ===== verification/Flow_Schema.thy ===== *)
theory Flow_Schema
  imports Js_Value
begin

text \<open>
  JSON Schemas of the workflow engine (\<open>packages/trakrai-apps/trakrai-workflow-core/src\<close>): the
  structural subset test of \<open>core/schema/schema-validator.ts\<close> and the value validator of
  \<open>core/runtime/schema-utils.ts\<close>. A schema is a boolean or an object with the keywords the code
  reads; a keyword that is absent is \<open>None\<close> (\<open>undefined\<close> for \<open>const\<close>), and reading a keyword of a
  boolean schema gives the same, as property access on a boolean does.
\<close>

section \<open>Schemas\<close>

datatype schema_type = TOne string | TMany "jv list"

datatype 'a items = ItemsOne 'a | ItemsMany "'a list"

datatype schema =
    is_SBool: SBool bool
  | Schema
      (s_ref: "string option")
      (s_anyOf: "schema list option")
      (s_oneOf: "schema list option")
      (s_allOf: "schema list option")
      (s_const: jv)
      (s_enum: "jv list option")
      (s_type: "schema_type option")
      (s_properties: "(string \<times> schema) list option")
      (s_required: "jv list option")
      (s_propertyNames: "schema option")
      (s_additionalProperties: "schema option")
      (s_items: "schema items option")
      (s_prefixItems: "schema list option")
      (s_hasDefault: bool)
  where
    "s_ref (SBool b) = None"
  | "s_anyOf (SBool b) = None"
  | "s_oneOf (SBool b) = None"
  | "s_allOf (SBool b) = None"
  | "s_const (SBool b) = JUndef"
  | "s_enum (SBool b) = None"
  | "s_type (SBool b) = None"
  | "s_properties (SBool b) = None"
  | "s_required (SBool b) = None"
  | "s_propertyNames (SBool b) = None"
  | "s_additionalProperties (SBool b) = None"
  | "s_items (SBool b) = None"
  | "s_prefixItems (SBool b) = None"
  | "s_hasDefault (SBool b) = False"

definition empty_schema :: schema where
  "empty_schema = Schema None None None None JUndef None None None None None None None None False"

lemma variant_size: "s_anyOf s = Some xs \<or> s_oneOf s = Some xs \<or> s_allOf s = Some xs \<or> s_prefixItems s = Some xs \<Longrightarrow>
    x \<in> set xs \<Longrightarrow> size x < size s"
  by (cases s) (auto dest!: size_list_estimation' [where f = size, OF _ order_refl])

lemma size_list_pair: "(k, x) \<in> set ps \<Longrightarrow> size x < size_list (size_prod f size) ps"
  for x :: schema
  by (induction ps) auto

lemma property_size: "s_properties s = Some ps \<Longrightarrow> (k, x) \<in> set ps \<Longrightarrow> size x < size s"
  by (cases s) (auto dest: size_list_pair [where f = "\<lambda>_. 0"] simp: less_SucI trans_less_add1 trans_less_add2)

lemma part_size:
  "s_propertyNames s = Some x \<Longrightarrow> size x < size s"
  "s_additionalProperties s = Some x \<Longrightarrow> size x < size s"
  "s_items s = Some (ItemsOne x) \<Longrightarrow> size x < size s"
  by (cases s; auto)+

lemma map_of_property_size: "s_properties s = Some ps \<Longrightarrow> map_of ps k = Some x \<Longrightarrow> size x < size s"
  by (auto dest: map_of_SomeD property_size)

section \<open>The subset test\<close>

text \<open>\<open>schema.anyOf ?? schema.oneOf\<close>\<close>

definition variants_of :: "schema \<Rightarrow> schema list option" where
  "variants_of s = (case s_anyOf s of Some xs \<Rightarrow> Some xs | None \<Rightarrow> s_oneOf s)"

lemma variants_size: "variants_of s = Some xs \<Longrightarrow> x \<in> set xs \<Longrightarrow> size x < size s"
  using variant_size [of s xs x] by (auto simp: variants_of_def split: option.splits)

definition typeof_is :: "schema_type option \<Rightarrow> jv \<Rightarrow> bool" where
  "typeof_is t v \<longleftrightarrow> t = Some (TOne (js_typeof v))"

text \<open>\<open>a.type === b.type\<close>: two strings compare by value, two arrays are different references.\<close>

fun same_type :: "schema_type option \<Rightarrow> schema_type option \<Rightarrow> bool" where
  "same_type None None = True"
| "same_type (Some (TOne x)) (Some (TOne y)) = (x = y)"
| "same_type _ _ = False"

definition has_type :: "string \<Rightarrow> schema \<Rightarrow> bool" where
  "has_type t s \<longleftrightarrow> s_type s = Some (TOne t)"

text \<open>The answers that come from \<open>const\<close> and \<open>enum\<close>; \<open>None\<close> when the test goes on.\<close>

definition literal_subset :: "schema \<Rightarrow> schema \<Rightarrow> bool option" where
  "literal_subset a b =
     (if s_const a \<noteq> JUndef \<and> s_const b \<noteq> JUndef then Some (strict_eq (s_const a) (s_const b))
      else if s_const a \<noteq> JUndef \<and> s_enum b \<noteq> None then Some (arr_includes (the (s_enum b)) (s_const a))
      else if s_const a \<noteq> JUndef \<and> s_type b \<noteq> None then Some (typeof_is (s_type b) (s_const a))
      else case s_enum a of
        None \<Rightarrow> None
      | Some es \<Rightarrow>
          (case s_enum b of
             Some fs \<Rightarrow> Some (list_all (\<lambda>v. arr_includes fs v) es)
           | None \<Rightarrow>
               if s_const b \<noteq> JUndef then Some False
               else if s_type b \<noteq> None then Some (list_all (typeof_is (s_type b)) es)
               else None))"

definition required_list :: "schema \<Rightarrow> jv list" where
  "required_list s = (case s_required s of None \<Rightarrow> [] | Some rs \<Rightarrow> rs)"

definition requires :: "schema \<Rightarrow> string \<Rightarrow> bool" where
  "requires s k \<longleftrightarrow> arr_includes (required_list s) (JStr k)"

function isJsonSchemaSubset :: "schema \<Rightarrow> schema \<Rightarrow> bool" where
  "isJsonSchemaSubset a b =
     (if is_SBool a \<and> is_SBool b then a = b
      else case variants_of a of
        Some opts \<Rightarrow> list_all (\<lambda>opt. isJsonSchemaSubset opt b) opts
      | None \<Rightarrow>
      (case variants_of b of
        Some opts \<Rightarrow> list_ex (\<lambda>opt. isJsonSchemaSubset a opt) opts
      | None \<Rightarrow>
      (case literal_subset a b of
        Some r \<Rightarrow> r
      | None \<Rightarrow>
        if s_enum b \<noteq> None \<or> s_const b \<noteq> JUndef then False
        else if s_type a \<noteq> None \<and> s_type b \<noteq> None \<and> \<not> same_type (s_type a) (s_type b) then False
        else if has_type ''object'' a \<and> has_type ''object'' b then
          (case (s_properties a, s_properties b) of
             (Some aProps, Some bProps) \<Rightarrow>
               list_all (\<lambda>(key, propB).
                 case map_of aProps key of
                   None \<Rightarrow> \<not> requires b key
                 | Some propA \<Rightarrow> \<not> (requires b key \<and> \<not> requires a key) \<and> isJsonSchemaSubset propA propB) bProps
           | _ \<Rightarrow>
               if s_properties b = None \<and> s_propertyNames b = None \<and> s_additionalProperties b = None then True
               else (case (s_propertyNames a, s_propertyNames b, s_additionalProperties a, s_additionalProperties b) of
                 (Some na, Some nb, Some da, Some db) \<Rightarrow> isJsonSchemaSubset na nb \<and> isJsonSchemaSubset da db
               | _ \<Rightarrow> False))
        else if has_type ''array'' a \<and> has_type ''array'' b then
          (case (s_items a, s_items b) of
             (Some (ItemsOne ia), Some (ItemsOne ib)) \<Rightarrow> isJsonSchemaSubset ia ib
           | _ \<Rightarrow> False)
        else if same_type (s_type a) (s_type b) then True
        else s_type b = None \<and> s_properties b = None)))"
  by pat_completeness auto
termination
  by (relation "measure (\<lambda>(a, b). size a + size b)")
    (auto intro!: add_less_mono dest: variants_size [rotated] map_of_property_size [OF sym] property_size [OF sym]
      part_size [OF sym])

declare isJsonSchemaSubset.simps [simp del]

section \<open>Validating a value\<close>

datatype path_segment = PKey string | PIndex nat

type_synonym schema_path = "path_segment list"

datatype schema_problem =
    NotAllowed
  | UnresolvedReference string
  | NotExactlyOneOption
  | NoOptionMatched
  | ExpectedConst jv
  | ExpectedOneOf "jv list"
  | ExpectedType "string list" string
  | ExpectedItems nat
  | ExpectedArray string
  | ExpectedObject string
  | IsRequired

type_synonym schema_error = "schema_path \<times> schema_problem"

text \<open>A validation that returned: \<open>None\<close> is the code's \<open>null\<close>, no error.\<close>

type_synonym verdict = "schema_error option"

type_synonym schema_defs = "(string \<times> schema) list option"

definition buildSchemaError :: "schema_path \<Rightarrow> schema_problem \<Rightarrow> verdict" where
  "buildSchemaError path problem = Some (path, problem)"

definition pathForKey :: "schema_path \<Rightarrow> string \<Rightarrow> schema_path" where
  "pathForKey path key = path @ [PKey key]"

definition pathForIndex :: "schema_path \<Rightarrow> nat \<Rightarrow> schema_path" where
  "pathForIndex path i = path @ [PIndex i]"

fun describeValue :: "jv \<Rightarrow> string" where
  "describeValue JNull = ''null''"
| "describeValue (JArr _) = ''array''"
| "describeValue v = js_typeof v"

definition normalizeRequired :: "jv list option \<Rightarrow> string list option" where
  "normalizeRequired required =
     (case required of None \<Rightarrow> None
      | Some items \<Rightarrow> (let entries = List.map_filter as_string items in if entries \<noteq> [] then Some entries else None))"

definition normalizeProperties :: "(string \<times> schema) list option \<Rightarrow> (string \<times> schema) list" where
  "normalizeProperties ps = (case ps of None \<Rightarrow> [] | Some xs \<Rightarrow> xs)"

fun isPlainObject :: "jv \<Rightarrow> bool" where
  "isPlainObject (JObj _) = True"
| "isPlainObject _ = False"

definition matchesPrimitiveType :: "jv \<Rightarrow> string \<Rightarrow> bool" where
  "matchesPrimitiveType value expected =
     (if expected = ''string'' then js_typeof value = ''string''
      else if expected = ''number'' then (case value of JNum n \<Rightarrow> is_finite_num n | _ \<Rightarrow> False)
      else if expected = ''integer'' then (case value of JNum n \<Rightarrow> is_integer_num n | _ \<Rightarrow> False)
      else if expected = ''boolean'' then js_typeof value = ''boolean''
      else if expected = ''null'' then value = JNull
      else if expected = ''array'' then (case value of JArr _ \<Rightarrow> True | _ \<Rightarrow> False)
      else if expected = ''object'' then isPlainObject value
      else True)"

text \<open>\<open>Array.isArray(schema.type) ? [...schema.type] : [schema.type]\<close>, the strings of it.\<close>

fun allowed_types :: "schema_type \<Rightarrow> string list" where
  "allowed_types (TOne t) = [t]"
| "allowed_types (TMany ts) = List.map_filter as_string ts"

definition ref_name :: "string \<Rightarrow> string" where
  "ref_name r = (if starts_with ''#/$defs/'' r then drop 8 r else r)"

text \<open>The first error of a sequence of validations; \<open>None\<close> when one of them does not return.\<close>

fun first_error :: "('a \<Rightarrow> verdict option) \<Rightarrow> 'a list \<Rightarrow> verdict option" where
  "first_error f [] = Some None"
| "first_error f (x # xs) =
     (case f x of None \<Rightarrow> None | Some (Some e) \<Rightarrow> Some (Some e) | Some None \<Rightarrow> first_error f xs)"

text \<open>How many validations of a list succeed.\<close>

fun count_valid :: "('a \<Rightarrow> verdict option) \<Rightarrow> 'a list \<Rightarrow> nat option" where
  "count_valid f [] = Some 0"
| "count_valid f (x # xs) =
     (case (f x, count_valid f xs) of (Some None, Some n) \<Rightarrow> Some (Suc n) | (Some (Some _), Some n) \<Rightarrow> Some n | _ \<Rightarrow> None)"

definition and_then :: "verdict option \<Rightarrow> verdict option \<Rightarrow> verdict option" where
  "and_then r s = (case r of Some None \<Rightarrow> s | _ \<Rightarrow> r)"

text \<open>\<open>validateArrayItems\<close> and \<open>validateObjectShape\<close>, over the validator they call back.\<close>

definition validateArrayItems ::
  "(schema \<Rightarrow> jv \<Rightarrow> schema_path \<Rightarrow> verdict option) \<Rightarrow> schema \<Rightarrow> jv list \<Rightarrow> schema_path \<Rightarrow> verdict option" where
  "validateArrayItems validate schema value path =
     and_then
       (case s_prefixItems schema of
          None \<Rightarrow> Some None
        | Some leading \<Rightarrow>
            if length value < length leading then Some (buildSchemaError path (ExpectedItems (length leading)))
            else first_error (\<lambda>(i, item). validate item (value ! i) (pathForIndex path i)) (enumerate 0 leading))
       (case s_items schema of
          Some (ItemsOne item) \<Rightarrow>
            first_error (\<lambda>(i, v). validate item v (pathForIndex path i)) (enumerate 0 value)
        | _ \<Rightarrow> Some None)"

definition additional_check ::
  "(schema \<Rightarrow> jv \<Rightarrow> schema_path \<Rightarrow> verdict option) \<Rightarrow> schema \<Rightarrow> jv \<Rightarrow> schema_path \<Rightarrow> verdict option" where
  "additional_check validate schema v path =
     (case s_additionalProperties schema of
        None \<Rightarrow> Some None
      | Some (SBool b) \<Rightarrow> Some (if b then None else buildSchemaError path NotAllowed)
      | Some additional \<Rightarrow> validate additional v path)"

text \<open>What the loop over the entries of the value does with one of them.\<close>

definition entry_check ::
  "(schema \<Rightarrow> jv \<Rightarrow> schema_path \<Rightarrow> verdict option) \<Rightarrow> schema \<Rightarrow> schema_path \<Rightarrow> string \<times> jv \<Rightarrow> verdict option" where
  "entry_check validate schema path entry =
     (let path' = pathForKey path (fst entry) in
      case map_of (normalizeProperties (s_properties schema)) (fst entry) of
        Some propertySchema \<Rightarrow> validate propertySchema (snd entry) path'
      | None \<Rightarrow>
          and_then
            (case s_propertyNames schema of None \<Rightarrow> Some None | Some names \<Rightarrow> validate names (JStr (fst entry)) path')
            (additional_check validate schema (snd entry) path'))"

definition required_keys :: "schema \<Rightarrow> string list" where
  "required_keys schema = jset_of (case normalizeRequired (s_required schema) of None \<Rightarrow> [] | Some rs \<Rightarrow> rs)"

definition validateObjectShape ::
  "(schema \<Rightarrow> jv \<Rightarrow> schema_path \<Rightarrow> verdict option) \<Rightarrow> schema \<Rightarrow> jobject \<Rightarrow> schema_path \<Rightarrow> verdict option" where
  "validateObjectShape validate schema value path =
     and_then
       (first_error (\<lambda>key. Some (if obj_in key value then None else buildSchemaError (pathForKey path key) IsRequired))
         (required_keys schema))
       (first_error (entry_check validate schema path) value)"

text \<open>The checks on \<open>const\<close>, \<open>enum\<close> and \<open>type\<close>.\<close>

definition literal_checks :: "schema \<Rightarrow> jv \<Rightarrow> schema_path \<Rightarrow> verdict" where
  "literal_checks schema value path =
     (if s_const schema \<noteq> JUndef \<and> \<not> strict_eq value (s_const schema)
      then buildSchemaError path (ExpectedConst (s_const schema))
      else if (case s_enum schema of None \<Rightarrow> False | Some es \<Rightarrow> \<not> list_ex (\<lambda>e. object_is e value) es)
      then buildSchemaError path (ExpectedOneOf (the (s_enum schema)))
      else case s_type schema of
        None \<Rightarrow> None
      | Some t \<Rightarrow> if list_ex (matchesPrimitiveType value) (allowed_types t) then None
                  else buildSchemaError path (ExpectedType (allowed_types t) (describeValue value)))"

text \<open>The checks on the shape of an array, an object or a primitive value.\<close>

definition shape_checks ::
  "(schema \<Rightarrow> jv \<Rightarrow> schema_path \<Rightarrow> verdict option) \<Rightarrow> schema \<Rightarrow> jv \<Rightarrow> schema_path \<Rightarrow> verdict option" where
  "shape_checks validate schema value path =
     (case value of
        JArr xs \<Rightarrow> validateArrayItems validate schema xs path
      | _ \<Rightarrow>
          if s_items schema \<noteq> None \<or> s_prefixItems schema \<noteq> None
          then Some (buildSchemaError path (ExpectedArray (describeValue value)))
          else case value of
            JObj ps \<Rightarrow> validateObjectShape validate schema ps path
          | _ \<Rightarrow>
              Some (if s_properties schema \<noteq> None \<or> s_required schema \<noteq> None \<or>
                       s_additionalProperties schema \<noteq> None \<or> s_propertyNames schema \<noteq> None
                    then buildSchemaError path (ExpectedObject (describeValue value)) else None))"

definition all_of :: "schema \<Rightarrow> schema list" where
  "all_of schema = (case s_allOf schema of None \<Rightarrow> [] | Some parts \<Rightarrow> parts)"

text \<open>
  \<open>validateJsonSchemaValue\<close>. A reference (\<open>$ref\<close>) makes the recursion follow the definitions, which
  need not be well-founded, so the model takes fuel: \<open>None\<close> is a call that did not return.
\<close>

primrec validateJsonSchemaValue :: "nat \<Rightarrow> schema_defs \<Rightarrow> schema \<Rightarrow> jv \<Rightarrow> schema_path \<Rightarrow> verdict option" where
  "validateJsonSchemaValue 0 defs schema value path = None"
| "validateJsonSchemaValue (Suc fuel) defs schema value path =
     (case schema of SBool b \<Rightarrow> Some (if b then None else buildSchemaError path NotAllowed) | _ \<Rightarrow>
     (case s_ref schema of
        Some r \<Rightarrow>
          (case Option.bind defs (\<lambda>ds. map_of ds (ref_name r)) of
             None \<Rightarrow> Some (buildSchemaError path (UnresolvedReference r))
           | Some target \<Rightarrow> validateJsonSchemaValue fuel defs target value path)
      | None \<Rightarrow>
     (case variants_of schema of
        Some variants \<Rightarrow>
          (case count_valid (\<lambda>variant. validateJsonSchemaValue fuel defs variant value path) variants of
             None \<Rightarrow> None
           | Some n \<Rightarrow>
               Some (if s_oneOf schema \<noteq> None
                     then (if n = 1 then None else buildSchemaError path NotExactlyOneOption)
                     else (if n > 0 then None else buildSchemaError path NoOptionMatched)))
      | None \<Rightarrow>
          and_then (first_error (\<lambda>part. validateJsonSchemaValue fuel defs part value path) (all_of schema))
            (and_then (Some (literal_checks schema value path))
              (shape_checks (validateJsonSchemaValue fuel defs) schema value path)))))"

lemma validate_step:
  "\<not> is_SBool s \<Longrightarrow> s_ref s = None \<Longrightarrow> variants_of s = None \<Longrightarrow> validateJsonSchemaValue (Suc n) defs s v p =
     and_then (first_error (\<lambda>part. validateJsonSchemaValue n defs part v p) (all_of s))
       (and_then (Some (literal_checks s v p)) (shape_checks (validateJsonSchemaValue n defs) s v p))"
  by (cases s) simp_all

lemma validate_variants:
  "\<not> is_SBool s \<Longrightarrow> s_ref s = None \<Longrightarrow> variants_of s = Some vs \<Longrightarrow> validateJsonSchemaValue (Suc n) defs s v p =
     (case count_valid (\<lambda>variant. validateJsonSchemaValue n defs variant v p) vs of
        None \<Rightarrow> None
      | Some k \<Rightarrow> Some (if s_oneOf s \<noteq> None then (if k = 1 then None else buildSchemaError p NotExactlyOneOption)
                       else (if k > 0 then None else buildSchemaError p NoOptionMatched)))"
  by (cases s) (simp_all split: option.splits)

lemma validate_bool: "validateJsonSchemaValue (Suc n) defs (SBool b) v p = Some (if b then None else buildSchemaError p NotAllowed)"
  by simp

lemma validate_ref:
  "\<not> is_SBool s \<Longrightarrow> s_ref s = Some r \<Longrightarrow> validateJsonSchemaValue (Suc n) defs s v p =
     (case Option.bind defs (\<lambda>ds. map_of ds (ref_name r)) of
        None \<Rightarrow> Some (buildSchemaError p (UnresolvedReference r))
      | Some target \<Rightarrow> validateJsonSchemaValue n defs target v p)"
  by (cases s) simp_all

declare validateJsonSchemaValue.simps(2) [simp del]

end
