(* ===== verification/Flow_Graph.thy ===== *)
theory Flow_Graph
  imports Js_Value
begin

text \<open>
  The workflow graph (\<open>trakrai-workflow-core/src/types.ts\<close>, \<open>core/utils/index.ts\<close> and the graph
  algorithms of \<open>core/validation/workflow-validator.ts\<close>): nodes, edges and handles, the dependency
  map, the depth-first search that refuses cycles, and the map of asynchronous barriers. A node's
  \<open>data.configuration\<close> and an edge's \<open>data.configuration\<close> are values, \<open>undefined\<close> when absent;
  a handle that is missing or \<open>null\<close> is \<open>None\<close>.
\<close>

section \<open>Nodes, edges and handles\<close>

record flow_node =
  nd_id :: string
  nd_type :: "string option"
  nd_configuration :: jv

record flow_edge =
  ed_id :: string
  ed_source :: string
  ed_target :: string
  ed_sourceHandle :: "string option"
  ed_targetHandle :: "string option"
  ed_configuration :: jv

record dependency_info =
  sourceNodeId :: string
  sourceHandle :: string
  targetHandle :: string
  conditional :: jv

datatype execution_result = ExecOk jv | ExecFailed string

definition TriggerHandle :: string where "TriggerHandle = ''trigger''"

definition ExecutionSuccessHandle :: string where "ExecutionSuccessHandle = ''__executionSuccess__''"

definition buildNodeEventId :: "string \<Rightarrow> string \<Rightarrow> string" where
  "buildNodeEventId nodeId eventName = nodeId @ ''###'' @ eventName"

definition isExecutionSuccessHandle :: "string option \<Rightarrow> bool" where
  "isExecutionSuccessHandle h \<longleftrightarrow> h = Some ExecutionSuccessHandle"

text \<open>
  \<open>isEventHandle\<close>: the event name and the property of an event handle. The second part is the text
  up to a further separator, as \<open>split('###')[1]\<close> is.
\<close>

definition isEventHandle :: "string \<Rightarrow> (string \<times> string) option" where
  "isEventHandle handleId =
     (case cut_first ''###'' handleId of
        None \<Rightarrow> None
      | Some (eventName, rest) \<Rightarrow>
          let eventHandle = hd (js_split ''###'' rest) in
          if eventName = [] \<or> eventHandle = [] then None else Some (eventName, eventHandle))"

text \<open>Where the value of a dependency is read: the result it comes from and the key in it.\<close>

definition dependency_source :: "dependency_info \<Rightarrow> string \<times> string" where
  "dependency_source dep =
     (case isEventHandle (sourceHandle dep) of
        Some (eventName, eventHandle) \<Rightarrow> (buildNodeEventId (sourceNodeId dep) eventName, eventHandle)
      | None \<Rightarrow> (sourceNodeId dep, sourceHandle dep))"

definition configuration_of :: "flow_node \<Rightarrow> jobject" where
  "configuration_of node = (case nd_configuration node of JObj ps \<Rightarrow> ps | _ \<Rightarrow> [])"

text \<open>One step of the loop of \<open>buildNodeInput\<close>.\<close>

definition add_dependency_input ::
  "(string, execution_result) jmap \<Rightarrow> dependency_info \<Rightarrow> jobject \<Rightarrow> jobject" where
  "add_dependency_input resultMap dep input =
     (if targetHandle dep = TriggerHandle then input
      else let (resultId, sourceKey) = dependency_source dep in
        case jget resultMap resultId of
          Some (ExecOk (JObj record)) \<Rightarrow>
            if obj_in sourceKey record then jset (targetHandle dep) (obj_get record sourceKey) input else input
        | _ \<Rightarrow> input)"

definition buildNodeInput ::
  "flow_node \<Rightarrow> dependency_info list \<Rightarrow> (string, execution_result) jmap \<Rightarrow> jobject" where
  "buildNodeInput node dependencies resultMap =
     fold (add_dependency_input resultMap) dependencies (configuration_of node)"

section \<open>The dependency map\<close>

type_synonym dependency_map = "(string, dependency_info list) jmap"

definition or_empty :: "string option \<Rightarrow> string" where
  "or_empty h = (case h of None \<Rightarrow> [] | Some s \<Rightarrow> s)"

definition dependency_of :: "flow_edge \<Rightarrow> dependency_info" where
  "dependency_of edge =
     \<lparr>sourceNodeId = ed_source edge, sourceHandle = or_empty (ed_sourceHandle edge),
      targetHandle = or_empty (ed_targetHandle edge),
      conditional = (if ed_targetHandle edge = Some TriggerHandle then ed_configuration edge else JUndef)\<rparr>"

definition deps_of :: "dependency_map \<Rightarrow> string \<Rightarrow> dependency_info list" where
  "deps_of m n = (case jget m n of None \<Rightarrow> [] | Some ds \<Rightarrow> ds)"

definition buildDependencyMap :: "flow_node list \<Rightarrow> flow_edge list \<Rightarrow> dependency_map" where
  "buildDependencyMap nodes edges =
     fold (\<lambda>edge m. jset (ed_target edge) (deps_of m (ed_target edge) @ [dependency_of edge]) m) edges
       (fold (\<lambda>node m. jset (nd_id node) [] m) nodes [])"

lemma deps_of_jset: "deps_of (jset k ds m) n = (if n = k then ds else deps_of m n)"
  by (simp add: deps_of_def)

lemma deps_of_edges:
  "deps_of (fold (\<lambda>edge m. jset (ed_target edge) (deps_of m (ed_target edge) @ [dependency_of edge]) m) edges m) n =
     deps_of m n @ map dependency_of (filter (\<lambda>edge. ed_target edge = n) edges)"
  by (induction edges arbitrary: m) (auto simp: deps_of_jset)

lemma deps_of_nodes: "deps_of m n = [] \<Longrightarrow> deps_of (fold (\<lambda>node m. jset (nd_id node) [] m) nodes m) n = []"
  by (induction nodes arbitrary: m) (auto simp: deps_of_jset)

text \<open>The dependencies of a node are those of the edges into it, in the order of the edges.\<close>

lemma deps_of_build:
  "deps_of (buildDependencyMap nodes edges) n = map dependency_of (filter (\<lambda>edge. ed_target edge = n) edges)"
  unfolding buildDependencyMap_def deps_of_edges
  using deps_of_nodes [of "[]" n nodes] by (simp add: deps_of_def)

section \<open>Cycle detection\<close>

text \<open>
  \<open>visit\<close> of \<open>topologicalSort\<close>, with the sets \<open>visiting\<close> and \<open>visited\<close> passed along: \<open>Inl\<close> the node
  at which the cycle was found, \<open>Inr\<close> the nodes visited so far.
\<close>

function visit :: "dependency_map \<Rightarrow> string list \<Rightarrow> string list \<Rightarrow> string \<Rightarrow> string + string list"
  and visit_all :: "dependency_map \<Rightarrow> string list \<Rightarrow> string list \<Rightarrow> dependency_info list \<Rightarrow> string + string list" where
  "visit m visiting visited n =
     (if n \<in> set visited then Inr visited
      else if n \<in> set visiting then Inl n
      else case visit_all m (n # visiting) visited (deps_of m n) of
        Inl c \<Rightarrow> Inl c
      | Inr visited' \<Rightarrow> Inr (n # visited'))"
| "visit_all m visiting visited [] = Inr visited"
| "visit_all m visiting visited (dep # deps) =
     (case visit m visiting visited (sourceNodeId dep) of
        Inl c \<Rightarrow> Inl c
      | Inr visited' \<Rightarrow> visit_all m visiting visited' deps)"
  by pat_completeness auto
termination
proof (relation "inv_image (less_than <*lex*> less_than)
    (\<lambda>x. case x of Inl (m, visiting, visited, n) \<Rightarrow> (card (set (jkeys m) - set visiting), 1)
                 | Inr (m, visiting, visited, ds) \<Rightarrow> (card (set (jkeys m) - set visiting), 2 * length ds))", goal_cases)
  case (2 m visiting visited n)
  show ?case
  proof (cases "n \<in> set (jkeys m)")
    case True
    have "set (jkeys m) - set (n # visiting) \<subset> set (jkeys m) - set visiting" using True 2 by auto
    then have "card (set (jkeys m) - set (n # visiting)) < card (set (jkeys m) - set visiting)"
      by (intro psubset_card_mono) auto
    then show ?thesis by simp
  next
    case False
    then have "deps_of m n = []" by (simp add: deps_of_def map_of_eq_None_iff [THEN iffD2] split: option.splits)
    moreover have "set (jkeys m) - set (n # visiting) = set (jkeys m) - set visiting" using False by auto
    ultimately show ?thesis by simp
  qed
qed auto

declare visit.simps [simp del]

fun visit_nodes :: "dependency_map \<Rightarrow> string list \<Rightarrow> flow_node list \<Rightarrow> string + string list" where
  "visit_nodes m visited [] = Inr visited"
| "visit_nodes m visited (node # nodes) =
     (case visit m [] visited (nd_id node) of Inl c \<Rightarrow> Inl c | Inr visited' \<Rightarrow> visit_nodes m visited' nodes)"

definition topologicalSort :: "flow_node list \<Rightarrow> flow_edge list \<Rightarrow> string + dependency_map" where
  "topologicalSort nodes edges =
     (let m = buildDependencyMap nodes edges in
      case visit_nodes m [] nodes of Inl c \<Rightarrow> Inl c | Inr _ \<Rightarrow> Inr m)"

text \<open>The edges of the dependency map, from a node to the nodes it depends on.\<close>

definition dep_rel :: "dependency_map \<Rightarrow> (string \<times> string) set" where
  "dep_rel m = {(n, sourceNodeId d) | n d. d \<in> set (deps_of m n)}"

text \<open>A set of nodes that is closed under dependencies and on no cycle.\<close>

definition settled :: "dependency_map \<Rightarrow> string set \<Rightarrow> bool" where
  "settled m V \<longleftrightarrow> (\<forall>n \<in> V. \<forall>u. (n, u) \<in> dep_rel m \<longrightarrow> u \<in> V) \<and> (\<forall>n \<in> V. (n, n) \<notin> (dep_rel m)\<^sup>+)"

lemma settled_closed: "settled m V \<Longrightarrow> n \<in> V \<Longrightarrow> (n, u) \<in> (dep_rel m)\<^sup>* \<Longrightarrow> u \<in> V"
  by (rotate_tac -1, induction rule: rtrancl_induct) (auto simp: settled_def)

lemma settled_insert:
  assumes V: "settled m V" and succ: "\<And>u. (n, u) \<in> dep_rel m \<Longrightarrow> u \<in> V"
  shows "settled m (insert n V)"
proof -
  have "(n, n) \<notin> (dep_rel m)\<^sup>+"
  proof
    assume "(n, n) \<in> (dep_rel m)\<^sup>+"
    then obtain u where u: "(n, u) \<in> dep_rel m" "(u, n) \<in> (dep_rel m)\<^sup>*" by (auto dest: tranclD)
    then have "n \<in> V" using succ settled_closed [OF V] by blast
    then show False using V \<open>(n, n) \<in> (dep_rel m)\<^sup>+\<close> by (simp add: settled_def)
  qed
  then show ?thesis using V succ by (auto simp: settled_def)
qed

text \<open>What a visit guarantees, for a stack of nodes that all reach the node visited.\<close>

definition visit_spec :: "dependency_map \<Rightarrow> string list \<Rightarrow> string list \<Rightarrow> string set \<Rightarrow> string + string list \<Rightarrow> bool" where
  "visit_spec m visiting visited goals r \<longleftrightarrow>
     settled m (set visited) \<longrightarrow>
     (case r of
        Inl c \<Rightarrow> (c, c) \<in> (dep_rel m)\<^sup>+ \<and> (\<exists>g \<in> goals. (g, c) \<in> (dep_rel m)\<^sup>*)
      | Inr V \<Rightarrow> set visited \<subseteq> set V \<and> goals \<subseteq> set V \<and> settled m (set V))"

lemma visit_correct:
  "(\<forall>x \<in> set visiting. (x, n) \<in> (dep_rel m)\<^sup>+) \<Longrightarrow> visit_spec m visiting visited {n} (visit m visiting visited n)"
  "(\<forall>x \<in> set visiting. \<forall>d \<in> set ds. (x, sourceNodeId d) \<in> (dep_rel m)\<^sup>+) \<Longrightarrow>
     visit_spec m visiting visited (sourceNodeId ` set ds) (visit_all m visiting visited ds)"
proof (induction m visiting visited n and m visiting visited ds rule: visit_visit_all.induct)
  case (1 m visiting visited n)
  show ?case
  proof (cases "n \<in> set visited")
    case True
    then show ?thesis by (simp add: visit.simps visit_spec_def)
  next
    case new: False
    show ?thesis
    proof (cases "n \<in> set visiting")
      case True
      then show ?thesis using new "1.prems" by (auto simp: visit.simps [of m visiting visited n] visit_spec_def)
    next
      case False
      have succ: "(n, sourceNodeId d) \<in> dep_rel m" if "d \<in> set (deps_of m n)" for d
        using that by (auto simp: dep_rel_def)
      have "\<forall>x \<in> set (n # visiting). \<forall>d \<in> set (deps_of m n). (x, sourceNodeId d) \<in> (dep_rel m)\<^sup>+"
        using "1.prems" succ by (auto intro: trancl_into_trancl)
      note ih = "1.IH" [OF new False this]
      show ?thesis
      proof (cases "visit_all m (n # visiting) visited (deps_of m n)")
        case (Inl c)
        then show ?thesis using ih new False succ
          by (auto simp: visit.simps [of m visiting visited n] visit_spec_def intro: converse_rtrancl_into_rtrancl)
      next
        case (Inr V)
        have "settled m (insert n (set V))" if "settled m (set visited)"
          using ih Inr that by (intro settled_insert) (auto simp: visit_spec_def dep_rel_def)
        then show ?thesis using ih Inr new False
          by (auto simp: visit.simps [of m visiting visited n] visit_spec_def)
      qed
    qed
  qed
next
  case (3 m visiting visited d ds)
  then show ?case by (auto simp: visit_spec_def split: sum.splits)
qed (simp add: visit_spec_def)

lemma visit_nodes_correct:
  "visit_spec m [] visited (nd_id ` set nodes) (visit_nodes m visited nodes)"
proof (induction nodes arbitrary: visited)
  case (Cons node nodes)
  have "visit_spec m [] visited {nd_id node} (visit m [] visited (nd_id node))"
    by (rule visit_correct) simp
  then show ?case
    using Cons.IH by (cases "visit m [] visited (nd_id node)") (fastforce simp: visit_spec_def split: sum.splits)+
qed (simp add: visit_spec_def)

text \<open>The dependency relation of a workflow graph.\<close>

definition flow_rel :: "flow_edge list \<Rightarrow> (string \<times> string) set" where
  "flow_rel edges = {(ed_target edge, ed_source edge) | edge. edge \<in> set edges}"

lemma dep_rel_build: "dep_rel (buildDependencyMap nodes edges) = flow_rel edges"
proof -
  have "(n, u) \<in> dep_rel (buildDependencyMap nodes edges) \<longleftrightarrow> (n, u) \<in> flow_rel edges" for n u
  proof -
    have "(n, u) \<in> dep_rel (buildDependencyMap nodes edges) \<longleftrightarrow>
        u \<in> sourceNodeId ` set (deps_of (buildDependencyMap nodes edges) n)" by (auto simp: dep_rel_def)
    also have "\<dots> \<longleftrightarrow> u \<in> ed_source ` {edge \<in> set edges. ed_target edge = n}"
      by (simp add: deps_of_build image_image dependency_of_def)
    finally show ?thesis by (auto simp: flow_rel_def)
  qed
  then show ?thesis by auto
qed

section \<open>Asynchronous barriers\<close>

text \<open>
  The walk of \<open>buildAsyncDependencyMap\<close> with its call stack made explicit: the dependencies still to
  be looked at, those of the innermost call first.
\<close>

definition is_async :: "(string, string) jmap \<Rightarrow> string list \<Rightarrow> string \<Rightarrow> bool" where
  "is_async types asyncTypes n = (case jget types n of None \<Rightarrow> False | Some t \<Rightarrow> t \<in> set asyncTypes)"

function async_walk ::
  "dependency_map \<Rightarrow> (string \<Rightarrow> bool) \<Rightarrow> string list \<Rightarrow> string list \<Rightarrow> dependency_info list \<Rightarrow> string list" where
  "async_walk m async visited barriers [] = barriers"
| "async_walk m async visited barriers (dep # todo) =
     (if async (sourceNodeId dep) then async_walk m async visited (jadd (sourceNodeId dep) barriers) todo
      else if sourceNodeId dep \<in> set visited then async_walk m async visited barriers todo
      else async_walk m async (sourceNodeId dep # visited) barriers (deps_of m (sourceNodeId dep) @ todo))"
  by pat_completeness auto
termination
proof (relation "inv_image (less_than <*lex*> less_than)
    (\<lambda>(m, async, visited, barriers, todo). (card (set (jkeys m) - set visited), length todo))", goal_cases)
  case (4 m async visited barriers dep todo)
  let ?n = "sourceNodeId dep"
  show ?case
  proof (cases "?n \<in> set (jkeys m)")
    case True
    have "set (jkeys m) - set (?n # visited) \<subset> set (jkeys m) - set visited" using True 4 by auto
    then have "card (set (jkeys m) - set (?n # visited)) < card (set (jkeys m) - set visited)"
      by (intro psubset_card_mono) auto
    then show ?thesis by simp
  next
    case False
    then have "deps_of m ?n = []" by (simp add: deps_of_def map_of_eq_None_iff [THEN iffD2] split: option.splits)
    moreover have "set (jkeys m) - set (?n # visited) = set (jkeys m) - set visited" using False by auto
    ultimately show ?thesis by simp
  qed
qed auto

definition node_types :: "flow_node list \<Rightarrow> (string, string) jmap" where
  "node_types nodes = fold (\<lambda>node m. case nd_type node of None \<Rightarrow> m | Some t \<Rightarrow> jset (nd_id node) t m) nodes []"

definition async_barriers :: "dependency_map \<Rightarrow> (string \<Rightarrow> bool) \<Rightarrow> string \<Rightarrow> string list" where
  "async_barriers m async n = async_walk m async [n] [] (deps_of m n)"

definition buildAsyncDependencyMap ::
  "flow_node list \<Rightarrow> dependency_map \<Rightarrow> string list \<Rightarrow> (string, string list) jmap" where
  "buildAsyncDependencyMap nodes m asyncTypes =
     fold (\<lambda>node r. jset (nd_id node) (async_barriers m (is_async (node_types nodes) asyncTypes) (nd_id node)) r) nodes []"

text \<open>The synchronous part of the dependency relation, which the walk follows.\<close>

definition sync_rel :: "dependency_map \<Rightarrow> (string \<Rightarrow> bool) \<Rightarrow> (string \<times> string) set" where
  "sync_rel m async = {(n, u) \<in> dep_rel m. \<not> async u}"

text \<open>The walk from a set of dependencies finds exactly the barriers that are reached over synchronous nodes.\<close>

definition barrier_of :: "dependency_map \<Rightarrow> (string \<Rightarrow> bool) \<Rightarrow> string \<Rightarrow> string \<Rightarrow> bool" where
  "barrier_of m async n b \<longleftrightarrow> async b \<and> (\<exists>u. (n, u) \<in> (sync_rel m async)\<^sup>* \<and> (u, b) \<in> dep_rel m)"

lemma barrier_step: "(n, u) \<in> sync_rel m async \<Longrightarrow> barrier_of m async u b \<Longrightarrow> barrier_of m async n b"
  by (auto simp: barrier_of_def intro: converse_rtrancl_into_rtrancl)

text \<open>
  While the walk runs: the barriers found are barriers of the start node, the dependencies still to
  be looked at belong to nodes the start reaches, and every dependency of a visited node has been
  looked at or is still to be.
\<close>

definition walk_inv ::
  "dependency_map \<Rightarrow> (string \<Rightarrow> bool) \<Rightarrow> string \<Rightarrow> string list \<Rightarrow> string list \<Rightarrow> dependency_info list \<Rightarrow> bool" where
  "walk_inv m async n visited barriers todo \<longleftrightarrow>
     n \<in> set visited \<and> (\<forall>b \<in> set barriers. barrier_of m async n b) \<and>
     (\<forall>u \<in> set visited. (n, u) \<in> (sync_rel m async)\<^sup>*) \<and>
     (\<forall>d \<in> set todo. \<exists>u. (n, u) \<in> (sync_rel m async)\<^sup>* \<and> (u, sourceNodeId d) \<in> dep_rel m) \<and>
     (\<forall>u \<in> set visited. \<forall>w. (u, w) \<in> dep_rel m \<longrightarrow>
        (if async w then w \<in> set barriers else w \<in> set visited) \<or> w \<in> sourceNodeId ` set todo)"

lemma walk_inv_done:
  assumes "walk_inv m async n visited barriers []"
  shows "set barriers = {b. barrier_of m async n b}"
proof -
  have "u \<in> set visited" if "(n, u) \<in> (sync_rel m async)\<^sup>*" for u
    using that
  proof (induction rule: rtrancl_induct)
    case base
    then show ?case using assms by (simp add: walk_inv_def)
  next
    case (step u w)
    then show ?case using assms by (force simp: walk_inv_def sync_rel_def)
  qed
  note reached = this
  have "b \<in> set barriers" if b: "barrier_of m async n b" for b
  proof -
    from b obtain u where u: "async b" "(n, u) \<in> (sync_rel m async)\<^sup>*" "(u, b) \<in> dep_rel m"
      by (auto simp: barrier_of_def)
    have "\<forall>u \<in> set visited. \<forall>w. (u, w) \<in> dep_rel m \<longrightarrow> (if async w then w \<in> set barriers else w \<in> set visited)"
      using assms unfolding walk_inv_def by simp
    from this [rule_format, OF reached [OF u(2)] u(3)] show ?thesis using u(1) by simp
  qed
  moreover have "barrier_of m async n b" if "b \<in> set barriers" for b
    using that assms by (simp add: walk_inv_def)
  ultimately show ?thesis by blast
qed

lemma walk_correct:
  "walk_inv m async n visited barriers todo \<Longrightarrow>
     set (async_walk m async visited barriers todo) = {b. barrier_of m async n b}"
proof (induction m async visited barriers todo rule: async_walk.induct)
  case (1 m async visited barriers)
  then show ?case using walk_inv_done by simp
next
  case (2 m async visited barriers d todo)
  let ?w = "sourceNodeId d"
  obtain u where u: "(n, u) \<in> (sync_rel m async)\<^sup>*" "(u, ?w) \<in> dep_rel m"
    using "2.prems" by (auto simp: walk_inv_def)
  consider (async) "async ?w" | (seen) "\<not> async ?w" "?w \<in> set visited" | (new) "\<not> async ?w" "?w \<notin> set visited" by blast
  then show ?case
  proof cases
    case async
    then have "barrier_of m async n ?w" using u by (auto simp: barrier_of_def)
    then have "walk_inv m async n visited (jadd ?w barriers) todo"
      using "2.prems" async by (fastforce simp: walk_inv_def)
    then show ?thesis using "2.IH"(1) async by simp
  next
    case seen
    then have "walk_inv m async n visited barriers todo" using "2.prems" by (fastforce simp: walk_inv_def)
    then show ?thesis using "2.IH"(2) seen by simp
  next
    case new
    have reach: "(n, ?w) \<in> (sync_rel m async)\<^sup>*"
      using u new by (auto simp: sync_rel_def intro: rtrancl_into_rtrancl)
    have succ: "(?w, v) \<in> dep_rel m \<longleftrightarrow> v \<in> sourceNodeId ` set (deps_of m ?w)" for v by (auto simp: dep_rel_def)
    have inv: "n \<in> set visited" "\<forall>b \<in> set barriers. barrier_of m async n b"
      "\<forall>u \<in> set visited. (n, u) \<in> (sync_rel m async)\<^sup>*"
      "\<forall>d \<in> set todo. \<exists>u. (n, u) \<in> (sync_rel m async)\<^sup>* \<and> (u, sourceNodeId d) \<in> dep_rel m"
      and seen: "\<And>u v. u \<in> set visited \<Longrightarrow> (u, v) \<in> dep_rel m \<Longrightarrow>
        (if async v then v \<in> set barriers else v \<in> set visited) \<or> v = ?w \<or> v \<in> sourceNodeId ` set todo"
      using "2.prems" unfolding walk_inv_def by (simp_all, blast?)
    have "\<forall>d \<in> set (deps_of m ?w @ todo). \<exists>u. (n, u) \<in> (sync_rel m async)\<^sup>* \<and> (u, sourceNodeId d) \<in> dep_rel m"
      using inv(4) reach succ by auto
    moreover have "(if async v then v \<in> set barriers else v \<in> set (?w # visited)) \<or>
        v \<in> sourceNodeId ` set (deps_of m ?w @ todo)" if "u \<in> set (?w # visited)" "(u, v) \<in> dep_rel m" for u v
    proof (cases "u = ?w")
      case True
      then show ?thesis using that succ by auto
    next
      case False
      then show ?thesis using that seen [of u v] new by (auto split: if_splits)
    qed
    ultimately have "walk_inv m async n (?w # visited) barriers (deps_of m ?w @ todo)"
      using inv reach unfolding walk_inv_def by simp
    then show ?thesis using "2.IH"(3) new by simp
  qed
qed

lemma async_barriers_correct: "set (async_barriers m async n) = {b. barrier_of m async n b}"
  unfolding async_barriers_def
  by (rule walk_correct) (auto simp: walk_inv_def dep_rel_def)

lemma topologicalSort_spec:
  "case topologicalSort nodes edges of
     Inl c \<Rightarrow> (c, c) \<in> (flow_rel edges)\<^sup>+ \<and> (\<exists>node \<in> set nodes. (nd_id node, c) \<in> (flow_rel edges)\<^sup>*)
   | Inr m \<Rightarrow> (\<nexists>c. (c, c) \<in> (flow_rel edges)\<^sup>+ \<and> (\<exists>node \<in> set nodes. (nd_id node, c) \<in> (flow_rel edges)\<^sup>*)) \<and>
       (\<forall>n. deps_of m n = map dependency_of (filter (\<lambda>edge. ed_target edge = n) edges))"
proof -
  let ?m = "buildDependencyMap nodes edges"
  have spec: "visit_spec ?m [] [] (nd_id ` set nodes) (visit_nodes ?m [] nodes)" by (rule visit_nodes_correct)
  have start: "settled ?m (set [])" by (simp add: settled_def)
  show ?thesis
  proof (cases "visit_nodes ?m [] nodes")
    case (Inl c)
    then show ?thesis using spec start by (auto simp: visit_spec_def topologicalSort_def Let_def dep_rel_build)
  next
    case (Inr V)
    then have V: "settled ?m (set V)" "nd_id ` set nodes \<subseteq> set V" using spec start by (auto simp: visit_spec_def)
    have "(c, c) \<notin> (flow_rel edges)\<^sup>+" if "node \<in> set nodes" "(nd_id node, c) \<in> (flow_rel edges)\<^sup>*" for node c
      using V that settled_closed [OF V(1), of "nd_id node" c] by (auto simp: settled_def dep_rel_build)
    then show ?thesis using Inr by (auto simp: topologicalSort_def Let_def deps_of_build)
  qed
qed

section \<open>Properties\<close>

text \<open>
  C10. The topological sort refuses exactly the workflows with a cycle: it raises if and only if
  some node of the workflow can reach, along dependencies, a node that depends on itself, and the
  node it names lies on such a cycle; otherwise it returns the dependency map, which gives every
  node the dependencies of its incoming edges in order.
\<close>

theorem topological_sort_cycles:
  "case topologicalSort nodes edges of
     Inl c \<Rightarrow> (c, c) \<in> (flow_rel edges)\<^sup>+ \<and> (\<exists>node \<in> set nodes. (nd_id node, c) \<in> (flow_rel edges)\<^sup>*)
   | Inr m \<Rightarrow> (\<nexists>c. (c, c) \<in> (flow_rel edges)\<^sup>+ \<and> (\<exists>node \<in> set nodes. (nd_id node, c) \<in> (flow_rel edges)\<^sup>*)) \<and>
       (\<forall>n. deps_of m n = map dependency_of (filter (\<lambda>edge. ed_target edge = n) edges))"
  by (rule topologicalSort_spec)

text \<open>
  The asynchronous dependencies of a node are its nearest asynchronous barriers: exactly the
  asynchronous nodes it depends on directly or over a chain of synchronous nodes, each listed once
  per search, and the walk ends on every graph, cyclic ones included.
\<close>

theorem async_barriers_nearest:
  "set (async_barriers (buildDependencyMap nodes edges) async n) =
     {b. async b \<and> (\<exists>u. (n, u) \<in> {(x, y) \<in> flow_rel edges. \<not> async y}\<^sup>* \<and> (u, b) \<in> flow_rel edges)}"
  unfolding async_barriers_correct barrier_of_def sync_rel_def dep_rel_build ..

end
