(* ===== verification/Flow_Runtime.thy ===== *)
theory Flow_Runtime
  imports Flow_Schema Flow_Graph
begin

text \<open>
  The node runtime of the workflow engine: the conversions of \<open>core/runtime/schema-utils.ts\<close>, the
  helpers of \<open>core/runtime/handler-utils.ts\<close>, the default handler of
  \<open>core/runtime/workflow-node-handler.ts\<close> and the cached, cycle-guarded schema resolution of
  \<open>core/runtime/create-node-runtime.ts\<close>.

  Zod belongs to a third-party package: its schema values are the type variable \<open>'z\<close>, and what the
  code asks of them (\<open>z.toJSONSchema\<close> and \<open>safeParse\<close>) is the record \<open>zod_ops\<close>. A custom handler is
  code of the application: each of its methods is a program that may ask the resolution context for
  the schema of other nodes before it returns.
\<close>

section \<open>Schemas and their conversion\<close>

datatype 'z schema_like = Zod 'z | Json schema

record 'z zod_ops =
  toJSONSchema :: "'z \<Rightarrow> schema"
  safeParse :: "'z \<Rightarrow> jv \<Rightarrow> string + jv"

definition EMPTY_OBJECT_SCHEMA :: schema where
  "EMPTY_OBJECT_SCHEMA =
     Schema None None None None JUndef None (Some (TOne ''object'')) (Some []) None None (Some (SBool False)) None None False"

text \<open>\<open>{...schemaObj, type: 'object', properties, ...(required !== undefined ? {required} : {})}\<close>\<close>

definition with_object_shape :: "schema \<Rightarrow> schema" where
  "with_object_shape s =
     Schema (s_ref s) (s_anyOf s) (s_oneOf s) (s_allOf s) (s_const s) (s_enum s) (Some (TOne ''object''))
       (Some (normalizeProperties (s_properties s)))
       (case normalizeRequired (s_required s) of None \<Rightarrow> s_required s | Some rs \<Rightarrow> Some (map JStr rs))
       (s_propertyNames s) (s_additionalProperties s) (s_items s) (s_prefixItems s) (s_hasDefault s)"

definition toObjectSchema :: "'z zod_ops \<Rightarrow> 'z schema_like option \<Rightarrow> schema" where
  "toObjectSchema z schema =
     (case schema of
        None \<Rightarrow> EMPTY_OBJECT_SCHEMA
      | Some like \<Rightarrow>
          let s = (case like of Zod x \<Rightarrow> toJSONSchema z x | Json s \<Rightarrow> s) in
          if is_SBool s then EMPTY_OBJECT_SCHEMA
          else if has_type ''object'' s \<or> s_properties s \<noteq> None then with_object_shape s
          else EMPTY_OBJECT_SCHEMA)"

type_synonym 'd events = "(string \<times> string \<times> 'd) list option"

definition toEventSchemaLike :: "'z events \<Rightarrow> 'z schema_like events" where
  "toEventSchemaLike events = map_option (map (\<lambda>(name, description, data). (name, description, Zod data))) events"

definition toResolvedEvents :: "'z zod_ops \<Rightarrow> 'z schema_like events \<Rightarrow> schema events" where
  "toResolvedEvents z events =
     map_option (map (\<lambda>(name, description, data). (name, description, toObjectSchema z (Some data)))) events"

definition event_data :: "'d events \<Rightarrow> string \<Rightarrow> 'd option" where
  "event_data events name = (case events of None \<Rightarrow> None | Some es \<Rightarrow> map_option snd (map_of es name))"

datatype parse_error = ZodError string | JsonSchemaError schema_error | NoAnswer

text \<open>\<open>safeParseSchema\<close>; \<open>$defs\<close> of a schema are passed beside it. \<open>NoAnswer\<close> is a validation that ran
  out of fuel.\<close>

definition safeParseSchema ::
  "'z zod_ops \<Rightarrow> nat \<Rightarrow> (schema \<Rightarrow> schema_defs) \<Rightarrow> 'z schema_like option \<Rightarrow> jv \<Rightarrow> parse_error + jv" where
  "safeParseSchema z fuel defs_of schema value =
     (case schema of
        None \<Rightarrow> Inr value
      | Some (Json s) \<Rightarrow>
          (case validateJsonSchemaValue fuel (if is_SBool s then None else defs_of s) s value [] of
             None \<Rightarrow> Inl NoAnswer
           | Some None \<Rightarrow> Inr value
           | Some (Some e) \<Rightarrow> Inl (JsonSchemaError e))
      | Some (Zod x) \<Rightarrow> (case safeParse z x value of Inl msg \<Rightarrow> Inl (ZodError msg) | Inr v \<Rightarrow> Inr v))"

definition parseSchemaOrThrow ::
  "'z zod_ops \<Rightarrow> nat \<Rightarrow> (schema \<Rightarrow> schema_defs) \<Rightarrow> 'z schema_like option \<Rightarrow> jv \<Rightarrow> string \<Rightarrow> (string \<times> parse_error) + jv" where
  "parseSchemaOrThrow z fuel defs_of schema value errorPrefix =
     (case safeParseSchema z fuel defs_of schema value of Inl e \<Rightarrow> Inl (errorPrefix, e) | Inr v \<Rightarrow> Inr v)"

definition getSchemaProperty :: "schema option \<Rightarrow> string \<Rightarrow> schema option" where
  "getSchemaProperty schema propertyName =
     (case schema of None \<Rightarrow> None | Some s \<Rightarrow> map_of (normalizeProperties (s_properties s)) propertyName)"

section \<open>Handler utilities\<close>

fun hasObjectConfiguration :: "jv \<Rightarrow> bool" where
  "hasObjectConfiguration (JObj _) = True"
| "hasObjectConfiguration _ = False"

definition getNodeConfiguration :: "flow_node option \<Rightarrow> jobject" where
  "getNodeConfiguration node =
     (case node of None \<Rightarrow> [] | Some n \<Rightarrow> (case nd_configuration n of JObj ps \<Rightarrow> ps | _ \<Rightarrow> []))"

datatype configured_schema = NoSchema | BoolSchema bool | ObjectSchema jv

definition getSchemaFromConfiguration :: "flow_node \<Rightarrow> string \<Rightarrow> configured_schema" where
  "getSchemaFromConfiguration node key =
     (case obj_get (getNodeConfiguration (Some node)) key of
        JBool b \<Rightarrow> BoolSchema b
      | JObj ps \<Rightarrow> ObjectSchema (JObj ps)
      | JArr xs \<Rightarrow> ObjectSchema (JArr xs)
      | _ \<Rightarrow> NoSchema)"

section \<open>Node schemas and handlers\<close>

record 'z node_schema =
  ns_input :: 'z
  ns_output :: 'z
  ns_category :: string
  ns_description :: string
  ns_events :: "'z events"
  ns_configurationFields :: "jv list option"

record 'z schema_source =
  ss_input :: "'z schema_like"
  ss_output :: "'z schema_like"
  ss_events :: "'z schema_like events"
  ss_configurationFields :: "jv list option"
  ss_category :: string
  ss_description :: string

record resolved_schema =
  rs_input :: schema
  rs_output :: schema
  rs_events :: "schema events"
  rs_configurationFields :: "jv list option"
  rs_category :: string
  rs_description :: string

datatype ('z, 'r) program =
    Return 'r
  | AskSchema string "resolved_schema option \<Rightarrow> ('z, 'r) program"
  | AskSource string "'z schema_source option \<Rightarrow> ('z, 'r) program"

datatype dependency_mode = ModeAll | ModeAny

record 'z node_handler =
  nh_getInputSchema :: "flow_node \<Rightarrow> ('z, 'z schema_like option) program"
  nh_getOutputSchema :: "flow_node \<Rightarrow> ('z, 'z schema_like option) program"
  nh_getEvents :: "flow_node \<Rightarrow> ('z, 'z schema_like events) program"
  nh_getConfigurationFields :: "flow_node \<Rightarrow> ('z, jv list option) program"
  nh_getCategory :: "flow_node \<Rightarrow> ('z, string option) program"
  nh_getDescription :: "flow_node \<Rightarrow> ('z, string option) program"
  nh_getDependencyMode :: "flow_node \<Rightarrow> dependency_mode"

text \<open>\<open>BasicInputOutputNodeHandler\<close>: the schema methods of the default handler and its \<open>execute\<close>.\<close>

definition basic_handler :: "'z node_schema \<Rightarrow> 'z node_handler" where
  "basic_handler s =
     \<lparr>nh_getInputSchema = (\<lambda>_. Return (Some (Zod (ns_input s)))),
      nh_getOutputSchema = (\<lambda>_. Return (Some (Zod (ns_output s)))),
      nh_getEvents = (\<lambda>_. Return (toEventSchemaLike (ns_events s))),
      nh_getConfigurationFields = (\<lambda>_. Return None),
      nh_getCategory = (\<lambda>_. Return (Some (ns_category s))),
      nh_getDescription = (\<lambda>_. Return (Some (ns_description s))),
      nh_getDependencyMode = (\<lambda>_. ModeAll)\<rparr>"

datatype execute_error = NoNodeFunction | InvalidData string parse_error | FunctionError string

definition basic_execute ::
  "'z zod_ops \<Rightarrow> nat \<Rightarrow> (schema \<Rightarrow> schema_defs) \<Rightarrow> 'z node_schema \<Rightarrow> (jv \<Rightarrow> string + jv) option \<Rightarrow> jobject \<Rightarrow> execute_error + jv" where
  "basic_execute z fuel defs_of s nodeFunction input =
     (case nodeFunction of
        None \<Rightarrow> Inl NoNodeFunction
      | Some f \<Rightarrow>
          (case parseSchemaOrThrow z fuel defs_of (Some (Zod (ns_input s))) (JObj input) ''Invalid input'' of
             Inl (label, e) \<Rightarrow> Inl (InvalidData label e)
           | Inr parsed \<Rightarrow>
               (case f parsed of
                  Inl msg \<Rightarrow> Inl (FunctionError msg)
                | Inr output \<Rightarrow>
                    (case parseSchemaOrThrow z fuel defs_of (Some (Zod (ns_output s))) output ''Invalid output'' of
                       Inl (label, e) \<Rightarrow> Inl (InvalidData label e)
                     | Inr v \<Rightarrow> Inr v))))"

section \<open>The runtime\<close>

record 'z runtime_args =
  ra_nodes :: "flow_node list"
  ra_nodeSchemas :: "(string, 'z node_schema) jmap"
  ra_nodeHandlers :: "(string, 'z node_handler) jmap"

record 'z runtime_state =
  schemaSourceCache :: "(string, 'z schema_source option) jmap"
  schemaCache :: "(string, resolved_schema option) jmap"

definition new_runtime :: "'z runtime_state" where
  "new_runtime = \<lparr>schemaSourceCache = [], schemaCache = []\<rparr>"

text \<open>\<open>new Map(nodes.map(node => [node.id, node]))\<close>: of two nodes with one id the last one counts.\<close>

definition nodeById :: "'z runtime_args \<Rightarrow> string \<Rightarrow> flow_node option" where
  "nodeById a n = map_of (rev (map (\<lambda>node. (nd_id node, node)) (ra_nodes a))) n"

definition getStaticSchemaSource :: "'z node_schema option \<Rightarrow> 'z schema_source option" where
  "getStaticSchemaSource s =
     map_option (\<lambda>s. \<lparr>ss_input = Zod (ns_input s), ss_output = Zod (ns_output s),
       ss_events = toEventSchemaLike (ns_events s), ss_configurationFields = ns_configurationFields s,
       ss_category = ns_category s, ss_description = ns_description s\<rparr>) s"

text \<open>\<open>getNodeHandler\<close>; its cache only keeps the answer.\<close>

definition getNodeHandler :: "'z runtime_args \<Rightarrow> string option \<Rightarrow> 'z node_handler option" where
  "getNodeHandler a nodeType =
     (case nodeType of
        None \<Rightarrow> None
      | Some t \<Rightarrow>
          (case jget (ra_nodeHandlers a) t of
             Some h \<Rightarrow> Some h
           | None \<Rightarrow> map_option basic_handler (jget (ra_nodeSchemas a) t)))"

text \<open>Running a handler's program: the questions are answered by the resolution functions, which
  update the caches; \<open>None\<close> when one of them runs out of fuel.\<close>

type_synonym ('z, 'a) resolver = "'z runtime_state \<Rightarrow> ('a \<times> 'z runtime_state) option"

primrec run_program ::
  "(string \<Rightarrow> ('z, resolved_schema option) resolver) \<Rightarrow> (string \<Rightarrow> ('z, 'z schema_source option) resolver) \<Rightarrow>
   ('z, 'r) program \<Rightarrow> ('z, 'r) resolver" where
  "run_program schemaOf sourceOf (Return r) = (\<lambda>st. Some (r, st))"
| "run_program schemaOf sourceOf (AskSchema n k) =
     (\<lambda>st. case schemaOf n st of None \<Rightarrow> None | Some (r, st') \<Rightarrow> run_program schemaOf sourceOf (k r) st')"
| "run_program schemaOf sourceOf (AskSource n k) =
     (\<lambda>st. case sourceOf n st of None \<Rightarrow> None | Some (r, st') \<Rightarrow> run_program schemaOf sourceOf (k r) st')"

definition or_else :: "'a option \<Rightarrow> 'a option \<Rightarrow> 'a option" where
  "or_else x y = (case x of None \<Rightarrow> y | Some v \<Rightarrow> Some v)"

text \<open>The six questions to the handler, in the order of the object literal.\<close>

definition ask_handler ::
  "(string \<Rightarrow> ('z, resolved_schema option) resolver) \<Rightarrow> (string \<Rightarrow> ('z, 'z schema_source option) resolver) \<Rightarrow>
   'z node_handler \<Rightarrow> 'z schema_source option \<Rightarrow> flow_node \<Rightarrow> ('z, 'z schema_source) resolver" where
  "ask_handler schemaOf sourceOf h fallback node st =
     (case run_program schemaOf sourceOf (nh_getInputSchema h node) st of None \<Rightarrow> None | Some (input, st1) \<Rightarrow>
     (case run_program schemaOf sourceOf (nh_getOutputSchema h node) st1 of None \<Rightarrow> None | Some (output, st2) \<Rightarrow>
     (case run_program schemaOf sourceOf (nh_getEvents h node) st2 of None \<Rightarrow> None | Some (events, st3) \<Rightarrow>
     (case run_program schemaOf sourceOf (nh_getConfigurationFields h node) st3 of None \<Rightarrow> None | Some (configFields, st4) \<Rightarrow>
     (case run_program schemaOf sourceOf (nh_getCategory h node) st4 of None \<Rightarrow> None | Some (category, st5) \<Rightarrow>
     (case run_program schemaOf sourceOf (nh_getDescription h node) st5 of None \<Rightarrow> None | Some (description, st6) \<Rightarrow>
       Some (\<lparr>ss_input = (case or_else input (map_option ss_input fallback) of None \<Rightarrow> Json EMPTY_OBJECT_SCHEMA | Some x \<Rightarrow> x),
              ss_output = (case or_else output (map_option ss_output fallback) of None \<Rightarrow> Json EMPTY_OBJECT_SCHEMA | Some x \<Rightarrow> x),
              ss_events = or_else events (Option.bind fallback ss_events),
              ss_configurationFields = or_else configFields (Option.bind fallback ss_configurationFields),
              ss_category = (case or_else category (map_option ss_category fallback) of None \<Rightarrow> ''custom'' | Some x \<Rightarrow> x),
              ss_description = (case or_else description (map_option ss_description fallback) of None \<Rightarrow> [] | Some x \<Rightarrow> x)\<rparr>,
             st6)))))))"

definition cache_source :: "string \<Rightarrow> 'z schema_source option \<Rightarrow> 'z runtime_state \<Rightarrow> 'z runtime_state" where
  "cache_source n s st = st\<lparr>schemaSourceCache := jset n s (schemaSourceCache st)\<rparr>"

definition cache_schema :: "string \<Rightarrow> resolved_schema option \<Rightarrow> 'z runtime_state \<Rightarrow> 'z runtime_state" where
  "cache_schema n s st = st\<lparr>schemaCache := jset n s (schemaCache st)\<rparr>"

definition resolve_source :: "'z zod_ops \<Rightarrow> 'z schema_source \<Rightarrow> resolved_schema" where
  "resolve_source z s =
     \<lparr>rs_input = toObjectSchema z (Some (ss_input s)), rs_output = toObjectSchema z (Some (ss_output s)),
      rs_events = toResolvedEvents z (ss_events s), rs_configurationFields = ss_configurationFields s,
      rs_category = ss_category s, rs_description = ss_description s\<rparr>"

text \<open>\<open>resolveNodeSchema\<close> over the function that resolves the source of a node.\<close>

definition schema_via ::
  "'z zod_ops \<Rightarrow> (flow_node \<Rightarrow> ('z, 'z schema_source option) resolver) \<Rightarrow> flow_node \<Rightarrow> ('z, resolved_schema option) resolver" where
  "schema_via z sourceOf node st =
     (case jget (schemaCache st) (nd_id node) of
        Some r \<Rightarrow> Some (r, st)
      | None \<Rightarrow>
          (case sourceOf node st of
             None \<Rightarrow> None
           | Some (source, st1) \<Rightarrow>
               let r = map_option (resolve_source z) source in Some (r, cache_schema (nd_id node) r st1)))"

definition by_id :: "'z runtime_args \<Rightarrow> (flow_node \<Rightarrow> ('z, 'a option) resolver) \<Rightarrow> string \<Rightarrow> ('z, 'a option) resolver" where
  "by_id a f n st = (case nodeById a n of None \<Rightarrow> Some (None, st) | Some node \<Rightarrow> f node st)"

text \<open>
  \<open>resolveNodeSchemaSource\<close>; the set \<open>resolving\<close> is an argument, since the code adds the node before
  it asks the handler and removes it in a \<open>finally\<close>. Fuel bounds the depth of the nested
  resolutions.
\<close>

primrec resolveNodeSchemaSource ::
  "nat \<Rightarrow> 'z zod_ops \<Rightarrow> 'z runtime_args \<Rightarrow> string list \<Rightarrow> flow_node \<Rightarrow> ('z, 'z schema_source option) resolver" where
  "resolveNodeSchemaSource 0 z a resolving node st = None"
| "resolveNodeSchemaSource (Suc fuel) z a resolving node st =
     (case jget (schemaSourceCache st) (nd_id node) of
        Some s \<Rightarrow> Some (s, st)
      | None \<Rightarrow>
     (case nd_type node of
        None \<Rightarrow> Some (None, cache_source (nd_id node) None st)
      | Some t \<Rightarrow>
          if nd_id node \<in> set resolving then
            let fallback = getStaticSchemaSource (jget (ra_nodeSchemas a) t)
            in Some (fallback, cache_source (nd_id node) fallback st)
          else
            (case getNodeHandler a (Some t) of
               None \<Rightarrow> Some (None, cache_source (nd_id node) None st)
             | Some h \<Rightarrow>
                 let sourceOf = resolveNodeSchemaSource fuel z a (nd_id node # resolving) in
                 (case ask_handler (by_id a (schema_via z sourceOf)) (by_id a sourceOf) h
                         (getStaticSchemaSource (jget (ra_nodeSchemas a) t)) node st of
                    None \<Rightarrow> None
                  | Some (s, st') \<Rightarrow> Some (Some s, cache_source (nd_id node) (Some s) st')))))"

definition resolveNodeSchema ::
  "nat \<Rightarrow> 'z zod_ops \<Rightarrow> 'z runtime_args \<Rightarrow> string list \<Rightarrow> flow_node \<Rightarrow> ('z, resolved_schema option) resolver" where
  "resolveNodeSchema fuel z a resolving node = schema_via z (resolveNodeSchemaSource fuel z a resolving) node"

section \<open>The contract of a resolver\<close>

text \<open>
  What the handlers rely on when they ask for a schema: the question is answered. A program that
  asks resolvers with this property returns, however many questions it asks.
\<close>

locale total_resolver =
  fixes schemaOf :: "string \<Rightarrow> ('z, resolved_schema option) resolver"
    and sourceOf :: "string \<Rightarrow> ('z, 'z schema_source option) resolver"
  assumes schema_answers: "schemaOf n st \<noteq> None"
    and source_answers: "sourceOf n st \<noteq> None"
begin

lemma program_returns: "run_program schemaOf sourceOf p st \<noteq> None"
proof (induction p arbitrary: st)
  case (AskSchema n k)
  then show ?case using schema_answers [of n st] by (auto split: option.splits)
next
  case (AskSource n k)
  then show ?case using source_answers [of n st] by (auto split: option.splits)
qed simp

lemma handler_returns: "ask_handler schemaOf sourceOf h fallback node st \<noteq> None"
proof -
  obtain i s1 where 1: "run_program schemaOf sourceOf (nh_getInputSchema h node) st = Some (i, s1)"
    using program_returns by fastforce
  obtain p s2 where 2: "run_program schemaOf sourceOf (nh_getOutputSchema h node) s1 = Some (p, s2)"
    using program_returns by fastforce
  obtain e s3 where 3: "run_program schemaOf sourceOf (nh_getEvents h node) s2 = Some (e, s3)"
    using program_returns by fastforce
  obtain f s4 where 4: "run_program schemaOf sourceOf (nh_getConfigurationFields h node) s3 = Some (f, s4)"
    using program_returns by fastforce
  obtain c s5 where 5: "run_program schemaOf sourceOf (nh_getCategory h node) s4 = Some (c, s5)"
    using program_returns by fastforce
  obtain d s6 where 6: "run_program schemaOf sourceOf (nh_getDescription h node) s5 = Some (d, s6)"
    using program_returns by fastforce
  show ?thesis by (simp add: ask_handler_def 1 2 3 4 5 6)
qed

end

definition node_ids :: "'z runtime_args \<Rightarrow> string set" where
  "node_ids a = nd_id ` set (ra_nodes a)"

lemma nodeById_id: "nodeById a n = Some node \<Longrightarrow> nd_id node \<in> node_ids a"
  by (auto simp: nodeById_def node_ids_def dest!: map_of_SomeD)

lemma by_id_total:
  "(\<And>node st. nd_id node \<in> node_ids a \<Longrightarrow> f node st \<noteq> None) \<Longrightarrow> by_id a f n st \<noteq> None"
  by (auto simp: by_id_def dest: nodeById_id split: option.splits)

lemma schema_via_total:
  assumes "\<And>st. f node st \<noteq> None"
  shows "schema_via z f node st \<noteq> None"
proof -
  obtain s st' where "f node st = Some (s, st')" using assms [of st] by auto
  then show ?thesis by (auto simp: schema_via_def Let_def split: option.splits)
qed

text \<open>A resolution with enough fuel for the nodes that are not being resolved yet.\<close>

lemma source_total:
  "nd_id node \<in> node_ids a \<Longrightarrow> card (node_ids a - set resolving) < fuel \<Longrightarrow>
     resolveNodeSchemaSource fuel z a resolving node st \<noteq> None"
proof (induction fuel arbitrary: node resolving st)
  case (Suc fuel)
  show ?case
  proof (cases "nd_id node \<in> set resolving")
    case True
    then show ?thesis by (simp add: Let_def split: option.splits)
  next
    case False
    let ?r = "nd_id node # resolving"
    have "node_ids a - set ?r \<subset> node_ids a - set resolving" using Suc.prems(1) False by auto
    then have "card (node_ids a - set ?r) < card (node_ids a - set resolving)"
      by (intro psubset_card_mono) (auto simp: node_ids_def)
    then have "card (node_ids a - set ?r) < fuel" using Suc.prems(2) by simp
    then have src: "resolveNodeSchemaSource fuel z a ?r node' st' \<noteq> None" if "nd_id node' \<in> node_ids a" for node' st'
      using Suc.IH that by blast
    have "by_id a (schema_via z (resolveNodeSchemaSource fuel z a ?r)) n s' \<noteq> None" for n s'
      using src by (intro by_id_total schema_via_total) blast
    moreover have "by_id a (resolveNodeSchemaSource fuel z a ?r) n s' \<noteq> None" for n s'
      using src by (intro by_id_total) blast
    ultimately have "total_resolver (by_id a (schema_via z (resolveNodeSchemaSource fuel z a ?r)))
        (by_id a (resolveNodeSchemaSource fuel z a ?r))" by unfold_locales
    note ret = total_resolver.handler_returns [OF this, of _ _ node st]
    show ?thesis
    proof (cases "nd_type node")
      case (Some t)
      show ?thesis
      proof (cases "getNodeHandler a (Some t)")
        case (Some h)
        obtain s st' where "ask_handler (by_id a (schema_via z (resolveNodeSchemaSource fuel z a ?r)))
            (by_id a (resolveNodeSchemaSource fuel z a ?r)) h (getStaticSchemaSource (jget (ra_nodeSchemas a) t)) node st =
          Some (s, st')" using ret [of h "getStaticSchemaSource (jget (ra_nodeSchemas a) t)"] by fastforce
        then show ?thesis using False Some \<open>nd_type node = Some t\<close> by (simp add: Let_def split: option.splits)
      qed (use Some False in \<open>simp split: option.splits\<close>)
    qed (simp split: option.splits)
  qed
qed simp

interpretation full: total_resolver "by_id a (resolveNodeSchema (Suc (card (node_ids a))) z a [])"
  "by_id a (resolveNodeSchemaSource (Suc (card (node_ids a))) z a [])" for a z
proof (unfold_locales, goal_cases)
  case (1 n st)
  show ?case unfolding resolveNodeSchema_def by (rule by_id_total, rule schema_via_total, rule source_total) auto
next
  case (2 n st)
  show ?case by (rule by_id_total, rule source_total) auto
qed

lemma source_cached:
  assumes "resolveNodeSchemaSource fuel z a resolving node st = Some (s, st')"
  shows "jget (schemaSourceCache st') (nd_id node) = Some s"
  using assms
  by (cases fuel) (auto simp: Let_def cache_source_def split: option.splits if_splits)

lemma schema_cached:
  assumes "resolveNodeSchema fuel z a resolving node st = Some (r, st')"
  shows "jget (schemaCache st') (nd_id node) = Some r"
  using assms by (auto simp: resolveNodeSchema_def schema_via_def Let_def cache_schema_def split: option.splits)

section \<open>Properties\<close>

text \<open>
  C36. Schema resolution ends, cycles included. Whatever the handlers ask (they may ask for any
  nodes any number of times, their own node included), resolving a node of the workflow returns: a
  depth of nested resolutions of one more than the number of node ids is enough. The answer is
  kept: asking again returns it without changing the caches.
\<close>

theorem schema_resolution_total:
  assumes "node \<in> set (ra_nodes a)" and "card (node_ids a) < fuel"
  shows "\<exists>r st'. resolveNodeSchema fuel z a [] node st = Some (r, st') \<and>
    resolveNodeSchema fuel z a [] node st' = Some (r, st')"
proof -
  have "nd_id node \<in> node_ids a" using assms(1) by (simp add: node_ids_def)
  then have "resolveNodeSchema fuel z a [] node st \<noteq> None"
    unfolding resolveNodeSchema_def using assms(2) by (intro schema_via_total source_total) simp_all
  then obtain r st' where r: "resolveNodeSchema fuel z a [] node st = Some (r, st')" by fastforce
  have "jget (schemaCache st') (nd_id node) = Some r" using r by (rule schema_cached)
  then show ?thesis using r by (auto simp: resolveNodeSchema_def schema_via_def)
qed

text \<open>Two nodes whose handlers ask for each other's schema.\<close>

definition cyclic_handler :: "string \<Rightarrow> unit node_handler" where
  "cyclic_handler other =
     \<lparr>nh_getInputSchema = (\<lambda>_. AskSchema other (\<lambda>r. Return (map_option (\<lambda>s. Json (rs_output s)) r))),
      nh_getOutputSchema = (\<lambda>_. Return None), nh_getEvents = (\<lambda>_. Return None),
      nh_getConfigurationFields = (\<lambda>_. Return None), nh_getCategory = (\<lambda>_. Return None),
      nh_getDescription = (\<lambda>_. Return None), nh_getDependencyMode = (\<lambda>_. ModeAll)\<rparr>"

definition cyclic_args :: "unit runtime_args" where
  "cyclic_args = \<lparr>ra_nodes = [\<lparr>nd_id = ''x'', nd_type = Some ''X'', nd_configuration = JUndef\<rparr>,
       \<lparr>nd_id = ''y'', nd_type = Some ''Y'', nd_configuration = JUndef\<rparr>],
     ra_nodeSchemas = [], ra_nodeHandlers = [(''X'', cyclic_handler ''y''), (''Y'', cyclic_handler ''x'')]\<rparr>"

definition unit_zod :: "unit zod_ops" where
  "unit_zod = \<lparr>toJSONSchema = (\<lambda>_. empty_schema), safeParse = (\<lambda>_ v. Inr v)\<rparr>"

theorem schema_resolution_total_witness:
  "\<exists>r st'. resolveNodeSchema 3 unit_zod cyclic_args [] \<lparr>nd_id = ''x'', nd_type = Some ''X'', nd_configuration = JUndef\<rparr> new_runtime =
     Some (r, st')"
proof -
  have "card (node_ids cyclic_args) < 3" by (simp add: node_ids_def cyclic_args_def)
  then show ?thesis
    using schema_resolution_total [of "\<lparr>nd_id = ''x'', nd_type = Some ''X'', nd_configuration = JUndef\<rparr>" cyclic_args 3
        unit_zod new_runtime]
    by (simp add: cyclic_args_def) blast
qed

text \<open>A node whose handler asks for the schema of the node itself.\<close>

definition self_handler :: "schema node_handler" where
  "self_handler =
     \<lparr>nh_getInputSchema = (\<lambda>_. AskSchema ''x'' (\<lambda>_. Return (Some (Json (with_object_shape empty_schema))))),
      nh_getOutputSchema = (\<lambda>_. Return None), nh_getEvents = (\<lambda>_. Return None),
      nh_getConfigurationFields = (\<lambda>_. Return None), nh_getCategory = (\<lambda>_. Return None),
      nh_getDescription = (\<lambda>_. Return None), nh_getDependencyMode = (\<lambda>_. ModeAll)\<rparr>"

definition self_node :: flow_node where
  "self_node = \<lparr>nd_id = ''x'', nd_type = Some ''X'', nd_configuration = JUndef\<rparr>"

definition self_args :: "schema runtime_args" where
  "self_args = \<lparr>ra_nodes = [self_node],
     ra_nodeSchemas = [(''X'', \<lparr>ns_input = EMPTY_OBJECT_SCHEMA, ns_output = EMPTY_OBJECT_SCHEMA, ns_category = ''c'',
       ns_description = [], ns_events = None, ns_configurationFields = None\<rparr>)],
     ra_nodeHandlers = [(''X'', self_handler)]\<rparr>"

definition schema_zod :: "schema zod_ops" where
  "schema_zod = \<lparr>toJSONSchema = (\<lambda>s. s), safeParse = (\<lambda>_ v. Inr v)\<rparr>"

text \<open>
  The two caches can disagree. When a handler asks for the schema of its own node while only
  the source is being resolved, the static fallback is stored as the node's schema and is not
  replaced when the resolution ends: the source says what the handler returned, a later
  \<open>resolveNodeSchema\<close> still returns the fallback. Resolving the schema first gives the handler's
  answer.
\<close>

theorem schema_cache_stale:
  "case resolveNodeSchemaSource 3 schema_zod self_args [] self_node new_runtime of
     Some (Some source, st) \<Rightarrow>
       (case (resolveNodeSchema 3 schema_zod self_args [] self_node st,
              resolveNodeSchema 3 schema_zod self_args [] self_node new_runtime) of
          (Some (Some late, _), Some (Some early, _)) \<Rightarrow>
            rs_input early = toObjectSchema schema_zod (Some (ss_input source)) \<and>
            rs_input late = EMPTY_OBJECT_SCHEMA \<and> rs_input early \<noteq> rs_input late
        | _ \<Rightarrow> False)
   | _ \<Rightarrow> False"
  by code_simp

end
