(* ===== verification/Flow_Schema_Props.thy ===== *)
theory Flow_Schema_Props
  imports Flow_Schema
begin

text \<open>
  What the schema operations guarantee: the validator returns on every schema without references,
  fuel never changes an answer, and on the schemas the engine produces for handles a positive
  subset test means that every value of the source is a value of the target. Where the comment of
  \<open>isJsonSchemaSubset\<close> promises more than the code does, the difference is shown by an example.
\<close>

section \<open>Fuel\<close>

definition schema_parts :: "schema \<Rightarrow> schema list" where
  "schema_parts s =
     concat (map (\<lambda>x. case x of None \<Rightarrow> [] | Some xs \<Rightarrow> xs) [s_anyOf s, s_oneOf s, s_allOf s, s_prefixItems s]) @
     map snd (normalizeProperties (s_properties s)) @
     concat (map (\<lambda>x. case x of None \<Rightarrow> [] | Some y \<Rightarrow> [y]) [s_propertyNames s, s_additionalProperties s]) @
     (case s_items s of Some (ItemsOne x) \<Rightarrow> [x] | _ \<Rightarrow> [])"

lemma set_schema_parts:
  "x \<in> set (schema_parts s) \<longleftrightarrow>
     (\<exists>xs. s_anyOf s = Some xs \<and> x \<in> set xs) \<or> (\<exists>xs. s_oneOf s = Some xs \<and> x \<in> set xs) \<or>
     (\<exists>xs. s_allOf s = Some xs \<and> x \<in> set xs) \<or> (\<exists>xs. s_prefixItems s = Some xs \<and> x \<in> set xs) \<or>
     (\<exists>k. (k, x) \<in> set (normalizeProperties (s_properties s))) \<or>
     s_propertyNames s = Some x \<or> s_additionalProperties s = Some x \<or> s_items s = Some (ItemsOne x)"
proof -
  have "x \<in> snd ` set ps \<longleftrightarrow> (\<exists>k. (k, x) \<in> set ps)" for ps :: "(string \<times> schema) list"
    by force
  then show ?thesis unfolding schema_parts_def by (auto split: option.splits items.splits)
qed

lemma schema_parts_size: "x \<in> set (schema_parts s) \<Longrightarrow> size x < size s"
  unfolding set_schema_parts normalizeProperties_def
  using variant_size [of s _ x] property_size [of s _ _ x] part_size [of s x]
  by (cases "s_properties s") auto

function ref_free :: "schema \<Rightarrow> bool" where
  "ref_free s \<longleftrightarrow> s_ref s = None \<and> list_all ref_free (schema_parts s)"
  by pat_completeness auto
termination
  by (relation "measure size") (auto dest: schema_parts_size)

declare ref_free.simps [simp del]

lemma first_error_returns: "(\<And>x. x \<in> set xs \<Longrightarrow> f x \<noteq> None) \<Longrightarrow> first_error f xs \<noteq> None"
  by (induction xs) (auto split: option.splits)

lemma count_valid_returns: "(\<And>x. x \<in> set xs \<Longrightarrow> f x \<noteq> None) \<Longrightarrow> count_valid f xs \<noteq> None"
  by (induction xs) (auto split: option.splits)

lemma and_then_returns: "r \<noteq> None \<Longrightarrow> s \<noteq> None \<Longrightarrow> and_then r s \<noteq> None"
  by (auto simp: and_then_def split: option.splits)

lemma array_items_returns:
  assumes "\<And>x v p. x \<in> set (schema_parts s) \<Longrightarrow> validate x v p \<noteq> None"
  shows "validateArrayItems validate s xs path \<noteq> None"
proof -
  have leading: "validate x v p \<noteq> None" if "s_prefixItems s = Some ys" "(i, x) \<in> set (enumerate 0 ys)" for ys i x v p
    using that set_zip_rightD [of i x] by (intro assms) (auto simp: set_schema_parts enumerate_eq_zip)
  have item: "validate x v p \<noteq> None" if "s_items s = Some (ItemsOne x)" for x v p
    using that by (intro assms) (simp add: set_schema_parts)
  have "first_error (\<lambda>(i, item). validate item (xs ! i) (pathForIndex path i)) (enumerate 0 ys) \<noteq> None"
    if "s_prefixItems s = Some ys" for ys
    using leading [OF that] by (intro first_error_returns) auto
  moreover have "first_error (\<lambda>(i, v). validate x v (pathForIndex path i)) (enumerate 0 xs) \<noteq> None"
    if "s_items s = Some (ItemsOne x)" for x
    using item [OF that] by (intro first_error_returns) auto
  ultimately show ?thesis
    unfolding validateArrayItems_def
    by (intro and_then_returns) (auto split: option.splits items.splits)
qed

lemma object_shape_returns:
  assumes "\<And>x v p. x \<in> set (schema_parts s) \<Longrightarrow> validate x v p \<noteq> None"
  shows "validateObjectShape validate s ps path \<noteq> None"
proof -
  have named: "validate x v p \<noteq> None" if "map_of (normalizeProperties (s_properties s)) k = Some x" for k x v p
    using map_of_SomeD [OF that] by (intro assms) (auto simp: set_schema_parts)
  have extra: "validate x v p \<noteq> None" if "s_propertyNames s = Some x \<or> s_additionalProperties s = Some x" for x v p
    using that by (intro assms) (auto simp: set_schema_parts)
  have additional: "additional_check validate s v q \<noteq> None" for v q
    using extra by (auto simp: additional_check_def split: option.splits schema.splits)
  have names: "(case s_propertyNames s of None \<Rightarrow> Some None | Some x \<Rightarrow> validate x v q) \<noteq> None" for v q
    using extra by (auto split: option.splits)
  have "entry_check validate s q kv \<noteq> None" for kv q
    using and_then_returns [OF names additional] named
    by (cases "map_of (normalizeProperties (s_properties s)) (fst kv)") (simp_all add: entry_check_def Let_def)
  then show ?thesis
    unfolding validateObjectShape_def by (intro and_then_returns first_error_returns) auto
qed

lemma validate_returns:
  "ref_free s \<Longrightarrow> size s < n \<Longrightarrow> validateJsonSchemaValue n defs s v p \<noteq> None"
proof (induction n arbitrary: s v p)
  case (Suc n)
  have parts: "validateJsonSchemaValue n defs x v' p' \<noteq> None" if "x \<in> set (schema_parts s)" for x v' p'
    using Suc.IH [of x v' p'] Suc.prems that schema_parts_size [OF that]
    by (auto simp: ref_free.simps [of s] list_all_iff)
  have ref: "s_ref s = None" using Suc.prems(1) by (simp add: ref_free.simps)
  show ?case
  proof (cases "is_SBool s")
    case True
    then show ?thesis by (cases s) (simp_all add: validate_bool)
  next
    case False
    show ?thesis
    proof (cases "variants_of s")
      case (Some xs)
      then have "x \<in> set xs \<Longrightarrow> x \<in> set (schema_parts s)" for x
        by (auto simp: variants_of_def set_schema_parts split: option.splits)
      then have "count_valid (\<lambda>x. validateJsonSchemaValue n defs x v p) xs \<noteq> None"
        using parts by (intro count_valid_returns) blast
      then show ?thesis using False ref Some by (auto simp: validate_variants)
    next
      case None
      have "x \<in> set (all_of s) \<Longrightarrow> x \<in> set (schema_parts s)" for x
        by (auto simp: all_of_def set_schema_parts split: option.splits)
      then have "first_error (\<lambda>x. validateJsonSchemaValue n defs x v p) (all_of s) \<noteq> None"
        using parts by (intro first_error_returns) blast
      moreover have "shape_checks (validateJsonSchemaValue n defs) s v p \<noteq> None"
        using array_items_returns [of s "validateJsonSchemaValue n defs", OF parts]
          object_shape_returns [of s "validateJsonSchemaValue n defs", OF parts]
        by (auto simp: shape_checks_def split: jv.splits)
      ultimately show ?thesis
        unfolding validate_step [OF False ref None] by (intro and_then_returns) auto
    qed
  qed
qed simp

section \<open>Accepted values\<close>

lemma first_error_ok: "first_error f xs = Some None \<longleftrightarrow> (\<forall>x \<in> set xs. f x = Some None)"
  by (induction xs) (auto split: option.splits)

lemma and_then_ok: "and_then r s = Some None \<longleftrightarrow> r = Some None \<and> s = Some None"
  by (auto simp: and_then_def split: option.splits)

lemma count_valid_pos: "count_valid f xs = Some k \<Longrightarrow> 0 < k \<longleftrightarrow> (\<exists>x \<in> set xs. f x = Some None)"
  by (induction xs arbitrary: k) (auto split: option.splits prod.splits)

lemma literal_checks_ok:
  "literal_checks s v p = None \<longleftrightarrow>
     (s_const s \<noteq> JUndef \<longrightarrow> strict_eq v (s_const s)) \<and>
     (\<forall>es. s_enum s = Some es \<longrightarrow> (\<exists>e \<in> set es. object_is e v)) \<and>
     (\<forall>t. s_type s = Some t \<longrightarrow> (\<exists>x \<in> set (allowed_types t). matchesPrimitiveType v x))"
  by (auto simp: literal_checks_def buildSchemaError_def list_ex_iff split: option.splits)

lemma entry_check_ok:
  "entry_check validate s path (k, v) = Some None \<longleftrightarrow>
     (case map_of (normalizeProperties (s_properties s)) k of
        Some x \<Rightarrow> validate x v (pathForKey path k) = Some None
      | None \<Rightarrow> (\<forall>x. s_propertyNames s = Some x \<longrightarrow> validate x (JStr k) (pathForKey path k) = Some None) \<and>
          additional_check validate s v (pathForKey path k) = Some None)"
  by (auto simp: entry_check_def Let_def and_then_ok split: option.splits)

lemma object_shape_ok:
  "validateObjectShape validate s ps path = Some None \<longleftrightarrow>
     (\<forall>k \<in> set (required_keys s). obj_in k ps) \<and> (\<forall>kv \<in> set ps. entry_check validate s path kv = Some None)"
  by (auto simp: validateObjectShape_def and_then_ok first_error_ok buildSchemaError_def)

lemma includes_str: "arr_includes xs (JStr k) \<longleftrightarrow> JStr k \<in> set xs"
proof -
  have "same_value_zero x (JStr k) \<longleftrightarrow> x = JStr k" for x
    by (cases x) (auto simp: same_value_zero_def)
  then show ?thesis by (auto simp: arr_includes_def)
qed

lemma set_strings: "k \<in> set (List.map_filter as_string xs) \<longleftrightarrow> JStr k \<in> set xs"
  by (induction xs) (auto simp: List.map_filter_simps split: option.splits)

lemma required_keys_iff: "k \<in> set (required_keys s) \<longleftrightarrow> requires s k"
  by (auto simp: required_keys_def requires_def required_list_def normalizeRequired_def Let_def includes_str
      set_strings [symmetric] split: option.splits)

section \<open>Schemas of handles\<close>

text \<open>
  The literals of a handle schema: strings, booleans and numbers other than zero (the validator
  compares enumerations with \<open>Object.is\<close>, which tells the two zeros apart).
\<close>

fun lit_value :: "jv \<Rightarrow> bool" where
  "lit_value (JStr _) = True"
| "lit_value (JBool _) = True"
| "lit_value (JNum (Fin q)) = (q \<noteq> 0)"
| "lit_value _ = False"

definition shapeless :: "schema \<Rightarrow> bool" where
  "shapeless s \<longleftrightarrow> s_properties s = None \<and> s_required s = None \<and> s_propertyNames s = None \<and>
     s_additionalProperties s = None \<and> s_items s = None"

definition type_admits :: "schema \<Rightarrow> jv list \<Rightarrow> bool" where
  "type_admits s vs = (case s_type s of
     None \<Rightarrow> True | Some (TOne t) \<Rightarrow> list_all (\<lambda>v. matchesPrimitiveType v t) vs | Some (TMany _) \<Rightarrow> False)"

text \<open>
  The schemas of handles, for the source (\<open>src\<close>) and for the target of a connection: unions,
  literals with an optional type, plain types, arrays, records, and objects, which have to be
  closed on the source side and open on the target side, with the required keys among the
  properties.
\<close>

lemma any_of_size: "s_anyOf s = Some xs \<Longrightarrow> x \<in> set xs \<Longrightarrow> size x < size s"
  using variant_size by blast

function regular :: "bool \<Rightarrow> schema \<Rightarrow> bool" where
  "regular src s \<longleftrightarrow> \<not> is_SBool s \<and> s_ref s = None \<and> s_oneOf s = None \<and> s_allOf s = None \<and> s_prefixItems s = None \<and>
     (case s_anyOf s of
        Some xs \<Rightarrow> list_all (regular src) xs \<and> shapeless s
      | None \<Rightarrow>
     if s_const s \<noteq> JUndef then
       lit_value (s_const s) \<and> s_enum s = None \<and> type_admits s [s_const s] \<and> shapeless s
     else (case s_enum s of
        Some es \<Rightarrow> list_all lit_value es \<and> type_admits s es \<and> shapeless s
      | None \<Rightarrow>
     (case s_type s of
        None \<Rightarrow> shapeless s
      | Some (TMany _) \<Rightarrow> False
      | Some (TOne t) \<Rightarrow>
          if t = ''object'' then s_items s = None \<and>
            (case s_properties s of
               Some ps \<Rightarrow> list_all (\<lambda>(_, x). regular src x) ps \<and> s_propertyNames s = None \<and>
                 (if src then s_additionalProperties s = Some (SBool False)
                  else s_additionalProperties s = None \<and> list_all (\<lambda>k. k \<in> set (jkeys ps)) (required_keys s))
             | None \<Rightarrow> (src \<or> s_required s = None) \<and>
                 (case (s_propertyNames s, s_additionalProperties s) of
                    (None, None) \<Rightarrow> True
                  | (Some names, Some additional) \<Rightarrow> regular src names \<and> regular src additional
                  | _ \<Rightarrow> False))
          else if t = ''array'' then
            s_properties s = None \<and> s_required s = None \<and> s_propertyNames s = None \<and> s_additionalProperties s = None \<and>
            (case s_items s of None \<Rightarrow> True | Some (ItemsOne x) \<Rightarrow> regular src x | Some (ItemsMany _) \<Rightarrow> False)
          else shapeless s)))"
  by pat_completeness auto
termination
  by (relation "measure (\<lambda>(src, s). size s)")
    (auto dest: any_of_size property_size part_size property_size [OF sym] part_size [OF sym])

declare regular.simps [simp del]

lemma regular_basic:
  assumes "regular src s"
  shows "\<not> is_SBool s" "s_ref s = None" "s_oneOf s = None" "s_prefixItems s = None" "all_of s = []"
    "variants_of s = s_anyOf s" "s_allOf s = None"
  using assms by (auto simp: regular.simps [of src s] all_of_def variants_of_def split: option.splits)

lemma regular_parts: "regular src s \<Longrightarrow> x \<in> set (schema_parts s) \<Longrightarrow> regular src x \<or> is_SBool x"
  unfolding regular.simps [of src s] set_schema_parts shapeless_def normalizeProperties_def list_all_iff
  by (auto split: option.splits if_splits schema_type.splits items.splits)

lemma regular_ref_free: "regular src s \<Longrightarrow> ref_free s"
proof (induction s rule: measure_induct_rule [of size])
  case (less s)
  have "ref_free x" if "x \<in> set (schema_parts s)" for x
    using less.IH [OF schema_parts_size [OF that]] regular_parts [OF less.prems that]
    by (cases x) (auto simp: ref_free.simps [of "SBool _"] schema_parts_def normalizeProperties_def)
  then show ?case using regular_basic(2) [OF less.prems] by (simp add: ref_free.simps [of s] list_all_iff)
qed

lemma regular_returns: "regular src s \<Longrightarrow> size s < n \<Longrightarrow> validateJsonSchemaValue n defs s v p \<noteq> None"
  by (intro validate_returns regular_ref_free)

lemma regular_ok:
  assumes "regular src s" "s_anyOf s = None"
  shows "validateJsonSchemaValue (Suc n) defs s v p = Some None \<longleftrightarrow>
    literal_checks s v p = None \<and> shape_checks (validateJsonSchemaValue n defs) s v p = Some None"
  using regular_basic [OF assms(1)] assms(2) by (simp add: validate_step and_then_ok)

lemma union_ok:
  assumes "regular src s" "s_anyOf s = Some xs" "size s \<le> n"
  shows "validateJsonSchemaValue (Suc n) defs s v p = Some None \<longleftrightarrow>
    (\<exists>x \<in> set xs. validateJsonSchemaValue n defs x v p = Some None)"
proof -
  have "validateJsonSchemaValue n defs x v p \<noteq> None" if "x \<in> set xs" for x
    using assms that any_of_size [OF assms(2) that]
    by (intro regular_returns [of src]) (auto simp: regular.simps [of src s] list_all_iff)
  then obtain k where k: "count_valid (\<lambda>x. validateJsonSchemaValue n defs x v p) xs = Some k"
    using count_valid_returns [of xs "\<lambda>x. validateJsonSchemaValue n defs x v p"] by auto
  then show ?thesis
    using regular_basic [OF assms(1)] assms(2) count_valid_pos [OF k]
    by (simp add: validate_variants buildSchemaError_def)
qed

lemma union_accepted:
  assumes "regular src s" "s_anyOf s = Some xs" "validateJsonSchemaValue (Suc n) defs s v p = Some None"
  shows "\<exists>x \<in> set xs. validateJsonSchemaValue n defs x v p = Some None"
  using regular_basic [OF assms(1)] assms(2,3) count_valid_pos [of "\<lambda>x. validateJsonSchemaValue n defs x v p" xs]
  by (auto simp: validate_variants buildSchemaError_def split: option.splits if_splits)

lemma shapeless_ok: "shapeless s \<Longrightarrow> s_prefixItems s = None \<Longrightarrow> shape_checks validate s v p = Some None"
  by (cases v) (auto simp: shapeless_def shape_checks_def validateArrayItems_def object_shape_ok and_then_ok
      entry_check_ok normalizeProperties_def additional_check_def required_keys_def normalizeRequired_def)

lemma lit_strict_eq: "lit_value c \<Longrightarrow> strict_eq v c \<longleftrightarrow> v = c"
  by (cases v; cases c rule: lit_value.cases) (auto simp: num_eq_def)

lemma lit_object_is: "lit_value c \<Longrightarrow> object_is c v \<longleftrightarrow> v = c"
  by (cases v; cases c rule: lit_value.cases) (auto simp: num_eq_def)

lemma lit_includes: "lit_value c \<Longrightarrow> arr_includes es c \<longleftrightarrow> c \<in> set es"
  using lit_strict_eq [of c] by (cases c) (auto simp: arr_includes_def same_value_zero_def)

lemma lit_typeof: "lit_value c \<Longrightarrow> matchesPrimitiveType c (js_typeof c) \<and> js_typeof c \<noteq> ''object'' \<and> js_typeof c \<noteq> ''array''"
  by (cases c rule: lit_value.cases) (auto simp: matchesPrimitiveType_def)

text \<open>The values of a schema with \<open>const\<close> or \<open>enum\<close>.\<close>

definition literals :: "schema \<Rightarrow> jv list" where
  "literals s = (if s_const s \<noteq> JUndef then [s_const s] else case s_enum s of None \<Rightarrow> [] | Some es \<Rightarrow> es)"

definition literal_schema :: "schema \<Rightarrow> bool" where
  "literal_schema s \<longleftrightarrow> s_const s \<noteq> JUndef \<or> s_enum s \<noteq> None"

lemma literal_regular:
  assumes "regular src s" "s_anyOf s = None" "literal_schema s"
  shows "validateJsonSchemaValue (Suc n) defs s v p = Some None \<longleftrightarrow> v \<in> set (literals s)"
    and "v \<in> set (literals s) \<Longrightarrow> lit_value v"
proof -
  have sh: "shape_checks (validateJsonSchemaValue n defs) s v p = Some None"
    using assms regular_basic(4) [OF assms(1)]
    by (intro shapeless_ok) (auto simp: regular.simps [of src s] literal_schema_def split: if_splits)
  show "validateJsonSchemaValue (Suc n) defs s v p = Some None \<longleftrightarrow> v \<in> set (literals s)"
    unfolding regular_ok [OF assms(1,2)]
    using assms sh
    by (auto simp: regular.simps [of src s] literal_schema_def literals_def literal_checks_ok lit_strict_eq
        lit_object_is list_all_iff type_admits_def split: if_splits option.splits schema_type.splits)
  show "v \<in> set (literals s) \<Longrightarrow> lit_value v"
    using assms by (auto simp: regular.simps [of src s] literal_schema_def literals_def list_all_iff
        split: if_splits option.splits)
qed

section \<open>Soundness of the subset test\<close>

text \<open>Literals of the source are values of the target.\<close>

lemma literal_sound:
  assumes ra: "regular True a" "s_anyOf a = None" and rb: "regular False b" "s_anyOf b = None"
    and sub: "literal_subset a b = Some True"
    and acc: "validateJsonSchemaValue (Suc n) defs a v p = Some None"
  shows "validateJsonSchemaValue (Suc m) defs' b v q = Some None"
proof -
  have la: "literal_schema a" using sub by (auto simp: literal_subset_def literal_schema_def split: if_splits option.splits)
  have v: "v \<in> set (literals a)" using acc literal_regular(1) [OF ra la] by blast
  have lit: "lit_value v" using literal_regular(2) [OF ra la v] .
  have ea: "s_const a \<noteq> JUndef \<Longrightarrow> s_enum a = None" using ra by (auto simp: regular.simps [of True a])
  have eb: "s_const b \<noteq> JUndef \<Longrightarrow> s_enum b = None \<and> lit_value (s_const b)" using rb by (auto simp: regular.simps [of False b])
  show ?thesis
  proof (cases "literal_schema b")
    case True
    then have "v \<in> set (literals b)"
      using sub v ea eb lit
      by (auto simp: literal_subset_def literal_schema_def literals_def lit_includes lit_strict_eq list_all_iff
          split: if_splits option.splits)
    then show ?thesis using literal_regular(1) [OF rb True] by blast
  next
    case False
    have t: "s_type b = Some (TOne (js_typeof v))"
      using sub v ea False
      by (auto simp: literal_subset_def literal_schema_def literals_def typeof_is_def list_all_iff
          split: if_splits option.splits)
    moreover have "shapeless b"
      using rb False t lit_typeof [OF lit] by (auto simp: regular.simps [of False b] literal_schema_def)
    ultimately show ?thesis
      using regular_ok [OF rb] False lit_typeof [OF lit] shapeless_ok [of b] regular_basic(4) [OF rb(1)]
      by (auto simp: literal_checks_ok literal_schema_def)
  qed
qed

lemma open_accepts:
  assumes rb: "regular False b" "s_anyOf b = None" and "\<not> literal_schema b" "s_type b = None"
  shows "validateJsonSchemaValue (Suc m) defs b v q = Some None"
proof -
  have "shapeless b" using assms by (auto simp: regular.simps [of False b] literal_schema_def)
  then show ?thesis
    using assms shapeless_ok [of b] regular_basic(4) [OF rb(1)]
    by (simp add: regular_ok [OF rb] literal_checks_ok literal_schema_def)
qed

lemma typed_ok:
  assumes "regular src s" "s_anyOf s = None" "\<not> literal_schema s" "s_type s = Some (TOne t)"
  shows "validateJsonSchemaValue (Suc n) defs s v p = Some None \<longleftrightarrow>
    matchesPrimitiveType v t \<and> shape_checks (validateJsonSchemaValue n defs) s v p = Some None"
  using assms by (auto simp: regular_ok literal_checks_ok literal_schema_def)

lemma array_ok:
  assumes r: "regular src s" "s_anyOf s = None" "\<not> literal_schema s" "s_type s = Some (TOne ''array'')"
    and items: "s_items s = Some (ItemsOne x)"
  shows "validateJsonSchemaValue (Suc n) defs s v p = Some None \<longleftrightarrow>
    (\<exists>xs. v = JArr xs \<and> (\<forall>i < length xs. validateJsonSchemaValue n defs x (xs ! i) (pathForIndex p i) = Some None))"
proof -
  have "first_error (\<lambda>(i, v). validateJsonSchemaValue n defs x v (pathForIndex p i)) (enumerate 0 xs) = Some None \<longleftrightarrow>
      (\<forall>i < length xs. validateJsonSchemaValue n defs x (xs ! i) (pathForIndex p i) = Some None)" for xs
    by (simp add: first_error_ok all_set_conv_all_nth nth_enumerate_eq)
  then show ?thesis
    using items regular_basic(4) [OF r(1)]
    by (auto simp: typed_ok [OF r] matchesPrimitiveType_def shape_checks_def validateArrayItems_def and_then_ok
        split: jv.splits)
qed

lemma object_ok:
  assumes r: "regular src s" "s_anyOf s = None" "\<not> literal_schema s" "s_type s = Some (TOne ''object'')"
  shows "validateJsonSchemaValue (Suc n) defs s v p = Some None \<longleftrightarrow>
    (\<exists>ps. v = JObj ps \<and> (\<forall>k. requires s k \<longrightarrow> obj_in k ps) \<and>
       (\<forall>kv \<in> set ps. entry_check (validateJsonSchemaValue n defs) s p kv = Some None))"
proof -
  have "s_items s = None" using r by (auto simp: regular.simps [of src s] literal_schema_def)
  then show ?thesis
    using regular_basic(4) [OF r(1)]
    by (auto simp: typed_ok [OF r] matchesPrimitiveType_def shape_checks_def object_shape_ok required_keys_iff
        split: jv.splits)
qed

text \<open>What \<open>regular\<close> says of an object schema with properties, and of one without.\<close>

lemma regular_object:
  assumes "regular src s" "s_anyOf s = None" "\<not> literal_schema s" "s_type s = Some (TOne ''object'')"
  shows "s_properties s = Some ps \<Longrightarrow> (\<forall>(k, x) \<in> set ps. regular src x) \<and> s_propertyNames s = None \<and>
      (if src then s_additionalProperties s = Some (SBool False)
       else s_additionalProperties s = None \<and> (\<forall>k. requires s k \<longrightarrow> k \<in> set (jkeys ps)))"
    and "s_properties s = None \<Longrightarrow> (src \<or> s_required s = None) \<and>
      (s_propertyNames s = None \<and> s_additionalProperties s = None \<or>
       (\<exists>x y. s_propertyNames s = Some x \<and> s_additionalProperties s = Some y \<and> regular src x \<and> regular src y))"
  using assms
  by (auto simp: regular.simps [of src s] literal_schema_def list_all_iff required_keys_iff split: option.splits if_splits)

lemma object_sound:
  assumes ra: "regular True a" "s_anyOf a = None" "\<not> literal_schema a" "s_type a = Some (TOne ''object'')"
    and rb: "regular False b" "s_anyOf b = None" "\<not> literal_schema b" "s_type b = Some (TOne ''object'')"
    and pa: "s_properties a = Some ps" and pb: "s_properties b = Some qs"
    and keys: "\<And>k y. (k, y) \<in> set qs \<Longrightarrow> map_of ps k = None \<Longrightarrow> \<not> requires b k"
    and needs: "\<And>k y x. (k, y) \<in> set qs \<Longrightarrow> map_of ps k = Some x \<Longrightarrow> requires b k \<Longrightarrow> requires a k"
    and sound: "\<And>k y x w p q. (k, y) \<in> set qs \<Longrightarrow> map_of ps k = Some x \<Longrightarrow>
      validateJsonSchemaValue n defs x w p = Some None \<Longrightarrow> validateJsonSchemaValue m defs' y w q = Some None"
    and acc: "validateJsonSchemaValue (Suc n) defs a v p = Some None"
  shows "validateJsonSchemaValue (Suc m) defs' b v q = Some None"
proof -
  note ca = regular_object(1) [OF ra pa, simplified] and cb = regular_object(1) [OF rb pb, simplified]
  from acc obtain es where v: "v = JObj es" and req: "\<And>k. requires a k \<Longrightarrow> obj_in k es"
    and entries: "\<And>kv. kv \<in> set es \<Longrightarrow> entry_check (validateJsonSchemaValue n defs) a p kv = Some None"
    by (auto simp: object_ok [OF ra])
  have "obj_in k es" if k: "requires b k" for k
  proof -
    obtain y where y: "(k, y) \<in> set qs" using cb k by force
    then show ?thesis using keys [OF y] needs [OF y] req k by (cases "map_of ps k") auto
  qed
  moreover have "entry_check (validateJsonSchemaValue m defs') b q (k, w) = Some None" if "(k, w) \<in> set es" for k w
  proof (cases "map_of qs k")
    case None
    then show ?thesis using cb pb by (simp add: entry_check_ok normalizeProperties_def additional_check_def)
  next
    case (Some y)
    have e: "entry_check (validateJsonSchemaValue n defs) a p (k, w) = Some None" using entries that by blast
    obtain x where x: "map_of ps k = Some x"
      using e ca pa by (cases "map_of ps k")
        (auto simp: entry_check_ok normalizeProperties_def additional_check_def buildSchemaError_def)
    then have "validateJsonSchemaValue n defs x w (pathForKey p k) = Some None"
      using e pa by (simp add: entry_check_ok normalizeProperties_def)
    then show ?thesis
      using sound [OF map_of_SomeD [OF Some] x] Some pb by (simp add: entry_check_ok normalizeProperties_def)
  qed
  ultimately show ?thesis using v by (auto simp: object_ok [OF rb])
qed

lemma record_sound:
  assumes ra: "regular True a" "s_anyOf a = None" "\<not> literal_schema a" "s_type a = Some (TOne ''object'')"
    and rb: "regular False b" "s_anyOf b = None" "\<not> literal_schema b" "s_type b = Some (TOne ''object'')"
    and none: "s_properties b = None"
    and free: "(s_propertyNames b = None \<and> s_additionalProperties b = None) \<or>
      (\<exists>na nb da db. s_properties a = None \<and> s_propertyNames a = Some na \<and> s_propertyNames b = Some nb \<and>
         s_additionalProperties a = Some da \<and> s_additionalProperties b = Some db \<and>
         (\<forall>w p q. validateJsonSchemaValue n defs na w p = Some None \<longrightarrow> validateJsonSchemaValue m defs' nb w q = Some None) \<and>
         (\<forall>w p q. validateJsonSchemaValue n defs da w p = Some None \<longrightarrow> validateJsonSchemaValue m defs' db w q = Some None))"
    and acc: "validateJsonSchemaValue (Suc n) defs a v p = Some None"
  shows "validateJsonSchemaValue (Suc m) defs' b v q = Some None"
proof -
  from acc obtain es where v: "v = JObj es"
    and entries: "\<And>kv. kv \<in> set es \<Longrightarrow> entry_check (validateJsonSchemaValue n defs) a p kv = Some None"
    by (auto simp: object_ok [OF ra])
  have "s_required b = None" using regular_object(2) [OF rb none] by simp
  then have req: "\<not> requires b k" for k by (simp add: requires_def required_list_def arr_includes_def)
  have ents: "entry_check (validateJsonSchemaValue m defs') b q (k, w) = Some None" if "(k, w) \<in> set es" for k w
    using free
  proof
    assume "s_propertyNames b = None \<and> s_additionalProperties b = None"
    then show ?thesis using none by (simp add: entry_check_ok normalizeProperties_def additional_check_def)
  next
    assume "\<exists>na nb da db. s_properties a = None \<and> s_propertyNames a = Some na \<and> s_propertyNames b = Some nb \<and>
         s_additionalProperties a = Some da \<and> s_additionalProperties b = Some db \<and>
         (\<forall>w p q. validateJsonSchemaValue n defs na w p = Some None \<longrightarrow> validateJsonSchemaValue m defs' nb w q = Some None) \<and>
         (\<forall>w p q. validateJsonSchemaValue n defs da w p = Some None \<longrightarrow> validateJsonSchemaValue m defs' db w q = Some None)"
    then obtain na nb da db where *: "s_properties a = None" "s_propertyNames a = Some na" "s_propertyNames b = Some nb"
      "s_additionalProperties a = Some da" "s_additionalProperties b = Some db"
      "\<And>w p q. validateJsonSchemaValue n defs na w p = Some None \<Longrightarrow> validateJsonSchemaValue m defs' nb w q = Some None"
      "\<And>w p q. validateJsonSchemaValue n defs da w p = Some None \<Longrightarrow> validateJsonSchemaValue m defs' db w q = Some None"
      by blast
    have nonbool: "\<not> is_SBool da" "\<not> is_SBool db"
      using regular_object(2) [OF ra *(1)] regular_object(2) [OF rb none] * regular_basic(1) by auto
    have ad: "additional_check f a w' p' = f da w' p'" "additional_check f b w' p' = f db w' p'" for f w' p'
      using nonbool *(4,5) by (auto simp: additional_check_def split: schema.splits)
    show ?thesis
      using entries [OF that] * none by (auto simp: entry_check_ok normalizeProperties_def ad)
  qed
  show ?thesis using v req ents by (auto simp: object_ok [OF rb])
qed

lemma subset_literal:
  "\<not> is_SBool a \<Longrightarrow> variants_of a = None \<Longrightarrow> variants_of b = None \<Longrightarrow> literal_subset a b = Some r \<Longrightarrow>
     isJsonSchemaSubset a b = r"
  by (subst isJsonSchemaSubset.simps) simp

lemma subset_unfold:
  assumes "\<not> is_SBool a" "variants_of a = None" "variants_of b = None" "literal_subset a b = None" "isJsonSchemaSubset a b"
  shows "s_enum b = None" "s_const b = JUndef"
    "s_type a \<noteq> None \<Longrightarrow> s_type b \<noteq> None \<Longrightarrow> same_type (s_type a) (s_type b)"
    "has_type ''object'' a \<Longrightarrow> has_type ''object'' b \<Longrightarrow> s_properties a = Some ps \<Longrightarrow> s_properties b = Some qs \<Longrightarrow>
       list_all (\<lambda>(k, y). case map_of ps k of None \<Rightarrow> \<not> requires b k
         | Some x \<Rightarrow> \<not> (requires b k \<and> \<not> requires a k) \<and> isJsonSchemaSubset x y) qs"
    "has_type ''object'' a \<Longrightarrow> has_type ''object'' b \<Longrightarrow> s_properties a = None \<or> s_properties b = None \<Longrightarrow>
       s_properties b = None \<and> s_propertyNames b = None \<and> s_additionalProperties b = None \<or>
       (\<exists>na nb da db. s_propertyNames a = Some na \<and> s_propertyNames b = Some nb \<and> s_additionalProperties a = Some da \<and>
          s_additionalProperties b = Some db \<and> isJsonSchemaSubset na nb \<and> isJsonSchemaSubset da db)"
    "has_type ''array'' a \<Longrightarrow> has_type ''array'' b \<Longrightarrow>
       \<exists>x y. s_items a = Some (ItemsOne x) \<and> s_items b = Some (ItemsOne y) \<and> isJsonSchemaSubset x y"
    "s_type a = None \<Longrightarrow> s_type b = None"
proof -
  note run = assms(5) [unfolded isJsonSchemaSubset.simps [of a b] assms(2-4) option.case, simplified assms(1)]
  show 1: "s_enum b = None" "s_const b = JUndef" using run by (simp_all split: if_splits)
  show 2: "same_type (s_type a) (s_type b)" if "s_type a \<noteq> None" "s_type b \<noteq> None"
    using run that by (simp split: if_splits)
  show 3: "list_all (\<lambda>(k, y). case map_of ps k of None \<Rightarrow> \<not> requires b k
         | Some x \<Rightarrow> \<not> (requires b k \<and> \<not> requires a k) \<and> isJsonSchemaSubset x y) qs"
    if "has_type ''object'' a" "has_type ''object'' b" "s_properties a = Some ps" "s_properties b = Some qs"
    using run unfolding that(3,4) prod.case option.case
    by (simp only: that(1,2) simp_thms if_True if_False split: if_splits)
  show 4: "s_properties b = None \<and> s_propertyNames b = None \<and> s_additionalProperties b = None \<or>
       (\<exists>na nb da db. s_propertyNames a = Some na \<and> s_propertyNames b = Some nb \<and> s_additionalProperties a = Some da \<and>
          s_additionalProperties b = Some db \<and> isJsonSchemaSubset na nb \<and> isJsonSchemaSubset da db)"
    if "has_type ''object'' a" "has_type ''object'' b" "s_properties a = None \<or> s_properties b = None"
  proof -
    have "if s_properties b = None \<and> s_propertyNames b = None \<and> s_additionalProperties b = None then True
      else (case (s_propertyNames a, s_propertyNames b, s_additionalProperties a, s_additionalProperties b) of
        (Some na, Some nb, Some da, Some db) \<Rightarrow> isJsonSchemaSubset na nb \<and> isJsonSchemaSubset da db | _ \<Rightarrow> False)"
      using run that(3)
      by (cases "s_properties a"; cases "s_properties b")
        (simp_all only: that(1,2) simp_thms if_True if_False prod.case option.case option.distinct split: if_splits)
    then show ?thesis
      by (cases "s_propertyNames a"; cases "s_propertyNames b"; cases "s_additionalProperties a";
          cases "s_additionalProperties b") (simp_all split: if_splits)
  qed
  show 5: "\<exists>x y. s_items a = Some (ItemsOne x) \<and> s_items b = Some (ItemsOne y) \<and> isJsonSchemaSubset x y"
    if "has_type ''array'' a" "has_type ''array'' b"
    using run that
    by (cases "s_items a"; cases "the (s_items a)"; cases "s_items b"; cases "the (s_items b)")
      (simp_all add: has_type_def split: if_splits)
  show 6: "s_type b = None" if "s_type a = None"
    using run that by (cases "s_type b") (simp_all add: has_type_def split: if_splits)
qed

lemma subset_sound:
  "isJsonSchemaSubset a b \<Longrightarrow> regular True a \<Longrightarrow> regular False b \<Longrightarrow>
     validateJsonSchemaValue n defs a v p = Some None \<Longrightarrow> size b < m \<Longrightarrow> validateJsonSchemaValue m defs' b v q = Some None"
proof (induction "size a + size b" arbitrary: a b n v p m q rule: less_induct)
  case less
  note ra = less.prems(2) and rb = less.prems(3) and acc = less.prems(4)
  note basica = regular_basic [OF ra] and basicb = regular_basic [OF rb]
  obtain n' where n: "n = Suc n'" using acc by (cases n) auto
  obtain m' where m: "m = Suc m'" using less.prems(5) by (cases m) auto
  have ih: "validateJsonSchemaValue m' defs' y w q' = Some None"
    if "size x + size y < size a + size b" "isJsonSchemaSubset x y" "regular True x" "regular False y"
      "validateJsonSchemaValue n' defs x w p' = Some None" "size y < size b" for x y w p' q'
    using less.hyps [OF that(1-5), of m' q'] that(6) less.prems(5) m by simp
  show ?case
  proof (cases "s_anyOf a")
    case (Some xs)
    then obtain x where x: "x \<in> set xs" "validateJsonSchemaValue n' defs x v p = Some None"
      using union_accepted [OF ra Some] acc n by blast
    have "isJsonSchemaSubset x b"
      using less.prems(1) x(1) Some basica by (subst (asm) isJsonSchemaSubset.simps) (auto simp: list_all_iff)
    moreover have "regular True x" using ra Some x(1) by (auto simp: regular.simps [of True a] list_all_iff)
    ultimately show ?thesis
      using less.hyps [of x b n' v p m q] x rb less.prems(5) any_of_size [OF Some x(1)] by simp
  next
    case noa: None
    show ?thesis
    proof (cases "s_anyOf b")
      case (Some ys)
      obtain y where y: "y \<in> set ys" "isJsonSchemaSubset a y"
        using less.prems(1) Some noa basica basicb by (subst (asm) isJsonSchemaSubset.simps) (auto simp: list_ex_iff)
      have "regular False y" using rb Some y(1) by (auto simp: regular.simps [of False b] list_all_iff)
      then have "validateJsonSchemaValue m' defs' y v q = Some None"
        using less.hyps [of a y n v p m' q] y ra acc any_of_size [OF Some y(1)] less.prems(5) m by simp
      then show ?thesis using union_ok [OF rb Some, of m' defs' v q] y(1) less.prems(5) m by auto
    next
      case nob: None
      have va: "variants_of a = None" "variants_of b = None" using noa nob basica basicb by simp_all
      show ?thesis
      proof (cases "literal_subset a b")
        case (Some r)
        then have "literal_subset a b = Some True"
          using subset_literal [OF basica(1) va Some] less.prems(1) by simp
        then show ?thesis using literal_sound [OF ra noa rb nob] acc n m by blast
      next
        case lit: None
        note sub = subset_unfold [OF basica(1) va lit less.prems(1)]
        have nlb: "\<not> literal_schema b" using sub(1,2) by (simp add: literal_schema_def)
        show ?thesis
        proof (cases "s_type b")
          case None
          then show ?thesis using open_accepts [OF rb nob nlb] m by simp
        next
          case tb: (Some t')
          have nla: "\<not> literal_schema a"
            using lit tb sub(1,2) by (auto simp: literal_subset_def literal_schema_def split: if_splits option.splits)
          have "s_type a \<noteq> None" using sub(7) tb by auto
          then obtain t where t: "s_type a = Some (TOne t)" "s_type b = Some (TOne t)"
            using sub(3) tb by (cases "s_type a"; cases t') (auto elim!: same_type.elims)
          consider (object) "t = ''object''" | (array) "t = ''array''" | (scalar) "t \<noteq> ''object''" "t \<noteq> ''array''" by blast
          then show ?thesis
          proof cases
            case object
            then have ht: "has_type ''object'' a" "has_type ''object'' b" using t by (simp_all add: has_type_def)
            note ta = t(1) [unfolded object] and tb' = t(2) [unfolded object]
            have acc': "validateJsonSchemaValue (Suc n') defs a v p = Some None" using acc n by simp
            show ?thesis
            proof (cases "s_properties a = None \<or> s_properties b = None")
              case False
              then obtain ps qs where props: "s_properties a = Some ps" "s_properties b = Some qs" by auto
              have each: "case map_of ps k of None \<Rightarrow> \<not> requires b k
                  | Some x \<Rightarrow> \<not> (requires b k \<and> \<not> requires a k) \<and> isJsonSchemaSubset x y" if "(k, y) \<in> set qs" for k y
                using sub(4) [OF ht props] that by (fastforce simp: list_all_iff)
              have parts: "validateJsonSchemaValue m' defs' y w q' = Some None"
                if "(k, y) \<in> set qs" "map_of ps k = Some x" "validateJsonSchemaValue n' defs x w p' = Some None" for k x y w p' q'
              proof -
                have "regular True x" "regular False y"
                  using regular_object(1) [OF ra noa nla ta props(1)] regular_object(1) [OF rb nob nlb tb' props(2)]
                    map_of_SomeD [OF that(2)] that(1) by auto
                moreover have "size x < size a" "size y < size b"
                  using map_of_property_size [OF props(1) that(2)] property_size [OF props(2) that(1)] .
                ultimately show ?thesis using ih [of x y w p' q'] each [OF that(1)] that(2,3) by simp
              qed
              show ?thesis
                unfolding m
                by (rule object_sound [OF ra noa nla ta rb nob nlb tb' props _ _ parts acc'])
                  (use each in \<open>fastforce split: option.splits\<close>)+
            next
              case True
              from sub(5) [OF ht True] have pb: "s_properties b = None"
                using regular_object(1) [OF rb nob nlb tb'] by (cases "s_properties b") auto
              have "s_propertyNames b = None \<and> s_additionalProperties b = None \<or>
                (\<exists>na nb da db. s_properties a = None \<and> s_propertyNames a = Some na \<and> s_propertyNames b = Some nb \<and>
                   s_additionalProperties a = Some da \<and> s_additionalProperties b = Some db \<and>
                   isJsonSchemaSubset na nb \<and> isJsonSchemaSubset da db)"
                using sub(5) [OF ht True] regular_object(1) [OF ra noa nla ta] by (cases "s_properties a") auto
              then show ?thesis
              proof
                assume "s_propertyNames b = None \<and> s_additionalProperties b = None"
                then show ?thesis
                  unfolding m by (intro record_sound [OF ra noa nla ta rb nob nlb tb' pb disjI1 acc'])
              next
                assume "\<exists>na nb da db. s_properties a = None \<and> s_propertyNames a = Some na \<and> s_propertyNames b = Some nb \<and>
                   s_additionalProperties a = Some da \<and> s_additionalProperties b = Some db \<and>
                   isJsonSchemaSubset na nb \<and> isJsonSchemaSubset da db"
                then obtain na nb da db where rec: "s_properties a = None" "s_propertyNames a = Some na"
                  "s_propertyNames b = Some nb" "s_additionalProperties a = Some da" "s_additionalProperties b = Some db"
                  "isJsonSchemaSubset na nb" "isJsonSchemaSubset da db" by blast
                have reg: "regular True na" "regular True da" "regular False nb" "regular False db"
                  using regular_object(2) [OF ra noa nla ta rec(1)] regular_object(2) [OF rb nob nlb tb' pb] rec by auto
                have sz: "size na < size a" "size da < size a" "size nb < size b" "size db < size b"
                  using rec part_size by blast+
                show ?thesis
                  unfolding m
                  using rec ih [OF _ rec(6) reg(1,3)] ih [OF _ rec(7) reg(2,4)] sz
                  by (intro record_sound [OF ra noa nla ta rb nob nlb tb' pb disjI2 acc']) auto
              qed
            qed
          next
            case array
            then have ht: "has_type ''array'' a" "has_type ''array'' b" using t by (simp_all add: has_type_def)
            from sub(6) [OF ht] obtain x y where xy: "s_items a = Some (ItemsOne x)" "s_items b = Some (ItemsOne y)"
              "isJsonSchemaSubset x y" by blast
            have reg: "regular True x" "regular False y"
              using ra rb t array nla nlb xy noa nob
              by (auto simp: regular.simps [of True a] regular.simps [of False b] literal_schema_def)
            have sizes: "size x < size a" "size y < size b" using xy part_size(3) by blast+
            show ?thesis
              using acc ih [OF _ xy(3) reg] sizes
                array_ok [OF ra noa nla t(1) [unfolded array] xy(1), of n' defs v p]
                array_ok [OF rb nob nlb t(2) [unfolded array] xy(2), of m' defs' v q]
              unfolding n m by (metis add_strict_mono)
          next
            case scalar
            then have "shapeless b" using rb nob nlb t by (auto simp: regular.simps [of False b] literal_schema_def)
            then show ?thesis
              using acc shapeless_ok [of b] basicb(4) typed_ok [OF ra noa nla t(1)] typed_ok [OF rb nob nlb t(2)]
              unfolding n m by simp
          qed
        qed
      qed
    qed
  qed
qed

section \<open>Properties\<close>


definition type_schema :: "string \<Rightarrow> schema" where
  "type_schema t = Schema None None None None JUndef None (Some (TOne t)) None None None None None None False"

definition object_schema :: "(string \<times> schema) list \<Rightarrow> string list \<Rightarrow> schema option \<Rightarrow> schema" where
  "object_schema ps req additional =
     Schema None None None None JUndef None (Some (TOne ''object'')) (Some ps) (Some (map JStr req)) None additional None None False"

definition ref_schema :: "string \<Rightarrow> schema" where
  "ref_schema r = Schema (Some r) None None None JUndef None None None None None None None None False"


lemma first_error_mono:
  assumes "\<And>x r. x \<in> set xs \<Longrightarrow> f x = Some r \<Longrightarrow> g x = Some r"
  shows "first_error f xs = Some r \<Longrightarrow> first_error g xs = Some r"
  using assms by (induction xs) (fastforce split: option.splits)+

lemma count_valid_mono:
  assumes "\<And>x r. x \<in> set xs \<Longrightarrow> f x = Some r \<Longrightarrow> g x = Some r"
  shows "count_valid f xs = Some k \<Longrightarrow> count_valid g xs = Some k"
  using assms by (induction xs arbitrary: k) (fastforce split: option.splits prod.splits)+

lemma and_then_mono:
  "and_then r s = Some z \<Longrightarrow> (\<And>z. r = Some z \<Longrightarrow> r' = Some z) \<Longrightarrow> (\<And>z. s = Some z \<Longrightarrow> s' = Some z) \<Longrightarrow> and_then r' s' = Some z"
  by (cases r; cases "the r") (auto simp: and_then_def)

lemma array_items_mono:
  assumes "\<And>x v p r. f x v p = Some r \<Longrightarrow> g x v p = Some r"
  shows "validateArrayItems f s xs path = Some r \<Longrightarrow> validateArrayItems g s xs path = Some r"
  unfolding validateArrayItems_def
  by (erule and_then_mono) (auto split: option.splits items.splits if_splits intro: assms elim!: first_error_mono [rotated])

lemma additional_mono:
  assumes "\<And>x v p r. f x v p = Some r \<Longrightarrow> g x v p = Some r"
  shows "additional_check f s v p = Some r \<Longrightarrow> additional_check g s v p = Some r"
  by (auto simp: additional_check_def intro: assms split: option.splits schema.splits)

lemma entry_mono:
  assumes "\<And>x v p r. f x v p = Some r \<Longrightarrow> g x v p = Some r"
  shows "entry_check f s p kv = Some r \<Longrightarrow> entry_check g s p kv = Some r"
proof (cases "map_of (normalizeProperties (s_properties s)) (fst kv)")
  case None
  assume "entry_check f s p kv = Some r"
  then have "and_then (case s_propertyNames s of None \<Rightarrow> Some None | Some names \<Rightarrow> f names (JStr (fst kv)) (pathForKey p (fst kv)))
      (additional_check f s (snd kv) (pathForKey p (fst kv))) = Some r"
    using None by (simp add: entry_check_def Let_def)
  then have "and_then (case s_propertyNames s of None \<Rightarrow> Some None | Some names \<Rightarrow> g names (JStr (fst kv)) (pathForKey p (fst kv)))
      (additional_check g s (snd kv) (pathForKey p (fst kv))) = Some r"
    by (rule and_then_mono) (auto intro: assms additional_mono split: option.splits)
  then show ?thesis using None by (simp add: entry_check_def Let_def)
qed (auto simp: entry_check_def Let_def intro: assms)

lemma object_shape_mono:
  assumes "\<And>x v p r. f x v p = Some r \<Longrightarrow> g x v p = Some r"
  shows "validateObjectShape f s ps path = Some r \<Longrightarrow> validateObjectShape g s ps path = Some r"
  unfolding validateObjectShape_def
  by (erule and_then_mono) (auto elim!: first_error_mono [rotated] intro: entry_mono assms)

lemma shape_checks_mono:
  assumes "\<And>x v p r. f x v p = Some r \<Longrightarrow> g x v p = Some r"
  shows "shape_checks f s v p = Some r \<Longrightarrow> shape_checks g s v p = Some r"
  using array_items_mono [OF assms] object_shape_mono [OF assms]
  by (auto simp: shape_checks_def split: jv.splits if_splits)

lemma validate_mono: "validateJsonSchemaValue n defs s v p = Some r \<Longrightarrow> validateJsonSchemaValue (Suc n) defs s v p = Some r"
proof (induction n arbitrary: s v p r)
  case (Suc n)
  note ih = Suc.IH
  show ?case
  proof (cases "is_SBool s")
    case True
    then show ?thesis using Suc.prems by (cases s) (simp_all add: validate_bool)
  next
    case nb: False
    show ?thesis
    proof (cases "s_ref s")
      case (Some z)
      then show ?thesis using Suc.prems nb ih by (auto simp: validate_ref split: option.splits)
    next
      case ref: None
      show ?thesis
      proof (cases "variants_of s")
        case (Some xs)
        from Suc.prems obtain k where k: "count_valid (\<lambda>x. validateJsonSchemaValue n defs x v p) xs = Some k"
          by (auto simp: validate_variants [OF nb ref Some] split: option.splits)
        then have "count_valid (\<lambda>x. validateJsonSchemaValue (Suc n) defs x v p) xs = Some k"
          by (rule count_valid_mono [rotated]) (rule ih)
        then show ?thesis using k Suc.prems by (simp add: validate_variants [OF nb ref Some])
      next
        case None
        from Suc.prems have "and_then (first_error (\<lambda>part. validateJsonSchemaValue n defs part v p) (all_of s))
            (and_then (Some (literal_checks s v p)) (shape_checks (validateJsonSchemaValue n defs) s v p)) = Some r"
          by (simp only: validate_step [OF nb ref None])
        then have "and_then (first_error (\<lambda>part. validateJsonSchemaValue (Suc n) defs part v p) (all_of s))
            (and_then (Some (literal_checks s v p)) (shape_checks (validateJsonSchemaValue (Suc n) defs) s v p)) = Some r"
          by (rule and_then_mono)
            (auto elim!: first_error_mono [rotated] and_then_mono intro: ih shape_checks_mono)
        then show ?thesis by (simp only: validate_step [OF nb ref None])
      qed
    qed
  qed
qed simp

lemma validate_mono_le:
  "n \<le> m \<Longrightarrow> validateJsonSchemaValue n defs s v p = Some r \<Longrightarrow> validateJsonSchemaValue m defs s v p = Some r"
  by (induction rule: dec_induct) (auto intro: validate_mono)

text \<open>
  The validator decides every schema without references: there is one answer that every run
  with more fuel than the size of the schema gives.
\<close>

theorem schema_validation_total:
  assumes "ref_free s"
  shows "\<exists>r. \<forall>n > size s. validateJsonSchemaValue n defs s v p = Some r"
proof -
  obtain r where "validateJsonSchemaValue (Suc (size s)) defs s v p = Some r"
    using validate_returns [OF assms, of "Suc (size s)" defs v p] by auto
  then show ?thesis using validate_mono_le [of "Suc (size s)"] by (meson Suc_leI)
qed

theorem schema_validation_total_witness:
  "\<exists>r. \<forall>n > size (type_schema ''string''). validateJsonSchemaValue n None (type_schema ''string'') (JNum NaN) [] = Some r"
proof -
  have "ref_free (type_schema ''string'')"
    by (simp add: ref_free.simps schema_parts_def normalizeProperties_def type_schema_def)
  then show ?thesis by (rule schema_validation_total)
qed

text \<open>
  The comment of \<open>isJsonSchemaSubset\<close> (every value valid under the first schema is valid under
  the second) does not hold for all schemas the validator knows. The test accepts a target that is
  a reference whatever it refers to; a closed target that does not list a property of the source;
  and an open source whose unlisted properties the target constrains. In each case a value of the
  source is refused by the validator for the target.
\<close>

theorem schema_subset_counterexamples:
  "let num = type_schema ''number''; str = type_schema ''string'';
       defs = Some [(''S'', str)];
       wide = object_schema [(''a'', str), (''b'', str)] [] (Some (SBool False));
       narrow = object_schema [(''a'', str)] [] (Some (SBool False));
       open_source = object_schema [(''a'', str)] [] None;
       picky = object_schema [(''b'', num)] [] None;
       ab = JObj [(''a'', JStr ''x''), (''b'', JStr ''y'')]
   in isJsonSchemaSubset num (ref_schema ''#/$defs/S'') \<and>
      validateJsonSchemaValue 9 defs num (JNum (Fin 1)) [] = Some None \<and>
      validateJsonSchemaValue 9 defs (ref_schema ''#/$defs/S'') (JNum (Fin 1)) [] \<noteq> Some None \<and>
      isJsonSchemaSubset wide narrow \<and>
      validateJsonSchemaValue 9 defs wide ab [] = Some None \<and>
      validateJsonSchemaValue 9 defs narrow ab [] = Some (Some ([PKey ''b''], NotAllowed)) \<and>
      isJsonSchemaSubset open_source picky \<and>
      validateJsonSchemaValue 9 defs open_source ab [] = Some None \<and>
      validateJsonSchemaValue 9 defs picky ab [] = Some (Some ([PKey ''b''], ExpectedType [''number''] ''string''))"
  by code_simp

end
