(* ===== verification/Flow_Validation.thy ===== *)
theory Flow_Validation
  imports Flow_Runtime Flow_Schema_Props
begin

text \<open>
  Validation of workflows and connections (\<open>core/validation/workflow-validator.ts\<close> and
  \<open>core/validation/connection-validator.ts\<close>). The messages are kept as constructors with their
  arguments. The resolution of node schemas threads the caches of the runtime through the loop over
  the nodes; its fuel, one more than the number of nodes, is enough.
\<close>

section \<open>Required inputs\<close>

text \<open>
  \<open>getRequiredInputFields\<close>: \<open>None\<close> is the \<open>TypeError\<close> of the \<open>in\<close> operator on a property schema that
  is a boolean.
\<close>

definition declared_required :: "schema \<Rightarrow> string list" where
  "declared_required s =
     (case s_required s of Some rs \<Rightarrow> List.map_filter as_string rs | None \<Rightarrow> jkeys (normalizeProperties (s_properties s)))"

definition getRequiredInputFields :: "schema \<Rightarrow> string list option" where
  "getRequiredInputFields s =
     (let property = map_of (normalizeProperties (s_properties s));
          required = declared_required s in
      if list_ex (\<lambda>k. case property k of None \<Rightarrow> False | Some p \<Rightarrow> is_SBool p) required then None
      else Some (filter (\<lambda>k. case property k of None \<Rightarrow> True | Some p \<Rightarrow> \<not> s_hasDefault p) required))"

definition edge_inputs :: "string \<Rightarrow> flow_edge list \<Rightarrow> string list" where
  "edge_inputs n edges =
     filter (\<lambda>h. h \<noteq> []) (map (\<lambda>edge. or_empty (ed_targetHandle edge)) (filter (\<lambda>edge. ed_target edge = n) edges))"

definition validateNodeInputs :: "flow_node \<Rightarrow> flow_edge list \<Rightarrow> schema \<Rightarrow> string list option" where
  "validateNodeInputs node edges inputSchema =
     map_option (filter (\<lambda>field. field \<notin> set (jkeys (configuration_of node)) \<and>
                                 field \<notin> set (edge_inputs (nd_id node) edges)))
       (getRequiredInputFields inputSchema)"

section \<open>Workflows\<close>

datatype flow_error =
    CircularDependency string
  | DuplicateIds "string list"
  | MissingSource string string
  | MissingTarget string string
  | MissingType string
  | InvalidType string string
  | UndefinedType string string
  | MissingInputs string "string list"

datatype validation_outcome =
    FlowRejected "flow_error list"
  | FlowAccepted dependency_map "(string, string list) jmap"
  | FlowRaised

definition duplicate_ids :: "string list \<Rightarrow> string list" where
  "duplicate_ids ids = map snd (filter (\<lambda>(i, x). x \<in> set (take i ids)) (enumerate 0 ids))"

definition edge_errors :: "string list \<Rightarrow> flow_edge list \<Rightarrow> flow_error list" where
  "edge_errors ids edges = concat (map (\<lambda>edge.
     (if ed_source edge \<notin> set ids then [MissingSource (ed_id edge) (ed_source edge)] else []) @
     (if ed_target edge \<notin> set ids then [MissingTarget (ed_id edge) (ed_target edge)] else [])) edges)"

text \<open>One turn of the loop over the nodes: its errors and the caches; \<open>None\<close> when it raises.\<close>

definition check_node ::
  "'z zod_ops \<Rightarrow> 'z runtime_args \<Rightarrow> flow_edge list \<Rightarrow> flow_node \<Rightarrow> ('z, flow_error list) resolver" where
  "check_node z a edges node st =
     (case nd_type node of
        None \<Rightarrow> Some ([MissingType (nd_id node)], st)
      | Some t \<Rightarrow>
          if \<not> jhas (ra_nodeSchemas a) t \<and> \<not> jhas (ra_nodeHandlers a) t
          then Some ([InvalidType (nd_id node) t], st)
          else (case resolveNodeSchema (Suc (length (ra_nodes a))) z a [] node st of
             None \<Rightarrow> None
           | Some (None, st') \<Rightarrow> Some ([UndefinedType (nd_id node) t], st')
           | Some (Some r, st') \<Rightarrow>
               (case validateNodeInputs node edges (rs_input r) of
                  None \<Rightarrow> None
                | Some [] \<Rightarrow> Some ([], st')
                | Some missing \<Rightarrow> Some ([MissingInputs (nd_id node) missing], st'))))"

fun check_nodes ::
  "'z zod_ops \<Rightarrow> 'z runtime_args \<Rightarrow> flow_edge list \<Rightarrow> flow_node list \<Rightarrow> ('z, flow_error list) resolver" where
  "check_nodes z a edges [] st = Some ([], st)"
| "check_nodes z a edges (node # nodes) st =
     (case check_node z a edges node st of
        None \<Rightarrow> None
      | Some (errors, st') \<Rightarrow>
          (case check_nodes z a edges nodes st' of None \<Rightarrow> None | Some (later, st'') \<Rightarrow> Some (errors @ later, st'')))"

definition validateWorkflow :: "'z zod_ops \<Rightarrow> 'z runtime_args \<Rightarrow> flow_edge list \<Rightarrow> string list \<Rightarrow> validation_outcome" where
  "validateWorkflow z a edges asyncNodeTypes =
     (let nodes = ra_nodes a; ids = map nd_id nodes in
      if nodes = [] then FlowAccepted [] []
      else
        let (cycle, dependencyMap) = (case topologicalSort nodes edges of
               Inl c \<Rightarrow> ([CircularDependency c], []) | Inr m \<Rightarrow> ([], m));
            duplicates = duplicate_ids ids
        in case check_nodes z a edges nodes new_runtime of
             None \<Rightarrow> FlowRaised
           | Some (nodeErrors, _) \<Rightarrow>
               let errors = cycle @ (if duplicates \<noteq> [] then [DuplicateIds duplicates] else []) @
                     edge_errors ids edges @ nodeErrors
               in if errors \<noteq> [] then FlowRejected errors
                  else FlowAccepted dependencyMap (buildAsyncDependencyMap nodes dependencyMap asyncNodeTypes))"

section \<open>Connections\<close>

definition find_node :: "flow_node list \<Rightarrow> string \<Rightarrow> flow_node option" where
  "find_node nodes n = find (\<lambda>node. nd_id node = n) nodes"

text \<open>\<open>getSourcePropertySchema\<close> and the source side of \<open>validateConnection\<close>.\<close>

definition source_property :: "resolved_schema \<Rightarrow> string \<Rightarrow> schema option" where
  "source_property r handle =
     (case isEventHandle handle of
        Some (eventName, eventHandle) \<Rightarrow> getSchemaProperty (event_data (rs_events r) eventName) eventHandle
      | None \<Rightarrow> getSchemaProperty (Some (rs_output r)) handle)"

definition getSourcePropertySchema :: "(string \<Rightarrow> resolved_schema option) \<Rightarrow> flow_edge \<Rightarrow> schema option" where
  "getSourcePropertySchema resolve edge =
     (case resolve (ed_source edge) of
        None \<Rightarrow> None
      | Some r \<Rightarrow>
          (case ed_sourceHandle edge of
             None \<Rightarrow> None
           | Some h \<Rightarrow> if h = [] then None else source_property r h))"

definition validateConnection ::
  "(flow_node \<Rightarrow> resolved_schema option) \<Rightarrow> flow_edge \<Rightarrow> flow_node list \<Rightarrow> flow_edge list \<Rightarrow> bool" where
  "validateConnection resolve edge nodes edges =
     (case (ed_targetHandle edge, ed_sourceHandle edge) of
        (Some target, Some source) \<Rightarrow>
          if target = TriggerHandle then
            (case find_node nodes (ed_source edge) of None \<Rightarrow> False | Some node \<Rightarrow> nd_type node \<noteq> None)
          else if list_ex (\<lambda>e. ed_target e = ed_target edge \<and> ed_targetHandle e = Some target) edges then False
          else (case find_node nodes (ed_target edge) of
             None \<Rightarrow> False
           | Some targetNode \<Rightarrow>
               if hasObjectConfiguration (nd_configuration targetNode) \<and> target \<in> set (jkeys (configuration_of targetNode))
               then False
               else (case find_node nodes (ed_source edge) of
                  None \<Rightarrow> False
                | Some sourceNode \<Rightarrow>
                    if nd_type sourceNode = None \<or> nd_type targetNode = None then False
                    else (case (resolve sourceNode, resolve targetNode) of
                       (Some sourceSchema, Some targetSchema) \<Rightarrow>
                         (case (source_property sourceSchema source, getSchemaProperty (Some (rs_input targetSchema)) target) of
                            (Some s, Some t) \<Rightarrow> isJsonSchemaSubset s t
                          | _ \<Rightarrow> False)
                     | _ \<Rightarrow> False)))
      | _ \<Rightarrow> False)"

section \<open>Lemmas\<close>

lemma duplicate_ids_distinct: "duplicate_ids ids = [] \<longleftrightarrow> distinct ids"
proof -
  have "duplicate_ids ids = [] \<longleftrightarrow> (\<forall>i < length ids. ids ! i \<notin> set (take i ids))"
    by (simp add: duplicate_ids_def filter_empty_conv all_set_conv_all_nth nth_enumerate_eq)
  also have "\<dots> \<longleftrightarrow> distinct ids"
    by (auto simp: distinct_conv_nth in_set_conv_nth) (metis linorder_neqE_nat)
  finally show ?thesis .
qed

lemma edge_errors_none: "edge_errors ids edges = [] \<longleftrightarrow> (\<forall>edge \<in> set edges. ed_source edge \<in> set ids \<and> ed_target edge \<in> set ids)"
  by (auto simp: edge_errors_def)

text \<open>The inputs of a node are satisfied: every required input without a default has a value.\<close>

definition inputs_satisfied :: "flow_node \<Rightarrow> flow_edge list \<Rightarrow> schema \<Rightarrow> bool" where
  "inputs_satisfied node edges s \<longleftrightarrow>
     (\<forall>k \<in> set (declared_required s).
        (\<exists>p. map_of (normalizeProperties (s_properties s)) k = Some p \<and> s_hasDefault p) \<or>
        k \<in> set (jkeys (configuration_of node)) \<or>
        (k \<noteq> [] \<and> (\<exists>edge \<in> set edges. ed_target edge = nd_id node \<and> ed_targetHandle edge = Some k)))"

lemma set_edge_inputs:
  "k \<in> set (edge_inputs n edges) \<longleftrightarrow> k \<noteq> [] \<and> (\<exists>edge \<in> set edges. ed_target edge = n \<and> ed_targetHandle edge = Some k)"
  by (auto simp: edge_inputs_def or_empty_def split: option.splits) force

lemma missing_inputs_none: "validateNodeInputs node edges s = Some [] \<Longrightarrow> inputs_satisfied node edges s"
  by (auto simp: validateNodeInputs_def getRequiredInputFields_def inputs_satisfied_def filter_empty_conv
      set_edge_inputs [symmetric] Let_def split: if_splits option.splits)

lemma check_node_ok:
  assumes "check_node z a edges node st = Some ([], st')"
  shows "\<exists>t r. nd_type node = Some t \<and> (jhas (ra_nodeSchemas a) t \<or> jhas (ra_nodeHandlers a) t) \<and>
    resolveNodeSchema (Suc (length (ra_nodes a))) z a [] node st = Some (Some r, st') \<and>
    inputs_satisfied node edges (rs_input r)"
  using assms missing_inputs_none
  by (auto simp: check_node_def split: option.splits if_splits list.splits)

text \<open>A node the loop found nothing wrong with, in some state of the caches.\<close>

definition node_ok :: "'z zod_ops \<Rightarrow> 'z runtime_args \<Rightarrow> flow_edge list \<Rightarrow> flow_node \<Rightarrow> bool" where
  "node_ok z a edges node \<longleftrightarrow> (\<exists>t r st st'. nd_type node = Some t \<and>
     (jhas (ra_nodeSchemas a) t \<or> jhas (ra_nodeHandlers a) t) \<and>
     resolveNodeSchema (Suc (length (ra_nodes a))) z a [] node st = Some (Some r, st') \<and>
     inputs_satisfied node edges (rs_input r))"

lemma check_nodes_ok: "check_nodes z a edges nodes st = Some ([], st') \<Longrightarrow> node \<in> set nodes \<Longrightarrow> node_ok z a edges node"
proof (induction nodes arbitrary: st)
  case (Cons n nodes)
  then obtain st1 where st1: "check_node z a edges n st = Some ([], st1)" "check_nodes z a edges nodes st1 = Some ([], st')"
    by (auto split: option.splits prod.splits)
  then show ?case using Cons check_node_ok [OF st1(1)] by (auto simp: node_ok_def)
qed simp

lemma flow_cycle_target: "(c, c) \<in> (flow_rel edges)\<^sup>+ \<Longrightarrow> \<exists>edge \<in> set edges. ed_target edge = c"
  by (drule tranclD) (auto simp: flow_rel_def)

lemma accepted_workflow:
  assumes "validateWorkflow z a edges asyncTypes = FlowAccepted m am" and "ra_nodes a \<noteq> []"
  shows "acyclic (flow_rel edges) \<and> distinct (map nd_id (ra_nodes a)) \<and>
    (\<forall>edge \<in> set edges. ed_source edge \<in> nd_id ` set (ra_nodes a) \<and> ed_target edge \<in> nd_id ` set (ra_nodes a)) \<and>
    (\<forall>node \<in> set (ra_nodes a). node_ok z a edges node) \<and>
    (\<forall>n. deps_of m n = map dependency_of (filter (\<lambda>edge. ed_target edge = n) edges))"
proof -
  let ?ids = "map nd_id (ra_nodes a)"
  obtain cyc dm where top: "(case topologicalSort (ra_nodes a) edges of
      Inl c \<Rightarrow> ([CircularDependency c], []) | Inr m \<Rightarrow> ([], m)) = (cyc, dm)" by fastforce
  from assms top obtain nodeErrors st where checks: "check_nodes z a edges (ra_nodes a) new_runtime = Some (nodeErrors, st)"
    and none: "cyc = []" "duplicate_ids ?ids = []" "edge_errors ?ids edges = []" "nodeErrors = []" and m: "m = dm"
    by (auto simp: validateWorkflow_def Let_def split: option.splits if_splits)
  then have sorted: "topologicalSort (ra_nodes a) edges = Inr m" using top by (auto split: sum.splits)
  have ends: "\<forall>edge \<in> set edges. ed_source edge \<in> nd_id ` set (ra_nodes a) \<and> ed_target edge \<in> nd_id ` set (ra_nodes a)"
    using none(3) by (simp add: edge_errors_none)
  have "\<nexists>c. (c, c) \<in> (flow_rel edges)\<^sup>+ \<and> (\<exists>node \<in> set (ra_nodes a). (nd_id node, c) \<in> (flow_rel edges)\<^sup>*)"
    and deps: "\<forall>n. deps_of m n = map dependency_of (filter (\<lambda>edge. ed_target edge = n) edges)"
    using topologicalSort_spec [where nodes = "ra_nodes a" and edges = edges] sorted by auto
  then have "acyclic (flow_rel edges)"
    using ends flow_cycle_target unfolding acyclic_def by (metis imageE rtrancl.rtrancl_refl)
  then show ?thesis
    using none(2,4) ends deps checks check_nodes_ok [of z a edges "ra_nodes a" new_runtime st]
    by (simp add: duplicate_ids_distinct)
qed

section \<open>Properties\<close>



section \<open>Witnesses\<close>

definition demo_schema :: "schema \<Rightarrow> schema \<Rightarrow> schema node_schema" where
  "demo_schema i out = \<lparr>ns_input = i, ns_output = out, ns_category = ''c'', ns_description = [], ns_events = None,
     ns_configurationFields = None\<rparr>"

definition demo_nodes :: "flow_node list" where
  "demo_nodes = [\<lparr>nd_id = ''x'', nd_type = Some ''X'', nd_configuration = JUndef\<rparr>,
     \<lparr>nd_id = ''y'', nd_type = Some ''Y'', nd_configuration = JUndef\<rparr>]"

definition demo_edge :: flow_edge where
  "demo_edge = \<lparr>ed_id = ''e'', ed_source = ''x'', ed_target = ''y'', ed_sourceHandle = Some ''out'',
     ed_targetHandle = Some ''in'', ed_configuration = JUndef\<rparr>"

definition demo_args :: "schema runtime_args" where
  "demo_args = \<lparr>ra_nodes = demo_nodes,
     ra_nodeSchemas =
       [(''X'', demo_schema (object_schema [] [] None) (object_schema [(''out'', type_schema ''string'')] [''out''] None)),
        (''Y'', demo_schema (object_schema [(''in'', type_schema ''string'')] [''in''] None) (object_schema [] [] None))],
     ra_nodeHandlers = []\<rparr>"


definition demo_resolve :: "flow_node \<Rightarrow> resolved_schema option" where
  "demo_resolve node =
     (case resolveNodeSchema 3 schema_zod demo_args [] node new_runtime of None \<Rightarrow> None | Some (r, _) \<Rightarrow> r)"


end
