(* ===== verification/Flow_Automation.thy ===== *)
theory Flow_Automation
  imports Flow_Validation
begin

text \<open>
  Durable execution of a workflow (\<open>trakrai-workflow-inngest/src/execution/workflowAutomation.ts\<close>).
  The nodes run concurrently; each waits for its dependencies, checks them, executes and publishes
  its completion. Waiting is a service of the step library: a wait ends with an event that was sent
  under its name, or with \<open>null\<close> when it times out. The engine is therefore a step relation: one step
  is what one node does between two waits, and the steps of the nodes interleave in any order.

  What the application provides is an argument: the resolved event schemas of a node, the parser,
  the handler lookup and the execution of a node.
\<close>

section \<open>Names\<close>

text \<open>\<open>generateEventName\<close>; \<open>enc\<close> is the base64 encoding of the text.\<close>

definition event_base :: "string \<Rightarrow> string list \<Rightarrow> string" where
  "event_base eventId parts = eventId @ ''-'' @ join ''-'' parts"

definition generateEventName :: "(string \<Rightarrow> string) \<Rightarrow> string \<Rightarrow> string list \<Rightarrow> string" where
  "generateEventName enc eventId parts = enc (event_base eventId parts)"

definition buildWaitStepId :: "string \<Rightarrow> string \<Rightarrow> string \<Rightarrow> string option \<Rightarrow> string" where
  "buildWaitStepId eventId source target purpose =
     (let base = ''wait-for-'' @ eventId @ ''-'' @ source @ ''-dep-'' @ target in
      case purpose of None \<Rightarrow> base | Some s \<Rightarrow> if s = [] then base else base @ ''-'' @ s)"

section \<open>Checking and recording dependencies\<close>

text \<open>\<open>(data as Record)[key]\<close> of a stored result: \<open>None\<close> when the access raises a \<open>TypeError\<close>.\<close>

definition data_property :: "jv \<Rightarrow> string \<Rightarrow> jv option" where
  "data_property v k =
     (case v of JObj ps \<Rightarrow> Some (obj_get ps k) | JNull \<Rightarrow> None | JUndef \<Rightarrow> None | _ \<Rightarrow> Some JUndef)"

definition is_ok :: "execution_result \<Rightarrow> bool" where
  "is_ok r = (case r of ExecOk _ \<Rightarrow> True | ExecFailed _ \<Rightarrow> False)"

definition checkDependencyFailure :: "dependency_info \<Rightarrow> (string, execution_result) jmap \<Rightarrow> bool option" where
  "checkDependencyFailure dep resultMap =
     (if sourceHandle dep = ExecutionSuccessHandle then
        (case jget resultMap (sourceNodeId dep) of
           None \<Rightarrow> Some True
         | Some status \<Rightarrow>
             if conditional dep \<noteq> JUndef then Some (\<not> strict_eq (JBool (is_ok status)) (conditional dep))
             else Some (\<not> is_ok status))
      else
        let (resultId, sourceKey) = dependency_source dep in
        case jget resultMap resultId of
          Some (ExecOk data) \<Rightarrow>
            if conditional dep \<noteq> JUndef then map_option (\<lambda>v. \<not> strict_eq v (conditional dep)) (data_property data sourceKey)
            else Some False
        | _ \<Rightarrow> Some True)"

text \<open>\<open>deps.some(dep => checkDependencyFailure(dep, resultMap))\<close>\<close>

fun hasDependencyFailure :: "(string, execution_result) jmap \<Rightarrow> dependency_info list \<Rightarrow> bool option" where
  "hasDependencyFailure m [] = Some False"
| "hasDependencyFailure m (dep # deps) =
     (case checkDependencyFailure dep m of
        Some False \<Rightarrow> hasDependencyFailure m deps
      | r \<Rightarrow> r)"

lemma hasDependencyFailure_none:
  "hasDependencyFailure m deps = Some False \<longleftrightarrow> (\<forall>dep \<in> set deps. checkDependencyFailure dep m = Some False)"
  by (induction deps) (auto split: option.splits bool.splits)

definition setFailureResult ::
  "string \<Rightarrow> string \<Rightarrow> (string, execution_result) jmap \<Rightarrow> (string, execution_result) jmap" where
  "setFailureResult nodeId error resultMap = jset nodeId (ExecFailed error) resultMap"

definition DEPENDENCY_FAILURE_REASON :: string where
  "DEPENDENCY_FAILURE_REASON = ''Dependency failure''"

text \<open>
  \<open>processEventDependencyData\<close>: \<open>source_events\<close> is the event table of the node's schema source
  (\<open>None\<close> when the node has no schema), \<open>parse\<close> the schema parser.
\<close>

definition processEventDependencyData ::
  "(string \<Rightarrow> 'z schema_like events option) \<Rightarrow> ('z schema_like \<Rightarrow> jv \<Rightarrow> string + jv) \<Rightarrow>
   jv option \<Rightarrow> dependency_info \<Rightarrow> string \<Rightarrow> (string, execution_result) jmap \<Rightarrow> (string, execution_result) jmap" where
  "processEventDependencyData source_events parse eventData dep eventName resultMap =
     (let nodeEventId = buildNodeEventId (sourceNodeId dep) eventName;
          from_node = eventName @ '' from node '' @ sourceNodeId dep in
      case eventData of
        None \<Rightarrow> setFailureResult nodeEventId (''Timeout waiting for event '' @ from_node) resultMap
      | Some data \<Rightarrow>
      (case source_events (sourceNodeId dep) of
        None \<Rightarrow> setFailureResult nodeEventId (''Source node schema not found for node '' @ sourceNodeId dep) resultMap
      | Some events \<Rightarrow>
      (case event_data events eventName of
        None \<Rightarrow> setFailureResult nodeEventId (''Event schema not found for event '' @ from_node) resultMap
      | Some schema \<Rightarrow>
      (case parse schema data of
        Inr v \<Rightarrow> jset nodeEventId (ExecOk v) resultMap
      | Inl msg \<Rightarrow> setFailureResult nodeEventId (''Invalid event data for event '' @ from_node @ '': '' @ msg) resultMap))))"

section \<open>The engine\<close>

text \<open>What a node is doing, between two waits.\<close>

datatype node_phase =
    AwaitCompletions
  | AwaitEvents "(dependency_info \<times> string) list"
  | AwaitAny "string list"
  | AwaitAnyEvents string "string list" "(dependency_info \<times> string) list"
  | Running "dependency_info list"
  | Finished

record engine_state =
  en_results :: "(string, execution_result) jmap"
  en_phase :: "string \<Rightarrow> node_phase"
  en_sent :: "(string \<times> jv) list"
  en_crashed :: bool

record 'z engine_env =
  ev_eventId :: string
  ev_enc :: "string \<Rightarrow> string"
  ev_nodes :: "flow_node list"
  ev_deps :: dependency_map
  ev_mode :: "flow_node \<Rightarrow> dependency_mode"
  ev_has_handler :: "string \<Rightarrow> bool"
  ev_source_events :: "string \<Rightarrow> 'z schema_like events option"
  ev_parse :: "'z schema_like \<Rightarrow> jv \<Rightarrow> string + jv"
  ev_execute :: "flow_node \<Rightarrow> jobject \<Rightarrow> (string \<times> string) list \<Rightarrow> string + jv \<Rightarrow> bool"
  ev_timeouts :: bool

definition event_deps :: "dependency_info list \<Rightarrow> (dependency_info \<times> string) list" where
  "event_deps deps =
     List.map_filter (\<lambda>dep. map_option (\<lambda>(eventName, _). (dep, eventName)) (isEventHandle (sourceHandle dep))) deps"

definition source_ids :: "dependency_info list \<Rightarrow> string list" where
  "source_ids deps = jset_of (map sourceNodeId deps)"

definition node_deps :: "'z engine_env \<Rightarrow> flow_node \<Rightarrow> dependency_info list" where
  "node_deps e node = deps_of (ev_deps e) (nd_id node)"

definition group_of :: "string \<Rightarrow> dependency_info list \<Rightarrow> dependency_info list" where
  "group_of source deps = filter (\<lambda>dep. sourceNodeId dep = source) deps"

text \<open>The phase in which the code of a node starts.\<close>

definition start_phase :: "'z engine_env \<Rightarrow> flow_node \<Rightarrow> node_phase" where
  "start_phase e node =
     (if node_deps e node = [] then Running []
      else case ev_mode e node of ModeAll \<Rightarrow> AwaitCompletions | ModeAny \<Rightarrow> AwaitAny (source_ids (node_deps e node)))"

definition engine_init :: "'z engine_env \<Rightarrow> engine_state \<Rightarrow> bool" where
  "engine_init e s \<longleftrightarrow> en_results s = [] \<and> \<not> en_crashed s \<and>
     (\<forall>node \<in> set (ev_nodes e). en_phase s (nd_id node) = start_phase e node)"

text \<open>A wait for the event \<open>name\<close> may end with \<open>payload\<close>: an event sent under that name, or a timeout.\<close>

definition wait_ends :: "'z engine_env \<Rightarrow> engine_state \<Rightarrow> string \<Rightarrow> jv option \<Rightarrow> bool" where
  "wait_ends e s name payload \<longleftrightarrow>
     (case payload of None \<Rightarrow> ev_timeouts e | Some data \<Rightarrow> (name, data) \<in> set (en_sent s))"

definition completion_name :: "'z engine_env \<Rightarrow> string \<Rightarrow> string" where
  "completion_name e n = generateEventName (ev_enc e) (ev_eventId e) [n]"

definition node_event_name :: "'z engine_env \<Rightarrow> string \<Rightarrow> string \<Rightarrow> string" where
  "node_event_name e n eventName = generateEventName (ev_enc e) (ev_eventId e) [n, eventName]"

definition merge_name :: "'z engine_env \<Rightarrow> string \<Rightarrow> string" where
  "merge_name e n = generateEventName (ev_enc e) (ev_eventId e) [n, ''merge-any'']"

definition set_phase :: "string \<Rightarrow> node_phase \<Rightarrow> engine_state \<Rightarrow> engine_state" where
  "set_phase n p s = s\<lparr>en_phase := (en_phase s)(n := p)\<rparr>"

text \<open>The node failed on a dependency, or its execution raised: record it and publish the completion.\<close>

definition finish_failed :: "'z engine_env \<Rightarrow> string \<Rightarrow> string \<Rightarrow> engine_state \<Rightarrow> engine_state" where
  "finish_failed e n reason s =
     s\<lparr>en_results := setFailureResult n reason (en_results s), en_phase := (en_phase s)(n := Finished),
       en_sent := (completion_name e n, JObj [(''reason'', JStr reason)]) # en_sent s\<rparr>"

definition finish_ok :: "'z engine_env \<Rightarrow> string \<Rightarrow> jv \<Rightarrow> engine_state \<Rightarrow> engine_state" where
  "finish_ok e n output s =
     s\<lparr>en_results := jset n (ExecOk output) (en_results s), en_phase := (en_phase s)(n := Finished),
       en_sent := (completion_name e n, JUndef) # en_sent s\<rparr>"

definition receive_event ::
  "'z engine_env \<Rightarrow> jv option \<Rightarrow> dependency_info \<Rightarrow> string \<Rightarrow> engine_state \<Rightarrow> engine_state" where
  "receive_event e payload dep eventName s =
     s\<lparr>en_results := processEventDependencyData (ev_source_events e) (ev_parse e) payload dep eventName (en_results s)\<rparr>"

text \<open>\<open>executeNode\<close> and its possible outcomes.\<close>

definition executeNode :: "'z engine_env \<Rightarrow> flow_node \<Rightarrow> dependency_info list \<Rightarrow> engine_state \<Rightarrow> string + jv \<Rightarrow> bool" where
  "executeNode e node deps s outcome =
     (case nd_type node of
        None \<Rightarrow> outcome = Inl (''Node type is undefined for node '' @ nd_id node)
      | Some t \<Rightarrow>
          if \<not> ev_has_handler e t then outcome = Inl (''Node handler not found for node type '' @ t)
          else
            (case ev_source_events e (nd_id node) of
               None \<Rightarrow> outcome = Inl (''Node schema not found for node type '' @ t)
             | Some events \<Rightarrow>
                 let eventMap = map (\<lambda>(name, _). (name, node_event_name e (nd_id node) name))
                       (case events of None \<Rightarrow> [] | Some es \<Rightarrow> es)
                 in ev_execute e node (buildNodeInput node deps (en_results s)) eventMap outcome))"

text \<open>One step of the code of \<open>node\<close>.\<close>

inductive node_step :: "'z engine_env \<Rightarrow> flow_node \<Rightarrow> engine_state \<Rightarrow> engine_state \<Rightarrow> bool" for e node where
  completions: "\<lbrakk>en_phase s (nd_id node) = AwaitCompletions;
      \<forall>dep \<in> set (node_deps e node). \<exists>payload. wait_ends e s (completion_name e (sourceNodeId dep)) payload\<rbrakk> \<Longrightarrow>
    node_step e node s (set_phase (nd_id node) (AwaitEvents (event_deps (node_deps e node))) s)"
| event: "\<lbrakk>en_phase s (nd_id node) = AwaitEvents (before @ (dep, eventName) # after);
      wait_ends e s (node_event_name e (sourceNodeId dep) eventName) payload\<rbrakk> \<Longrightarrow>
    node_step e node s (set_phase (nd_id node) (AwaitEvents (before @ after)) (receive_event e payload dep eventName s))"
| checked: "\<lbrakk>en_phase s (nd_id node) = AwaitEvents []; hasDependencyFailure (en_results s) (node_deps e node) = Some False\<rbrakk> \<Longrightarrow>
    node_step e node s (set_phase (nd_id node) (Running (node_deps e node)) s)"
| refused: "\<lbrakk>en_phase s (nd_id node) = AwaitEvents []; hasDependencyFailure (en_results s) (node_deps e node) = Some True\<rbrakk> \<Longrightarrow>
    node_step e node s (finish_failed e (nd_id node) DEPENDENCY_FAILURE_REASON s)"
| check_raised: "\<lbrakk>en_phase s (nd_id node) = AwaitEvents []; hasDependencyFailure (en_results s) (node_deps e node) = None\<rbrakk> \<Longrightarrow>
    node_step e node s (s\<lparr>en_crashed := True\<rparr>)"
| any_source: "\<lbrakk>en_phase s (nd_id node) = AwaitAny pending; source \<in> set pending;
      wait_ends e s (completion_name e source) (Some data)\<rbrakk> \<Longrightarrow>
    node_step e node s (set_phase (nd_id node) (AwaitAnyEvents source (removeAll source pending)
      (event_deps (group_of source (node_deps e node)))) s)"
| any_timeout: "\<lbrakk>en_phase s (nd_id node) = AwaitAny pending; source \<in> set pending;
      wait_ends e s (completion_name e source) None\<rbrakk> \<Longrightarrow>
    node_step e node s (set_phase (nd_id node) (AwaitAny (removeAll source pending)) s)"
| any_merged: "\<lbrakk>en_phase s (nd_id node) = AwaitAny pending; pending \<noteq> []; wait_ends e s (merge_name e (nd_id node)) payload\<rbrakk> \<Longrightarrow>
    node_step e node s (finish_failed e (nd_id node) DEPENDENCY_FAILURE_REASON s)"
| any_exhausted: "en_phase s (nd_id node) = AwaitAny [] \<Longrightarrow>
    node_step e node s (finish_failed e (nd_id node) DEPENDENCY_FAILURE_REASON s)"
| any_event: "\<lbrakk>en_phase s (nd_id node) = AwaitAnyEvents source pending (before @ (dep, eventName) # after);
      wait_ends e s (node_event_name e (sourceNodeId dep) eventName) payload\<rbrakk> \<Longrightarrow>
    node_step e node s (set_phase (nd_id node) (AwaitAnyEvents source pending (before @ after)) (receive_event e payload dep eventName s))"
| any_checked: "\<lbrakk>en_phase s (nd_id node) = AwaitAnyEvents source pending [];
      hasDependencyFailure (en_results s) (group_of source (node_deps e node)) = Some False\<rbrakk> \<Longrightarrow>
    node_step e node s (set_phase (nd_id node) (Running (group_of source (node_deps e node)))
      (s\<lparr>en_sent := (merge_name e (nd_id node), JObj [(''sourceNodeId'', JStr source)]) # en_sent s\<rparr>))"
| any_refused: "\<lbrakk>en_phase s (nd_id node) = AwaitAnyEvents source pending [];
      hasDependencyFailure (en_results s) (group_of source (node_deps e node)) = Some True\<rbrakk> \<Longrightarrow>
    node_step e node s (set_phase (nd_id node) (AwaitAny pending) s)"
| any_check_raised: "\<lbrakk>en_phase s (nd_id node) = AwaitAnyEvents source pending [];
      hasDependencyFailure (en_results s) (group_of source (node_deps e node)) = None\<rbrakk> \<Longrightarrow>
    node_step e node s (s\<lparr>en_crashed := True\<rparr>)"
| executed: "\<lbrakk>en_phase s (nd_id node) = Running deps; executeNode e node deps s (Inr output)\<rbrakk> \<Longrightarrow>
    node_step e node s (finish_ok e (nd_id node) output s)"
| raised: "\<lbrakk>en_phase s (nd_id node) = Running deps; executeNode e node deps s (Inl reason)\<rbrakk> \<Longrightarrow>
    node_step e node s (finish_failed e (nd_id node) reason s)"

text \<open>
  The run: \<open>Promise.all\<close> interleaves the nodes until one of them raises outside its own handler,
  which rejects the run. Handlers and other runs send events at any time.
\<close>

inductive engine_step :: "'z engine_env \<Rightarrow> engine_state \<Rightarrow> engine_state \<Rightarrow> bool" for e where
  node: "\<not> en_crashed s \<Longrightarrow> node \<in> set (ev_nodes e) \<Longrightarrow> node_step e node s t \<Longrightarrow> engine_step e s t"
| emitted: "engine_step e s (s\<lparr>en_sent := (name, data) # en_sent s\<rparr>)"

section \<open>Starting a run\<close>

text \<open>
  The workflow chart, the event that triggers the run, and what the application gives to
  \<open>automation\<close>. \<open>fnAsync\<close> and \<open>handlerAsync\<close> say which executors are \<open>async\<close> functions.
\<close>

record 'z automation_app =
  au_zod :: "'z zod_ops"
  au_schemas :: "(string, 'z node_schema) jmap"
  au_handlers :: "(string, 'z node_handler) jmap"
  au_fnAsync :: "string \<Rightarrow> bool"
  au_handlerAsync :: "string \<Rightarrow> bool"
  au_fetch :: "jv \<Rightarrow> string + (flow_node list \<times> flow_edge list) option"
  au_enc :: "string \<Rightarrow> string"
  au_parse :: "'z schema_like \<Rightarrow> jv \<Rightarrow> string + jv"
  au_execute :: "flow_node \<Rightarrow> jobject \<Rightarrow> (string \<times> string) list \<Rightarrow> string + jv \<Rightarrow> bool"
  au_timeouts :: bool

datatype automation_error =
    EventIdUndefined
  | FetchFailed string
  | ValidationFailed "flow_error list"
  | ValidationRaised

definition fetchWorkflow ::
  "'z automation_app \<Rightarrow> jv \<Rightarrow> string + (flow_node list \<times> flow_edge list)" where
  "fetchWorkflow app params =
     (case au_fetch app params of
        Inl message \<Rightarrow> Inl message
      | Inr None \<Rightarrow> Inl ''Workflow data is null''
      | Inr (Some chart) \<Rightarrow> Inr chart)"

definition runtime_of :: "'z automation_app \<Rightarrow> flow_node list \<Rightarrow> 'z runtime_args" where
  "runtime_of app nodes = \<lparr>ra_nodes = nodes, ra_nodeSchemas = au_schemas app, ra_nodeHandlers = au_handlers app\<rparr>"

definition asyncNodeTypes :: "'z automation_app \<Rightarrow> string list" where
  "asyncNodeTypes app =
     jset_of (filter (au_fnAsync app) (jkeys (au_schemas app)) @ filter (au_handlerAsync app) (jkeys (au_handlers app)))"

definition runWorkflowValidation :: "'z automation_app \<Rightarrow> flow_node list \<Rightarrow> flow_edge list \<Rightarrow> automation_error + dependency_map" where
  "runWorkflowValidation app nodes edges =
     (case validateWorkflow (au_zod app) (runtime_of app nodes) edges (asyncNodeTypes app) of
        FlowAccepted dependencyMap _ \<Rightarrow> Inr dependencyMap
      | FlowRejected errors \<Rightarrow> Inl (ValidationFailed errors)
      | FlowRaised \<Rightarrow> Inl ValidationRaised)"

definition getDependencyModeForNode :: "'z runtime_args \<Rightarrow> flow_node \<Rightarrow> dependency_mode" where
  "getDependencyModeForNode a node =
     (case getNodeHandler a (nd_type node) of None \<Rightarrow> ModeAll | Some handler \<Rightarrow> nh_getDependencyMode handler node)"

text \<open>\<open>resolveNodeSchemaSourceById(id)?.events\<close>\<close>

definition source_events :: "'z zod_ops \<Rightarrow> 'z runtime_args \<Rightarrow> string \<Rightarrow> 'z schema_like events option" where
  "source_events z a n =
     (case by_id a (resolveNodeSchemaSource (Suc (card (set (map nd_id (ra_nodes a))))) z a []) n new_runtime of
        Some (Some source, _) \<Rightarrow> Some (ss_events source)
      | _ \<Rightarrow> None)"

text \<open>\<open>automation\<close>, up to the point where the nodes start.\<close>

definition automation :: "'z automation_app \<Rightarrow> string option \<Rightarrow> jv \<Rightarrow> automation_error + 'z engine_env" where
  "automation app eventId params =
     (case eventId of
        None \<Rightarrow> Inl EventIdUndefined
      | Some i \<Rightarrow>
          (case fetchWorkflow app params of
             Inl message \<Rightarrow> Inl (FetchFailed message)
           | Inr (nodes, edges) \<Rightarrow>
               (case runWorkflowValidation app nodes edges of
                  Inl err \<Rightarrow> Inl err
                | Inr dependencyMap \<Rightarrow>
                    let a = runtime_of app nodes in
                    Inr \<lparr>ev_eventId = i, ev_enc = au_enc app, ev_nodes = nodes, ev_deps = dependencyMap,
                       ev_mode = getDependencyModeForNode a, ev_has_handler = (\<lambda>t. getNodeHandler a (Some t) \<noteq> None),
                       ev_source_events = source_events (au_zod app) a, ev_parse = au_parse app,
                       ev_execute = au_execute app, ev_timeouts = au_timeouts app\<rparr>)))"

section \<open>Invariant\<close>

text \<open>A dependency on the outcome of a node rather than on one of its events.\<close>

definition on_outcome :: "dependency_info \<Rightarrow> bool" where
  "on_outcome dep \<longleftrightarrow> isEventHandle (sourceHandle dep) = None"

text \<open>What validation guarantees, and node ids that cannot be read as the id of an event result.\<close>

definition engine_wf :: "'z engine_env \<Rightarrow> bool" where
  "engine_wf e \<longleftrightarrow> distinct (map nd_id (ev_nodes e)) \<and>
     (\<forall>node \<in> set (ev_nodes e). \<not> str_includes (nd_id node) ''###'') \<and>
     (\<forall>node \<in> set (ev_nodes e). \<forall>dep \<in> set (node_deps e node). sourceNodeId dep \<in> nd_id ` set (ev_nodes e))"

text \<open>The dependencies a node may run with: all of them, or those of one source.\<close>

definition run_deps :: "'z engine_env \<Rightarrow> flow_node \<Rightarrow> dependency_info list \<Rightarrow> bool" where
  "run_deps e node deps \<longleftrightarrow>
     (if node_deps e node = [] then deps = []
      else case ev_mode e node of
        ModeAll \<Rightarrow> deps = node_deps e node
      | ModeAny \<Rightarrow> \<exists>source \<in> sourceNodeId ` set (node_deps e node). deps = group_of source (node_deps e node))"

definition passed :: "dependency_info list \<Rightarrow> (string, execution_result) jmap \<Rightarrow> bool" where
  "passed deps m \<longleftrightarrow> (\<forall>dep \<in> set deps. on_outcome dep \<longrightarrow> checkDependencyFailure dep m = Some False)"

definition phase_ok :: "'z engine_env \<Rightarrow> flow_node \<Rightarrow> node_phase \<Rightarrow> bool" where
  "phase_ok e node p \<longleftrightarrow>
     (let deps = node_deps e node; sources = sourceNodeId ` set deps in
      case p of
        AwaitCompletions \<Rightarrow> deps \<noteq> [] \<and> ev_mode e node = ModeAll
      | AwaitEvents evs \<Rightarrow> deps \<noteq> [] \<and> ev_mode e node = ModeAll \<and> set evs \<subseteq> set (event_deps deps)
      | AwaitAny pending \<Rightarrow> deps \<noteq> [] \<and> ev_mode e node = ModeAny \<and> set pending \<subseteq> sources
      | AwaitAnyEvents source pending evs \<Rightarrow> deps \<noteq> [] \<and> ev_mode e node = ModeAny \<and> set pending \<subseteq> sources \<and>
          source \<in> sources \<and> set evs \<subseteq> set (event_deps deps)
      | Running ds \<Rightarrow> run_deps e node ds
      | Finished \<Rightarrow> True)"

definition node_inv :: "'z engine_env \<Rightarrow> engine_state \<Rightarrow> flow_node \<Rightarrow> bool" where
  "node_inv e s node \<longleftrightarrow>
     phase_ok e node (en_phase s (nd_id node)) \<and>
     (en_phase s (nd_id node) = Finished \<longleftrightarrow> jget (en_results s) (nd_id node) \<noteq> None) \<and>
     (en_phase s (nd_id node) = Finished \<longrightarrow> (\<exists>data. (completion_name e (nd_id node), data) \<in> set (en_sent s))) \<and>
     (\<forall>deps. en_phase s (nd_id node) = Running deps \<longrightarrow> passed deps (en_results s)) \<and>
     (\<forall>out. jget (en_results s) (nd_id node) = Some (ExecOk out) \<longrightarrow>
        (\<exists>deps. run_deps e node deps \<and> passed deps (en_results s)))"

definition engine_inv :: "'z engine_env \<Rightarrow> engine_state \<Rightarrow> bool" where
  "engine_inv e s \<longleftrightarrow> (\<forall>node \<in> set (ev_nodes e). node_inv e s node)"

lemma str_includes_append: "str_includes (a @ sep @ b) sep"
  unfolding str_includes_def
proof (induction a)
  case Nil
  show ?case using starts_with_append [of sep b] by (cases "sep @ b") auto
qed auto

lemma node_id_no_event: "engine_wf e \<Longrightarrow> node \<in> set (ev_nodes e) \<Longrightarrow> nd_id node \<noteq> buildNodeEventId s ev"
  using str_includes_append [of s "''###''" ev] by (auto simp: engine_wf_def buildNodeEventId_def)

lemma same_node: "engine_wf e \<Longrightarrow> node \<in> set (ev_nodes e) \<Longrightarrow> node' \<in> set (ev_nodes e) \<Longrightarrow> nd_id node = nd_id node' \<longleftrightarrow> node = node'"
  by (auto simp: engine_wf_def distinct_map inj_on_def)

lemma process_event_other:
  "k \<noteq> buildNodeEventId (sourceNodeId dep) eventName \<Longrightarrow>
     jget (processEventDependencyData se parse payload dep eventName m) k = jget m k"
  by (simp add: processEventDependencyData_def setFailureResult_def Let_def split: option.splits sum.splits)

text \<open>The check of a dependency on an outcome reads the result of the source node only.\<close>

lemma outcome_check:
  "on_outcome dep \<Longrightarrow> jget m (sourceNodeId dep) = jget m' (sourceNodeId dep) \<Longrightarrow>
     checkDependencyFailure dep m = checkDependencyFailure dep m'"
  by (simp add: checkDependencyFailure_def on_outcome_def dependency_source_def)

lemma outcome_check_set:
  "on_outcome dep \<Longrightarrow> checkDependencyFailure dep m = Some False \<Longrightarrow> jget m (sourceNodeId dep) \<noteq> None"
  by (auto simp: checkDependencyFailure_def on_outcome_def dependency_source_def split: if_splits option.splits)

text \<open>The part of the state that belongs to the nodes: their results and phases.\<close>

definition keeps_results :: "'z engine_env \<Rightarrow> engine_state \<Rightarrow> engine_state \<Rightarrow> bool" where
  "keeps_results e s t \<longleftrightarrow> (\<forall>node \<in> set (ev_nodes e). jget (en_results s) (nd_id node) \<noteq> None \<longrightarrow>
     jget (en_results t) (nd_id node) = jget (en_results s) (nd_id node))"

lemma passed_keeps:
  assumes "keeps_results e s t" "passed deps (en_results s)" "sourceNodeId ` set deps \<subseteq> nd_id ` set (ev_nodes e)"
  shows "passed deps (en_results t)"
  unfolding passed_def
proof (intro ballI impI)
  fix dep assume dep: "dep \<in> set deps" "on_outcome dep"
  then have ok: "checkDependencyFailure dep (en_results s) = Some False" using assms(2) by (simp add: passed_def)
  then have "jget (en_results t) (sourceNodeId dep) = jget (en_results s) (sourceNodeId dep)"
    using assms(1,3) dep(1) outcome_check_set [OF dep(2) ok] by (fastforce simp: keeps_results_def)
  then show "checkDependencyFailure dep (en_results t) = Some False"
    using ok outcome_check [OF dep(2)] by metis
qed

lemma run_deps_subset: "run_deps e node deps \<Longrightarrow> set deps \<subseteq> set (node_deps e node)"
  by (auto simp: run_deps_def group_of_def split: if_splits dependency_mode.splits)

lemma run_deps_sources:
  "engine_wf e \<Longrightarrow> node \<in> set (ev_nodes e) \<Longrightarrow> run_deps e node deps \<Longrightarrow> sourceNodeId ` set deps \<subseteq> nd_id ` set (ev_nodes e)"
  using run_deps_subset [of e node deps] by (fastforce simp: engine_wf_def)

text \<open>A node the step does not concern keeps its invariant.\<close>

lemma node_inv_frame:
  assumes wf: "engine_wf e" and node: "node \<in> set (ev_nodes e)" and keep: "keeps_results e s t"
    and ph: "en_phase t (nd_id node) = en_phase s (nd_id node)"
    and res: "jget (en_results t) (nd_id node) = jget (en_results s) (nd_id node)"
    and sent: "set (en_sent s) \<subseteq> set (en_sent t)" and inv: "node_inv e s node"
  shows "node_inv e t node"
proof -
  have "passed deps (en_results t)" if "run_deps e node deps" "passed deps (en_results s)" for deps
    using passed_keeps [OF keep that(2) run_deps_sources [OF wf node that(1)]] .
  then show ?thesis using inv ph res sent by (auto simp: node_inv_def phase_ok_def Let_def)
qed

lemma event_deps_append: "event_deps (xs @ ys) = event_deps xs @ event_deps ys"
  by (simp add: event_deps_def map_filter_def)

lemma event_deps_group: "set (event_deps (group_of source deps)) \<subseteq> set (event_deps deps)"
  by (auto simp: event_deps_def map_filter_def group_of_def)

lemma event_deps_none: "(\<forall>dep \<in> set deps. on_outcome dep) \<Longrightarrow> event_deps deps = []"
  by (simp add: event_deps_def map_filter_def on_outcome_def filter_empty_conv)


text \<open>What one step does to its own node, beside keeping the others.\<close>

definition step_effect :: "'z engine_env \<Rightarrow> flow_node \<Rightarrow> engine_state \<Rightarrow> engine_state \<Rightarrow> bool" where
  "step_effect e node s t \<longleftrightarrow>
     (\<forall>k. k \<noteq> nd_id node \<longrightarrow> en_phase t k = en_phase s k) \<and>
     (\<forall>k. (\<forall>src ev. k \<noteq> buildNodeEventId src ev) \<longrightarrow> k \<noteq> nd_id node \<longrightarrow> jget (en_results t) k = jget (en_results s) k) \<and>
     set (en_sent s) \<subseteq> set (en_sent t) \<and> en_phase s (nd_id node) \<noteq> Finished"

lemma receive_event_simps [simp]:
  "en_phase (receive_event e payload dep ev s) = en_phase s" "en_sent (receive_event e payload dep ev s) = en_sent s"
  "en_crashed (receive_event e payload dep ev s) = en_crashed s"
  "(\<forall>src ev. k \<noteq> buildNodeEventId src ev) \<Longrightarrow> jget (en_results (receive_event e payload dep ev s)) k = jget (en_results s) k"
  by (simp_all add: receive_event_def process_event_other)

lemma set_phase_simps [simp]:
  "en_phase (set_phase n p s) = (en_phase s)(n := p)" "en_results (set_phase n p s) = en_results s"
  "en_sent (set_phase n p s) = en_sent s" "en_crashed (set_phase n p s) = en_crashed s"
  by (simp_all add: set_phase_def)

lemma finish_simps [simp]:
  "en_phase (finish_ok e n out s) = (en_phase s)(n := Finished)" "en_phase (finish_failed e n reason s) = (en_phase s)(n := Finished)"
  "jget (en_results (finish_ok e n out s)) k = (if k = n then Some (ExecOk out) else jget (en_results s) k)"
  "jget (en_results (finish_failed e n reason s)) k = (if k = n then Some (ExecFailed reason) else jget (en_results s) k)"
  "en_sent (finish_ok e n out s) = (completion_name e n, JUndef) # en_sent s"
  "en_sent (finish_failed e n reason s) = (completion_name e n, JObj [(''reason'', JStr reason)]) # en_sent s"
  "en_crashed (finish_ok e n out s) = en_crashed s" "en_crashed (finish_failed e n reason s) = en_crashed s"
  by (simp_all add: finish_ok_def finish_failed_def setFailureResult_def)

lemma step_has_effect: "node_step e node s t \<Longrightarrow> step_effect e node s t"
  by (induction rule: node_step.induct) (auto simp: step_effect_def)

lemma step_keeps_results:
  assumes wf: "engine_wf e" and node: "node \<in> set (ev_nodes e)" and st: "node_step e node s t" and inv: "node_inv e s node"
  shows "keeps_results e s t"
  unfolding keeps_results_def
proof (intro ballI impI)
  fix node' assume n': "node' \<in> set (ev_nodes e)" and res: "jget (en_results s) (nd_id node') \<noteq> None"
  have eff: "step_effect e node s t" by (rule step_has_effect [OF st])
  then have "jget (en_results s) (nd_id node) = None" using inv by (auto simp: step_effect_def node_inv_def)
  then have "nd_id node' \<noteq> nd_id node" using res by auto
  then show "jget (en_results t) (nd_id node') = jget (en_results s) (nd_id node')"
    using eff node_id_no_event [OF wf n'] by (simp add: step_effect_def)
qed


lemma passed_checked: "hasDependencyFailure m deps = Some False \<Longrightarrow> passed deps m"
  by (simp add: passed_def hasDependencyFailure_none)

text \<open>A wait keeps the result of its node; then only its new phase matters.\<close>

lemma node_inv_phase:
  assumes "node_inv e s node" "en_phase s (nd_id node) \<noteq> Finished"
    "en_phase t (nd_id node) = p" "p \<noteq> Finished" "phase_ok e node p" "\<And>deps. p = Running deps \<Longrightarrow> passed deps (en_results t)"
    "jget (en_results t) (nd_id node) = jget (en_results s) (nd_id node)"
  shows "node_inv e t node"
  using assms by (auto simp: node_inv_def)

lemma step_own_inv:
  assumes wf: "engine_wf e" and node: "node \<in> set (ev_nodes e)" and st: "node_step e node s t" and inv: "node_inv e s node"
  shows "node_inv e t node"
proof -
  have no_event: "\<forall>src ev. nd_id node \<noteq> buildNodeEventId src ev" using node_id_no_event [OF wf node] by blast
  have ok: "phase_ok e node (en_phase s (nd_id node))" using inv by (simp add: node_inv_def)
  note phase = node_inv_phase [OF inv]
  show ?thesis
    using st
  proof (cases rule: node_step.cases)
    case completions
    then show ?thesis using ok by (intro phase [OF _ refl]) (auto simp: phase_ok_def Let_def)
  next
    case event
    then show ?thesis using ok no_event by (intro phase [OF _ refl]) (auto simp: phase_ok_def Let_def)
  next
    case checked
    then show ?thesis using ok passed_checked
      by (intro phase [OF _ refl]) (auto simp: phase_ok_def run_deps_def Let_def)
  next
    case any_source
    then show ?thesis using ok subsetD [OF event_deps_group]
      by (intro phase [OF _ refl]) (auto simp: phase_ok_def Let_def)
  next
    case any_timeout
    then show ?thesis using ok by (intro phase [OF _ refl]) (auto simp: phase_ok_def Let_def)
  next
    case any_event
    then show ?thesis using ok no_event by (intro phase [OF _ refl]) (auto simp: phase_ok_def Let_def)
  next
    case any_checked
    then show ?thesis using ok passed_checked
      by (intro phase [OF _ refl]) (auto simp: phase_ok_def run_deps_def Let_def)
  next
    case any_refused
    then show ?thesis using ok by (intro phase [OF _ refl]) (auto simp: phase_ok_def Let_def)
  next
    case (executed deps out)
    have run: "run_deps e node deps" "passed deps (en_results s)"
      using ok inv executed by (auto simp: phase_ok_def node_inv_def)
    have "keeps_results e s t" by (rule step_keeps_results [OF wf node st inv])
    then have "passed deps (en_results t)" using passed_keeps run_deps_sources [OF wf node run(1)] run(2) by blast
    then show ?thesis using run(1) executed by (auto simp: node_inv_def phase_ok_def)
  qed (use inv in \<open>auto simp: node_inv_def phase_ok_def\<close>)
qed

lemma engine_inv_node_step:
  assumes wf: "engine_wf e" and node: "node \<in> set (ev_nodes e)" and st: "node_step e node s t" and inv: "engine_inv e s"
  shows "engine_inv e t"
  unfolding engine_inv_def
proof
  fix node' assume n': "node' \<in> set (ev_nodes e)"
  have own: "node_inv e s node" and other: "node_inv e s node'" using inv node n' by (auto simp: engine_inv_def)
  show "node_inv e t node'"
  proof (cases "node' = node")
    case True
    then show ?thesis using step_own_inv [OF wf node st own] by simp
  next
    case False
    then have "nd_id node' \<noteq> nd_id node" using same_node [OF wf n' node] by blast
    then show ?thesis
      using node_inv_frame [OF wf n' step_keeps_results [OF wf node st own] _ _ _ other] step_has_effect [OF st]
        node_id_no_event [OF wf n'] by (simp add: step_effect_def)
  qed
qed

lemma engine_inv_step:
  assumes wf: "engine_wf e" and st: "engine_step e s t" and inv: "engine_inv e s"
  shows "engine_inv e t"
  using st
proof (cases rule: engine_step.cases)
  case (node node)
  then show ?thesis using engine_inv_node_step [OF wf _ _ inv] by blast
next
  case emitted
  then show ?thesis using inv by (auto simp: engine_inv_def node_inv_def)
qed

lemma engine_inv_init: "engine_init e s \<Longrightarrow> engine_inv e s"
  by (auto simp: engine_init_def engine_inv_def node_inv_def start_phase_def phase_ok_def Let_def passed_def run_deps_def
      source_ids_def split: dependency_mode.splits if_splits)

text \<open>The engine satisfies the contract of a transition system, over well-formed environments.\<close>

interpretation eng: invariant_system "\<lambda>s. engine_wf e \<and> engine_init e s" "engine_step e" "\<lambda>s. engine_wf e \<and> engine_inv e s" for e
  by unfold_locales (auto intro: engine_inv_init engine_inv_step)

lemma reachable_wf:
  "reachable_from (engine_init e) (engine_step e) s \<Longrightarrow> engine_wf e \<Longrightarrow>
     reachable_from (\<lambda>s. engine_wf e \<and> engine_init e s) (engine_step e) s"
  by (induction rule: reachable_from.induct) (auto intro: reachable_from.intros)

lemma engine_reachable_inv:
  assumes "engine_wf e" "reachable_from (engine_init e) (engine_step e) s" "node \<in> set (ev_nodes e)"
  shows "node_inv e s node"
  using eng.inv_reachable [OF reachable_wf [OF assms(2,1)]] assms(3) by (simp add: engine_inv_def)

end
