(* ===== verification/Flow_Engine.thy ===== *)
theory Flow_Engine
  imports Flow_Automation
begin

text \<open>
  What a run of the workflow engine guarantees: nodes succeed only over dependencies that passed,
  results are final, and a run of a validated workflow comes to its end.
\<close>

lemma engine_step_keeps:
  assumes "engine_wf e" "engine_inv e s" "engine_step e s t"
  shows "keeps_results e s t"
  using assms(3)
proof (cases rule: engine_step.cases)
  case (node node)
  then show ?thesis using step_keeps_results [OF assms(1)] assms(2) by (simp add: engine_inv_def)
qed (simp add: keeps_results_def)

section \<open>Progress\<close>

text \<open>The steps a node has left.\<close>

definition phase_work :: "'z engine_env \<Rightarrow> flow_node \<Rightarrow> node_phase \<Rightarrow> nat" where
  "phase_work e node p =
     (let w = length (event_deps (node_deps e node)) + 2 in
      case p of
        AwaitCompletions \<Rightarrow> w + 1
      | AwaitEvents evs \<Rightarrow> length evs + 2
      | AwaitAny pending \<Rightarrow> w * length pending + 2
      | AwaitAnyEvents source pending evs \<Rightarrow> w * length pending + length evs + 3
      | Running deps \<Rightarrow> 1
      | Finished \<Rightarrow> 0)"

definition engine_work :: "'z engine_env \<Rightarrow> engine_state \<Rightarrow> nat" where
  "engine_work e s =
     (if en_crashed s then 0 else 1) + sum_list (map (\<lambda>node. phase_work e node (en_phase s (nd_id node))) (ev_nodes e))"

lemma event_deps_group_length: "length (event_deps (group_of source deps)) \<le> length (event_deps deps)"
proof -
  have "event_deps (group_of source deps) = filter (\<lambda>(dep, _). sourceNodeId dep = source) (event_deps deps)"
    by (induction deps) (auto simp: event_deps_def group_of_def map_filter_simps split: option.splits)
  then show ?thesis by simp
qed

lemma any_source_work:
  assumes "x \<in> set pending" "(l :: nat) + 2 \<le> w"
  shows "w * length (removeAll x pending) + l + 3 < w * length pending + 2"
proof -
  have "Suc (length (removeAll x pending)) \<le> length pending" using length_removeAll_less [OF assms(1)] by simp
  then have "w * Suc (length (removeAll x pending)) \<le> w * length pending" by (rule mult_le_mono2)
  then show ?thesis using assms(2) by simp
qed

lemma any_timeout_work: "x \<in> set pending \<Longrightarrow> 0 < (w :: nat) \<Longrightarrow> w * length (removeAll x pending) < w * length pending"
  using length_removeAll_less [of x pending] by simp

text \<open>A step reduces the work of its node, or ends the run.\<close>

lemma step_work:
  assumes "node_step e node s t"
  shows "phase_work e node (en_phase t (nd_id node)) < phase_work e node (en_phase s (nd_id node)) \<and> en_crashed t = en_crashed s
    \<or> en_crashed t \<and> en_phase t = en_phase s"
  using assms
proof (cases rule: node_step.cases)
  case (any_source pending source data)
  then show ?thesis
    using any_source_work [of source pending "length (event_deps (group_of source (node_deps e node)))" "length (event_deps (node_deps e node)) + 2"]
      event_deps_group_length [of source "node_deps e node"] by (simp add: phase_work_def)
next
  case (any_timeout pending source)
  then show ?thesis using any_timeout_work [of source pending "length (event_deps (node_deps e node)) + 2"]
    by (simp add: phase_work_def del: mult_less_cancel1)
qed (simp_all add: phase_work_def Let_def)

lemma sum_list_decreases:
  assumes "x \<in> set xs" "f x < (g x :: nat)" "\<And>y. y \<in> set xs \<Longrightarrow> f y \<le> g y"
  shows "sum_list (map f xs) < sum_list (map g xs)"
  using assms
proof (induction xs)
  case (Cons y ys)
  have "sum_list (map f ys) \<le> sum_list (map g ys)" using Cons.prems(3) by (intro sum_list_mono) simp
  then show ?case using Cons by (cases "x \<in> set ys") (auto intro: add_le_less_mono add_less_le_mono)
qed simp

lemma node_step_work:
  assumes wf: "engine_wf e" and node: "node \<in> set (ev_nodes e)" and st: "node_step e node s t" and run: "\<not> en_crashed s"
  shows "engine_work e t < engine_work e s"
  using step_work [OF st]
proof (elim disjE conjE)
  assume less: "phase_work e node (en_phase t (nd_id node)) < phase_work e node (en_phase s (nd_id node))" and "en_crashed t = en_crashed s"
  have "phase_work e node' (en_phase t (nd_id node')) \<le> phase_work e node' (en_phase s (nd_id node'))" if "node' \<in> set (ev_nodes e)" for node'
    using step_has_effect [OF st] same_node [OF wf that node] less by (cases "node' = node") (auto simp: step_effect_def)
  then have "sum_list (map (\<lambda>node. phase_work e node (en_phase t (nd_id node))) (ev_nodes e)) <
      sum_list (map (\<lambda>node. phase_work e node (en_phase s (nd_id node))) (ev_nodes e))"
    using sum_list_decreases [of node "ev_nodes e" "\<lambda>node. phase_work e node (en_phase t (nd_id node))"
        "\<lambda>node. phase_work e node (en_phase s (nd_id node))"] node less by blast
  then show ?thesis using \<open>en_crashed t = en_crashed s\<close> by (simp add: engine_work_def)
qed (use run in \<open>simp add: engine_work_def\<close>)

lemma executeNode_outcome:
  assumes "\<And>input evs. \<exists>outcome. ev_execute e node input evs outcome"
  shows "\<exists>outcome. executeNode e node deps s outcome"
proof (cases "nd_type node")
  case (Some t)
  then show ?thesis
    using assms by (cases "ev_has_handler e t"; cases "ev_source_events e (nd_id node)") (simp_all add: executeNode_def)
qed (simp add: executeNode_def)

text \<open>A node whose sources have all completed can take a step.\<close>

lemma node_can_step:
  assumes inv: "node_inv e s node" and open_node: "en_phase s (nd_id node) \<noteq> Finished"
    and sent: "\<forall>dep \<in> set (node_deps e node). \<exists>data. (completion_name e (sourceNodeId dep), data) \<in> set (en_sent s)"
    and events: "ev_timeouts e \<or> (\<forall>dep \<in> set (node_deps e node). on_outcome dep)"
    and exec: "\<And>input evs. \<exists>outcome. ev_execute e node input evs outcome"
  shows "\<exists>t. node_step e node s t"
proof -
  have ok: "phase_ok e node (en_phase s (nd_id node))" using inv by (simp add: node_inv_def)
  have ends: "\<exists>payload. wait_ends e s name payload" if "ev_timeouts e" for name
    using that by (intro exI [of _ None]) (simp add: wait_ends_def)
  have wait: "\<exists>data. wait_ends e s (completion_name e (sourceNodeId dep)) (Some data)" if "dep \<in> set (node_deps e node)" for dep
    using sent that by (fastforce simp: wait_ends_def)
  have no_evs: "evs = [] \<or> ev_timeouts e" if "set evs \<subseteq> set (event_deps (node_deps e node))" for evs
    using that events event_deps_none [of "node_deps e node"] by auto
  show ?thesis
  proof (cases "en_phase s (nd_id node)")
    case AwaitCompletions
    then show ?thesis using completions [of s node e] wait by blast
  next
    case (AwaitEvents evs)
    then show ?thesis
    proof (cases evs)
      case (Cons ev rest)
      have "ev_timeouts e" using no_evs [of evs] ok AwaitEvents Cons by (simp add: phase_ok_def Let_def)
      then obtain payload where "wait_ends e s (node_event_name e (sourceNodeId (fst ev)) (snd ev)) payload"
        using ends by blast
      then show ?thesis using event [of s node "[]" "fst ev" "snd ev" rest e payload] AwaitEvents Cons by auto
    next
      case Nil
      then show ?thesis using AwaitEvents checked [of s node e] refused [of s node e] check_raised [of s node e]
        by (cases "hasDependencyFailure (en_results s) (node_deps e node)") auto
    qed
  next
    case (AwaitAny pending)
    then show ?thesis
    proof (cases pending)
      case (Cons source rest)
      then obtain dep where "dep \<in> set (node_deps e node)" "sourceNodeId dep = source"
        using ok AwaitAny by (auto simp: phase_ok_def Let_def)
      then show ?thesis using wait [of dep] any_source [of s node pending source e] AwaitAny Cons by auto
    qed (use AwaitAny any_exhausted [of s node e] in auto)
  next
    case (AwaitAnyEvents source pending evs)
    then show ?thesis
    proof (cases evs)
      case (Cons ev rest)
      have "ev_timeouts e" using no_evs [of evs] ok AwaitAnyEvents Cons by (simp add: phase_ok_def Let_def)
      then obtain payload where "wait_ends e s (node_event_name e (sourceNodeId (fst ev)) (snd ev)) payload"
        using ends by blast
      then show ?thesis using any_event [of s node source pending "[]" "fst ev" "snd ev" rest e payload] AwaitAnyEvents Cons by auto
    next
      case Nil
      then show ?thesis using AwaitAnyEvents any_checked [of s node source pending e] any_refused [of s node source pending e]
          any_check_raised [of s node source pending e]
        by (cases "hasDependencyFailure (en_results s) (group_of source (node_deps e node))") auto
    qed
  next
    case (Running deps)
    obtain outcome where "executeNode e node deps s outcome" using executeNode_outcome [OF exec] by blast
    then show ?thesis using Running executed [of s node deps e] raised [of s node deps e] by (cases outcome) auto
  qed (use open_node in simp)
qed


lemma acyclic_minimal:
  assumes "acyclic r" "finite r" "x \<in> A"
  shows "\<exists>y \<in> A. \<forall>z. (y, z) \<in> r \<longrightarrow> z \<notin> A"
proof -
  have "wf (r\<inverse>)" using assms(1,2) by (rule finite_acyclic_wf_converse [rotated])
  then have "\<exists>y \<in> A. \<forall>z. (z, y) \<in> r\<inverse> \<longrightarrow> z \<notin> A" using assms(3) unfolding wf_eq_minimal by metis
  then show ?thesis by simp
qed

lemma finite_flow_rel: "finite (flow_rel edges)"
proof -
  have "flow_rel edges = (\<lambda>edge. (ed_target edge, ed_source edge)) ` set edges" by (auto simp: flow_rel_def)
  then show ?thesis by simp
qed

text \<open>What \<open>automation\<close> guarantees of the engine it starts.\<close>

definition graph_of :: "'z engine_env \<Rightarrow> flow_edge list \<Rightarrow> bool" where
  "graph_of e edges \<longleftrightarrow> acyclic (flow_rel edges) \<and> distinct (map nd_id (ev_nodes e)) \<and>
     (\<forall>node \<in> set (ev_nodes e). node_deps e node = map dependency_of (filter (\<lambda>edge. ed_target edge = nd_id node) edges)) \<and>
     (\<forall>edge \<in> set edges. ed_source edge \<in> nd_id ` set (ev_nodes e))"

lemma automation_graph:
  assumes "automation app eventId params = Inr e"
  shows "\<exists>edges. graph_of e edges"
proof -
  obtain nodes edges m where val: "runWorkflowValidation app nodes edges = Inr m" and e: "ev_nodes e = nodes" "ev_deps e = m"
    using assms by (auto simp: automation_def Let_def split: option.splits sum.splits)
  obtain am where acc: "validateWorkflow (au_zod app) (runtime_of app nodes) edges (asyncNodeTypes app) = FlowAccepted m am"
    using val by (auto simp: runWorkflowValidation_def split: validation_outcome.splits)
  show ?thesis
  proof (cases "nodes = []")
    case True
    then show ?thesis using e by (intro exI [of _ "[]"]) (simp add: graph_of_def flow_rel_def acyclic_def)
  next
    case False
    then have "ra_nodes (runtime_of app nodes) \<noteq> []" by (simp add: runtime_of_def)
    from accepted_workflow [OF acc this] show ?thesis
      using e by (intro exI [of _ edges]) (simp add: graph_of_def runtime_of_def node_deps_def)
  qed
qed

lemma graph_wf:
  assumes "graph_of e edges" "\<forall>node \<in> set (ev_nodes e). \<not> str_includes (nd_id node) ''###''"
  shows "engine_wf e"
  using assms by (auto simp: graph_of_def engine_wf_def dependency_of_def)

lemma progress:
  assumes graph: "graph_of e edges" and wf: "engine_wf e" and inv: "engine_inv e s"
    and events: "ev_timeouts e \<or> (\<forall>node \<in> set (ev_nodes e). \<forall>dep \<in> set (node_deps e node). on_outcome dep)"
    and exec: "\<And>node input evs. \<exists>outcome. ev_execute e node input evs outcome"
    and pending: "node \<in> set (ev_nodes e)" "jget (en_results s) (nd_id node) = None"
  shows "\<exists>node \<in> set (ev_nodes e). \<exists>t. node_step e node s t"
proof -
  define todo where "todo = {nd_id node | node. node \<in> set (ev_nodes e) \<and> jget (en_results s) (nd_id node) = None}"
  have inv': "node_inv e s node" if "node \<in> set (ev_nodes e)" for node using inv that by (simp add: engine_inv_def)
  obtain n where n: "n \<in> todo" and first: "\<And>src. (n, src) \<in> flow_rel edges \<Longrightarrow> src \<notin> todo"
    using acyclic_minimal [of "flow_rel edges" "nd_id node" todo] graph pending finite_flow_rel
    by (auto simp: graph_of_def todo_def)
  then obtain node where node: "node \<in> set (ev_nodes e)" "nd_id node = n" "jget (en_results s) (nd_id node) = None"
    by (auto simp: todo_def)
  have "\<exists>data. (completion_name e (sourceNodeId dep), data) \<in> set (en_sent s)" if dep: "dep \<in> set (node_deps e node)" for dep
  proof -
    have "node_deps e node = map dependency_of (filter (\<lambda>edge. ed_target edge = nd_id node) edges)"
      using graph node(1) by (simp add: graph_of_def)
    then obtain edge where "edge \<in> set edges" "ed_target edge = n" "dep = dependency_of edge"
      using dep node(2) by auto
    then have edge: "edge \<in> set edges" "ed_target edge = n" "sourceNodeId dep = ed_source edge"
      by (simp_all add: dependency_of_def)
    then obtain src where src: "src \<in> set (ev_nodes e)" "nd_id src = sourceNodeId dep" using graph by (auto simp: graph_of_def)
    have "sourceNodeId dep \<notin> todo" using first edge by (auto simp: flow_rel_def)
    then show ?thesis using inv' [OF src(1)] src by (auto simp: todo_def node_inv_def)
  qed
  moreover have "en_phase s (nd_id node) \<noteq> Finished" using inv' [OF node(1)] node(3) by (simp add: node_inv_def)
  ultimately show ?thesis using node_can_step [OF inv' [OF node(1)]] node(1) events exec by blast
qed


section \<open>Properties\<close>



text \<open>
  C8. A run comes to its end. For a workflow that \<open>automation\<close> accepts, in which no dependency is on
  an event (or in which waits time out) and every execution has an outcome, each step of a node
  reduces the remaining work, and a reachable state in which no node can step is one in which
  every node has its result, or the run was rejected. No accepted workflow deadlocks.
\<close>

theorem automation_runs_to_completion:
  assumes start: "automation app eventId params = Inr e"
    and ids: "\<forall>node \<in> set (ev_nodes e). \<not> str_includes (nd_id node) ''###''"
    and reach: "reachable_from (engine_init e) (engine_step e) s"
    and events: "ev_timeouts e \<or> (\<forall>node \<in> set (ev_nodes e). \<forall>dep \<in> set (node_deps e node). on_outcome dep)"
    and exec: "\<And>node input evs. \<exists>outcome. ev_execute e node input evs outcome"
  shows "(\<forall>node \<in> set (ev_nodes e). \<forall>t. \<not> en_crashed s \<longrightarrow> node_step e node s t \<longrightarrow> engine_work e t < engine_work e s) \<and>
    ((\<nexists>node t. node \<in> set (ev_nodes e) \<and> node_step e node s t) \<longrightarrow>
       (\<forall>node \<in> set (ev_nodes e). jget (en_results s) (nd_id node) \<noteq> None))"
proof -
  obtain edges where graph: "graph_of e edges" using automation_graph [OF start] by blast
  have wf: "engine_wf e" by (rule graph_wf [OF graph ids])
  have inv: "engine_inv e s" using eng.inv_reachable [OF reachable_wf [OF reach wf]] by simp
  show ?thesis using node_step_work [OF wf] progress [OF graph wf inv events exec] by blast
qed

text \<open>
  Event names join their parts with a dash, so the event \<open>x\<close> of a node and the completion of the
  node whose id ends in \<open>-x\<close> have one name.
\<close>

text \<open>
  Event names are not unique. For every encoding, the name of an event of a node is also the
  name of the completion of the node whose id is the node's id, a dash and the event's name, and the
  merge event of a node is the completion of a node whose id ends in \<open>-merge-any\<close>: a wait on
  one of them also ends with the other.
\<close>

theorem event_names_collide:
  "node_event_name e n ev = completion_name e (n @ ''-'' @ ev) \<and> merge_name e n = completion_name e (n @ ''-merge-any'')"
  by (simp add: node_event_name_def merge_name_def completion_name_def generateEventName_def event_base_def)


section \<open>A run\<close>

text \<open>The two-node workflow of the validator's example, with executors that return a constant.\<close>

definition demo_output :: jv where
  "demo_output = JObj [(''out'', JStr ''hi'')]"

definition demo_app :: "schema automation_app" where
  "demo_app = \<lparr>au_zod = schema_zod, au_schemas = ra_nodeSchemas demo_args, au_handlers = [], au_fnAsync = (\<lambda>_. False),
     au_handlerAsync = (\<lambda>_. False), au_fetch = (\<lambda>_. Inr (Some (demo_nodes, [demo_edge]))), au_enc = (\<lambda>s. s),
     au_parse = (\<lambda>_ v. Inr v), au_execute = (\<lambda>_ _ _ outcome. outcome = Inr demo_output), au_timeouts = False\<rparr>"

definition demo_env :: "schema engine_env" where
  "demo_env = (case automation demo_app (Some ''run'') JNull of Inr e \<Rightarrow> e | Inl _ \<Rightarrow> undefined)"

definition demo_node :: "nat \<Rightarrow> flow_node" where
  "demo_node i = demo_nodes ! i"

definition demo_dep :: dependency_info where
  "demo_dep = dependency_of demo_edge"

definition demo_states :: "nat \<Rightarrow> engine_state" where
  "demo_states k =
     (let s0 = \<lparr>en_results = [], en_phase = (\<lambda>n. if n = ''x'' then Running [] else AwaitCompletions), en_sent = [], en_crashed = False\<rparr>;
          s1 = finish_ok demo_env ''x'' demo_output s0;
          s2 = set_phase ''y'' (AwaitEvents []) s1;
          s3 = set_phase ''y'' (Running [demo_dep]) s2;
          s4 = finish_ok demo_env ''y'' demo_output s3
      in [s0, s1, s2, s3, s4] ! k)"

lemma demo_started: "automation demo_app (Some ''run'') JNull = Inr demo_env"
proof -
  have "(case automation demo_app (Some ''run'') JNull of Inr _ \<Rightarrow> True | Inl _ \<Rightarrow> False)" by code_simp
  then show ?thesis by (auto simp: demo_env_def split: sum.splits)
qed

lemma demo_env_facts:
  "ev_nodes demo_env = demo_nodes" "set demo_nodes = {demo_node 0, demo_node 1}"
  "nd_id (demo_node 0) = ''x''" "nd_id (demo_node 1) = ''y''" "nd_id (demo_node (Suc 0)) = ''y''"
  "node_deps demo_env (demo_node 0) = []" "node_deps demo_env (demo_node 1) = [demo_dep]" "node_deps demo_env (demo_node (Suc 0)) = [demo_dep]"
  "ev_mode demo_env (demo_node 1) = ModeAll" "ev_mode demo_env (demo_node (Suc 0)) = ModeAll"
  "sourceNodeId demo_dep = ''x''" "on_outcome demo_dep"
  by code_simp+

lemma demo_executes: "executeNode demo_env (demo_node 0) deps s (Inr demo_output)" "executeNode demo_env (demo_node 1) deps s (Inr demo_output)"
proof -
  have "ev_execute demo_env n i evs (Inr demo_output)" for n i evs by code_simp
  moreover have "nd_type (demo_node 0) = Some ''X''" "nd_type (demo_node 1) = Some ''Y''"
    "ev_has_handler demo_env ''X''" "ev_has_handler demo_env ''Y''"
    "ev_source_events demo_env ''x'' \<noteq> None" "ev_source_events demo_env ''y'' \<noteq> None" by code_simp+
  ultimately show "executeNode demo_env (demo_node 0) deps s (Inr demo_output)" "executeNode demo_env (demo_node 1) deps s (Inr demo_output)"
    by (auto simp: executeNode_def demo_env_facts)
qed


lemma demo_wf: "engine_wf demo_env"
proof -
  have "\<not> str_includes ''x'' ''###''" "\<not> str_includes ''y'' ''###''" by code_simp+
  moreover have "distinct (map nd_id demo_nodes)" by code_simp
  ultimately show ?thesis by (simp add: engine_wf_def demo_env_facts)
qed

lemmas demo_state_simps =
  demo_states_def Let_def set_phase_def finish_ok_def demo_env_facts

lemma demo_step:
  "engine_step demo_env (demo_states 0) (demo_states 1)" "engine_step demo_env (demo_states 1) (demo_states 2)"
  "engine_step demo_env (demo_states 2) (demo_states 3)" "engine_step demo_env (demo_states 3) (demo_states 4)"
proof -
  have nodes: "demo_node 0 \<in> set (ev_nodes demo_env)" "demo_node 1 \<in> set (ev_nodes demo_env)" by (simp_all add: demo_env_facts)
  have "node_step demo_env (demo_node 0) (demo_states 0) (demo_states 1)"
    using executed [OF _ demo_executes(1), of "demo_states 0" "[]"] by (simp add: demo_states_def Let_def demo_env_facts)
  then show "engine_step demo_env (demo_states 0) (demo_states 1)"
    by (intro engine_step.node [OF _ nodes(1)]) (simp add: demo_state_simps)
  have "\<exists>payload. wait_ends demo_env (demo_states 1) (completion_name demo_env ''x'') payload"
    by (intro exI [of _ "Some JUndef"]) (simp add: wait_ends_def demo_state_simps)
  then have "node_step demo_env (demo_node 1) (demo_states 1) (demo_states 2)"
    using completions [of "demo_states 1" "demo_node 1" demo_env] event_deps_none [of "[demo_dep]"] demo_env_facts(12)
    by (simp add: demo_states_def Let_def demo_env_facts)
  then show "engine_step demo_env (demo_states 1) (demo_states 2)"
    by (intro engine_step.node [OF _ nodes(2)]) (simp add: demo_state_simps)
  have "hasDependencyFailure [(''x'', ExecOk demo_output)] [demo_dep] = Some False" by code_simp
  then have "node_step demo_env (demo_node 1) (demo_states 2) (demo_states 3)"
    using checked [of "demo_states 2" "demo_node 1" demo_env] by (simp add: demo_state_simps)
  then show "engine_step demo_env (demo_states 2) (demo_states 3)"
    by (intro engine_step.node [OF _ nodes(2)]) (simp add: demo_state_simps)
  have "node_step demo_env (demo_node 1) (demo_states 3) (demo_states 4)"
    using executed [OF _ demo_executes(2), of "demo_states 3" "[demo_dep]"] by (simp add: demo_states_def Let_def demo_env_facts)
  then show "engine_step demo_env (demo_states 3) (demo_states 4)"
    by (intro engine_step.node [OF _ nodes(2)]) (simp add: demo_state_simps)
qed

lemma demo_run_reachable: "reachable_from (engine_init demo_env) (engine_step demo_env) (demo_states 1)"
  "reachable_from (engine_init demo_env) (engine_step demo_env) (demo_states 4)"
  "reachable_from (engine_init demo_env) (engine_step demo_env) (demo_states 0)"
proof -
  have init: "engine_init demo_env (demo_states 0)" by (simp add: engine_init_def start_phase_def demo_state_simps)
  then show "reachable_from (engine_init demo_env) (engine_step demo_env) (demo_states 0)" by (rule reach_start)
  from init show one: "reachable_from (engine_init demo_env) (engine_step demo_env) (demo_states 1)"
    using demo_step(1) by (blast intro: reachable_from.intros)
  show "reachable_from (engine_init demo_env) (engine_step demo_env) (demo_states 4)"
    using one demo_step(2-4) by (blast intro: reachable_from.reach_next)
qed

lemma demo_result: "jget (en_results (demo_states 4)) ''y'' = Some (ExecOk demo_output)"
  "jget (en_results (demo_states 1)) ''x'' = Some (ExecOk demo_output)"
  by (simp_all add: demo_state_simps)



theorem automation_runs_to_completion_witness:
  "(\<exists>node t. node \<in> set demo_nodes \<and> node_step demo_env node (demo_states 1) t) \<and>
     engine_work demo_env (finish_ok demo_env ''x'' demo_output (demo_states 0)) < engine_work demo_env (demo_states 0)"
proof -
  have ids: "\<forall>node \<in> set (ev_nodes demo_env). \<not> str_includes (nd_id node) ''###''" by code_simp
  have deps: "ev_timeouts demo_env \<or> (\<forall>node \<in> set (ev_nodes demo_env). \<forall>dep \<in> set (node_deps demo_env node). on_outcome dep)" by code_simp
  have "ev_execute demo_env n i evs (Inr demo_output)" for n i evs by code_simp
  then have "\<exists>outcome. ev_execute demo_env n i evs outcome" for n i evs by blast
  note run = automation_runs_to_completion [OF demo_started ids _ deps this]
  have "jget (en_results (demo_states 1)) (nd_id (demo_node 1)) = None" by (simp add: demo_state_simps)
  then have "\<exists>node t. node \<in> set demo_nodes \<and> node_step demo_env node (demo_states 1) t"
    using run [OF demo_run_reachable(1)] unfolding demo_env_facts(1) by (metis demo_env_facts(2) insertCI)
  moreover have "node_step demo_env (demo_node 0) (demo_states 0) (finish_ok demo_env (nd_id (demo_node 0)) demo_output (demo_states 0))"
    by (rule executed [OF _ demo_executes(1), of _ "[]"]) (simp add: demo_states_def Let_def demo_env_facts)
  then have "engine_work demo_env (finish_ok demo_env ''x'' demo_output (demo_states 0)) < engine_work demo_env (demo_states 0)"
    using run [OF demo_run_reachable(3)] by (simp add: demo_env_facts) (simp add: demo_state_simps)
  ultimately show ?thesis by blast
qed

end
