(* ===== verification/Component_Manifest.thy ===== *)
theory Component_Manifest
  imports Js_Value
begin

text \<open>
  The device components the cloud offers, computed from the service manifests of the device
  (\<open>lib/device-component-manifest.ts\<close>). The two JSON files are arguments; optional fields are options.
\<close>

section \<open>Manifests\<close>

record permissions_manifest =
  pm_read :: "string list option"
  pm_write :: "string list option"

record cloud_app_manifest =
  ca_navigationLabel :: "string option"
  ca_permissions :: "permissions_manifest option"
  ca_rendererKey :: "string option"
  ca_routePath :: "string option"
  ca_sortOrder :: "js_number option"

record service_manifest =
  sm_name :: string
  sm_description :: "string option"
  sm_displayName :: "string option"
  sm_defaultEnabled :: "bool option"
  sm_cloudApp :: "cloud_app_manifest option"

record service_methods_manifest =
  mm_name :: string
  mm_methods :: "string list option"

record component_entry =
  ce_defaultEnabled :: bool
  ce_description :: "string option"
  ce_displayName :: string
  ce_key :: string
  ce_navigationLabel :: string
  ce_readActions :: "string list"
  ce_rendererKey :: "string option"
  ce_routePath :: "string option"
  ce_serviceName :: string
  ce_sortOrder :: js_number
  ce_writeActions :: "string list"

datatype manifest_error =
    UnknownMethods string "string list"
  | OverlappingMethods string "string list"
  | MissingService string

section \<open>Permissions\<close>

definition normalizeMethodNameList :: "string list \<Rightarrow> string list" where
  "normalizeMethodNameList vs = jset_of (filter (\<lambda>v. v \<noteq> []) (map trim vs))"

definition isReadOnlyMethodName :: "string \<Rightarrow> bool" where
  "isReadOnlyMethodName m \<longleftrightarrow> starts_with ''get-'' m \<or> starts_with ''list-'' m"

definition validatePermissionAssignments ::
  "string \<Rightarrow> string list \<Rightarrow> string list \<Rightarrow> string list \<Rightarrow> manifest_error option" where
  "validatePermissionAssignments serviceName available reads writes =
     (let unknown = filter (\<lambda>m. m \<notin> set available) (reads @ writes);
          overlapping = filter (\<lambda>m. m \<in> set writes) reads
      in if unknown \<noteq> [] then Some (UnknownMethods serviceName unknown)
         else if overlapping \<noteq> [] then Some (OverlappingMethods serviceName overlapping)
         else None)"

text \<open>The loop over the methods that were not assigned.\<close>

definition assign_method :: "string list \<Rightarrow> string \<Rightarrow> string list \<times> string list \<Rightarrow> string list \<times> string list" where
  "assign_method assigned m rw =
     (if m \<in> set assigned then rw
      else if isReadOnlyMethodName m then (jadd m (fst rw), snd rw)
      else (fst rw, jadd m (snd rw)))"

definition buildPermissionAssignments ::
  "string \<Rightarrow> string list \<Rightarrow> permissions_manifest option \<Rightarrow> manifest_error + (string list \<times> string list)" where
  "buildPermissionAssignments serviceName available permissions =
     (let configuredRead = normalizeMethodNameList (case Option.bind permissions pm_read of None \<Rightarrow> [] | Some xs \<Rightarrow> xs);
          configuredWrite = normalizeMethodNameList (case Option.bind permissions pm_write of None \<Rightarrow> [] | Some xs \<Rightarrow> xs)
      in case validatePermissionAssignments serviceName available configuredRead configuredWrite of
           Some e \<Rightarrow> Inl e
         | None \<Rightarrow>
             let (reads, writes) = fold (assign_method (configuredRead @ configuredWrite)) available (configuredRead, configuredWrite)
             in Inr (filter (\<lambda>m. m \<in> set reads) available, filter (\<lambda>m. m \<in> set writes) available))"

section \<open>Entries\<close>

text \<open>\<open>new Map(services.map((service, index) => [service.name, [service, index]]))\<close>\<close>

definition servicesByName :: "service_manifest list \<Rightarrow> (string, service_manifest \<times> nat) jmap" where
  "servicesByName services = fold (\<lambda>(i, sv). jset (sm_name sv) (sv, i)) (enumerate 0 services) []"

definition component_entry_of ::
  "(string, service_manifest \<times> nat) jmap \<Rightarrow> nat \<Rightarrow> service_methods_manifest \<Rightarrow> manifest_error + component_entry" where
  "component_entry_of byName methodIndex sm =
     (case jget byName (mm_name sm) of
        None \<Rightarrow> Inl (MissingService (mm_name sm))
      | Some (service, serviceIndex) \<Rightarrow>
          let methodNames = normalizeMethodNameList (case mm_methods sm of None \<Rightarrow> [] | Some xs \<Rightarrow> xs);
              app = sm_cloudApp service;
              displayName = (case blank_to_none (sm_displayName service) of None \<Rightarrow> sm_name service | Some d \<Rightarrow> d);
              navigationLabel = (case blank_to_none (Option.bind app ca_navigationLabel) of None \<Rightarrow> displayName | Some l \<Rightarrow> l)
          in case buildPermissionAssignments (sm_name service) methodNames (Option.bind app ca_permissions) of
               Inl e \<Rightarrow> Inl e
             | Inr (reads, writes) \<Rightarrow> Inr
                 \<lparr>ce_defaultEnabled = (sm_defaultEnabled service = Some True),
                  ce_description = blank_to_none (sm_description service),
                  ce_displayName = displayName, ce_key = sm_name service, ce_navigationLabel = navigationLabel,
                  ce_readActions = reads,
                  ce_rendererKey = blank_to_none (Option.bind app ca_rendererKey),
                  ce_routePath = blank_to_none (Option.bind app ca_routePath),
                  ce_serviceName = sm_name service,
                  ce_sortOrder = (case Option.bind app ca_sortOrder of
                      Some n \<Rightarrow> if is_finite_num n then n else Fin (of_nat (serviceIndex + methodIndex))
                    | None \<Rightarrow> Fin (of_nat (serviceIndex + methodIndex))),
                  ce_writeActions = writes\<rparr>)"

fun collect_entries ::
  "(string, service_manifest \<times> nat) jmap \<Rightarrow> nat \<Rightarrow> service_methods_manifest list \<Rightarrow> manifest_error + component_entry list" where
  "collect_entries byName i [] = Inr []"
| "collect_entries byName i (sm # sms) =
     (case component_entry_of byName i sm of
        Inl e \<Rightarrow> Inl e
      | Inr entry \<Rightarrow> (case collect_entries byName (Suc i) sms of Inl e \<Rightarrow> Inl e | Inr entries \<Rightarrow> Inr (entry # entries)))"

definition loadDeviceComponentManifestEntries ::
  "service_manifest list option \<Rightarrow> service_methods_manifest list option \<Rightarrow> manifest_error + component_entry list" where
  "loadDeviceComponentManifestEntries services methods =
     collect_entries (servicesByName (case services of None \<Rightarrow> [] | Some ss \<Rightarrow> ss)) 0 (case methods of None \<Rightarrow> [] | Some ms \<Rightarrow> ms)"

section \<open>The actions of an entry\<close>

lemma set_normalizeMethodNameList: "set (normalizeMethodNameList xs) = {trim x | x. x \<in> set xs \<and> trim x \<noteq> []}"
  by (auto simp: normalizeMethodNameList_def)

lemma assign_methods:
  assumes "set assigned = set r \<union> set w" "set r \<inter> set w = {}"
  shows "set (fst (fold (assign_method assigned) ms (r, w))) = set r \<union> {m \<in> set ms. m \<notin> set assigned \<and> isReadOnlyMethodName m} \<and>
    set (snd (fold (assign_method assigned) ms (r, w))) = set w \<union> {m \<in> set ms. m \<notin> set assigned \<and> \<not> isReadOnlyMethodName m}"
proof -
  have "set (fst (fold (assign_method assigned) ms rw)) = set (fst rw) \<union> {m \<in> set ms. m \<notin> set assigned \<and> isReadOnlyMethodName m} \<and>
    set (snd (fold (assign_method assigned) ms rw)) = set (snd rw) \<union> {m \<in> set ms. m \<notin> set assigned \<and> \<not> isReadOnlyMethodName m}" for rw
    by (induction ms arbitrary: rw) (auto simp: assign_method_def jadd_def)
  from this [of "(r, w)"] show ?thesis by simp
qed

text \<open>What the assignment of methods must satisfy, said without the algorithm.\<close>

definition permission_split :: "string list \<Rightarrow> string list \<Rightarrow> string list \<Rightarrow> string list \<Rightarrow> string list \<Rightarrow> bool" where
  "permission_split available configuredRead configuredWrite reads writes \<longleftrightarrow>
     set reads \<inter> set writes = {} \<and> set reads \<union> set writes = set available \<and>
     set configuredRead \<subseteq> set reads \<and> set configuredWrite \<subseteq> set writes \<and>
     (\<forall>m \<in> set available. m \<notin> set configuredRead \<longrightarrow> m \<notin> set configuredWrite \<longrightarrow>
        (m \<in> set reads \<longleftrightarrow> isReadOnlyMethodName m))"

definition configured_reads :: "permissions_manifest option \<Rightarrow> string list" where
  "configured_reads p = normalizeMethodNameList (case Option.bind p pm_read of None \<Rightarrow> [] | Some xs \<Rightarrow> xs)"

definition configured_writes :: "permissions_manifest option \<Rightarrow> string list" where
  "configured_writes p = normalizeMethodNameList (case Option.bind p pm_write of None \<Rightarrow> [] | Some xs \<Rightarrow> xs)"

definition permissions_of :: "service_manifest \<Rightarrow> permissions_manifest option" where
  "permissions_of service = Option.bind (sm_cloudApp service) ca_permissions"

lemma build_split:
  assumes "buildPermissionAssignments sn available permissions = Inr (reads, writes)"
  shows "permission_split available (configured_reads permissions) (configured_writes permissions) reads writes"
proof -
  define cr where "cr = configured_reads permissions"
  define cw where "cw = configured_writes permissions"
  have valid: "validatePermissionAssignments sn available cr cw = None"
    and res: "fold (assign_method (cr @ cw)) available (cr, cw) = (r, w) \<Longrightarrow>
      reads = filter (\<lambda>m. m \<in> set r) available \<and> writes = filter (\<lambda>m. m \<in> set w) available" for r w
    using assms unfolding buildPermissionAssignments_def configured_reads_def [symmetric] configured_writes_def [symmetric]
      cr_def [symmetric] cw_def [symmetric]
    by (auto simp: Let_def split: option.splits prod.splits)
  have known: "set cr \<subseteq> set available" "set cw \<subseteq> set available" and disj: "set cr \<inter> set cw = {}"
    using valid by (auto simp: validatePermissionAssignments_def Let_def filter_empty_conv split: if_splits)
  obtain r w where rw: "fold (assign_method (cr @ cw)) available (cr, cw) = (r, w)" by fastforce
  then have "set r = set cr \<union> {m \<in> set available. m \<notin> set (cr @ cw) \<and> isReadOnlyMethodName m}"
    "set w = set cw \<union> {m \<in> set available. m \<notin> set (cr @ cw) \<and> \<not> isReadOnlyMethodName m}"
    using assign_methods [of "cr @ cw" cr cw available] disj by auto
  then show ?thesis using res [OF rw] known disj unfolding cr_def [symmetric] cw_def [symmetric]
    by (auto simp: permission_split_def)
qed

lemma entry_split:
  assumes "component_entry_of byName i sm = Inr e" "jget byName (mm_name sm) = Some (service, k)"
  shows "permission_split (normalizeMethodNameList (case mm_methods sm of None \<Rightarrow> [] | Some xs \<Rightarrow> xs))
      (configured_reads (permissions_of service)) (configured_writes (permissions_of service))
      (ce_readActions e) (ce_writeActions e) \<and> ce_serviceName e = sm_name service"
proof -
  let ?ms = "normalizeMethodNameList (case mm_methods sm of None \<Rightarrow> [] | Some xs \<Rightarrow> xs)"
  obtain reads writes where built: "buildPermissionAssignments (sm_name service) ?ms (permissions_of service) = Inr (reads, writes)"
    and "ce_readActions e = reads" "ce_writeActions e = writes" "ce_serviceName e = sm_name service"
    using assms by (auto simp: component_entry_of_def permissions_of_def Let_def split: sum.splits)
  then show ?thesis using build_split [OF built] by blast
qed

lemma collect_entries_nth:
  "collect_entries byName i sms = Inr es \<Longrightarrow> length es = length sms \<and> (\<forall>j < length sms. component_entry_of byName (i + j) (sms ! j) = Inr (es ! j))"
proof (induction sms arbitrary: i es)
  case (Cons sm sms)
  then obtain x xs where ex: "component_entry_of byName i sm = Inr x" "collect_entries byName (Suc i) sms = Inr xs" "es = x # xs"
    by (auto split: sum.splits)
  show ?case using Cons.IH [OF ex(2)] ex by (auto simp: nth_Cons split: nat.splits)
qed simp

text \<open>
  The actions of a device component are split into reading and writing ones. Whenever the manifests
  load, there is one entry per service of the methods manifest, in order; its read and write actions
  are disjoint and together are exactly the (trimmed, non-blank) methods of the service, configured
  assignments are respected, and every other method is a read action exactly when its name starts
  with \<open>get-\<close> or \<open>list-\<close>.
\<close>

theorem manifest_actions_partition:
  assumes "loadDeviceComponentManifestEntries services (Some methods) = Inr entries"
  shows "length entries = length methods \<and>
    (\<forall>j < length methods. \<exists>service k.
       jget (servicesByName (case services of None \<Rightarrow> [] | Some ss \<Rightarrow> ss)) (mm_name (methods ! j)) = Some (service, k) \<and>
       permission_split (normalizeMethodNameList (case mm_methods (methods ! j) of None \<Rightarrow> [] | Some xs \<Rightarrow> xs))
         (configured_reads (permissions_of service)) (configured_writes (permissions_of service)) (ce_readActions (entries ! j)) (ce_writeActions (entries ! j)) \<and>
       ce_serviceName (entries ! j) = mm_name (methods ! j))"
proof -
  let ?by = "servicesByName (case services of None \<Rightarrow> [] | Some ss \<Rightarrow> ss)"
  have names: "jget (fold (\<lambda>(i, sv). jset (sm_name sv) (sv, i)) xs m) n = Some (sv, i) \<Longrightarrow>
      sm_name sv = n \<or> jget m n = Some (sv, i)" for xs m n sv i
    by (induction xs arbitrary: m) (fastforce split: if_splits)+
  have "\<exists>service k. jget ?by (mm_name sm) = Some (service, k) \<and>
      permission_split (normalizeMethodNameList (case mm_methods sm of None \<Rightarrow> [] | Some xs \<Rightarrow> xs))
        (configured_reads (permissions_of service)) (configured_writes (permissions_of service)) (ce_readActions e) (ce_writeActions e) \<and> ce_serviceName e = mm_name sm"
    if e: "component_entry_of ?by i sm = Inr e" for i sm e
  proof -
    obtain service k where service: "jget ?by (mm_name sm) = Some (service, k)"
      using e by (auto simp: component_entry_of_def split: option.splits)
    then have "sm_name service = mm_name sm" using names [of _ "[]"] by (auto simp: servicesByName_def)
    then show ?thesis using entry_split [OF e service] service by auto
  qed
  then show ?thesis
    using collect_entries_nth [of ?by 0 methods entries] assms by (auto simp: loadDeviceComponentManifestEntries_def)
qed

definition demo_service :: service_manifest where
  "demo_service = \<lparr>sm_name = ''ptz'', sm_description = None, sm_displayName = Some '' PTZ '', sm_defaultEnabled = None,
     sm_cloudApp = Some \<lparr>ca_navigationLabel = None, ca_permissions = Some \<lparr>pm_read = Some [''poll''], pm_write = None\<rparr>,
       ca_rendererKey = None, ca_routePath = None, ca_sortOrder = None\<rparr>\<rparr>"

definition demo_entry :: component_entry where
  "demo_entry = (case loadDeviceComponentManifestEntries (Some [demo_service])
       (Some [\<lparr>mm_name = ''ptz'', mm_methods = Some [''get-status'', '' move'', ''poll'']\<rparr>]) of Inr (x # _) \<Rightarrow> x | _ \<Rightarrow> undefined)"

theorem manifest_actions_partition_witness:
  "set (ce_readActions demo_entry) \<union> set (ce_writeActions demo_entry) = {''get-status'', ''move'', ''poll''} \<and>
   ce_writeActions demo_entry = [''move''] \<and> ce_serviceName demo_entry = ''ptz''"
proof -
  let ?m = "\<lparr>mm_name = ''ptz'', mm_methods = Some [''get-status'', '' move'', ''poll'']\<rparr>"
  have "loadDeviceComponentManifestEntries (Some [demo_service]) (Some [?m]) = Inr [demo_entry]" by code_simp
  from manifest_actions_partition [OF this] have "\<exists>cr cw. permission_split (normalizeMethodNameList [''get-status'', '' move'', ''poll'']) cr cw
      (ce_readActions demo_entry) (ce_writeActions demo_entry) \<and> ce_serviceName demo_entry = ''ptz''" by auto
  moreover have "set (normalizeMethodNameList [''get-status'', '' move'', ''poll'']) = {''get-status'', ''move'', ''poll''}"
    "ce_writeActions demo_entry = [''move'']" by code_simp+
  ultimately show ?thesis by (auto simp: permission_split_def)
qed

end
