(* ===== verification/Display_Name.thy ===== *)
theory Display_Name
  imports Js_String
begin

text \<open>
  Readable names for identifiers (\<open>createDisplayName\<close> of \<open>trakrai-workflow-core/src/core/utils/index.ts\<close>):
  the identifier is cut into words at delimiters and at changes of case, and the words are
  capitalised. Case is that of ASCII letters.
\<close>

definition KNOWN_ACRONYMS :: "string list" where
  "KNOWN_ACRONYMS =
     [''ai'', ''aic'', ''api'', ''aws'', ''cpu'', ''css'', ''db'', ''dns'', ''gpu'', ''html'', ''http'', ''https'', ''id'',
      ''io'', ''ip'', ''iso'', ''json'', ''jwt'', ''os'', ''pdf'', ''ram'', ''rest'', ''sdk'', ''smtp'', ''sql'', ''ssh'',
      ''ssl'', ''tcp'', ''tls'', ''udp'', ''ui'', ''uri'', ''url'', ''usb'', ''uuid'', ''vm'', ''xml'', ''yaml'']"

definition is_delimiter :: "char \<Rightarrow> bool" where
  "is_delimiter c \<longleftrightarrow> c \<in> {CHR ''-'', CHR ''_'', CHR '' ''}"

definition is_upper :: "char \<Rightarrow> bool" where
  "is_upper c \<longleftrightarrow> to_upper [c] = [c] \<and> to_lower [c] \<noteq> [c]"

definition is_lower :: "char \<Rightarrow> bool" where
  "is_lower c \<longleftrightarrow> to_lower [c] = [c] \<and> to_upper [c] \<noteq> [c]"

text \<open>
  The loop over the characters: the previous character (\<open>None\<close> at the start), the words so far
  and the current word.
\<close>

fun split_words :: "char option \<Rightarrow> string list \<Rightarrow> string \<Rightarrow> string \<Rightarrow> string list \<times> string" where
  "split_words prev ws word [] = (ws, word)"
| "split_words prev ws word (c # cs) =
     (if is_delimiter c then
        (if word \<noteq> [] then split_words (Some c) (ws @ [word]) [] cs else split_words (Some c) ws word cs)
      else if is_upper c \<and> word \<noteq> [] \<and> prev \<noteq> None then
        (let nextLower = (case cs of [] \<Rightarrow> False | d # _ \<Rightarrow> is_lower d);
             prevUpper = (case prev of None \<Rightarrow> False | Some q \<Rightarrow> is_upper q)
         in if prevUpper \<and> \<not> (nextLower \<and> to_upper word = word)
            then split_words (Some c) ws (word @ [c]) cs
            else split_words (Some c) (ws @ [word]) [c] cs)
      else split_words (Some c) ws (word @ [c]) cs)"

definition display_word :: "string \<Rightarrow> string" where
  "display_word word =
     (let lower = to_lower word in
      if lower \<in> set KNOWN_ACRONYMS then to_upper lower
      else to_upper (take 1 lower) @ drop 1 lower)"

definition createDisplayName :: "string \<Rightarrow> string" where
  "createDisplayName input =
     (if input = [] then []
      else let (ws, word) = split_words None [] [] input;
               all = (if word \<noteq> [] then ws @ [word] else ws)
           in trim (join '' '' (map display_word (filter (\<lambda>w. w \<noteq> []) all))))"

section \<open>The letters are kept\<close>

lemma lower_upper: "to_lower (to_upper s) = to_lower s" "to_lower (to_lower s) = to_lower s"
  by (auto simp: to_lower_def to_upper_def of_char_of)

lemma to_lower_append: "to_lower (a @ b) = to_lower a @ to_lower b"
  by (simp add: to_lower_def)

lemma lower_display_word: "to_lower (display_word w) = to_lower w"
proof -
  have "to_lower (to_upper (take 1 (to_lower w)) @ drop 1 (to_lower w)) = to_lower (take 1 (to_lower w) @ drop 1 (to_lower w))"
    by (simp only: to_lower_append lower_upper)
  also have "\<dots> = to_lower w" by (simp only: append_take_drop_id lower_upper)
  finally show ?thesis by (simp add: display_word_def Let_def lower_upper)
qed

lemma split_words_letters:
  "split_words prev ws word cs = (ws', word') \<Longrightarrow> concat ws' @ word' = concat ws @ word @ filter (\<lambda>c. \<not> is_delimiter c) cs"
proof (induction prev ws word cs rule: split_words.induct)
  case (2 prev ws word c cs)
  then show ?case by (auto simp: Let_def split: if_splits)
qed simp


lemma filter_dropWhile: "\<forall>x \<in> set xs. Q x \<longrightarrow> \<not> P x \<Longrightarrow> filter P (dropWhile Q xs) = filter P xs"
  by (induction xs) auto

lemma filter_trim: "\<forall>c \<in> set s. js_space c \<longrightarrow> \<not> P c \<Longrightarrow> filter P (trim s) = filter P s"
proof -
  assume s: "\<forall>c \<in> set s. js_space c \<longrightarrow> \<not> P c"
  have "filter P (dropWhile js_space (rev (dropWhile js_space s))) = filter P (rev (dropWhile js_space s))"
    using s by (intro filter_dropWhile) (auto dest: set_dropWhileD)
  moreover have "filter P (dropWhile js_space s) = filter P s" using s by (intro filter_dropWhile) auto
  ultimately show ?thesis by (simp add: trim_def rev_filter [symmetric])
qed

lemma filter_join: "\<not> P c \<Longrightarrow> filter P (join [c] ws) = concat (map (filter P) ws)"
  by (induction ws) (auto simp: join_Cons)

definition lower_char :: "char \<Rightarrow> char" where
  "lower_char c = (if of_char c \<in> {65..90 :: nat} then char_of (of_char c + 32 :: nat) else c)"

lemma to_lower_map: "to_lower s = map lower_char s"
  by (simp add: to_lower_def lower_char_def)

lemma lower_char_space [simp]: "lower_char c = CHR '' '' \<longleftrightarrow> c = CHR '' ''"
proof -
  have "char_of (of_char c + 32 :: nat) \<noteq> CHR '' ''" if "of_char c \<in> {65..90 :: nat}"
  proof
    assume "char_of (of_char c + 32 :: nat) = CHR '' ''"
    then have "of_char (char_of (of_char c + 32 :: nat)) = (32 :: nat)" by simp
    then show False using that by (simp add: of_char_of)
  qed
  then show ?thesis by (auto simp: lower_char_def)
qed

lemma lower_filter: "to_lower (filter (\<lambda>c. c \<noteq> CHR '' '') s) = filter (\<lambda>c. c \<noteq> CHR '' '') (to_lower s)"
  by (simp add: to_lower_map filter_map comp_def)

lemma display_word_space: "js_space c \<Longrightarrow> c \<in> set (display_word w) \<Longrightarrow> \<exists>d \<in> set w. js_space d"
proof -
  have lower: "js_space (lower_char d) \<longleftrightarrow> js_space d" for d
    by (auto simp: lower_char_def js_space_def of_char_of)
  have upper: "js_space x \<Longrightarrow> x \<in> set (to_upper v) \<Longrightarrow> \<exists>d \<in> set v. js_space d" for x v
    by (force simp: to_upper_def js_space_def of_char_of split: if_splits)
  assume "js_space c" "c \<in> set (display_word w)"
  then have "\<exists>d \<in> set (to_lower w). js_space d"
    using upper [of c "to_lower w"] upper [of c "take 1 (to_lower w)"]
    by (auto simp: display_word_def Let_def split: if_splits dest: in_set_takeD in_set_dropD)
  then show ?thesis by (auto simp: to_lower_map lower)
qed

section \<open>Property\<close>

text \<open>
  A display name spells the identifier. For an identifier whose only white space is the blank, the
  display name without blanks and without regard to case is the identifier without its dashes,
  underscores and blanks: words are cut and capitalised, no letter is lost, added or moved.
\<close>

theorem display_name_spells:
  assumes "\<forall>c \<in> set input. js_space c \<longrightarrow> c = CHR '' ''"
  shows "filter (\<lambda>c. c \<noteq> CHR '' '') (to_lower (createDisplayName input)) = to_lower (filter (\<lambda>c. \<not> is_delimiter c) input)"
proof (cases "input = []")
  case False
  obtain ws word where sw: "split_words None [] [] input = (ws, word)" by fastforce
  define ws' where "ws' = filter (\<lambda>w. w \<noteq> []) (if word \<noteq> [] then ws @ [word] else ws)"
  have name: "createDisplayName input = trim (join '' '' (map display_word ws'))"
    using False sw by (simp add: createDisplayName_def ws'_def Let_def)
  have drop_empty: "concat (filter (\<lambda>w. w \<noteq> []) xs) = concat xs" for xs :: "string list" by (induction xs) auto
  have letters: "concat ws' = filter (\<lambda>c. \<not> is_delimiter c) input"
    using split_words_letters [OF sw] by (auto simp: ws'_def drop_empty)
  have no_space: "\<not> js_space c" if "w \<in> set ws'" "c \<in> set w" for c w
  proof -
    have "c \<in> set (concat ws')" using that by auto
    then show ?thesis using assms by (auto simp: letters is_delimiter_def)
  qed
  then have words: "\<forall>w \<in> set ws'. \<forall>c \<in> set (display_word w). \<not> js_space c" using display_word_space by blast
  have blank: "js_space (CHR '' '')" by (simp add: js_space_def)
  have "\<forall>c \<in> set (join '' '' (map display_word ws')). js_space c \<longrightarrow> \<not> (c \<noteq> CHR '' '')"
  proof -
    have "set (join [d] vs) \<subseteq> insert d (\<Union> (set ` set vs))" for d vs by (induction vs) (auto simp: join_Cons)
    then show ?thesis using words by fastforce
  qed
  then have "filter (\<lambda>c. c \<noteq> CHR '' '') (createDisplayName input) = concat (map (filter (\<lambda>c. c \<noteq> CHR '' '')) (map display_word ws'))"
    by (simp add: name filter_trim filter_join)
  also have "\<dots> = concat (map display_word ws')"
    using words blank by (intro arg_cong [where f = concat]) (auto intro!: filter_True)
  finally have "to_lower (filter (\<lambda>c. c \<noteq> CHR '' '') (createDisplayName input)) = to_lower (concat (map display_word ws'))" by simp
  also have "\<dots> = to_lower (concat ws')" using lower_display_word by (simp add: to_lower_map map_concat comp_def)
  finally show ?thesis by (simp add: lower_filter letters)
qed (simp add: createDisplayName_def to_lower_def)

theorem display_name_spells_witness:
  "createDisplayName ''apiUrl_for-HTTPServer'' = ''API URL For HTTP Server'' \<and>
   filter (\<lambda>c. c \<noteq> CHR '' '') (to_lower (createDisplayName ''apiUrl_for-HTTPServer'')) = ''apiurlforhttpserver''"
proof -
  have "\<forall>c \<in> set ''apiUrl_for-HTTPServer''. js_space c \<longrightarrow> c = CHR '' ''" by code_simp
  from display_name_spells [OF this]
  have "filter (\<lambda>c. c \<noteq> CHR '' '') (to_lower (createDisplayName ''apiUrl_for-HTTPServer'')) =
      to_lower (filter (\<lambda>c. \<not> is_delimiter c) ''apiUrl_for-HTTPServer'')" .
  moreover have "to_lower (filter (\<lambda>c. \<not> is_delimiter c) ''apiUrl_for-HTTPServer'') = ''apiurlforhttpserver''" by code_simp
  moreover have "createDisplayName ''apiUrl_for-HTTPServer'' = ''API URL For HTTP Server''" by code_simp
  ultimately show ?thesis by simp
qed

end
