(* ===== verification/Blocks.thy ===== *)
theory Blocks
  imports Display_Name Js_Value
begin

text \<open>
  Reusable blocks of the workflow editor (\<open>trakrai-workflow-plugins/src/blocks/block-utils.ts\<close>): nodes
  that carry the metadata of a block are shown as one block node, edges that cross the border of a
  block are rewritten to encoded handles, and connections drawn on the shown graph are translated
  back. Positions are exact numbers (the rounding of doubles is not modelled). The typed fields of
  \<open>node.data\<close> and \<open>edge.data\<close> that the code reads are fields of the records; what it only copies is
  \<open>bn_rest\<close> and \<open>ed_rest\<close>.
\<close>

section \<open>Data\<close>

datatype direction = Input | Output

record block_port =
  bp_direction :: direction
  bp_handle :: string
  bp_label :: string
  bp_nodeId :: string
  bp_nodeLabel :: string
  bp_nodeType :: "string option"
  bp_portId :: string

record config_field =
  cf_key :: string
  cf_label :: string
  cf_nodeId :: string
  cf_nodeLabel :: string
  cf_nodeType :: "string option"
  cf_portId :: string

record block_meta =
  bm_blockId :: string
  bm_configLabels :: "(string, string) jmap option"
  bm_inputLabels :: "(string, string) jmap option"
  bm_nodeLabel :: "string option"
  bm_outputLabels :: "(string, string) jmap option"
  bm_templateId :: "string option"
  bm_templateName :: "string option"

record block_display =
  bd_blockId :: string
  bd_configFields :: "config_field list"
  bd_configuredTargetPortIds :: "string list"
  bd_inputs :: "block_port list"
  bd_nodeCount :: nat
  bd_outputs :: "block_port list"
  bd_title :: string

type_synonym point = "rat \<times> rat"

record size_state =
  sz_height :: "rat option"
  sz_measured :: "(rat option \<times> rat option) option"
  sz_resizing :: "bool option"
  sz_width :: "rat option"

record block_node =
  bn_id :: string
  bn_type :: "string option"
  bn_position :: point
  bn_selected :: "bool option"
  bn_block :: "block_meta option"
  bn_title :: "string option"
  bn_configuration :: jv
  bn_display :: "block_display option"
  bn_rest :: jobject
  bn_dragging :: "bool option"
  bn_size :: size_state
  bn_sides :: "string option \<times> string option"

text \<open>A handle of an edge may be missing, \<open>null\<close> or a string.\<close>

datatype handle = NoHandle | NullHandle | Handle string

record edge_data =
  ed_blockIds :: "string list option"
  ed_rawEdgeId :: "string option"
  ed_rest :: jobject

record block_edge =
  be_id :: string
  be_source :: string
  be_target :: string
  be_sourceHandle :: handle
  be_targetHandle :: handle
  be_data :: "edge_data option"
  be_selected :: "bool option"

record block_template =
  bt_id :: "string option"
  bt_name :: string
  bt_nodes :: "block_node list"
  bt_edges :: "block_edge list"
  bt_inputs :: "block_port list"
  bt_outputs :: "block_port list"
  bt_configFields :: "config_field list"

record block_instance =
  bi_blockId :: string
  bi_configFields :: "config_field list"
  bi_inputs :: "block_port list"
  bi_name :: string
  bi_nodeIds :: "string list"
  bi_nodes :: "block_node list"
  bi_outputs :: "block_port list"
  bi_templateId :: "string option"

section \<open>Metadata\<close>

definition FLUXERY_BLOCK_NODE_TYPE :: string where
  "FLUXERY_BLOCK_NODE_TYPE = ''__fluxery_block__''"

definition getBlockMetadata :: "block_node \<Rightarrow> block_meta option" where
  "getBlockMetadata node = (case bn_block node of None \<Rightarrow> None | Some b \<Rightarrow> if bm_blockId b = [] then None else Some b)"

text \<open>\<open>getBlockMetadata(node)?.blockId\<close>\<close>

definition block_of :: "block_node \<Rightarrow> string option" where
  "block_of node = map_option bm_blockId (getBlockMetadata node)"

definition getBlockIdsFromEdgeData :: "block_edge \<Rightarrow> string list" where
  "getBlockIdsFromEdgeData e = (case Option.bind (be_data e) ed_blockIds of None \<Rightarrow> [] | Some ids \<Rightarrow> ids)"

definition attachBlockMetadataToNode :: "block_node \<Rightarrow> block_meta option \<Rightarrow> block_node" where
  "attachBlockMetadataToNode node b = node\<lparr>bn_block := b\<rparr>"

definition empty_edge_data :: edge_data where
  "empty_edge_data = \<lparr>ed_blockIds = None, ed_rawEdgeId = None, ed_rest = []\<rparr>"

definition setEdgeBlockIds :: "block_edge \<Rightarrow> string list \<Rightarrow> block_edge" where
  "setEdgeBlockIds e blockIds =
     (let unique = jset_of blockIds;
          data = (case be_data e of None \<Rightarrow> empty_edge_data | Some d \<Rightarrow> d)
      in if unique = [] then
           (let rest = data\<lparr>ed_blockIds := None\<rparr> in e\<lparr>be_data := if rest = empty_edge_data then None else Some rest\<rparr>)
         else e\<lparr>be_data := Some (data\<lparr>ed_blockIds := Some unique\<rparr>)\<rparr>)"

definition getNodeDataTitle :: "block_node \<Rightarrow> string option" where
  "getNodeDataTitle node = (case bn_title node of None \<Rightarrow> None | Some t \<Rightarrow> if t = [] then None else Some t)"

definition getDefaultNodeLabel :: "block_node \<Rightarrow> string" where
  "getDefaultNodeLabel node =
     (case getNodeDataTitle node of
        Some t \<Rightarrow> t
      | None \<Rightarrow>
          (case Option.bind (getBlockMetadata node) bm_nodeLabel of
             Some (c # cs) \<Rightarrow> c # cs
           | _ \<Rightarrow> createDisplayName (case bn_type node of None \<Rightarrow> bn_id node | Some t \<Rightarrow> t)))"

text \<open>The separator of a label is a blank, a middle dot (code 183) and a blank.\<close>

definition label_separator :: string where
  "label_separator = [CHR '' '', char_of (183 :: nat), CHR '' '']"

definition getDefaultPortLabel :: "block_node \<Rightarrow> string \<Rightarrow> string" where
  "getDefaultPortLabel node h = getDefaultNodeLabel node @ label_separator @ createDisplayName h"

definition getDefaultConfigLabel :: "block_node \<Rightarrow> string \<Rightarrow> string" where
  "getDefaultConfigLabel node key = getDefaultNodeLabel node @ label_separator @ createDisplayName key"

section \<open>Handles and synthetic ids\<close>

definition buildPortId :: "string \<Rightarrow> string \<Rightarrow> string" where
  "buildPortId nodeId h = nodeId @ ''::'' @ h"

fun handle_prefix :: "direction \<Rightarrow> string" where
  "handle_prefix Input = ''block-input''"
| "handle_prefix Output = ''block-output''"

definition buildBlockHandleId :: "direction \<Rightarrow> string \<Rightarrow> string \<Rightarrow> string" where
  "buildBlockHandleId d nodeId h = handle_prefix d @ ''::'' @ nodeId @ ''::'' @ h"

definition parseBlockHandleId :: "handle \<Rightarrow> (direction \<times> string \<times> string) option" where
  "parseBlockHandleId v =
     (case v of
        Handle s \<Rightarrow>
          (case js_split ''::'' s of
             p # nodeId # parts \<Rightarrow>
               if (p \<noteq> handle_prefix Input \<and> p \<noteq> handle_prefix Output) \<or> nodeId = [] then None
               else let h = join ''::'' parts in
                 if h = [] then None else Some (if p = handle_prefix Input then Input else Output, nodeId, h)
           | _ \<Rightarrow> None)
      | _ \<Rightarrow> None)"

definition getSyntheticBlockNodeId :: "string \<Rightarrow> string" where
  "getSyntheticBlockNodeId blockId = FLUXERY_BLOCK_NODE_TYPE @ ''::'' @ blockId"

definition parseSyntheticBlockNodeId :: "string \<Rightarrow> string option" where
  "parseSyntheticBlockNodeId nodeId =
     (let p = FLUXERY_BLOCK_NODE_TYPE @ ''::'' in if \<not> starts_with p nodeId then None else Some (drop (length p) nodeId))"

definition isBlockNode :: "block_node \<Rightarrow> bool" where
  "isBlockNode node \<longleftrightarrow> bn_type node = Some FLUXERY_BLOCK_NODE_TYPE"

definition getSelectedNodeIds :: "block_node list \<Rightarrow> string list" where
  "getSelectedNodeIds nodes = map bn_id (filter (\<lambda>n. bn_selected n = Some True) nodes)"

section \<open>Block instances\<close>

definition node_ports :: "(block_meta \<Rightarrow> (string, string) jmap option) \<Rightarrow> direction \<Rightarrow> block_node \<Rightarrow> block_port list" where
  "node_ports labels d node =
     (case Option.bind (getBlockMetadata node) labels of
        None \<Rightarrow> []
      | Some ls \<Rightarrow> map (\<lambda>(h, l). \<lparr>bp_direction = d, bp_handle = h, bp_label = l, bp_nodeId = bn_id node,
          bp_nodeLabel = getDefaultNodeLabel node, bp_nodeType = bn_type node, bp_portId = buildPortId (bn_id node) h\<rparr>) ls)"

definition toBlockPortList ::
  "(string \<Rightarrow> string \<Rightarrow> bool) \<Rightarrow> block_node list \<Rightarrow> (block_meta \<Rightarrow> (string, string) jmap option) \<Rightarrow> direction \<Rightarrow> block_port list" where
  "toBlockPortList le nodes labels d = sort_by le bp_label (concat (map (node_ports labels d) nodes))"

definition toBlockConfigFieldList :: "(string \<Rightarrow> string \<Rightarrow> bool) \<Rightarrow> block_node list \<Rightarrow> config_field list" where
  "toBlockConfigFieldList le nodes = sort_by le cf_label (concat (map (\<lambda>node.
     case Option.bind (getBlockMetadata node) bm_configLabels of
       None \<Rightarrow> []
     | Some ls \<Rightarrow> map (\<lambda>(k, l). \<lparr>cf_key = k, cf_label = l, cf_nodeId = bn_id node,
         cf_nodeLabel = getDefaultNodeLabel node, cf_nodeType = bn_type node, cf_portId = buildPortId (bn_id node) k\<rparr>) ls) nodes))"

definition new_instance :: "block_meta \<Rightarrow> block_node \<Rightarrow> block_instance" where
  "new_instance b node =
     \<lparr>bi_blockId = bm_blockId b, bi_configFields = [], bi_inputs = [],
      bi_name = (case bm_templateName b of None \<Rightarrow> ''Block '' @ take 8 (bm_blockId b) | Some n \<Rightarrow> n),
      bi_nodeIds = [bn_id node], bi_nodes = [node], bi_outputs = [], bi_templateId = bm_templateId b\<rparr>"

definition add_to_instances :: "block_node \<Rightarrow> (string, block_instance) jmap \<Rightarrow> (string, block_instance) jmap" where
  "add_to_instances node instances =
     (case getBlockMetadata node of
        None \<Rightarrow> instances
      | Some b \<Rightarrow>
          (case jget instances (bm_blockId b) of
             None \<Rightarrow> jset (bm_blockId b) (new_instance b node) instances
           | Some i \<Rightarrow> jset (bm_blockId b) (i\<lparr>bi_nodeIds := bi_nodeIds i @ [bn_id node], bi_nodes := bi_nodes i @ [node]\<rparr>) instances))"

definition finish_instance :: "(string \<Rightarrow> string \<Rightarrow> bool) \<Rightarrow> block_instance \<Rightarrow> block_instance" where
  "finish_instance le i =
     i\<lparr>bi_inputs := toBlockPortList le (bi_nodes i) bm_inputLabels Input,
       bi_outputs := toBlockPortList le (bi_nodes i) bm_outputLabels Output,
       bi_configFields := toBlockConfigFieldList le (bi_nodes i),
       bi_nodes := sort_by le bn_id (bi_nodes i), bi_nodeIds := sort_by le id (bi_nodeIds i)\<rparr>"

definition collectBlockInstances :: "(string \<Rightarrow> string \<Rightarrow> bool) \<Rightarrow> block_node list \<Rightarrow> (string, block_instance) jmap" where
  "collectBlockInstances le nodes = map (\<lambda>(k, i). (k, finish_instance le i)) (fold add_to_instances nodes [])"

text \<open>\<open>getBlockAnchorPosition\<close>; of no nodes the code's anchor is infinite, \<open>None\<close> here.\<close>

definition min_point :: "point \<Rightarrow> point option \<Rightarrow> point option" where
  "min_point p acc = Some (case acc of None \<Rightarrow> p | Some q \<Rightarrow> (min (fst q) (fst p), min (snd q) (snd p)))"

definition getBlockAnchorPosition :: "block_node list \<Rightarrow> point option" where
  "getBlockAnchorPosition nodes = fold (\<lambda>n. min_point (bn_position n)) nodes None"

definition getVisibleBlockSelection :: "block_instance \<Rightarrow> string list \<Rightarrow> bool" where
  "getVisibleBlockSelection i selected \<longleftrightarrow> selected \<noteq> [] \<and> set (bi_nodeIds i) \<subseteq> set selected"

definition configured_ports :: "block_node \<Rightarrow> string list" where
  "configured_ports node =
     (case (getBlockMetadata node, bn_configuration node) of
        (Some b, JObj conf) \<Rightarrow>
          map (buildPortId (bn_id node)) (filter (\<lambda>h. obj_in h conf)
            (jkeys (case bm_inputLabels b of None \<Rightarrow> [] | Some ls \<Rightarrow> ls) @ jkeys (case bm_configLabels b of None \<Rightarrow> [] | Some ls \<Rightarrow> ls)))
      | _ \<Rightarrow> [])"

definition getConfiguredBlockTargetPortIds :: "(string \<Rightarrow> string \<Rightarrow> bool) \<Rightarrow> block_instance \<Rightarrow> string list" where
  "getConfiguredBlockTargetPortIds le i = sort_by le id (jset_of (concat (map configured_ports (bi_nodes i))))"

definition getSelectedBlockId ::
  "block_node list \<Rightarrow> (string, block_instance) jmap \<Rightarrow> string option \<Rightarrow> string option" where
  "getSelectedBlockId nodes instances scopedBlockId =
     (case scopedBlockId of
        Some b \<Rightarrow> Some b
      | None \<Rightarrow>
          let selected = getSelectedNodeIds nodes in
          if selected = [] then None
          else map_option fst (find (\<lambda>(_, i). length selected = length (bi_nodeIds i) \<and> set (bi_nodeIds i) \<subseteq> set selected) instances))"

definition getBlockDisplayData :: "block_node \<Rightarrow> block_display option" where
  "getBlockDisplayData node = (if \<not> isBlockNode node then None else bn_display node)"

definition or_else_opt :: "'a option \<Rightarrow> 'a option \<Rightarrow> 'a option" where
  "or_else_opt a b = (case a of None \<Rightarrow> b | Some x \<Rightarrow> Some x)"

text \<open>
  \<open>toDisplayedBlockNode\<close>; \<open>previousNode.data\<close> is kept when it is deeply equal to the new data, so the
  data are the new ones either way.
\<close>

definition toDisplayedBlockNode ::
  "(string \<Rightarrow> string \<Rightarrow> bool) \<Rightarrow> block_instance \<Rightarrow> string list \<Rightarrow> (bool \<times> point) option \<Rightarrow> size_state option \<Rightarrow> block_node option \<Rightarrow> block_node" where
  "toDisplayedBlockNode le i selected preview state prev =
     (let measured = or_else_opt (Option.bind state sz_measured) (Option.bind prev (\<lambda>n. sz_measured (bn_size n)));
          width = or_else_opt (or_else_opt (Option.bind state sz_width) (Option.bind prev (\<lambda>n. sz_width (bn_size n)))) (Option.bind measured snd);
          height = or_else_opt (or_else_opt (Option.bind state sz_height) (Option.bind prev (\<lambda>n. sz_height (bn_size n)))) (Option.bind measured fst);
          resizing = or_else_opt (Option.bind state sz_resizing) (Option.bind prev (\<lambda>n. sz_resizing (bn_size n)))
      in \<lparr>bn_id = getSyntheticBlockNodeId (bi_blockId i), bn_type = Some FLUXERY_BLOCK_NODE_TYPE,
          bn_position = (case preview of Some (_, p) \<Rightarrow> p | None \<Rightarrow> the (getBlockAnchorPosition (bi_nodes i))),
          bn_selected = Some (getVisibleBlockSelection i selected), bn_block = None, bn_title = Some (bi_name i),
          bn_configuration = JUndef,
          bn_display = Some \<lparr>bd_blockId = bi_blockId i, bd_configFields = bi_configFields i,
            bd_configuredTargetPortIds = getConfiguredBlockTargetPortIds le i, bd_inputs = bi_inputs i,
            bd_nodeCount = length (bi_nodes i), bd_outputs = bi_outputs i, bd_title = bi_name i\<rparr>,
          bn_rest = [], bn_dragging = Some (case preview of Some (d, _) \<Rightarrow> d | None \<Rightarrow> False),
          bn_size = \<lparr>sz_height = height, sz_measured = measured, sz_resizing = resizing, sz_width = width\<rparr>,
          bn_sides = (None, None)\<rparr>)"

definition getBlockInstanceSummary :: "(string \<Rightarrow> string \<Rightarrow> bool) \<Rightarrow> block_node list \<Rightarrow> string option \<Rightarrow> block_instance option" where
  "getBlockInstanceSummary le nodes blockId = Option.bind blockId (jget (collectBlockInstances le nodes))"

section \<open>Projection\<close>

text \<open>\<open>edge.sourceHandle ?? ''\<close> and the guard on missing handles; a \<open>null\<close> handle passes the guard.\<close>

fun handle_text :: "handle \<Rightarrow> string" where
  "handle_text (Handle s) = s"
| "handle_text _ = []"

definition handle_missing :: "handle \<Rightarrow> bool" where
  "handle_missing h \<longleftrightarrow> h = NoHandle \<or> h = Handle []"

definition toDisplayedBoundaryEdge :: "block_edge \<Rightarrow> string option \<Rightarrow> string option \<Rightarrow> block_edge option" where
  "toDisplayedBoundaryEdge e sourceBlockId targetBlockId =
     (if sourceBlockId \<noteq> None \<and> targetBlockId \<noteq> None \<and> sourceBlockId = targetBlockId then None
      else
        let sourceHandle = (case sourceBlockId of None \<Rightarrow> be_sourceHandle e
              | Some _ \<Rightarrow> Handle (buildBlockHandleId Output (be_source e) (handle_text (be_sourceHandle e))));
            targetHandle = (case targetBlockId of None \<Rightarrow> be_targetHandle e
              | Some _ \<Rightarrow> Handle (buildBlockHandleId Input (be_target e) (handle_text (be_targetHandle e))))
        in if (sourceBlockId \<noteq> None \<and> handle_missing (be_sourceHandle e)) \<or>
              (targetBlockId \<noteq> None \<and> handle_missing (be_targetHandle e)) then None
           else Some (e\<lparr>be_source := (case sourceBlockId of None \<Rightarrow> be_source e | Some b \<Rightarrow> getSyntheticBlockNodeId b),
                        be_sourceHandle := sourceHandle,
                        be_target := (case targetBlockId of None \<Rightarrow> be_target e | Some b \<Rightarrow> getSyntheticBlockNodeId b),
                        be_targetHandle := targetHandle,
                        be_data := Some ((case be_data e of None \<Rightarrow> empty_edge_data | Some d \<Rightarrow> d)\<lparr>ed_rawEdgeId := Some (be_id e)\<rparr>)\<rparr>))"

record projection =
  pj_instances :: "(string, block_instance) jmap"
  pj_edges :: "block_edge list"
  pj_nodes :: "block_node list"

definition nodeBlockIdMap :: "(string, block_instance) jmap \<Rightarrow> (string, string) jmap" where
  "nodeBlockIdMap instances = fold (\<lambda>(b, i). fold (\<lambda>nodeId. jset nodeId b) (bi_nodeIds i)) instances []"

definition projectWorkflowWithBlocks ::
  "(string \<Rightarrow> string \<Rightarrow> bool) \<Rightarrow> block_node list \<Rightarrow> block_edge list \<Rightarrow> string option \<Rightarrow> (string \<rightharpoonup> bool \<times> point) \<Rightarrow>
   (string \<rightharpoonup> size_state) \<Rightarrow> block_node list \<Rightarrow> projection" where
  "projectWorkflowWithBlocks le nodes edges scopedBlockId previews states previous =
     (case scopedBlockId of
        Some b \<Rightarrow>
          let scoped = map bn_id (filter (\<lambda>n. block_of n = Some b) nodes)
          in \<lparr>pj_instances = collectBlockInstances le nodes,
              pj_edges = filter (\<lambda>e. be_source e \<in> set scoped \<and> be_target e \<in> set scoped) edges,
              pj_nodes = filter (\<lambda>n. bn_id n \<in> set scoped) nodes\<rparr>
      | None \<Rightarrow>
          let instances = collectBlockInstances le nodes;
              selected = getSelectedNodeIds nodes;
              blocks = nodeBlockIdMap instances;
              previous_of = (\<lambda>k. find (\<lambda>n. bn_id n = k) (rev previous))
          in \<lparr>pj_instances = instances,
              pj_edges = List.map_filter (\<lambda>e. toDisplayedBoundaryEdge e (jget blocks (be_source e)) (jget blocks (be_target e))) edges,
              pj_nodes = filter (\<lambda>n. \<not> jhas blocks (bn_id n)) nodes @
                map (\<lambda>(_, i). toDisplayedBlockNode le i selected (previews (bi_blockId i)) (states (bi_blockId i))
                   (previous_of (getSyntheticBlockNodeId (bi_blockId i)))) instances\<rparr>)"

section \<open>Selection, movement and removal\<close>

definition setNodeSelection :: "block_node \<Rightarrow> bool \<Rightarrow> block_node" where
  "setNodeSelection node selected = node\<lparr>bn_selected := Some selected\<rparr>"

definition selectBlockNodes :: "block_node list \<Rightarrow> string \<Rightarrow> bool \<Rightarrow> block_node list" where
  "selectBlockNodes nodes blockId selected =
     map (\<lambda>n. if block_of n = Some blockId then setNodeSelection n selected
              else if selected then setNodeSelection n False else n) nodes"

definition moveBlockNodes :: "block_node list \<Rightarrow> string \<Rightarrow> point \<Rightarrow> block_node list" where
  "moveBlockNodes nodes blockId nextPosition =
     (case getBlockAnchorPosition (filter (\<lambda>n. block_of n = Some blockId) nodes) of
        None \<Rightarrow> nodes
      | Some anchor \<Rightarrow>
          let deltaX = fst nextPosition - fst anchor; deltaY = snd nextPosition - snd anchor
          in map (\<lambda>n. if block_of n \<noteq> Some blockId then n
                      else n\<lparr>bn_position := (fst (bn_position n) + deltaX, snd (bn_position n) + deltaY)\<rparr>) nodes)"

definition place_displayed :: "block_node \<Rightarrow> block_node list \<Rightarrow> block_node list" where
  "place_displayed d nodes =
     (case parseSyntheticBlockNodeId (bn_id d) of
        Some blockId \<Rightarrow> moveBlockNodes nodes blockId (bn_position d)
      | None \<Rightarrow> map (\<lambda>n. if bn_id n = bn_id d then n\<lparr>bn_position := bn_position d, bn_sides := bn_sides d\<rparr> else n) nodes)"

definition applyDisplayedLayoutToRawNodes :: "block_node list \<Rightarrow> block_node list \<Rightarrow> block_node list" where
  "applyDisplayedLayoutToRawNodes nodes displayed = fold place_displayed displayed nodes"

definition removeBlockFromWorkflow :: "block_node list \<Rightarrow> block_edge list \<Rightarrow> string \<Rightarrow> block_node list \<times> block_edge list" where
  "removeBlockFromWorkflow nodes edges blockId =
     (let nodeIds = set (map bn_id (filter (\<lambda>n. block_of n = Some blockId) nodes))
      in (filter (\<lambda>n. bn_id n \<notin> nodeIds) nodes, filter (\<lambda>e. be_source e \<notin> nodeIds \<and> be_target e \<notin> nodeIds) edges))"

definition clearBlockSelection :: "block_node list \<Rightarrow> block_node list" where
  "clearBlockSelection = map (\<lambda>n. n\<lparr>bn_selected := Some False\<rparr>)"

section \<open>Templates\<close>

text \<open>\<open>Array.from(new Map(entries).values())\<close>\<close>

definition map_values :: "('k \<times> 'v) list \<Rightarrow> 'v list" where
  "map_values entries = map snd (fold (\<lambda>(k, v). jset k v) entries [])"

definition boundary_port :: "direction \<Rightarrow> block_node list \<Rightarrow> string \<Rightarrow> handle \<Rightarrow> (string \<times> block_port) list" where
  "boundary_port d selectedNodes nodeId h =
     (case (find (\<lambda>n. bn_id n = nodeId) selectedNodes, h) of
        (Some node, Handle (c # cs)) \<Rightarrow>
          [(buildPortId (bn_id node) (c # cs),
            \<lparr>bp_direction = d, bp_handle = c # cs, bp_label = getDefaultPortLabel node (c # cs), bp_nodeId = bn_id node,
             bp_nodeLabel = getDefaultNodeLabel node, bp_nodeType = bn_type node, bp_portId = buildPortId (bn_id node) (c # cs)\<rparr>)]
      | _ \<Rightarrow> [])"

definition template_config_fields :: "block_node \<Rightarrow> (string \<times> config_field) list" where
  "template_config_fields node =
     (case as_object (bn_configuration node) of
        None \<Rightarrow> []
      | Some conf \<Rightarrow> map (\<lambda>key. (buildPortId (bn_id node) key,
          \<lparr>cf_key = key, cf_label = getDefaultConfigLabel node key, cf_nodeId = bn_id node,
           cf_nodeLabel = getDefaultNodeLabel node, cf_nodeType = bn_type node, cf_portId = buildPortId (bn_id node) key\<rparr>)) (map fst conf))"

definition clone_node :: "point \<Rightarrow> block_node \<Rightarrow> block_node" where
  "clone_node origin n = n\<lparr>bn_position := (fst (bn_position n) - fst origin, snd (bn_position n) - snd origin),
     bn_selected := Some False, bn_block := None\<rparr>"

definition buildBlockTemplateFromSelection ::
  "block_node list \<Rightarrow> block_edge list \<Rightarrow> string list \<Rightarrow> string \<Rightarrow> block_template option" where
  "buildBlockTemplateFromSelection nodes edges selectedNodeIds name =
     (let selectedSet = set selectedNodeIds in
      if card selectedSet < 2 then None
      else let selectedNodes = filter (\<lambda>n. bn_id n \<in> selectedSet) nodes in
      if \<exists>n \<in> set selectedNodes. getBlockMetadata n \<noteq> None then None
      else let origin = (case getBlockAnchorPosition selectedNodes of None \<Rightarrow> (0, 0) | Some p \<Rightarrow> p) in
        Some \<lparr>bt_id = None, bt_name = name, bt_nodes = map (clone_node origin) selectedNodes,
          bt_edges = map (\<lambda>e. setEdgeBlockIds (e\<lparr>be_selected := Some False\<rparr>) [])
            (filter (\<lambda>e. be_source e \<in> selectedSet \<and> be_target e \<in> selectedSet) edges),
          bt_inputs = map_values (concat (map (\<lambda>e. boundary_port Input selectedNodes (be_target e) (be_targetHandle e))
            (filter (\<lambda>e. be_source e \<notin> selectedSet \<and> be_target e \<in> selectedSet) edges))),
          bt_outputs = map_values (concat (map (\<lambda>e. boundary_port Output selectedNodes (be_source e) (be_sourceHandle e))
            (filter (\<lambda>e. be_source e \<in> selectedSet \<and> be_target e \<notin> selectedSet) edges))),
          bt_configFields = map_values (concat (map template_config_fields selectedNodes))\<rparr>)"

text \<open>\<open>Object.fromEntries\<close>\<close>

definition from_entries :: "('k \<times> 'v) list \<Rightarrow> ('k, 'v) jmap" where
  "from_entries entries = fold (\<lambda>(k, v). jset k v) entries []"

definition getTemplateNodeMetadata :: "block_template \<Rightarrow> string \<Rightarrow> string \<Rightarrow> block_meta" where
  "getTemplateNodeMetadata template nodeId blockId =
     \<lparr>bm_blockId = blockId,
      bm_configLabels = Some (from_entries (map (\<lambda>f. (cf_key f, cf_label f)) (filter (\<lambda>f. cf_nodeId f = nodeId) (bt_configFields template)))),
      bm_inputLabels = Some (from_entries (map (\<lambda>p. (bp_handle p, bp_label p)) (filter (\<lambda>p. bp_nodeId p = nodeId) (bt_inputs template)))),
      bm_nodeLabel = map_option getDefaultNodeLabel (find (\<lambda>n. bn_id n = nodeId) (bt_nodes template)),
      bm_outputLabels = Some (from_entries (map (\<lambda>p. (bp_handle p, bp_label p)) (filter (\<lambda>p. bp_nodeId p = nodeId) (bt_outputs template)))),
      bm_templateId = bt_id template, bm_templateName = Some (bt_name template)\<rparr>"

definition createBlockFromSelection ::
  "string \<Rightarrow> block_edge list \<Rightarrow> string \<Rightarrow> block_node list \<Rightarrow> string list \<Rightarrow> block_template \<Rightarrow> block_edge list \<times> block_node list" where
  "createBlockFromSelection blockId edges name nodes selectedNodeIds template =
     (let selectedSet = set selectedNodeIds in
      (map (\<lambda>e. setEdgeBlockIds e
             (let involved = jset_of (getBlockIdsFromEdgeData e)
              in if be_source e \<in> selectedSet \<or> be_target e \<in> selectedSet then jadd blockId involved else involved)) edges,
       map (\<lambda>n. if bn_id n \<notin> selectedSet then n\<lparr>bn_selected := Some False\<rparr>
                else attachBlockMetadataToNode (n\<lparr>bn_selected := Some True\<rparr>)
                  (Some ((getTemplateNodeMetadata template (bn_id n) blockId)\<lparr>bm_templateName := Some name\<rparr>))) nodes))"

text \<open>
  \<open>instantiateBlockTemplate\<close>: the identifiers that \<open>crypto.randomUUID\<close> draws are the sequence \<open>uuid\<close>,
  first one per node, then one per edge. The throw for an edge of an unknown node is an error value.
\<close>

datatype block_error = MissingNode string | MissingEdgeNode string

definition nodeIdMap :: "(nat \<Rightarrow> string) \<Rightarrow> block_node list \<Rightarrow> (string, string) jmap" where
  "nodeIdMap uuid nodes = from_entries (map (\<lambda>(k, n). (bn_id n, uuid k)) (List.enumerate 0 nodes))"

definition instantiate_node ::
  "(string, string) jmap \<Rightarrow> block_template \<Rightarrow> string \<Rightarrow> point \<Rightarrow> block_node \<Rightarrow> block_error + block_node" where
  "instantiate_node ids template blockId pos n =
     (case jget ids (bn_id n) of
        None \<Rightarrow> Inl (MissingNode (bn_id n))
      | Some nextId \<Rightarrow> Inr (attachBlockMetadataToNode
          (n\<lparr>bn_id := nextId, bn_selected := Some True,
             bn_position := (fst pos + fst (bn_position n), snd pos + snd (bn_position n))\<rparr>)
          (Some (getTemplateNodeMetadata template (bn_id n) blockId))))"

definition instantiate_edge ::
  "(string, string) jmap \<Rightarrow> string \<Rightarrow> string \<Rightarrow> block_edge \<Rightarrow> block_error + block_edge" where
  "instantiate_edge ids blockId edgeId e =
     (case (jget ids (be_source e), jget ids (be_target e)) of
        (Some s, Some t) \<Rightarrow> Inr (setEdgeBlockIds (e\<lparr>be_id := edgeId, be_selected := Some False, be_source := s, be_target := t\<rparr>) [blockId])
      | _ \<Rightarrow> Inl (MissingEdgeNode (be_id e)))"

text \<open>\<open>xs.map(f)\<close> for an \<open>f\<close> that may throw.\<close>

fun map_sum_list :: "('a \<Rightarrow> 'e + 'b) \<Rightarrow> 'a list \<Rightarrow> 'e + 'b list" where
  "map_sum_list f [] = Inr []"
| "map_sum_list f (x # xs) =
     (case f x of
        Inl e \<Rightarrow> Inl e
      | Inr y \<Rightarrow> (case map_sum_list f xs of Inl e \<Rightarrow> Inl e | Inr ys \<Rightarrow> Inr (y # ys)))"

definition instantiateBlockTemplate ::
  "(nat \<Rightarrow> string) \<Rightarrow> string \<Rightarrow> point \<Rightarrow> block_template \<Rightarrow> block_error + block_edge list \<times> block_node list" where
  "instantiateBlockTemplate uuid blockId pos template =
     (let ids = nodeIdMap uuid (bt_nodes template) in
      case map_sum_list (instantiate_node ids template blockId pos) (bt_nodes template) of
        Inl err \<Rightarrow> Inl err
      | Inr nodes \<Rightarrow>
          (case map_sum_list (\<lambda>(k, e). instantiate_edge ids blockId (uuid k) e)
                  (List.enumerate (length (bt_nodes template)) (bt_edges template)) of
             Inl err \<Rightarrow> Inl err
           | Inr edges \<Rightarrow> Inr (edges, nodes)))"

section \<open>Connections and labels\<close>

record connection =
  cn_source :: string
  cn_target :: string
  cn_sourceHandle :: handle
  cn_targetHandle :: handle

text \<open>The connection that an edge draws.\<close>

definition connection_of :: "block_edge \<Rightarrow> connection" where
  "connection_of e = \<lparr>cn_source = be_source e, cn_target = be_target e, cn_sourceHandle = be_sourceHandle e, cn_targetHandle = be_targetHandle e\<rparr>"

definition resolveRawConnectionFromDisplayed :: "connection \<Rightarrow> (string list \<times> connection) option" where
  "resolveRawConnectionFromDisplayed c =
     (let sourceBlockId = parseSyntheticBlockNodeId (cn_source c);
          targetBlockId = parseSyntheticBlockNodeId (cn_target c);
          sourceHandle = parseBlockHandleId (cn_sourceHandle c);
          targetHandle = parseBlockHandleId (cn_targetHandle c)
      in if sourceBlockId \<noteq> None \<and> map_option fst sourceHandle \<noteq> Some Output then None
         else if targetBlockId \<noteq> None \<and> map_option fst targetHandle \<noteq> Some Input then None
         else Some (jset_of (List.map_filter id [sourceBlockId, targetBlockId]),
           \<lparr>cn_source = (if sourceBlockId = None then cn_source c else fst (snd (the sourceHandle))),
            cn_target = (if targetBlockId = None then cn_target c else fst (snd (the targetHandle))),
            cn_sourceHandle = (if sourceBlockId = None then cn_sourceHandle c else Handle (snd (snd (the sourceHandle)))),
            cn_targetHandle = (if targetBlockId = None then cn_targetHandle c else Handle (snd (snd (the targetHandle))))\<rparr>))"

definition withConnectionBlockMetadata :: "block_edge \<Rightarrow> string list \<Rightarrow> block_edge" where
  "withConnectionBlockMetadata e blockIds = setEdgeBlockIds e (jset_of (getBlockIdsFromEdgeData e @ blockIds))"

definition update_block_node ::
  "string \<Rightarrow> string \<Rightarrow> (block_node \<Rightarrow> block_meta \<Rightarrow> block_node) \<Rightarrow> block_node list \<Rightarrow> block_node list" where
  "update_block_node blockId nodeId f =
     map (\<lambda>n. case getBlockMetadata n of
                None \<Rightarrow> n
              | Some b \<Rightarrow> if bm_blockId b \<noteq> blockId \<or> bn_id n \<noteq> nodeId then n else f n b)"

definition updateBlockNodeLabel :: "block_node list \<Rightarrow> string \<Rightarrow> string \<Rightarrow> string \<Rightarrow> block_node list" where
  "updateBlockNodeLabel nodes blockId nodeId label =
     update_block_node blockId nodeId (\<lambda>n b. attachBlockMetadataToNode (n\<lparr>bn_title := Some label\<rparr>) (Some (b\<lparr>bm_nodeLabel := Some label\<rparr>))) nodes"

definition set_label :: "string \<Rightarrow> string \<Rightarrow> (string, string) jmap option \<Rightarrow> (string, string) jmap option" where
  "set_label k l ls = Some (jset k l (case ls of None \<Rightarrow> [] | Some m \<Rightarrow> m))"

definition updateBlockPortLabel ::
  "block_node list \<Rightarrow> string \<Rightarrow> string \<Rightarrow> direction \<Rightarrow> string \<Rightarrow> string \<Rightarrow> block_node list" where
  "updateBlockPortLabel nodes blockId nodeId d h label =
     update_block_node blockId nodeId (\<lambda>n b. attachBlockMetadataToNode n (Some (case d of
        Input \<Rightarrow> b\<lparr>bm_inputLabels := set_label h label (bm_inputLabels b)\<rparr>
      | Output \<Rightarrow> b\<lparr>bm_outputLabels := set_label h label (bm_outputLabels b)\<rparr>))) nodes"

definition updateBlockConfigFieldLabel ::
  "block_node list \<Rightarrow> string \<Rightarrow> string \<Rightarrow> string \<Rightarrow> string \<Rightarrow> block_node list" where
  "updateBlockConfigFieldLabel nodes blockId nodeId key label =
     update_block_node blockId nodeId (\<lambda>n b. attachBlockMetadataToNode n
       (Some (b\<lparr>bm_configLabels := set_label key label (bm_configLabels b)\<rparr>))) nodes"

definition getRawEdgeId :: "block_edge \<Rightarrow> string" where
  "getRawEdgeId e = (case Option.bind (be_data e) ed_rawEdgeId of Some raw \<Rightarrow> raw | None \<Rightarrow> be_id e)"

end
