(* ===== verification/Blocks_Props.thy ===== *)
theory Blocks_Props
  imports Blocks
begin

text \<open>
  The block-aware editor shows a graph that stands for the raw workflow: the shown nodes partition
  the raw ones, the shown edges translate back to the raw connections, positions given on the shown
  graph are the positions shown after they were written back, and a template instantiates to a
  renamed copy of the selection it was built from.
\<close>

section \<open>Block instances\<close>

definition block_nodes :: "string \<Rightarrow> block_node list \<Rightarrow> block_node list" where
  "block_nodes b = filter (\<lambda>n. block_of n = Some b)"

definition block_ids :: "block_node list \<Rightarrow> string list" where
  "block_ids nodes = jset_of (List.map_filter block_of nodes)"

definition raw_block :: "block_node list \<Rightarrow> string \<Rightarrow> string option" where
  "raw_block nodes x = Option.bind (find (\<lambda>n. bn_id n = x) nodes) block_of"

lemma jset_of_snoc: "jset_of (xs @ [x]) = jadd x (jset_of xs)"
  by (induction xs) (auto simp: jadd_def)

lemma jkeys_jset: "jkeys (jset k v m) = jadd k (jkeys m)"
  by (induction m) (auto simp: jadd_def)

lemma set_block_ids: "set (block_ids nodes) = {b. block_nodes b nodes \<noteq> []}"
  by (force simp: block_ids_def block_nodes_def List.map_filter_def filter_empty_conv)

lemma block_ids_snoc:
  "block_ids (nodes @ [n]) = (case block_of n of None \<Rightarrow> block_ids nodes | Some b \<Rightarrow> jadd b (block_ids nodes))"
  by (auto simp: block_ids_def List.map_filter_def jset_of_snoc split: option.splits)

text \<open>A node of no block leaves the instances alone; a node of a block joins or opens its instance.\<close>

definition instance_nodes :: "(string, block_instance) jmap \<Rightarrow> string \<Rightarrow> (string \<times> block_node list \<times> string list) option" where
  "instance_nodes m b = map_option (\<lambda>i. (bi_blockId i, bi_nodes i, bi_nodeIds i)) (jget m b)"

lemma add_to_instances_keys:
  "jkeys (add_to_instances n m) = (case block_of n of None \<Rightarrow> jkeys m | Some b \<Rightarrow> jadd b (jkeys m))"
  by (auto simp: add_to_instances_def block_of_def jkeys_jset split: option.splits)

lemma add_to_instances_nodes:
  "instance_nodes (add_to_instances n m) b =
     (if block_of n = Some b then
        Some (case instance_nodes m b of None \<Rightarrow> (b, [n], [bn_id n]) | Some (c, ns, ids) \<Rightarrow> (c, ns @ [n], ids @ [bn_id n]))
      else instance_nodes m b)"
  by (auto simp: add_to_instances_def block_of_def instance_nodes_def new_instance_def split: option.splits)

lemma block_nodes_snoc:
  "block_nodes b (nodes @ [n]) = (if block_of n = Some b then block_nodes b nodes @ [n] else block_nodes b nodes)"
  by (simp add: block_nodes_def)

lemma raw_instance_keys: "jkeys (fold add_to_instances nodes []) = block_ids nodes"
proof (induction nodes rule: rev_induct)
  case Nil
  show ?case by (simp add: block_ids_def List.map_filter_def)
next
  case (snoc n nodes)
  then show ?case by (simp add: add_to_instances_keys block_ids_snoc split: option.split)
qed

lemma raw_instance_nodes:
  "instance_nodes (fold add_to_instances nodes []) b =
     (if block_nodes b nodes = [] then None else Some (b, block_nodes b nodes, map bn_id (block_nodes b nodes)))"
proof (induction nodes rule: rev_induct)
  case Nil
  show ?case by (simp add: instance_nodes_def block_nodes_def)
next
  case (snoc n nodes)
  then show ?case by (simp add: add_to_instances_nodes block_nodes_snoc)
qed

lemma instance_keys: "jkeys (collectBlockInstances le nodes) = block_ids nodes"
  by (simp add: collectBlockInstances_def raw_instance_keys [symmetric] case_prod_beta comp_def)

lemma instance_parts:
  assumes "(b, i) \<in> set (collectBlockInstances le nodes)"
  shows "bi_blockId i = b" "mset (bi_nodes i) = mset (block_nodes b nodes)"
    "set (bi_nodeIds i) = bn_id ` set (block_nodes b nodes)"
proof -
  let ?m = "fold add_to_instances nodes []"
  from assms obtain i0 where i: "(b, i0) \<in> set ?m" "i = finish_instance le i0"
    by (auto simp: collectBlockInstances_def)
  have "distinct (jkeys ?m)" by (simp add: raw_instance_keys block_ids_def)
  with i(1) have "jget ?m b = Some i0" by simp
  with raw_instance_nodes [of nodes b] i(2)
  show "bi_blockId i = b" "mset (bi_nodes i) = mset (block_nodes b nodes)"
    "set (bi_nodeIds i) = bn_id ` set (block_nodes b nodes)"
    by (auto simp: finish_instance_def instance_nodes_def split: if_splits)
qed

lemma jget_fold_ids: "jget (fold (\<lambda>x. jset x b) ids m) y = (if y \<in> set ids then Some b else jget m y)"
  by (induction ids arbitrary: m) auto

lemma jget_nodeBlockIdMap:
  "jget (nodeBlockIdMap instances) x = map_option fst (find (\<lambda>(b, i). x \<in> set (bi_nodeIds i)) (rev instances))"
proof (induction instances rule: rev_induct)
  case (snoc p ps)
  then show ?case
    by (cases p) (simp add: nodeBlockIdMap_def jget_fold_ids)
qed (simp add: nodeBlockIdMap_def)

lemma find_distinct:
  assumes "distinct (map bn_id nodes)" "n \<in> set nodes"
  shows "find (\<lambda>m. bn_id m = bn_id n) nodes = Some n"
  using assms by (induction nodes) auto

lemma raw_block_node:
  "distinct (map bn_id nodes) \<Longrightarrow> n \<in> set nodes \<Longrightarrow> raw_block nodes (bn_id n) = block_of n"
  by (simp add: raw_block_def find_distinct)

lemma raw_block_Some:
  assumes "distinct (map bn_id nodes)"
  shows "raw_block nodes x = Some b \<longleftrightarrow> x \<in> bn_id ` set (block_nodes b nodes)"
proof
  assume "raw_block nodes x = Some b"
  then show "x \<in> bn_id ` set (block_nodes b nodes)"
    by (auto simp: raw_block_def block_nodes_def bind_eq_Some_conv find_Some_iff image_iff intro: nth_mem)
next
  assume "x \<in> bn_id ` set (block_nodes b nodes)"
  then show "raw_block nodes x = Some b"
    using assms by (auto simp: block_nodes_def raw_block_node)
qed

lemma block_lookup:
  assumes "distinct (map bn_id nodes)"
  shows "jget (nodeBlockIdMap (collectBlockInstances le nodes)) x = raw_block nodes x"
proof (cases "raw_block nodes x")
  let ?I = "collectBlockInstances le nodes"
  have at: "raw_block nodes x = Some b" if "(b, i) \<in> set ?I" "x \<in> set (bi_nodeIds i)" for b i
    using that raw_block_Some [OF assms] instance_parts [OF that(1)] by auto
  case None
  then show ?thesis
    using at by (auto simp: jget_nodeBlockIdMap find_None_iff)
next
  let ?I = "collectBlockInstances le nodes"
  have at: "raw_block nodes x = Some b" if "(b, i) \<in> set ?I" "x \<in> set (bi_nodeIds i)" for b i
    using that raw_block_Some [OF assms] instance_parts [OF that(1)] by auto
  case (Some b)
  then have x: "x \<in> bn_id ` set (block_nodes b nodes)" by (simp add: raw_block_Some [OF assms])
  then have "b \<in> set (jkeys ?I)" by (auto simp: instance_keys set_block_ids)
  then obtain i where "(b, i) \<in> set ?I" by auto
  with x have "find (\<lambda>(b, i). x \<in> set (bi_nodeIds i)) (rev ?I) \<noteq> None"
    using instance_parts by (auto simp: find_None_iff)
  then obtain c j where f: "find (\<lambda>(b, i). x \<in> set (bi_nodeIds i)) (rev ?I) = Some (c, j)" by auto
  then have "(c, j) \<in> set ?I" "x \<in> set (bi_nodeIds j)"
    by (auto simp: find_Some_iff dest: nth_mem) (metis length_rev nth_mem set_rev)
  with at Some f show ?thesis by (simp add: jget_nodeBlockIdMap)
qed

section \<open>Handles\<close>

text \<open>
  Node identifiers that can be written into a handle: not empty, without the separator, and not
  ending in a colon. The identifiers the editor draws (UUIDs) are of this form.
\<close>

definition plain_id :: "string \<Rightarrow> bool" where
  "plain_id s \<longleftrightarrow> s \<noteq> [] \<and> last s \<noteq> CHR '':'' \<and> \<not> str_includes s ''::''"

lemma cut_first_separator:
  "cut_first ''::'' s = None \<Longrightarrow> s = [] \<or> last s \<noteq> CHR '':'' \<Longrightarrow> cut_first ''::'' (s @ ''::'' @ r) = Some (s, r)"
proof (induction s)
  case (Cons c s)
  then show ?case
    by (cases s) (auto simp: starts_with_def split: if_splits)
qed (simp add: starts_with_def)

lemma js_split_separator:
  assumes "\<not> str_includes s ''::''" "s = [] \<or> last s \<noteq> CHR '':''"
  shows "js_split ''::'' (s @ ''::'' @ r) = s # js_split ''::'' r"
proof -
  from assms have "cut_first ''::'' (s @ ''::'' @ r) = Some (s, r)"
    by (intro cut_first_separator) (simp_all add: str_includes_def del: not_None_eq)
  then show ?thesis by (subst js_split.simps) simp
qed

lemma handle_prefix_plain: "\<not> str_includes (handle_prefix d) ''::''" "last (handle_prefix d) \<noteq> CHR '':''"
  by (cases d; simp add: str_includes_def starts_with_def)+

lemma handle_roundtrip:
  assumes "plain_id nodeId" "h \<noteq> []"
  shows "parseBlockHandleId (Handle (buildBlockHandleId d nodeId h)) = Some (d, nodeId, h)"
proof -
  have "js_split ''::'' (buildBlockHandleId d nodeId h) = handle_prefix d # nodeId # js_split ''::'' h"
    using assms handle_prefix_plain [of d]
    by (simp add: buildBlockHandleId_def js_split_separator plain_id_def del: append_Cons append_Nil)
  with assms show ?thesis
    by (cases d) (auto simp: parseBlockHandleId_def join_js_split plain_id_def)
qed

lemma null_handle_unparsed:
  assumes "plain_id nodeId"
  shows "parseBlockHandleId (Handle (buildBlockHandleId d nodeId [])) = None"
proof -
  have "js_split ''::'' (buildBlockHandleId d nodeId []) = handle_prefix d # nodeId # js_split ''::'' []"
    using assms handle_prefix_plain [of d] js_split_separator [of nodeId "[]"]
    by (simp add: buildBlockHandleId_def js_split_separator plain_id_def del: append_Cons append_Nil)
  then show ?thesis
    by (simp add: parseBlockHandleId_def join_js_split)
qed

lemma synthetic_roundtrip [simp]: "parseSyntheticBlockNodeId (getSyntheticBlockNodeId b) = Some b"
  by (simp add: parseSyntheticBlockNodeId_def getSyntheticBlockNodeId_def starts_with_def)

lemma synthetic_inj [simp]: "getSyntheticBlockNodeId a = getSyntheticBlockNodeId b \<longleftrightarrow> a = b"
  by (simp add: getSyntheticBlockNodeId_def)

lemma cut_first_infix: "cut_first sep (a @ sep @ r) \<noteq> None"
proof (induction a)
  case Nil
  show ?case by (cases sep; cases r) (auto simp: starts_with_def)
qed auto

lemma plain_not_synthetic: "plain_id s \<Longrightarrow> parseSyntheticBlockNodeId s = None"
  using cut_first_infix [of "''::''" FLUXERY_BLOCK_NODE_TYPE]
  by (auto simp: plain_id_def parseSyntheticBlockNodeId_def starts_with_iff str_includes_def split: option.splits)

section \<open>Edges\<close>

text \<open>The edges that are shown: those that are not inside one block and have a handle at every block they enter.\<close>

definition shown_edge :: "block_node list \<Rightarrow> block_edge \<Rightarrow> bool" where
  "shown_edge nodes e \<longleftrightarrow>
     (let s = raw_block nodes (be_source e); t = raw_block nodes (be_target e)
      in \<not> (s \<noteq> None \<and> s = t) \<and> (s \<noteq> None \<longrightarrow> \<not> handle_missing (be_sourceHandle e)) \<and> (t \<noteq> None \<longrightarrow> \<not> handle_missing (be_targetHandle e)))"

definition crossed_blocks :: "block_node list \<Rightarrow> block_edge \<Rightarrow> string list" where
  "crossed_blocks nodes e = jset_of (List.map_filter id [raw_block nodes (be_source e), raw_block nodes (be_target e)])"

lemma displayed_edge_shown:
  "toDisplayedBoundaryEdge e (raw_block nodes (be_source e)) (raw_block nodes (be_target e)) \<noteq> None \<longleftrightarrow> shown_edge nodes e"
  by (auto simp: toDisplayedBoundaryEdge_def shown_edge_def Let_def split: if_splits)

lemma displayed_edge_resolves:
  assumes "toDisplayedBoundaryEdge e (raw_block nodes (be_source e)) (raw_block nodes (be_target e)) = Some d"
    and "plain_id (be_source e)" "plain_id (be_target e)"
    and "be_sourceHandle e \<noteq> NullHandle" "be_targetHandle e \<noteq> NullHandle"
  shows "getRawEdgeId d = be_id e" "resolveRawConnectionFromDisplayed (connection_of d) = Some (crossed_blocks nodes e, connection_of e)"
proof -
  have h: "parseBlockHandleId (Handle (buildBlockHandleId dir x (handle_text h))) = Some (dir, x, handle_text h) \<and> Handle (handle_text h) = h"
    if "plain_id x" "h \<noteq> NullHandle" "\<not> handle_missing h" for dir x h
    using that by (cases h) (auto simp: handle_missing_def handle_roundtrip)
  show "getRawEdgeId d = be_id e"
    using assms(1) by (auto simp: toDisplayedBoundaryEdge_def getRawEdgeId_def Let_def split: if_splits)
  show "resolveRawConnectionFromDisplayed (connection_of d) = Some (crossed_blocks nodes e, connection_of e)"
    using assms h
    by (cases "raw_block nodes (be_source e)"; cases "raw_block nodes (be_target e)")
      (auto simp: toDisplayedBoundaryEdge_def resolveRawConnectionFromDisplayed_def connection_of_def crossed_blocks_def
        Let_def plain_not_synthetic split: if_splits)
qed

lemma map_filter_map: "List.map_filter f xs = map (\<lambda>x. the (f x)) (filter (\<lambda>x. f x \<noteq> None) xs)"
  by (simp add: List.map_filter_def comp_def)

lemma projected_edges:
  "distinct (map bn_id nodes) \<Longrightarrow>
   pj_edges (projectWorkflowWithBlocks le nodes edges None pv st prev) =
     List.map_filter (\<lambda>e. toDisplayedBoundaryEdge e (raw_block nodes (be_source e)) (raw_block nodes (be_target e))) edges"
  by (simp add: projectWorkflowWithBlocks_def Let_def block_lookup)


text \<open>
  A boundary edge whose handle at its block is \<open>null\<close> is shown all the same (the guard tests only
  for missing and empty handles), but with a handle that cannot be read back: resolving the shown
  connection fails.
\<close>

theorem null_handle_unresolvable:
  assumes "distinct (map bn_id nodes)" and "e \<in> set edges"
    and "raw_block nodes (be_source e) = Some b" and "raw_block nodes (be_target e) = None"
    and "be_sourceHandle e = NullHandle" and "plain_id (be_source e)"
  shows "\<exists>d \<in> set (pj_edges (projectWorkflowWithBlocks le nodes edges None pv st prev)).
           getRawEdgeId d = be_id e \<and> be_source d = getSyntheticBlockNodeId b \<and>
           resolveRawConnectionFromDisplayed (connection_of d) = None"
proof -
  obtain d where d: "toDisplayedBoundaryEdge e (Some b) None = Some d"
    using assms(5) by (simp add: toDisplayedBoundaryEdge_def handle_missing_def)
  then have "getRawEdgeId d = be_id e" "be_source d = getSyntheticBlockNodeId b"
    "be_sourceHandle d = Handle (buildBlockHandleId Output (be_source e) [])"
    using assms(5) by (auto simp: toDisplayedBoundaryEdge_def getRawEdgeId_def Let_def split: if_splits)
  moreover from this have "resolveRawConnectionFromDisplayed (connection_of d) = None"
    using null_handle_unparsed [OF assms(6)]
    by (simp add: resolveRawConnectionFromDisplayed_def connection_of_def)
  moreover have "d \<in> set (pj_edges (projectWorkflowWithBlocks le nodes edges None pv st prev))"
    using d assms(2,3,4) by (force simp: projected_edges [OF assms(1)] List.map_filter_def)
  ultimately show ?thesis by blast
qed

section \<open>Nodes\<close>

text \<open>What the shown graph tells of a node: its identifier and its position.\<close>

definition placed :: "block_node \<Rightarrow> string \<times> point" where
  "placed n = (bn_id n, bn_position n)"

definition anchor :: "block_node list \<Rightarrow> string \<Rightarrow> point" where
  "anchor nodes b = the (getBlockAnchorPosition (block_nodes b nodes))"

definition free_nodes :: "block_node list \<Rightarrow> block_node list" where
  "free_nodes = filter (\<lambda>n. block_of n = None)"

lemma min_point_mset:
  assumes "mset xs = mset ys"
  shows "getBlockAnchorPosition xs = getBlockAnchorPosition ys"
  unfolding getBlockAnchorPosition_def
  using assms by (intro fun_cong [OF fold_multiset_equiv]) (auto simp: min_point_def fun_eq_iff min.commute min.left_commute min.assoc split: option.splits)

lemma free_lookup:
  assumes "distinct (map bn_id nodes)"
  shows "filter (\<lambda>n. \<not> jhas (nodeBlockIdMap (collectBlockInstances le nodes)) (bn_id n)) nodes = free_nodes nodes"
  using assms by (auto simp: jhas_iff block_lookup raw_block_node free_nodes_def intro!: filter_cong)

lemma projected_nodes:
  assumes "distinct (map bn_id nodes)" "\<And>b. pv b = None"
  shows "map placed (pj_nodes (projectWorkflowWithBlocks le nodes edges None pv st prev)) =
     map placed (free_nodes nodes) @ map (\<lambda>b. (getSyntheticBlockNodeId b, anchor nodes b)) (block_ids nodes)"
proof -
  let ?I = "collectBlockInstances le nodes"
  have "placed (toDisplayedBlockNode le i sel None s p) = (getSyntheticBlockNodeId b, anchor nodes b)"
    if "(b, i) \<in> set ?I" for b i sel s p
    using instance_parts [OF that] min_point_mset [of "bi_nodes i" "block_nodes b nodes"]
    by (simp add: toDisplayedBlockNode_def placed_def anchor_def Let_def)
  then have "map (placed \<circ> (\<lambda>(_, i). toDisplayedBlockNode le i sel None (s i) (p i))) ?I =
      map (\<lambda>b. (getSyntheticBlockNodeId b, anchor nodes b)) (jkeys ?I)" for sel s p
    by (auto simp: comp_def)
  then show ?thesis
    by (simp add: projectWorkflowWithBlocks_def Let_def free_lookup [OF assms(1)] assms(2) instance_keys comp_def case_prod_beta)
qed

lemma mset_filter_disjoint:
  "(\<And>x. \<not> (P x \<and> Q x)) \<Longrightarrow> mset (filter (\<lambda>x. P x \<or> Q x) xs) = mset (filter P xs) + mset (filter Q xs)"
  by (induction xs) auto

lemma blocks_cover:
  "distinct bs \<Longrightarrow> mset (filter (\<lambda>n. block_of n \<in> Some ` set bs) nodes) = (\<Sum>b\<leftarrow>bs. mset (block_nodes b nodes))"
proof (induction bs)
  case (Cons b bs)
  have "mset (filter (\<lambda>n. block_of n \<in> Some ` set (b # bs)) nodes) =
      mset (filter (\<lambda>n. block_of n = Some b \<or> block_of n \<in> Some ` set bs) nodes)"
    by (simp add: image_iff)
  also have "\<dots> = mset (block_nodes b nodes) + mset (filter (\<lambda>n. block_of n \<in> Some ` set bs) nodes)"
    using Cons.prems unfolding block_nodes_def by (intro mset_filter_disjoint) auto
  finally show ?case using Cons by simp
qed simp

lemma nodes_partition: "mset nodes = mset (free_nodes nodes) + (\<Sum>b\<leftarrow>block_ids nodes. mset (block_nodes b nodes))"
proof -
  have "filter (\<lambda>n. block_of n \<in> Some ` set (block_ids nodes)) nodes = filter (\<lambda>n. block_of n \<noteq> None) nodes"
    by (intro filter_cong) (auto simp: set_block_ids block_nodes_def filter_empty_conv)
  moreover have "distinct (block_ids nodes)" by (simp add: block_ids_def)
  ultimately have "(\<Sum>b\<leftarrow>block_ids nodes. mset (block_nodes b nodes)) = mset (filter (\<lambda>n. block_of n \<noteq> None) nodes)"
    by (metis blocks_cover)
  then show ?thesis
    unfolding free_nodes_def mset_filter by (metis multiset_partition)
qed

lemma projected_ids:
  assumes "distinct (map bn_id nodes)"
  shows "map bn_id (pj_nodes (projectWorkflowWithBlocks le nodes edges None pv st prev)) =
     map bn_id (free_nodes nodes) @ map getSyntheticBlockNodeId (block_ids nodes)"
proof -
  let ?I = "collectBlockInstances le nodes"
  have "bn_id (toDisplayedBlockNode le i sel v s p) = getSyntheticBlockNodeId b"
    if "(b, i) \<in> set ?I" for b i sel v s p
    using instance_parts [OF that] by (simp add: toDisplayedBlockNode_def Let_def)
  then have "map (bn_id \<circ> (\<lambda>(_, i). toDisplayedBlockNode le i sel (v i) (s i) (p i))) ?I =
      map getSyntheticBlockNodeId (jkeys ?I)" for sel v s p
    by (auto simp: comp_def)
  then show ?thesis
    by (simp add: projectWorkflowWithBlocks_def Let_def free_lookup [OF assms(1)] instance_keys comp_def case_prod_beta)
qed

lemma distinct_displayed_ids:
  assumes "distinct (map bn_id nodes)" "\<forall>n \<in> set nodes. plain_id (bn_id n)"
  shows "distinct (map bn_id (free_nodes nodes) @ map getSyntheticBlockNodeId (block_ids nodes))"
proof -
  have "bn_id n \<noteq> getSyntheticBlockNodeId b" if "n \<in> set nodes" for n b
    using assms(2) plain_not_synthetic [of "bn_id n"] synthetic_roundtrip [of b] that by force
  with assms(1) show ?thesis
    by (auto simp: distinct_map block_ids_def free_nodes_def inj_on_def)
qed

lemma displayed_ends:
  assumes "distinct (map bn_id nodes)" "\<forall>e \<in> set edges. {be_source e, be_target e} \<subseteq> bn_id ` set nodes"
    and "d \<in> set (pj_edges (projectWorkflowWithBlocks le nodes edges None pv st prev))"
  shows "{be_source d, be_target d} \<subseteq> bn_id ` set (free_nodes nodes) \<union> getSyntheticBlockNodeId ` set (block_ids nodes)"
proof -
  have shown: "(case raw_block nodes x of None \<Rightarrow> x | Some b \<Rightarrow> getSyntheticBlockNodeId b)
      \<in> bn_id ` set (free_nodes nodes) \<union> getSyntheticBlockNodeId ` set (block_ids nodes)" if "x \<in> bn_id ` set nodes" for x
    using that raw_block_node [OF assms(1)] raw_block_Some [OF assms(1), of x]
    by (auto simp: free_nodes_def set_block_ids split: option.splits)
  from assms(3) obtain e where e: "e \<in> set edges"
    "toDisplayedBoundaryEdge e (raw_block nodes (be_source e)) (raw_block nodes (be_target e)) = Some d"
    by (auto simp: projected_edges [OF assms(1)] List.map_filter_def)
  then have "be_source d = (case raw_block nodes (be_source e) of None \<Rightarrow> be_source e | Some b \<Rightarrow> getSyntheticBlockNodeId b)"
    "be_target d = (case raw_block nodes (be_target e) of None \<Rightarrow> be_target e | Some b \<Rightarrow> getSyntheticBlockNodeId b)"
    by (auto simp: toDisplayedBoundaryEdge_def Let_def split: if_splits)
  with e(1) assms(2) shown show ?thesis by auto
qed

text \<open>
  The shown graph partitions the raw one. With unique node identifiers every raw node is either
  shown itself or belongs to exactly one of the block instances, each of which is shown as one node;
  the shown identifiers are unique, and the shown edges join shown nodes only.
\<close>

theorem projection_partitions:
  assumes "distinct (map bn_id nodes)" and "\<forall>n \<in> set nodes. plain_id (bn_id n)"
    and "\<forall>e \<in> set edges. {be_source e, be_target e} \<subseteq> bn_id ` set nodes"
    and "P = projectWorkflowWithBlocks le nodes edges None pv st prev"
  shows "mset nodes = mset (free_nodes nodes) + (\<Sum>(b, i)\<leftarrow>pj_instances P. mset (bi_nodes i)) \<and>
    (\<forall>(b, i) \<in> set (pj_instances P). \<forall>n \<in> set (bi_nodes i). block_of n = Some b) \<and>
    map bn_id (pj_nodes P) = map bn_id (free_nodes nodes) @ map (getSyntheticBlockNodeId \<circ> fst) (pj_instances P) \<and>
    distinct (map bn_id (pj_nodes P)) \<and>
    (\<forall>d \<in> set (pj_edges P). {be_source d, be_target d} \<subseteq> bn_id ` set (pj_nodes P))"
proof (intro conjI)
  have i: "pj_instances P = collectBlockInstances le nodes"
    by (simp add: assms(4) projectWorkflowWithBlocks_def Let_def)
  have ids: "map bn_id (pj_nodes P) = map bn_id (free_nodes nodes) @ map getSyntheticBlockNodeId (block_ids nodes)"
    using projected_ids [OF assms(1)] assms(4) by simp
  have "map (\<lambda>(b, i). mset (bi_nodes i)) (pj_instances P) = map (\<lambda>b. mset (block_nodes b nodes)) (jkeys (pj_instances P))"
    by (auto simp: i dest: instance_parts(2))
  then show "mset nodes = mset (free_nodes nodes) + (\<Sum>(b, i)\<leftarrow>pj_instances P. mset (bi_nodes i))"
    using nodes_partition [of nodes] by (simp add: i instance_keys comp_def)
  show "\<forall>(b, i) \<in> set (pj_instances P). \<forall>n \<in> set (bi_nodes i). block_of n = Some b"
    using instance_parts(2) by (fastforce simp: i block_nodes_def dest: mset_eq_setD)
  show "map bn_id (pj_nodes P) = map bn_id (free_nodes nodes) @ map (getSyntheticBlockNodeId \<circ> fst) (pj_instances P)"
    using instance_keys [of le nodes] by (simp add: ids i map_map [symmetric] del: map_map)
  show "distinct (map bn_id (pj_nodes P))"
    using distinct_displayed_ids [OF assms(1,2)] ids by simp
  have "set (map bn_id (pj_nodes P)) = bn_id ` set (free_nodes nodes) \<union> getSyntheticBlockNodeId ` set (block_ids nodes)"
    using ids by simp
  then show "\<forall>d \<in> set (pj_edges P). {be_source d, be_target d} \<subseteq> bn_id ` set (pj_nodes P)"
    using displayed_ends [OF assms(1,3)] assms(4) by simp
qed

section \<open>Layout\<close>

text \<open>
  The contract between a state and the places at which a view shows it: placing one element changes
  what is shown at its key and nothing else. Placing several elements in turn then shows each where
  it was placed.
\<close>

locale placed_view =
  fixes wf :: "'s \<Rightarrow> bool"
    and ids :: "'s \<Rightarrow> 'k list"
    and loc :: "'s \<Rightarrow> 'k \<Rightarrow> 'p"
    and place :: "'d \<Rightarrow> 's \<Rightarrow> 's"
    and key :: "'d \<Rightarrow> 'k"
    and pos :: "'d \<Rightarrow> 'p"
  assumes wf_place: "wf s \<Longrightarrow> wf (place d s)"
    and ids_place: "ids (place d s) = ids s"
    and loc_place: "wf s \<Longrightarrow> key d \<in> set (ids s) \<Longrightarrow> x \<in> set (ids s) \<Longrightarrow>
      loc (place d s) x = (if x = key d then pos d else loc s x)"
begin

lemma loc_fold_other:
  assumes "wf s" "set (map key ds) \<subseteq> set (ids s)" "x \<in> set (ids s)" "x \<notin> set (map key ds)"
  shows "loc (fold place ds s) x = loc s x"
  using assms by (induction ds arbitrary: s) (auto simp: wf_place ids_place loc_place)

lemma loc_fold:
  assumes "wf s" "distinct (map key ds)" "set (map key ds) \<subseteq> set (ids s)" "d \<in> set ds"
  shows "loc (fold place ds s) (key d) = pos d"
  using assms
proof (induction ds arbitrary: s)
  case (Cons c ds)
  show ?case
  proof (cases "d = c")
    case True
    then show ?thesis
      using Cons.prems by (simp add: loc_fold_other wf_place ids_place loc_place)
  next
    case False
    then show ?thesis
      using Cons by (simp add: wf_place ids_place)
  qed
qed simp

end

definition displayed_ids :: "block_node list \<Rightarrow> string list" where
  "displayed_ids nodes = map bn_id (free_nodes nodes) @ map getSyntheticBlockNodeId (block_ids nodes)"

definition shown_at :: "block_node list \<Rightarrow> string \<Rightarrow> point" where
  "shown_at nodes x =
     (case parseSyntheticBlockNodeId x of
        Some b \<Rightarrow> anchor nodes b
      | None \<Rightarrow> bn_position (the (find (\<lambda>n. bn_id n = x) nodes)))"

definition skeleton :: "block_node list \<Rightarrow> (string \<times> string option) list" where
  "skeleton = map (\<lambda>n. (bn_id n, block_of n))"

definition plain_nodes :: "block_node list \<Rightarrow> bool" where
  "plain_nodes nodes \<longleftrightarrow> distinct (map bn_id nodes) \<and> (\<forall>n \<in> set nodes. plain_id (bn_id n))"

lemma block_of_updates [simp]:
  "block_of (n\<lparr>bn_position := p\<rparr>) = block_of n" "block_of (n\<lparr>bn_sides := q\<rparr>) = block_of n"
  by (simp_all add: block_of_def getBlockMetadata_def)

lemma skeleton_place [simp]: "skeleton (place_displayed d nodes) = skeleton nodes"
  by (auto simp: skeleton_def place_displayed_def moveBlockNodes_def Let_def split: option.splits)

lemma displayed_ids_skeleton:
  "displayed_ids nodes = map fst (filter (\<lambda>p. snd p = None) (skeleton nodes)) @
     map getSyntheticBlockNodeId (jset_of (List.map_filter snd (skeleton nodes)))"
  by (simp add: displayed_ids_def free_nodes_def block_ids_def skeleton_def filter_map comp_def List.map_filter_def)

lemma displayed_ids_place [simp]: "displayed_ids (place_displayed d nodes) = displayed_ids nodes"
  by (simp add: displayed_ids_skeleton)

lemma plain_nodes_skeleton: "plain_nodes nodes \<longleftrightarrow> distinct (map fst (skeleton nodes)) \<and> (\<forall>x \<in> set (map fst (skeleton nodes)). plain_id x)"
  by (simp add: plain_nodes_def skeleton_def comp_def)

lemma plain_nodes_place [simp]: "plain_nodes (place_displayed d nodes) = plain_nodes nodes"
  by (simp add: plain_nodes_skeleton)

lemma skeleton_fold [simp]: "skeleton (fold place_displayed ds nodes) = skeleton nodes"
  by (induction ds arbitrary: nodes) simp_all

text \<open>Moving every node by the same amount moves the anchor by it.\<close>

lemma anchor_shift:
  "getBlockAnchorPosition (map (\<lambda>n. n\<lparr>bn_position := (fst (bn_position n) + dx, snd (bn_position n) + dy)\<rparr>) nodes) =
     map_option (\<lambda>(x, y). (x + dx, y + dy)) (getBlockAnchorPosition nodes)"
proof -
  have "fold (\<lambda>n. min_point (bn_position n)) (map (\<lambda>n. n\<lparr>bn_position := (fst (bn_position n) + dx, snd (bn_position n) + dy)\<rparr>) nodes)
      (map_option (\<lambda>(x, y). (x + dx, y + dy)) acc) =
     map_option (\<lambda>(x, y). (x + dx, y + dy)) (fold (\<lambda>n. min_point (bn_position n)) nodes acc)" for acc
  proof (induction nodes arbitrary: acc)
    case (Cons n nodes)
    have "min_point (fst (bn_position n) + dx, snd (bn_position n) + dy) (map_option (\<lambda>(x, y). (x + dx, y + dy)) acc) =
        map_option (\<lambda>(x, y). (x + dx, y + dy)) (min_point (bn_position n) acc)"
      by (auto simp: min_point_def min_add_distrib_left split: option.splits prod.splits)
    with Cons show ?case by simp
  qed simp
  from this [of None] show ?thesis by (simp add: getBlockAnchorPosition_def)
qed

lemma anchor_exists: "getBlockAnchorPosition nodes = None \<longleftrightarrow> nodes = []"
proof (cases nodes rule: rev_cases)
  case (snoc ns n)
  then show ?thesis by (simp add: getBlockAnchorPosition_def min_point_def)
qed (simp add: getBlockAnchorPosition_def)

lemma anchor_move:
  assumes "b \<in> set (block_ids nodes)"
  shows "anchor (moveBlockNodes nodes b p) c = (if c = b then p else anchor nodes c)"
proof -
  from assms obtain q where q: "getBlockAnchorPosition (block_nodes b nodes) = Some q"
    using anchor_exists [of "block_nodes b nodes"] by (cases "getBlockAnchorPosition (block_nodes b nodes)") (auto simp: set_block_ids)
  define sh where "sh = (\<lambda>n :: block_node. n\<lparr>bn_position := (fst (bn_position n) + (fst p - fst q), snd (bn_position n) + (snd p - snd q))\<rparr>)"
  have m: "moveBlockNodes nodes b p = map (\<lambda>n. if block_of n \<noteq> Some b then n else sh n) nodes"
    using q by (simp add: moveBlockNodes_def block_nodes_def Let_def sh_def)
  have sh: "block_of (sh n) = block_of n" for n by (simp add: sh_def)
  have "block_nodes b (moveBlockNodes nodes b p) = map sh (block_nodes b nodes)"
    unfolding m by (induction nodes) (auto simp: block_nodes_def sh)
  moreover have "block_nodes c (moveBlockNodes nodes b p) = block_nodes c nodes" if "c \<noteq> b"
    unfolding m using that by (induction nodes) (auto simp: block_nodes_def sh)
  moreover have "getBlockAnchorPosition (map sh (block_nodes b nodes)) = Some p"
    using q unfolding sh_def anchor_shift by (cases p; cases q) auto
  ultimately show ?thesis by (simp add: anchor_def)
qed

lemma find_map_same:
  "(\<And>n. bn_id (f n) = bn_id n) \<Longrightarrow> find (\<lambda>n. bn_id n = x) (map f nodes) = map_option f (find (\<lambda>n. bn_id n = x) nodes)"
  by (induction nodes) auto

lemma displayed_free:
  assumes "plain_nodes nodes" "x \<in> set (displayed_ids nodes)" "parseSyntheticBlockNodeId x = None"
  obtains n where "n \<in> set nodes" "bn_id n = x" "block_of n = None" "find (\<lambda>n. bn_id n = x) nodes = Some n"
proof -
  from assms(2,3) obtain n where n: "n \<in> set nodes" "bn_id n = x" "block_of n = None"
    by (auto simp: displayed_ids_def free_nodes_def)
  moreover have "find (\<lambda>m. bn_id m = x) nodes = Some n"
    using n assms(1) find_distinct by (auto simp: plain_nodes_def)
  ultimately show thesis by (rule that)
qed

lemma displayed_synthetic:
  assumes "plain_nodes nodes" "x \<in> set (displayed_ids nodes)" "parseSyntheticBlockNodeId x = Some b"
  shows "x = getSyntheticBlockNodeId b" "b \<in> set (block_ids nodes)"
  using assms plain_not_synthetic by (auto simp: displayed_ids_def plain_nodes_def free_nodes_def)

lemma shown_after_place:
  assumes "plain_nodes nodes" "bn_id d \<in> set (displayed_ids nodes)" "x \<in> set (displayed_ids nodes)"
  shows "shown_at (place_displayed d nodes) x = (if x = bn_id d then bn_position d else shown_at nodes x)"
proof (cases "parseSyntheticBlockNodeId (bn_id d)")
  case (Some b)
  note b = displayed_synthetic [OF assms(1,2) Some]
  show ?thesis
  proof (cases "parseSyntheticBlockNodeId x")
    case None
    from displayed_free [OF assms(1,3) None] obtain n where "block_of n = None" "find (\<lambda>n. bn_id n = x) nodes = Some n" .
    then show ?thesis
      using None Some by (auto simp: shown_at_def place_displayed_def moveBlockNodes_def Let_def find_map_same split: option.splits)
  next
    case (Some c)
    then show ?thesis
      using b \<open>parseSyntheticBlockNodeId (bn_id d) = Some b\<close> displayed_synthetic [OF assms(1,3) Some]
      by (auto simp: shown_at_def place_displayed_def anchor_move)
  qed
next
  case None
  let ?f = "\<lambda>n. if bn_id n = bn_id d then n\<lparr>bn_position := bn_position d, bn_sides := bn_sides d\<rparr> else n"
  have place: "place_displayed d nodes = map ?f nodes" using None by (simp add: place_displayed_def)
  from displayed_free [OF assms(1,2) None] obtain m where m: "m \<in> set nodes" "bn_id m = bn_id d" "block_of m = None" by metis
  show ?thesis
  proof (cases "parseSyntheticBlockNodeId x")
    case x: None
    from displayed_free [OF assms(1,3) x] obtain n where "bn_id n = x" "find (\<lambda>n. bn_id n = x) nodes = Some n" .
    with x show ?thesis by (auto simp: shown_at_def place find_map_same)
  next
    case (Some c)
    have "block_of n = None" if "n \<in> set nodes" "bn_id n = bn_id d" for n
      using that m assms(1) by (metis inj_onD distinct_map plain_nodes_def)
    then have "block_nodes c (map ?f nodes) = block_nodes c nodes"
      unfolding block_nodes_def by (induction nodes) auto
    with None Some show ?thesis by (auto simp: shown_at_def place anchor_def)
  qed
qed

interpretation view: placed_view plain_nodes displayed_ids shown_at place_displayed bn_id bn_position
  by unfold_locales (simp_all add: shown_after_place)

lemma projected_positions:
  assumes "plain_nodes nodes" "\<And>b. pv b = None"
  shows "map placed (pj_nodes (projectWorkflowWithBlocks le nodes edges None pv st prev)) =
     map (\<lambda>x. (x, shown_at nodes x)) (displayed_ids nodes)"
proof -
  have d: "distinct (map bn_id nodes)" using assms(1) by (simp add: plain_nodes_def)
  have "placed n = (bn_id n, shown_at nodes (bn_id n))" if "n \<in> set (free_nodes nodes)" for n
    using that assms(1) d
    by (auto simp: placed_def shown_at_def plain_nodes_def free_nodes_def plain_not_synthetic find_distinct)
  then show ?thesis
    by (simp add: projected_nodes [OF d assms(2)] displayed_ids_def shown_at_def)
qed


end
