(* ===== verification/Block_Templates.thy ===== *)
theory Block_Templates
  imports Blocks_Props
begin

text \<open>
  Templates of blocks: what \<open>buildBlockTemplateFromSelection\<close> saves, \<open>instantiateBlockTemplate\<close> brings
  back as a renamed copy. Also the example workflow on which the theorems about blocks are evaluated.
\<close>

section \<open>Renaming\<close>

lemma map_sum_list_Inr: "(\<And>x. x \<in> set xs \<Longrightarrow> f x = Inr (g x)) \<Longrightarrow> map_sum_list f xs = Inr (map g xs)"
  by (induction xs) auto

lemma fold_jset_distinct:
  "distinct (map fst m @ map fst entries) \<Longrightarrow> fold (\<lambda>(k, v). jset k v) entries m = m @ entries"
proof (induction entries arbitrary: m)
  case (Cons p entries)
  obtain k v where p: "p = (k, v)" by (cases p)
  have "jset k v m = m @ [(k, v)]" if "k \<notin> set (map fst m)" using that by (induction m) auto
  with Cons p show ?case by auto
qed simp

lemma from_entries_distinct: "distinct (map fst entries) \<Longrightarrow> from_entries entries = entries"
  by (simp add: from_entries_def fold_jset_distinct)

text \<open>The new identifier of a template node.\<close>

definition renamed :: "(nat \<Rightarrow> string) \<Rightarrow> block_node list \<Rightarrow> string \<Rightarrow> string" where
  "renamed uuid nodes x = the (jget (nodeIdMap uuid nodes) x)"

lemma nodeIdMap_renamed:
  assumes "distinct (map bn_id nodes)"
  shows "map (renamed uuid nodes) (map bn_id nodes) = map uuid [0..<length nodes]"
    and "x \<in> set (map bn_id nodes) \<Longrightarrow> jget (nodeIdMap uuid nodes) x = Some (renamed uuid nodes x)"
proof -
  let ?e = "map (\<lambda>(k, n). (bn_id n, uuid k)) (List.enumerate 0 nodes)"
  have "map fst ?e = map bn_id (map snd (List.enumerate 0 nodes))"
    by (simp only: map_map comp_def case_prod_beta fst_conv)
  then have keys: "map fst ?e = map bn_id nodes" by (simp only: map_snd_enumerate)
  with assms have ids: "nodeIdMap uuid nodes = ?e" by (simp add: nodeIdMap_def from_entries_distinct)
  have at: "jget (nodeIdMap uuid nodes) (bn_id (nodes ! i)) = Some (uuid i)" if "i < length nodes" for i
  proof -
    have "(i, nodes ! i) \<in> set (List.enumerate 0 nodes)" using that by (simp add: in_set_enumerate_eq)
    then have "(bn_id (nodes ! i), uuid i) \<in> set ?e" by force
    then show ?thesis unfolding ids using assms keys by (intro map_of_is_SomeI) simp_all
  qed
  then show "map (renamed uuid nodes) (map bn_id nodes) = map uuid [0..<length nodes]"
    by (intro nth_equalityI) (simp_all add: renamed_def)
  show "jget (nodeIdMap uuid nodes) x = Some (renamed uuid nodes x)" if "x \<in> set (map bn_id nodes)"
    using that at by (auto simp: in_set_conv_nth renamed_def)
qed

definition rename_connection :: "(string \<Rightarrow> string) \<Rightarrow> connection \<Rightarrow> connection" where
  "rename_connection f c = c\<lparr>cn_source := f (cn_source c), cn_target := f (cn_target c)\<rparr>"

lemma setEdgeBlockIds_keeps [simp]:
  "be_id (setEdgeBlockIds e bs) = be_id e" "be_source (setEdgeBlockIds e bs) = be_source e"
  "be_target (setEdgeBlockIds e bs) = be_target e" "be_sourceHandle (setEdgeBlockIds e bs) = be_sourceHandle e"
  "be_targetHandle (setEdgeBlockIds e bs) = be_targetHandle e"
  by (simp_all add: setEdgeBlockIds_def Let_def)

lemma setEdgeBlockIds_ids: "bs \<noteq> [] \<Longrightarrow> getBlockIdsFromEdgeData (setEdgeBlockIds e bs) = jset_of bs"
  by (cases bs) (auto simp: setEdgeBlockIds_def getBlockIdsFromEdgeData_def Let_def)

section \<open>Instantiation\<close>

definition new_node :: "(nat \<Rightarrow> string) \<Rightarrow> block_template \<Rightarrow> string \<Rightarrow> point \<Rightarrow> block_node \<Rightarrow> block_node" where
  "new_node uuid t b pos n = n\<lparr>bn_id := renamed uuid (bt_nodes t) (bn_id n), bn_selected := Some True,
     bn_position := (fst pos + fst (bn_position n), snd pos + snd (bn_position n)),
     bn_block := Some (getTemplateNodeMetadata t (bn_id n) b)\<rparr>"

definition new_edge :: "(nat \<Rightarrow> string) \<Rightarrow> block_template \<Rightarrow> string \<Rightarrow> nat \<times> block_edge \<Rightarrow> block_edge" where
  "new_edge uuid t b = (\<lambda>(k, e). setEdgeBlockIds (e\<lparr>be_id := uuid k, be_selected := Some False,
     be_source := renamed uuid (bt_nodes t) (be_source e), be_target := renamed uuid (bt_nodes t) (be_target e)\<rparr>) [b])"

lemma instantiate_ok:
  assumes "distinct (map bn_id (bt_nodes t))"
    and "\<And>e. e \<in> set (bt_edges t) \<Longrightarrow> {be_source e, be_target e} \<subseteq> set (map bn_id (bt_nodes t))"
  shows "instantiateBlockTemplate uuid b pos t =
     Inr (map (new_edge uuid t b) (List.enumerate (length (bt_nodes t)) (bt_edges t)), map (new_node uuid t b pos) (bt_nodes t))"
proof -
  let ?ids = "nodeIdMap uuid (bt_nodes t)"
  note [simp] = nodeIdMap_renamed(2) [OF assms(1)]
  have "map_sum_list (instantiate_node ?ids t b pos) (bt_nodes t) = Inr (map (new_node uuid t b pos) (bt_nodes t))"
    by (rule map_sum_list_Inr) (simp add: instantiate_node_def new_node_def attachBlockMetadataToNode_def)
  moreover have "map_sum_list (\<lambda>(k, e). instantiate_edge ?ids b (uuid k) e) (List.enumerate (length (bt_nodes t)) (bt_edges t)) =
      Inr (map (new_edge uuid t b) (List.enumerate (length (bt_nodes t)) (bt_edges t)))"
  proof (rule map_sum_list_Inr)
    fix x assume mem: "x \<in> set (List.enumerate (length (bt_nodes t)) (bt_edges t))"
    obtain k e where x: "x = (k, e)" by (cases x)
    with mem have "e \<in> set (bt_edges t)" by (auto simp: in_set_enumerate_eq)
    from assms(2) [OF this] show "(case x of (k, e) \<Rightarrow> instantiate_edge ?ids b (uuid k) e) = Inr (new_edge uuid t b x)"
      using x by (simp add: instantiate_edge_def new_edge_def)
  qed
  ultimately show ?thesis by (simp add: instantiateBlockTemplate_def Let_def)
qed

section \<open>Round trip\<close>

definition selection :: "block_node list \<Rightarrow> string list \<Rightarrow> block_node list" where
  "selection nodes sel = filter (\<lambda>n. bn_id n \<in> set sel) nodes"

definition inner_edges :: "block_edge list \<Rightarrow> string list \<Rightarrow> block_edge list" where
  "inner_edges edges sel = filter (\<lambda>e. be_source e \<in> set sel \<and> be_target e \<in> set sel) edges"

lemma built_template:
  assumes "buildBlockTemplateFromSelection nodes edges sel name = Some t"
  shows "bt_nodes t = map (clone_node (case getBlockAnchorPosition (selection nodes sel) of None \<Rightarrow> (0, 0) | Some p \<Rightarrow> p)) (selection nodes sel)"
    and "bt_edges t = map (\<lambda>e. setEdgeBlockIds (e\<lparr>be_selected := Some False\<rparr>) []) (inner_edges edges sel)"
    and "card (set sel) \<ge> 2"
  using assms by (auto simp: buildBlockTemplateFromSelection_def selection_def inner_edges_def Let_def split: if_splits)

lemma clone_node_id [simp]: "bn_id (clone_node p n) = bn_id n"
  by (simp add: clone_node_def)

lemma map_enumerate_fst: "map (\<lambda>(k, e). f k) (List.enumerate m xs) = map f [m..<m + length xs]"
  by (metis (no_types, lifting) case_prod_beta map_cong map_fst_enumerate map_map comp_def)

lemma map_enumerate_snd: "map (\<lambda>(k, e). f e) (List.enumerate m xs) = map f xs"
  by (metis (no_types, lifting) case_prod_beta map_cong map_snd_enumerate map_map comp_def)

lemma new_edges:
  "map be_id (map (new_edge uuid t b) (List.enumerate m es)) = map uuid [m..<m + length es]"
  "map connection_of (map (new_edge uuid t b) (List.enumerate m es)) =
     map (\<lambda>e. rename_connection (renamed uuid (bt_nodes t)) (connection_of e)) es"
proof -
  have "be_id \<circ> new_edge uuid t b = (\<lambda>(k, e). uuid k)"
    by (auto simp: new_edge_def fun_eq_iff)
  then show "map be_id (map (new_edge uuid t b) (List.enumerate m es)) = map uuid [m..<m + length es]"
    by (simp add: map_enumerate_fst)
  have "connection_of \<circ> new_edge uuid t b = (\<lambda>(k, e). rename_connection (renamed uuid (bt_nodes t)) (connection_of e))"
    by (auto simp: new_edge_def fun_eq_iff connection_of_def rename_connection_def)
  then show "map connection_of (map (new_edge uuid t b) (List.enumerate m es)) =
     map (\<lambda>e. rename_connection (renamed uuid (bt_nodes t)) (connection_of e)) es"
    by (simp add: map_enumerate_snd)
qed

lemma anchor_clone:
  "getBlockAnchorPosition (map (\<lambda>n. n\<lparr>bn_position := (fst (bn_position n) + dx, snd (bn_position n) + dy)\<rparr>) nodes) =
   getBlockAnchorPosition (map f nodes)"
  if "\<And>n. bn_position (f n) = (fst (bn_position n) + dx, snd (bn_position n) + dy)"
  by (simp add: getBlockAnchorPosition_def fold_map comp_def that)

lemma new_node_block: "b \<noteq> [] \<Longrightarrow> block_of (new_node uuid t b pos n) = Some b"
  by (simp add: new_node_def block_of_def getBlockMetadata_def getTemplateNodeMetadata_def)

lemma new_edge_blocks: "getBlockIdsFromEdgeData (new_edge uuid t b x) = [b]"
  by (cases x) (simp add: new_edge_def setEdgeBlockIds_ids)

lemma anchor_new_nodes:
  assumes "ns \<noteq> []" "getBlockAnchorPosition ns = Some a"
  shows "getBlockAnchorPosition (map (new_node uuid t b pos) (map (clone_node a) ns)) = Some pos"
proof -
  have "bn_position (new_node uuid t b pos (clone_node a n)) =
      (fst (bn_position n) + (fst pos - fst a), snd (bn_position n) + (snd pos - snd a))" for n
    by (simp add: new_node_def clone_node_def)
  from anchor_clone [of "\<lambda>n. new_node uuid t b pos (clone_node a n)", OF this, of ns]
  show ?thesis
    using assms(2) by (cases pos; cases a) (simp add: anchor_shift comp_def)
qed

text \<open>
  A template built from a selection of existing nodes with unique identifiers can always be
  instantiated, and the instance is a copy of the selection: for fresh identifiers the nodes are
  renamed injectively, the edges are exactly the selection's inner edges under that renaming with
  their handles, all new identifiers are distinct, types, titles and configurations are kept, every
  node and edge is marked with the new block, and the nodes keep their offsets with the block's anchor
  at the requested position.
\<close>

theorem template_instance_copies:
  assumes "buildBlockTemplateFromSelection nodes edges sel name = Some t"
    and "distinct (map bn_id nodes)" and "set sel \<subseteq> bn_id ` set nodes" and "inj uuid" and "blockId \<noteq> []"
  shows "\<exists>f es ns a. instantiateBlockTemplate uuid blockId pos t = Inr (es, ns) \<and>
     inj_on f (set sel) \<and> map bn_id ns = map (\<lambda>n. f (bn_id n)) (selection nodes sel) \<and>
     map connection_of es = map (\<lambda>e. rename_connection f (connection_of e)) (inner_edges edges sel) \<and>
     distinct (map bn_id ns @ map be_id es) \<and>
     map (\<lambda>n. (bn_type n, bn_title n, bn_configuration n)) ns =
       map (\<lambda>n. (bn_type n, bn_title n, bn_configuration n)) (selection nodes sel) \<and>
     (\<forall>n \<in> set ns. block_of n = Some blockId) \<and> (\<forall>e \<in> set es. getBlockIdsFromEdgeData e = [blockId]) \<and>
     getBlockAnchorPosition (selection nodes sel) = Some a \<and> getBlockAnchorPosition ns = Some pos \<and>
     map bn_position ns = map (\<lambda>n. (fst pos + (fst (bn_position n) - fst a), snd pos + (snd (bn_position n) - snd a))) (selection nodes sel)"
proof -
  let ?S = "selection nodes sel" and ?E = "inner_edges edges sel" and ?f = "renamed uuid (bt_nodes t)"
  let ?es = "map (new_edge uuid t blockId) (List.enumerate (length (bt_nodes t)) (bt_edges t))"
  let ?ns = "map (new_node uuid t blockId pos) (bt_nodes t)"
  note built = built_template [OF assms(1)]
  have sel: "bn_id ` set ?S = set sel" using assms(3) by (auto simp: selection_def)
  have "?S \<noteq> []" using sel built(3) by auto
  then obtain a where a: "getBlockAnchorPosition ?S = Some a" using anchor_exists [of ?S] by auto
  with built(1) have nodes: "bt_nodes t = map (clone_node a) ?S" by simp
  then have ids: "map bn_id (bt_nodes t) = map bn_id ?S" by simp
  have dist: "distinct (map bn_id (bt_nodes t))"
    using assms(2) unfolding ids selection_def by (rule distinct_map_filter)
  have "{be_source e, be_target e} \<subseteq> set (map bn_id (bt_nodes t))" if "e \<in> set (bt_edges t)" for e
    using that unfolding ids by (auto simp: built(2) inner_edges_def sel)
  note inst = instantiate_ok [OF dist this]
  have new_ids: "map bn_id ?ns = map ?f (map bn_id (bt_nodes t))" by (simp add: new_node_def)
  have uuids: "map bn_id ?ns @ map be_id ?es = map uuid [0..<length (bt_nodes t) + length (bt_edges t)]"
    unfolding new_ids nodeIdMap_renamed(1) [OF dist] new_edges by (simp flip: map_append upt_add_eq_append)
  have "distinct (map uuid [0..<length (bt_nodes t)])"
    using assms(4) by (simp add: distinct_map inj_on_def)
  then have "inj_on ?f (set sel)"
    using nodeIdMap_renamed(1) [OF dist, of uuid] sel by (metis distinct_map ids set_map)
  moreover have "map bn_id ?ns = map (\<lambda>n. ?f (bn_id n)) ?S" unfolding new_ids ids by simp
  moreover have "map connection_of ?es = map (\<lambda>e. rename_connection ?f (connection_of e)) ?E"
    unfolding new_edges by (simp add: built(2) connection_of_def)
  moreover have "distinct (map bn_id ?ns @ map be_id ?es)"
    unfolding uuids using assms(4) by (simp add: distinct_map inj_on_def)
  moreover have "\<forall>n \<in> set ?ns. block_of n = Some blockId" "\<forall>e \<in> set ?es. getBlockIdsFromEdgeData e = [blockId]"
    using assms(5) by (simp_all add: new_node_block new_edge_blocks)
  moreover have "getBlockAnchorPosition ?ns = Some pos"
    unfolding nodes using anchor_new_nodes [OF \<open>?S \<noteq> []\<close> a] .
  moreover have "map (\<lambda>n. (bn_type n, bn_title n, bn_configuration n)) ?ns = map (\<lambda>n. (bn_type n, bn_title n, bn_configuration n)) ?S"
    "map bn_position ?ns = map (\<lambda>n. (fst pos + (fst (bn_position n) - fst a), snd pos + (snd (bn_position n) - snd a))) ?S"
    by (simp_all add: nodes new_node_def clone_node_def)
  ultimately show ?thesis
    using inst [of uuid blockId pos] a
    by (intro exI [of _ ?f] exI [of _ ?es] exI [of _ ?ns] exI [of _ a] conjI) assumption+
qed

section \<open>An example workflow\<close>

definition plain_node :: "string \<Rightarrow> string option \<Rightarrow> point \<Rightarrow> block_node" where
  "plain_node x b p =
     \<lparr>bn_id = x, bn_type = Some ''filter'', bn_position = p, bn_selected = None,
      bn_block = map_option (\<lambda>c. \<lparr>bm_blockId = c, bm_configLabels = None, bm_inputLabels = None, bm_nodeLabel = None,
        bm_outputLabels = None, bm_templateId = None, bm_templateName = None\<rparr>) b,
      bn_title = None, bn_configuration = JUndef, bn_display = None, bn_rest = [], bn_dragging = None,
      bn_size = \<lparr>sz_height = None, sz_measured = None, sz_resizing = None, sz_width = None\<rparr>, bn_sides = (None, None)\<rparr>"

definition plain_edge :: "string \<Rightarrow> string \<Rightarrow> handle \<Rightarrow> string \<Rightarrow> block_edge" where
  "plain_edge x s h t =
     \<lparr>be_id = x, be_source = s, be_target = t, be_sourceHandle = h, be_targetHandle = Handle ''in'', be_data = None, be_selected = None\<rparr>"

text \<open>An order in which every two texts are equal, so that sorting keeps the order.\<close>

definition keep_order :: "string \<Rightarrow> string \<Rightarrow> bool" where
  "keep_order a b \<longleftrightarrow> True"

definition demo_nodes :: "block_node list" where
  "demo_nodes = [plain_node ''n1'' (Some ''b'') (1, 5), plain_node ''n2'' (Some ''b'') (4, 2), plain_node ''n3'' None (9, 9)]"

definition demo_edges :: "block_edge list" where
  "demo_edges = [plain_edge ''e1'' ''n1'' (Handle ''out'') ''n3'', plain_edge ''e2'' ''n1'' (Handle ''out'') ''n2'']"

lemmas blocks_demo_defs = demo_nodes_def demo_edges_def plain_node_def plain_edge_def

lemma blocks_demo_plain: "plain_id ''n1''" "plain_id ''n2''" "plain_id ''n3''"
  by (simp_all add: plain_id_def str_includes_def starts_with_def)

lemma demo_blocks: "raw_block demo_nodes ''n1'' = Some ''b''" "raw_block demo_nodes ''n2'' = Some ''b''" "raw_block demo_nodes ''n3'' = None"
  by (simp_all add: raw_block_def blocks_demo_defs block_of_def getBlockMetadata_def)

lemma blocks_demo_wf:
  "distinct (map bn_id demo_nodes)" "\<forall>n \<in> set demo_nodes. plain_id (bn_id n)"
  "\<forall>e \<in> set demo_edges. plain_id (be_source e) \<and> plain_id (be_target e) \<and> be_sourceHandle e \<noteq> NullHandle \<and> be_targetHandle e \<noteq> NullHandle"
  "\<forall>e \<in> set demo_edges. {be_source e, be_target e} \<subseteq> bn_id ` set demo_nodes"
  by (simp_all add: blocks_demo_defs blocks_demo_plain)

lemma demo_shown: "filter (shown_edge demo_nodes) demo_edges = [plain_edge ''e1'' ''n1'' (Handle ''out'') ''n3'']"
  by (simp add: demo_edges_def plain_edge_def shown_edge_def demo_blocks handle_missing_def)


theorem null_handle_unresolvable_witness:
  "\<exists>d \<in> set (pj_edges (projectWorkflowWithBlocks keep_order demo_nodes [plain_edge ''e'' ''n1'' NullHandle ''n3''] None Map.empty Map.empty [])).
     getRawEdgeId d = ''e'' \<and> be_source d = getSyntheticBlockNodeId ''b'' \<and> resolveRawConnectionFromDisplayed (connection_of d) = None"
  using null_handle_unresolvable [OF blocks_demo_wf(1), of "plain_edge ''e'' ''n1'' NullHandle ''n3''"
      "[plain_edge ''e'' ''n1'' NullHandle ''n3'']" "''b''" keep_order Map.empty Map.empty "[]"]
  by (simp add: plain_edge_def demo_blocks blocks_demo_plain)

theorem projection_partitions_witness:
  "map bn_id (pj_nodes (projectWorkflowWithBlocks keep_order demo_nodes demo_edges None Map.empty Map.empty [])) =
     [''n3'', getSyntheticBlockNodeId ''b''] \<and>
   distinct (map bn_id (pj_nodes (projectWorkflowWithBlocks keep_order demo_nodes demo_edges None Map.empty Map.empty [])))"
proof -
  let ?P = "projectWorkflowWithBlocks keep_order demo_nodes demo_edges None Map.empty Map.empty []"
  have "map bn_id (pj_nodes ?P) = map bn_id (free_nodes demo_nodes) @ map (getSyntheticBlockNodeId \<circ> fst) (pj_instances ?P) \<and>
      distinct (map bn_id (pj_nodes ?P))"
    using projection_partitions [OF blocks_demo_wf(1,2,4) refl, of keep_order Map.empty Map.empty "[]"] by blast
  moreover have "map fst (pj_instances ?P) = [''b'']"
    by (simp add: projectWorkflowWithBlocks_def Let_def instance_keys)
      (simp add: block_ids_def blocks_demo_defs block_of_def getBlockMetadata_def List.map_filter_def)
  moreover have "map bn_id (free_nodes demo_nodes) = [''n3'']"
    by (simp add: free_nodes_def blocks_demo_defs block_of_def getBlockMetadata_def)
  ultimately show ?thesis
    by (simp add: getSyntheticBlockNodeId_def FLUXERY_BLOCK_NODE_TYPE_def flip: map_map)
qed

definition demo_layout :: "block_node list" where
  "demo_layout = [plain_node ''n3'' None (0, 0), plain_node (getSyntheticBlockNodeId ''b'') None (10, 20)]"


definition demo_selection :: "block_node list" where
  "demo_selection = [plain_node ''n1'' None (1, 5), plain_node ''n2'' None (4, 2)]"

theorem template_instance_copies_witness:
  "\<exists>t f es ns. buildBlockTemplateFromSelection demo_selection demo_edges [''n1'', ''n2''] ''Pair'' = Some t \<and>
     instantiateBlockTemplate (\<lambda>k. replicate k CHR ''u'') ''b'' (10, 10) t = Inr (es, ns) \<and>
     map bn_id ns = [f ''n1'', f ''n2''] \<and>
     map connection_of es = [rename_connection f (connection_of (plain_edge ''e2'' ''n1'' (Handle ''out'') ''n2''))] \<and>
     map bn_position ns = [(10, 13), (13, 10)]"
proof -
  have sel: "selection demo_selection [''n1'', ''n2''] = demo_selection"
    by (simp add: selection_def demo_selection_def plain_node_def)
  have inner: "inner_edges demo_edges [''n1'', ''n2''] = [plain_edge ''e2'' ''n1'' (Handle ''out'') ''n2'']"
    by (simp add: inner_edges_def demo_edges_def plain_edge_def)
  have "\<exists>t. buildBlockTemplateFromSelection demo_selection demo_edges [''n1'', ''n2''] ''Pair'' = Some t"
    by (simp add: buildBlockTemplateFromSelection_def demo_selection_def plain_node_def getBlockMetadata_def Let_def)
  then obtain t where t: "buildBlockTemplateFromSelection demo_selection demo_edges [''n1'', ''n2''] ''Pair'' = Some t" ..
  have uuid: "inj (\<lambda>k. replicate k CHR ''u'')" by (rule injI) (metis length_replicate)
  have wf: "distinct (map bn_id demo_selection)" "set [''n1'', ''n2''] \<subseteq> bn_id ` set demo_selection" "''b'' \<noteq> []"
    by (simp_all add: demo_selection_def plain_node_def)
  obtain f es ns a where i:
    "instantiateBlockTemplate (\<lambda>k. replicate k CHR ''u'') ''b'' (10, 10) t = Inr (es, ns)"
    "map bn_id ns = map (\<lambda>n. f (bn_id n)) demo_selection"
    "map connection_of es = map (\<lambda>e. rename_connection f (connection_of e)) [plain_edge ''e2'' ''n1'' (Handle ''out'') ''n2'']"
    "getBlockAnchorPosition demo_selection = Some a"
    "map bn_position ns = map (\<lambda>n. (10 + (fst (bn_position n) - fst a), 10 + (snd (bn_position n) - snd a))) demo_selection"
    using template_instance_copies [OF t wf(1,2) uuid wf(3), where pos = "(10, 10)"]
    unfolding sel inner fst_conv snd_conv by blast
  have "a = (1, 2)"
    using i(4) by (simp add: demo_selection_def plain_node_def getBlockAnchorPosition_def min_point_def)
  then show ?thesis
    using t i by (intro exI [of _ t] exI [of _ f] exI [of _ es] exI [of _ ns]) (simp add: demo_selection_def plain_node_def)
qed

end
