(* ===== verification/Authz_Names.thy ===== *)
theory Authz_Names
  imports Js_String
begin

text \<open>
  The vocabulary of the authorization service
  (\<open>packages/core/trakrai-backend/src/lib/authz/constants.ts\<close>): object types, relations, tuple keys
  and the names of objects and users, with their parsers.
\<close>

section \<open>Types, relations and tuple keys\<close>

datatype authz_type = Department | Device | DeviceComponent | Factory

definition AUTHZ_TYPE_USER :: string where "AUTHZ_TYPE_USER = ''user''"

fun type_name :: "authz_type \<Rightarrow> string" where
  "type_name Department = ''department''"
| "type_name Device = ''device''"
| "type_name DeviceComponent = ''device_component''"
| "type_name Factory = ''factory''"

datatype authz_relation =
    Admin | CanNavigate | CanManageUsers | CanRead | CanWrite | Child | Parent | Reader | Viewer | Writer

fun relation_name :: "authz_relation \<Rightarrow> string" where
  "relation_name Admin = ''admin''"
| "relation_name CanNavigate = ''can_navigate''"
| "relation_name CanManageUsers = ''can_manage_users''"
| "relation_name CanRead = ''can_read''"
| "relation_name CanWrite = ''can_write''"
| "relation_name Child = ''child''"
| "relation_name Parent = ''parent''"
| "relation_name Reader = ''reader''"
| "relation_name Viewer = ''viewer''"
| "relation_name Writer = ''writer''"

record tuple_key =
  tk_user :: string
  tk_relation :: string
  tk_object :: string

definition tuple_of :: "string \<Rightarrow> string \<Rightarrow> string \<Rightarrow> tuple_key" where
  "tuple_of u r ob = \<lparr>tk_user = u, tk_relation = r, tk_object = ob\<rparr>"

lemma tuple_of_simps [simp]:
  "tk_user (tuple_of u r ob) = u" "tk_relation (tuple_of u r ob) = r" "tk_object (tuple_of u r ob) = ob"
  "tuple_of u r ob = tuple_of u' r' ob' \<longleftrightarrow> u = u' \<and> r = r' \<and> ob = ob'"
  by (auto simp: tuple_of_def)

lemma tuple_of_eta: "tuple_of (tk_user t) (tk_relation t) (tk_object t) = t"
  by (simp add: tuple_of_def)

lemma tuple_of_eqI: "tk_user t = u \<Longrightarrow> tk_relation t = r \<Longrightarrow> tk_object t = ob \<Longrightarrow> t = tuple_of u r ob"
  by (simp add: tuple_of_def)

lemma type_name_inj [simp]: "type_name s = type_name t \<longleftrightarrow> s = t"
  by (cases s; cases t) auto

lemma relation_name_inj [simp]: "relation_name s = relation_name t \<longleftrightarrow> s = t"
  by (cases s; cases t) auto

section \<open>Roles\<close>

definition splitRoleList :: "string option \<Rightarrow> string list" where
  "splitRoleList v = filter (\<lambda>c. c \<noteq> []) (map trim (js_split '','' (case v of None \<Rightarrow> [] | Some s \<Rightarrow> s)))"

definition isSysAdminRole :: "string option \<Rightarrow> bool" where
  "isSysAdminRole v \<longleftrightarrow> ''admin'' \<in> set (splitRoleList v)"

section \<open>Names of objects and users\<close>

definition createAuthzObject :: "authz_type \<Rightarrow> string \<Rightarrow> string" where
  "createAuthzObject t i = type_name t @ '':'' @ i"

definition createAuthzUser :: "string \<Rightarrow> string" where
  "createAuthzUser userId = AUTHZ_TYPE_USER @ '':'' @ userId"

definition createTupleKeyId :: "tuple_key \<Rightarrow> string" where
  "createTupleKeyId k = tk_user k @ ''|'' @ tk_relation k @ ''|'' @ tk_object k"

definition sortTupleKeys :: "(string \<Rightarrow> string \<Rightarrow> bool) \<Rightarrow> tuple_key list \<Rightarrow> tuple_key list" where
  "sortTupleKeys le ks = sort_by le createTupleKeyId ks"

definition type_of_name :: "string \<Rightarrow> authz_type option" where
  "type_of_name s = find (\<lambda>t. type_name t = s) [Factory, Department, Device, DeviceComponent]"

definition parseAuthzObject :: "string \<Rightarrow> (authz_type \<times> string) option" where
  "parseAuthzObject v =
     (case cut_first '':'' v of
        None \<Rightarrow> None
      | Some (t, rest) \<Rightarrow>
          if t = [] \<or> rest = [] then None
          else if trim rest = [] then None
          else map_option (\<lambda>ty. (ty, trim rest)) (type_of_name t))"

definition parseAuthzUserId :: "string \<Rightarrow> string option" where
  "parseAuthzUserId v =
     (if \<not> starts_with (AUTHZ_TYPE_USER @ '':'') v then None
      else let userId = trim (drop (length (AUTHZ_TYPE_USER @ '':'')) v) in if userId = [] then None else Some userId)"

section \<open>Laws\<close>

lemma set_sortTupleKeys [simp]: "set (sortTupleKeys le ks) = set ks"
  by (simp add: sortTupleKeys_def)

lemma type_of_name [simp]: "type_of_name (type_name t) = Some t"
  by (cases t) (simp_all add: type_of_name_def)

lemma type_name_no_colon: "CHR '':'' \<notin> set (type_name t)" "type_name t \<noteq> []"
  by (cases t; simp)+

lemma cut_first_object: "cut_first '':'' (createAuthzObject t i) = Some (type_name t, i)"
  using cut_first_char [OF type_name_no_colon(1)] by (simp add: createAuthzObject_def)

lemma parse_object: "parseAuthzObject (createAuthzObject t i) = (if trim i = [] then None else Some (t, trim i))"
  by (auto simp: parseAuthzObject_def cut_first_object type_name_no_colon(2))

lemma parse_object_Some:
  assumes "parseAuthzObject v = Some (t, i)"
  shows "\<exists>j. v = createAuthzObject t j \<and> trim j = i \<and> i \<noteq> []"
proof -
  obtain a rest where cut: "cut_first '':'' v = Some (a, rest)" and ty: "type_of_name a = Some t" and i: "trim rest = i" "i \<noteq> []"
    using assms by (auto simp: parseAuthzObject_def split: option.splits if_splits)
  have "a = type_name t" using ty by (auto simp: type_of_name_def split: if_splits)
  then show ?thesis using cut_first_append [OF cut] i by (auto simp: createAuthzObject_def)
qed

lemma parse_user: "parseAuthzUserId (createAuthzUser u) = (if trim u = [] then None else Some (trim u))"
  by (simp add: parseAuthzUserId_def createAuthzUser_def AUTHZ_TYPE_USER_def starts_with_def)

lemma createAuthzObject_inj [simp]: "createAuthzObject t i = createAuthzObject t' i' \<longleftrightarrow> t = t' \<and> i = i'"
proof
  assume "createAuthzObject t i = createAuthzObject t' i'"
  then have "Some (type_name t, i) = Some (type_name t', i')" by (metis cut_first_object)
  then show "t = t' \<and> i = i'" by simp
qed simp

lemma createAuthzUser_inj [simp]: "createAuthzUser u = createAuthzUser v \<longleftrightarrow> u = v"
  by (simp add: createAuthzUser_def)

lemma cut_first_user: "cut_first '':'' (createAuthzUser u) = Some (''user'', u)"
  using cut_first_char [of "CHR '':''" "''user''"] by (simp add: createAuthzUser_def AUTHZ_TYPE_USER_def)

lemma user_no_object [simp]: "createAuthzUser u \<noteq> createAuthzObject t i" "createAuthzObject t i \<noteq> createAuthzUser u"
proof -
  have "type_name t \<noteq> ''user''" by (cases t) simp_all
  then have "cut_first '':'' (createAuthzUser u) \<noteq> cut_first '':'' (createAuthzObject t i)"
    by (simp only: cut_first_user cut_first_object) auto
  then show "createAuthzUser u \<noteq> createAuthzObject t i" "createAuthzObject t i \<noteq> createAuthzUser u" by metis+
qed

end
