(* ===== verification/Authz_Model.thy ===== *)
theory Authz_Model
  imports Authz_Names
begin

text \<open>
  The authorization model the backend writes to OpenFGA (\<open>authz/model.ts\<close>), and what it means.
  The model is data: for every object type its relations, each with a rewrite rule. \<open>allows\<close> is the
  meaning OpenFGA documents for such rules: a relation holds by a stored tuple, through another
  relation of the object, or through a relation of an object that a tuple links to it.
\<close>

section \<open>The model\<close>

datatype userset = This | Computed string | TupleTo string string | Union "userset list"

record type_definition =
  td_type :: string
  td_relations :: "(string \<times> userset) list"
  td_direct :: "(string \<times> (string \<times> string option) list) list"

definition createDirectUserset :: userset where "createDirectUserset = This"

definition createComputedUserset :: "string \<Rightarrow> userset" where "createComputedUserset r = Computed r"

definition createParentUserset :: "string \<Rightarrow> userset" where "createParentUserset r = TupleTo ''parent'' r"

definition createChildUserset :: "string \<Rightarrow> userset" where "createChildUserset r = TupleTo ''child'' r"

definition createUnionUserset :: "userset list \<Rightarrow> userset" where "createUnionUserset us = Union us"

definition directRelationMetadata :: "string \<Rightarrow> string option \<Rightarrow> string \<times> string option" where
  "directRelationMetadata t r = (t, r)"

definition createTypeDefinitions :: "type_definition list" where
  "createTypeDefinitions =
     [\<lparr>td_type = AUTHZ_TYPE_USER, td_relations = [], td_direct = []\<rparr>,
      \<lparr>td_type = type_name Factory,
       td_relations =
         [(''admin'', createDirectUserset),
          (''can_navigate'', createUnionUserset [createComputedUserset ''can_read'', createChildUserset ''can_navigate'']),
          (''can_manage_users'', createComputedUserset ''admin''),
          (''can_read'', createComputedUserset ''viewer''),
          (''child'', createDirectUserset),
          (''viewer'', createUnionUserset [createDirectUserset, createComputedUserset ''admin''])],
       td_direct =
         [(''admin'', [directRelationMetadata AUTHZ_TYPE_USER None]),
          (''child'', [directRelationMetadata (type_name Department) None]),
          (''viewer'', [directRelationMetadata AUTHZ_TYPE_USER None])]\<rparr>,
      \<lparr>td_type = type_name Department,
       td_relations =
         [(''admin'', createUnionUserset [createDirectUserset, createParentUserset ''admin'']),
          (''can_navigate'', createUnionUserset [createComputedUserset ''can_read'', createChildUserset ''can_navigate'']),
          (''can_manage_users'', createComputedUserset ''admin''),
          (''can_read'', createComputedUserset ''viewer''),
          (''child'', createDirectUserset),
          (''parent'', createDirectUserset),
          (''viewer'', createUnionUserset [createDirectUserset, createComputedUserset ''admin'', createParentUserset ''viewer''])],
       td_direct =
         [(''admin'', [directRelationMetadata AUTHZ_TYPE_USER None]),
          (''child'', [directRelationMetadata (type_name Device) None]),
          (''parent'', [directRelationMetadata (type_name Factory) None]),
          (''viewer'', [directRelationMetadata AUTHZ_TYPE_USER None])]\<rparr>,
      \<lparr>td_type = type_name Device,
       td_relations =
         [(''admin'', createParentUserset ''admin''),
          (''can_navigate'', createUnionUserset [createComputedUserset ''can_read'', createChildUserset ''can_navigate'']),
          (''can_manage_users'', createComputedUserset ''admin''),
          (''can_read'', createComputedUserset ''viewer''),
          (''child'', createDirectUserset),
          (''parent'', createDirectUserset),
          (''viewer'', createUnionUserset [createDirectUserset, createComputedUserset ''admin'', createParentUserset ''viewer''])],
       td_direct =
         [(''child'', [directRelationMetadata (type_name DeviceComponent) None]),
          (''parent'', [directRelationMetadata (type_name Department) None]),
          (''viewer'', [directRelationMetadata AUTHZ_TYPE_USER None])]\<rparr>,
      \<lparr>td_type = type_name DeviceComponent,
       td_relations =
         [(''can_navigate'', createComputedUserset ''can_read''),
          (''can_manage_users'', createParentUserset ''admin''),
          (''can_read'', createComputedUserset ''reader''),
          (''can_write'', createComputedUserset ''writer''),
          (''parent'', createDirectUserset),
          (''reader'', createUnionUserset [createDirectUserset, createComputedUserset ''writer'', createParentUserset ''viewer'']),
          (''writer'', createDirectUserset)],
       td_direct =
         [(''parent'', [directRelationMetadata (type_name Device) None]),
          (''reader'', [directRelationMetadata AUTHZ_TYPE_USER None]),
          (''writer'', [directRelationMetadata AUTHZ_TYPE_USER None])]\<rparr>]"

record authorization_model =
  am_schema_version :: string
  am_type_definitions :: "type_definition list"

definition AUTHORIZATION_MODEL :: authorization_model where
  "AUTHORIZATION_MODEL = \<lparr>am_schema_version = ''1.1'', am_type_definitions = createTypeDefinitions\<rparr>"

section \<open>What a model means\<close>

definition object_type :: "string \<Rightarrow> string" where
  "object_type ob = (case cut_first '':'' ob of None \<Rightarrow> [] | Some (t, _) \<Rightarrow> t)"

definition type_def :: "authorization_model \<Rightarrow> string \<Rightarrow> type_definition option" where
  "type_def m t = find (\<lambda>d. td_type d = t) (am_type_definitions m)"

primrec userset_leaves :: "userset \<Rightarrow> userset list" where
  "userset_leaves This = [This]"
| "userset_leaves (Computed r) = [Computed r]"
| "userset_leaves (TupleTo ts r) = [TupleTo ts r]"
| "userset_leaves (Union us) = concat (map userset_leaves us)"

definition rewrite_rules :: "authorization_model \<Rightarrow> string \<Rightarrow> string \<Rightarrow> userset list" where
  "rewrite_rules m t r =
     (case type_def m t of
        None \<Rightarrow> []
      | Some d \<Rightarrow> (case map_of (td_relations d) r of None \<Rightarrow> [] | Some us \<Rightarrow> userset_leaves us))"

inductive allows :: "authorization_model \<Rightarrow> tuple_key set \<Rightarrow> string \<Rightarrow> string \<Rightarrow> string \<Rightarrow> bool" for m T u where
  direct: "This \<in> set (rewrite_rules m (object_type ob) r) \<Longrightarrow> tuple_of u r ob \<in> T \<Longrightarrow> allows m T u r ob"
| computed: "Computed r' \<in> set (rewrite_rules m (object_type ob) r) \<Longrightarrow> allows m T u r' ob \<Longrightarrow> allows m T u r ob"
| linked: "TupleTo ts r' \<in> set (rewrite_rules m (object_type ob) r) \<Longrightarrow> tuple_of ob' ts ob \<in> T \<Longrightarrow> allows m T u r' ob' \<Longrightarrow>
    allows m T u r ob"

inductive_simps allows_iff: "allows m T u r ob"

text \<open>OpenFGA stores a tuple only when the model lists the type of its user for the relation.\<close>

definition well_typed :: "authorization_model \<Rightarrow> tuple_key set \<Rightarrow> bool" where
  "well_typed m T \<longleftrightarrow> (\<forall>k \<in> T. \<exists>d types. type_def m (object_type (tk_object k)) = Some d \<and>
     map_of (td_direct d) (tk_relation k) = Some types \<and> (object_type (tk_user k), None) \<in> set types)"

lemma object_type_simps [simp]:
  "object_type (createAuthzObject t i) = type_name t" "object_type (createAuthzUser uid) = ''user''"
  by (simp_all add: object_type_def cut_first_object cut_first_user)

lemmas model_defs =
  AUTHORIZATION_MODEL_def createTypeDefinitions_def createDirectUserset_def createComputedUserset_def
  createParentUserset_def createChildUserset_def createUnionUserset_def directRelationMetadata_def AUTHZ_TYPE_USER_def

text \<open>The rewrite rules, type by type.\<close>

lemma type_def_model:
  "type_def AUTHORIZATION_MODEL ''user'' = Some (createTypeDefinitions ! 0)"
  "type_def AUTHORIZATION_MODEL ''factory'' = Some (createTypeDefinitions ! 1)"
  "type_def AUTHORIZATION_MODEL ''department'' = Some (createTypeDefinitions ! 2)"
  "type_def AUTHORIZATION_MODEL ''device'' = Some (createTypeDefinitions ! 3)"
  "type_def AUTHORIZATION_MODEL ''device_component'' = Some (createTypeDefinitions ! 4)"
  by (simp_all add: type_def_def model_defs)

lemma rules_model [simp]:
  "rewrite_rules AUTHORIZATION_MODEL ''factory'' ''admin'' = [This]"
  "rewrite_rules AUTHORIZATION_MODEL ''factory'' ''viewer'' = [This, Computed ''admin'']"
  "rewrite_rules AUTHORIZATION_MODEL ''factory'' ''can_read'' = [Computed ''viewer'']"
  "rewrite_rules AUTHORIZATION_MODEL ''factory'' ''can_manage_users'' = [Computed ''admin'']"
  "rewrite_rules AUTHORIZATION_MODEL ''factory'' ''can_navigate'' = [Computed ''can_read'', TupleTo ''child'' ''can_navigate'']"
  "rewrite_rules AUTHORIZATION_MODEL ''department'' ''admin'' = [This, TupleTo ''parent'' ''admin'']"
  "rewrite_rules AUTHORIZATION_MODEL ''department'' ''viewer'' = [This, Computed ''admin'', TupleTo ''parent'' ''viewer'']"
  "rewrite_rules AUTHORIZATION_MODEL ''department'' ''can_read'' = [Computed ''viewer'']"
  "rewrite_rules AUTHORIZATION_MODEL ''department'' ''can_manage_users'' = [Computed ''admin'']"
  "rewrite_rules AUTHORIZATION_MODEL ''department'' ''can_navigate'' = [Computed ''can_read'', TupleTo ''child'' ''can_navigate'']"
  "rewrite_rules AUTHORIZATION_MODEL ''device'' ''admin'' = [TupleTo ''parent'' ''admin'']"
  "rewrite_rules AUTHORIZATION_MODEL ''device'' ''viewer'' = [This, Computed ''admin'', TupleTo ''parent'' ''viewer'']"
  "rewrite_rules AUTHORIZATION_MODEL ''device'' ''can_read'' = [Computed ''viewer'']"
  "rewrite_rules AUTHORIZATION_MODEL ''device'' ''can_manage_users'' = [Computed ''admin'']"
  "rewrite_rules AUTHORIZATION_MODEL ''device'' ''can_navigate'' = [Computed ''can_read'', TupleTo ''child'' ''can_navigate'']"
  "rewrite_rules AUTHORIZATION_MODEL ''device_component'' ''can_navigate'' = [Computed ''can_read'']"
  "rewrite_rules AUTHORIZATION_MODEL ''device_component'' ''can_manage_users'' = [TupleTo ''parent'' ''admin'']"
  "rewrite_rules AUTHORIZATION_MODEL ''device_component'' ''can_read'' = [Computed ''reader'']"
  "rewrite_rules AUTHORIZATION_MODEL ''device_component'' ''can_write'' = [Computed ''writer'']"
  "rewrite_rules AUTHORIZATION_MODEL ''device_component'' ''reader'' = [This, Computed ''writer'', TupleTo ''parent'' ''viewer'']"
  "rewrite_rules AUTHORIZATION_MODEL ''device_component'' ''writer'' = [This]"
  by (simp_all add: rewrite_rules_def type_def_model) (simp_all add: model_defs)

text \<open>In a well-typed store the links between objects go one level up or down.\<close>

lemma well_typed_links:
  assumes "well_typed AUTHORIZATION_MODEL T" "tuple_of ob' r ob \<in> T"
  shows "object_type ob = ''device_component'' \<Longrightarrow> r = ''parent'' \<Longrightarrow> object_type ob' = ''device''"
    and "object_type ob = ''device'' \<Longrightarrow> r = ''parent'' \<Longrightarrow> object_type ob' = ''department''"
    and "object_type ob = ''department'' \<Longrightarrow> r = ''parent'' \<Longrightarrow> object_type ob' = ''factory''"
    and "object_type ob = ''factory'' \<Longrightarrow> r = ''child'' \<Longrightarrow> object_type ob' = ''department''"
    and "object_type ob = ''department'' \<Longrightarrow> r = ''child'' \<Longrightarrow> object_type ob' = ''device''"
    and "object_type ob = ''device'' \<Longrightarrow> r = ''child'' \<Longrightarrow> object_type ob' = ''device_component''"
proof -
  have typed: "\<exists>d types. type_def AUTHORIZATION_MODEL (object_type ob) = Some d \<and> map_of (td_direct d) r = Some types \<and>
      (object_type ob', None) \<in> set types"
    using assms by (auto simp: well_typed_def dest!: bspec)
  show "object_type ob = ''device_component'' \<Longrightarrow> r = ''parent'' \<Longrightarrow> object_type ob' = ''device''"
    and "object_type ob = ''device'' \<Longrightarrow> r = ''parent'' \<Longrightarrow> object_type ob' = ''department''"
    and "object_type ob = ''department'' \<Longrightarrow> r = ''parent'' \<Longrightarrow> object_type ob' = ''factory''"
    and "object_type ob = ''factory'' \<Longrightarrow> r = ''child'' \<Longrightarrow> object_type ob' = ''department''"
    and "object_type ob = ''department'' \<Longrightarrow> r = ''child'' \<Longrightarrow> object_type ob' = ''device''"
    and "object_type ob = ''device'' \<Longrightarrow> r = ''child'' \<Longrightarrow> object_type ob' = ''device_component''"
    using typed by (simp_all add: type_def_model) (simp_all add: model_defs)
qed


section \<open>Who is allowed what\<close>

definition granted :: "tuple_key set \<Rightarrow> string \<Rightarrow> string list \<Rightarrow> string \<Rightarrow> bool" where
  "granted T u roles ob \<longleftrightarrow> (\<exists>r \<in> set roles. tuple_of u r ob \<in> T)"

definition parent_in :: "tuple_key set \<Rightarrow> string \<Rightarrow> string \<Rightarrow> bool" where
  "parent_in T ob p \<longleftrightarrow> tuple_of p ''parent'' ob \<in> T"

definition child_in :: "tuple_key set \<Rightarrow> string \<Rightarrow> string \<Rightarrow> bool" where
  "child_in T ob c \<longleftrightarrow> tuple_of c ''child'' ob \<in> T"

text \<open>The rules of one object type, read off the model.\<close>

lemma factory_rules:
  assumes "object_type f = ''factory''"
  shows "allows AUTHORIZATION_MODEL T u ''admin'' f \<longleftrightarrow> granted T u [''admin''] f"
    and "allows AUTHORIZATION_MODEL T u ''viewer'' f \<longleftrightarrow> granted T u [''viewer'', ''admin''] f"
proof -
  show admin: "allows AUTHORIZATION_MODEL T u ''admin'' f \<longleftrightarrow> granted T u [''admin''] f"
    by (subst allows_iff) (simp add: assms granted_def)
  show "allows AUTHORIZATION_MODEL T u ''viewer'' f \<longleftrightarrow> granted T u [''viewer'', ''admin''] f"
    by (subst allows_iff) (simp add: assms admin, simp add: granted_def)
qed

lemma department_rules:
  assumes "object_type d = ''department''"
  shows "allows AUTHORIZATION_MODEL T u ''admin'' d \<longleftrightarrow>
      granted T u [''admin''] d \<or> (\<exists>p. parent_in T d p \<and> allows AUTHORIZATION_MODEL T u ''admin'' p)"
    and "allows AUTHORIZATION_MODEL T u ''viewer'' d \<longleftrightarrow> granted T u [''viewer''] d \<or>
      allows AUTHORIZATION_MODEL T u ''admin'' d \<or> (\<exists>p. parent_in T d p \<and> allows AUTHORIZATION_MODEL T u ''viewer'' p)"
  by (subst allows_iff, simp add: assms granted_def parent_in_def)+

lemma device_rules:
  assumes "object_type v = ''device''"
  shows "allows AUTHORIZATION_MODEL T u ''admin'' v \<longleftrightarrow> (\<exists>p. parent_in T v p \<and> allows AUTHORIZATION_MODEL T u ''admin'' p)"
    and "allows AUTHORIZATION_MODEL T u ''viewer'' v \<longleftrightarrow> granted T u [''viewer''] v \<or>
      allows AUTHORIZATION_MODEL T u ''admin'' v \<or> (\<exists>p. parent_in T v p \<and> allows AUTHORIZATION_MODEL T u ''viewer'' p)"
    and "allows AUTHORIZATION_MODEL T u ''can_read'' v \<longleftrightarrow> allows AUTHORIZATION_MODEL T u ''viewer'' v"
  by (subst allows_iff, simp add: assms granted_def parent_in_def)+

lemma component_rules:
  assumes "object_type c = ''device_component''"
  shows "allows AUTHORIZATION_MODEL T u ''can_write'' c \<longleftrightarrow> granted T u [''writer''] c"
    and "allows AUTHORIZATION_MODEL T u ''can_read'' c \<longleftrightarrow> granted T u [''reader'', ''writer''] c \<or>
      (\<exists>p. parent_in T c p \<and> allows AUTHORIZATION_MODEL T u ''viewer'' p)"
    and "allows AUTHORIZATION_MODEL T u ''can_manage_users'' c \<longleftrightarrow> (\<exists>p. parent_in T c p \<and> allows AUTHORIZATION_MODEL T u ''admin'' p)"
proof -
  have writer: "allows AUTHORIZATION_MODEL T u ''writer'' c \<longleftrightarrow> granted T u [''writer''] c"
    by (subst allows_iff) (simp add: assms granted_def)
  have reader: "allows AUTHORIZATION_MODEL T u ''reader'' c \<longleftrightarrow> granted T u [''reader'', ''writer''] c \<or>
      (\<exists>p. parent_in T c p \<and> allows AUTHORIZATION_MODEL T u ''viewer'' p)"
    by (subst allows_iff) (simp add: assms writer, simp add: granted_def parent_in_def)
  show "allows AUTHORIZATION_MODEL T u ''can_write'' c \<longleftrightarrow> granted T u [''writer''] c"
    by (subst allows_iff) (simp add: assms writer)
  show "allows AUTHORIZATION_MODEL T u ''can_read'' c \<longleftrightarrow> granted T u [''reader'', ''writer''] c \<or>
      (\<exists>p. parent_in T c p \<and> allows AUTHORIZATION_MODEL T u ''viewer'' p)"
    by (subst allows_iff) (simp add: assms reader)
  show "allows AUTHORIZATION_MODEL T u ''can_manage_users'' c \<longleftrightarrow> (\<exists>p. parent_in T c p \<and> allows AUTHORIZATION_MODEL T u ''admin'' p)"
    by (subst allows_iff) (simp add: assms parent_in_def)
qed

text \<open>The grants of the hierarchy above a device, written without the model.\<close>

definition department_grant :: "tuple_key set \<Rightarrow> string \<Rightarrow> string list \<Rightarrow> string \<Rightarrow> bool" where
  "department_grant T u roles d \<longleftrightarrow> granted T u roles d \<or> (\<exists>f. parent_in T d f \<and> granted T u roles f)"

definition device_admin :: "tuple_key set \<Rightarrow> string \<Rightarrow> string \<Rightarrow> bool" where
  "device_admin T u v \<longleftrightarrow> (\<exists>d. parent_in T v d \<and> department_grant T u [''admin''] d)"

definition device_viewer :: "tuple_key set \<Rightarrow> string \<Rightarrow> string \<Rightarrow> bool" where
  "device_viewer T u v \<longleftrightarrow> granted T u [''viewer''] v \<or> (\<exists>d. parent_in T v d \<and> department_grant T u [''viewer'', ''admin''] d)"

lemma granted_Cons: "granted T u (r # rs) ob \<longleftrightarrow> tuple_of u r ob \<in> T \<or> granted T u rs ob"
  by (simp add: granted_def)

lemma department_closed:
  assumes typed: "well_typed AUTHORIZATION_MODEL T" and d: "object_type d = ''department''"
  shows "allows AUTHORIZATION_MODEL T u ''admin'' d \<longleftrightarrow> department_grant T u [''admin''] d"
    and "allows AUTHORIZATION_MODEL T u ''viewer'' d \<longleftrightarrow> department_grant T u [''viewer'', ''admin''] d"
proof -
  have fac: "object_type p = ''factory''" if "parent_in T d p" for p
    using well_typed_links(3) [OF typed, of p "''parent''" d] that d by (simp add: parent_in_def)
  show admin: "allows AUTHORIZATION_MODEL T u ''admin'' d \<longleftrightarrow> department_grant T u [''admin''] d"
    using fac by (auto simp: department_rules(1) [OF d] department_grant_def factory_rules)
  show "allows AUTHORIZATION_MODEL T u ''viewer'' d \<longleftrightarrow> department_grant T u [''viewer'', ''admin''] d"
    using fac by (auto simp: department_rules(2) [OF d] admin department_grant_def factory_rules granted_Cons)
qed

lemma device_closed:
  assumes typed: "well_typed AUTHORIZATION_MODEL T" and v: "object_type v = ''device''"
  shows "allows AUTHORIZATION_MODEL T u ''admin'' v \<longleftrightarrow> device_admin T u v"
    and "allows AUTHORIZATION_MODEL T u ''viewer'' v \<longleftrightarrow> device_viewer T u v"
proof -
  have dep: "object_type p = ''department''" if "parent_in T v p" for p
    using well_typed_links(2) [OF typed, of p "''parent''" v] that v by (simp add: parent_in_def)
  show admin: "allows AUTHORIZATION_MODEL T u ''admin'' v \<longleftrightarrow> device_admin T u v"
    using dep by (auto simp: device_rules(1) [OF v] device_admin_def department_closed [OF typed])
  have "device_admin T u v \<Longrightarrow> device_viewer T u v"
    by (auto simp: device_admin_def device_viewer_def department_grant_def granted_Cons)
  then show "allows AUTHORIZATION_MODEL T u ''viewer'' v \<longleftrightarrow> device_viewer T u v"
    using dep by (auto simp: device_rules(2) [OF v] admin device_viewer_def department_closed [OF typed])
qed

lemma component_closed:
  assumes typed: "well_typed AUTHORIZATION_MODEL T" and c: "object_type c = ''device_component''"
  shows "allows AUTHORIZATION_MODEL T u ''can_read'' c \<longleftrightarrow> granted T u [''reader'', ''writer''] c \<or> (\<exists>v. parent_in T c v \<and> device_viewer T u v)"
    and "allows AUTHORIZATION_MODEL T u ''can_manage_users'' c \<longleftrightarrow> (\<exists>v. parent_in T c v \<and> device_admin T u v)"
proof -
  have dev: "object_type p = ''device''" if "parent_in T c p" for p
    using well_typed_links(1) [OF typed, of p "''parent''" c] that c by (simp add: parent_in_def)
  show "allows AUTHORIZATION_MODEL T u ''can_read'' c \<longleftrightarrow> granted T u [''reader'', ''writer''] c \<or> (\<exists>v. parent_in T c v \<and> device_viewer T u v)"
    using dev by (auto simp: component_rules(2) [OF c] device_closed [OF typed])
  show "allows AUTHORIZATION_MODEL T u ''can_manage_users'' c \<longleftrightarrow> (\<exists>v. parent_in T c v \<and> device_admin T u v)"
    using dev by (auto simp: component_rules(3) [OF c] device_closed [OF typed])
qed

section \<open>Navigation\<close>

text \<open>Every link is stored from both ends.\<close>

definition mirrored :: "tuple_key set \<Rightarrow> bool" where
  "mirrored T \<longleftrightarrow> (\<forall>ob p. parent_in T ob p \<longleftrightarrow> child_in T p ob)"

lemma navigate_child:
  assumes "object_type p \<in> {''factory'', ''department'', ''device''}" "child_in T p c" "allows AUTHORIZATION_MODEL T u ''can_navigate'' c"
  shows "allows AUTHORIZATION_MODEL T u ''can_navigate'' p"
proof -
  have "TupleTo ''child'' ''can_navigate'' \<in> set (rewrite_rules AUTHORIZATION_MODEL (object_type p) ''can_navigate'')"
    using assms(1) by auto
  then show ?thesis using assms(2,3) by (auto intro: linked simp: child_in_def)
qed

lemma navigate_read:
  assumes "object_type ob \<in> {''factory'', ''department'', ''device'', ''device_component''}" "allows AUTHORIZATION_MODEL T u ''can_read'' ob"
  shows "allows AUTHORIZATION_MODEL T u ''can_navigate'' ob"
proof -
  have "Computed ''can_read'' \<in> set (rewrite_rules AUTHORIZATION_MODEL (object_type ob) ''can_navigate'')" using assms(1) by auto
  then show ?thesis using assms(2) by (rule computed)
qed

lemma component_navigate:
  "object_type c = ''device_component'' \<Longrightarrow>
     allows AUTHORIZATION_MODEL T u ''can_navigate'' c \<longleftrightarrow> allows AUTHORIZATION_MODEL T u ''can_read'' c"
  by (subst allows_iff) simp

lemma device_navigate:
  assumes "well_typed AUTHORIZATION_MODEL T" "object_type v = ''device''"
  shows "allows AUTHORIZATION_MODEL T u ''can_navigate'' v \<longleftrightarrow> allows AUTHORIZATION_MODEL T u ''can_read'' v \<or>
    (\<exists>c. child_in T v c \<and> allows AUTHORIZATION_MODEL T u ''can_read'' c)"
proof -
  have "object_type c = ''device_component''" if "child_in T v c" for c
    using well_typed_links(6) [OF assms(1), of c "''child''" v] that assms(2) by (simp add: child_in_def)
  then show ?thesis
    by (subst allows_iff) (auto simp: assms(2) child_in_def component_navigate)
qed

section \<open>Properties\<close>

text \<open>
  C6. What the authorization model grants. For every well-typed tuple store: writing to a device
  component needs a direct writer grant on that component, no role higher up gives it; reading it
  needs a direct grant or the right to view its device; viewing a device needs a viewer grant on
  it, or a viewer or admin grant on its department or factory; managing users needs an admin grant
  on the department or factory above.
\<close>

theorem authorization_closed_form:
  assumes "well_typed AUTHORIZATION_MODEL T"
  shows "(allows AUTHORIZATION_MODEL T u ''can_write'' (createAuthzObject DeviceComponent c) \<longleftrightarrow>
       granted T u [''writer''] (createAuthzObject DeviceComponent c)) \<and>
    (allows AUTHORIZATION_MODEL T u ''can_read'' (createAuthzObject DeviceComponent c) \<longleftrightarrow>
       granted T u [''reader'', ''writer''] (createAuthzObject DeviceComponent c) \<or>
       (\<exists>v. parent_in T (createAuthzObject DeviceComponent c) v \<and> device_viewer T u v)) \<and>
    (allows AUTHORIZATION_MODEL T u ''can_read'' (createAuthzObject Device v) \<longleftrightarrow> device_viewer T u (createAuthzObject Device v)) \<and>
    (allows AUTHORIZATION_MODEL T u ''can_manage_users'' (createAuthzObject DeviceComponent c) \<longleftrightarrow>
       (\<exists>v. parent_in T (createAuthzObject DeviceComponent c) v \<and> device_admin T u v))"
  using component_rules(1) [of "createAuthzObject DeviceComponent c"] component_closed [OF assms, of "createAuthzObject DeviceComponent c"]
    device_closed(2) [OF assms, of "createAuthzObject Device v"] device_rules(3) [of "createAuthzObject Device v"]
  by simp

text \<open>
  Navigation reaches exactly what can be read. In a well-typed store whose links are stored from
  both ends, a user can navigate to a device exactly when the device or one of its components can be
  read, and whoever can navigate to an object can navigate to its parent, up to the factory.
\<close>

theorem navigation_follows_reading:
  assumes typed: "well_typed AUTHORIZATION_MODEL T" and "mirrored T"
  shows "(allows AUTHORIZATION_MODEL T u ''can_navigate'' (createAuthzObject Device v) \<longleftrightarrow>
       allows AUTHORIZATION_MODEL T u ''can_read'' (createAuthzObject Device v) \<or>
       (\<exists>c. parent_in T c (createAuthzObject Device v) \<and> allows AUTHORIZATION_MODEL T u ''can_read'' c)) \<and>
    (allows AUTHORIZATION_MODEL T u ''can_navigate'' ob \<and> parent_in T ob (createAuthzObject t p) \<and> t \<noteq> DeviceComponent \<longrightarrow>
       allows AUTHORIZATION_MODEL T u ''can_navigate'' (createAuthzObject t p))"
proof -
  have mirror: "parent_in T ob p \<longleftrightarrow> child_in T p ob" for ob p using assms(2) by (simp add: mirrored_def)
  have "object_type (createAuthzObject t p) \<in> {''factory'', ''department'', ''device''}" if "t \<noteq> DeviceComponent"
    using that by (cases t) simp_all
  then show ?thesis
    using device_navigate [OF typed, of "createAuthzObject Device v"] navigate_child [of "createAuthzObject t p" T ob u]
    by (simp add: mirror)
qed

end
