(* ===== verification/Authz_Store.thy ===== *)
theory Authz_Store
  imports Authz_Model
begin

text \<open>
  The tuple store behind the authorization checks: connecting to OpenFGA and reading tuples page by
  page (\<open>authz/openfga-state.ts\<close>), changing them (\<open>authz/mutations.ts\<close>), asking for relations
  (\<open>authz/relations.ts\<close>) and listing assignments (\<open>authz/assignments.ts\<close>). The OpenFGA server is not part
  of the repository: what the code calls of it is the record \<open>fga_client\<close> over a server state, and
  what the code relies on is the locale \<open>tuple_store\<close>. A loop that asks for the next page as long as
  the server names one is a partial function; \<open>None\<close> is a loop that does not end.
\<close>

section \<open>The client\<close>

record 's fga_client =
  fc_read :: "'s \<Rightarrow> string option \<Rightarrow> string option \<Rightarrow> tuple_key list \<times> string option"
  fc_write :: "'s \<Rightarrow> tuple_key list \<Rightarrow> tuple_key list \<Rightarrow> 's"
  fc_check :: "'s \<Rightarrow> string \<Rightarrow> string \<Rightarrow> string \<Rightarrow> bool"
  fc_listObjects :: "'s \<Rightarrow> string \<Rightarrow> string \<Rightarrow> string \<Rightarrow> string list"

partial_function (option) read_pages ::
  "(string option \<Rightarrow> tuple_key list \<times> string option) \<Rightarrow> string option \<Rightarrow> tuple_key list option" where
  "read_pages fetch token =
     (case fetch token of
        (ts, next) \<Rightarrow>
          (case blank_to_none next of
             None \<Rightarrow> Some ts
           | Some t \<Rightarrow> Option.bind (read_pages fetch (Some t)) (\<lambda>rest. Some (ts @ rest))))"

definition readAllTuples :: "(string \<Rightarrow> string \<Rightarrow> bool) \<Rightarrow> 's fga_client \<Rightarrow> 's \<Rightarrow> tuple_key list option" where
  "readAllTuples le c s = map_option (sortTupleKeys le) (read_pages (fc_read c s None) None)"

definition readTuplesForObject :: "'s fga_client \<Rightarrow> 's \<Rightarrow> string \<Rightarrow> tuple_key list option" where
  "readTuplesForObject c s ob = read_pages (fc_read c s (Some ob)) None"

declare read_pages.simps [code]

section \<open>Connecting\<close>

datatype authz_error = ApiUrlRequired | StoreIdMissing | ModelIdMissing | ServerError string

definition readRequiredOpenFgaApiUrl :: "string option \<Rightarrow> authz_error + string" where
  "readRequiredOpenFgaApiUrl env = (case blank_to_none env of None \<Rightarrow> Inl ApiUrlRequired | Some u \<Rightarrow> Inr u)"

definition readOpenFgaStoreName :: "string option \<Rightarrow> string" where
  "readOpenFgaStoreName env = (case blank_to_none env of None \<Rightarrow> ''trakrai'' | Some n \<Rightarrow> n)"

text \<open>\<open>findStoreIdByName\<close>: a page lists the names and ids of stores.\<close>

partial_function (option) findStoreIdByName ::
  "(string option \<Rightarrow> (string option \<times> string) list \<times> string option) \<Rightarrow> string \<Rightarrow> string option \<Rightarrow> string option option" where
  "findStoreIdByName fetch storeName token =
     (case fetch token of
        (stores, next) \<Rightarrow>
          (case find (\<lambda>(name, _). blank_to_none name = Some storeName) stores of
             Some (_, storeId) \<Rightarrow> Some (Some storeId)
           | None \<Rightarrow>
               (case blank_to_none next of
                  None \<Rightarrow> Some None
                | Some t \<Rightarrow> findStoreIdByName fetch storeName (Some t))))"

record authz_server =
  as_listStores :: "string option \<Rightarrow> (string option \<times> string) list \<times> string option"
  as_createStore :: "string \<Rightarrow> string option"
  as_readLatestModel :: "string \<Rightarrow> string + (string option \<times> authorization_model) option"
  as_writeModel :: "string \<Rightarrow> authorization_model \<Rightarrow> string option"

definition ensureStoreId :: "authz_server \<Rightarrow> string option \<Rightarrow> (authz_error + string) option" where
  "ensureStoreId srv env =
     (let storeName = readOpenFgaStoreName env in
      Option.bind (findStoreIdByName (as_listStores srv) storeName None) (\<lambda>found. Some
        (case found of
           Some i \<Rightarrow> Inr i
         | None \<Rightarrow> (case blank_to_none (as_createStore srv storeName) of None \<Rightarrow> Inl StoreIdMissing | Some i \<Rightarrow> Inr i))))"

text \<open>\<open>ensureAuthorizationModelId\<close>: the latest model is kept when its hash is that of the code's model.\<close>

definition ensureAuthorizationModelId :: "(authorization_model \<Rightarrow> string) \<Rightarrow> authz_server \<Rightarrow> string \<Rightarrow> authz_error + string" where
  "ensureAuthorizationModelId hash srv storeId =
     (let current = (case as_readLatestModel srv storeId of
            Inr (Some (modelId, model)) \<Rightarrow> if hash model = hash AUTHORIZATION_MODEL then blank_to_none modelId else None
          | _ \<Rightarrow> None)
      in case current of
           Some i \<Rightarrow> Inr i
         | None \<Rightarrow> (case blank_to_none (as_writeModel srv storeId AUTHORIZATION_MODEL) of None \<Rightarrow> Inl ModelIdMissing | Some i \<Rightarrow> Inr i))"

record authz_state =
  st_authorizationModelId :: string
  st_storeId :: string

definition createAuthzState ::
  "(authorization_model \<Rightarrow> string) \<Rightarrow> authz_server \<Rightarrow> string option \<Rightarrow> string option \<Rightarrow> (authz_error + authz_state) option" where
  "createAuthzState hash srv urlEnv nameEnv =
     (case readRequiredOpenFgaApiUrl urlEnv of
        Inl e \<Rightarrow> Some (Inl e)
      | Inr _ \<Rightarrow>
          Option.bind (ensureStoreId srv nameEnv) (\<lambda>r. Some
            (case r of
               Inl e \<Rightarrow> Inl e
             | Inr storeId \<Rightarrow>
                 (case ensureAuthorizationModelId hash srv storeId of
                    Inl e \<Rightarrow> Inl e
                  | Inr modelId \<Rightarrow> Inr \<lparr>st_authorizationModelId = modelId, st_storeId = storeId\<rparr>))))"

text \<open>\<open>ensureAuthzState\<close> with its module-level cache: a failed attempt is forgotten.\<close>

definition ensureAuthzState ::
  "(authz_error + authz_state) option \<Rightarrow> authz_state option \<Rightarrow> ((authz_error + authz_state) \<times> authz_state option) option" where
  "ensureAuthzState create cache =
     (case cache of
        Some st \<Rightarrow> Some (Inr st, cache)
      | None \<Rightarrow> map_option (\<lambda>r. (r, case r of Inr st \<Rightarrow> Some st | Inl _ \<Rightarrow> None)) create)"

section \<open>Changing tuples\<close>

definition MAX_TUPLES_PER_WRITE :: nat where "MAX_TUPLES_PER_WRITE = 50"

definition MAX_PARALLEL_REQUESTS :: nat where "MAX_PARALLEL_REQUESTS = 4"

function chunkArray :: "nat \<Rightarrow> 'a list \<Rightarrow> 'a list list" where
  "chunkArray n xs = (if xs = [] \<or> n = 0 then [] else take n xs # chunkArray n (drop n xs))"
  by auto
termination by (relation "measure (\<lambda>(_, xs). length xs)") auto

declare chunkArray.simps [simp del]

text \<open>The requests of a batch are sent together, the batches one after the other.\<close>

definition writeTupleChunks :: "'s fga_client \<Rightarrow> (tuple_key list \<times> tuple_key list) list \<Rightarrow> 's \<Rightarrow> 's" where
  "writeTupleChunks c chunkedWrites s =
     fold (\<lambda>batch. fold (\<lambda>(deletes, writes) s. fc_write c s deletes writes) batch) (chunkArray MAX_PARALLEL_REQUESTS chunkedWrites) s"

definition normalizeTupleKeysForDelete :: "tuple_key list \<Rightarrow> tuple_key list" where
  "normalizeTupleKeysForDelete ks = map (\<lambda>k. tuple_of (tk_user k) (tk_relation k) (tk_object k)) ks"

definition createObjectParentTupleKeys :: "authz_type \<Rightarrow> string \<Rightarrow> authz_type \<Rightarrow> string \<Rightarrow> tuple_key \<times> tuple_key" where
  "createObjectParentTupleKeys objectType objectId parentType parentId =
     (let ob = createAuthzObject objectType objectId; p = createAuthzObject parentType parentId in
      (tuple_of p (relation_name Parent) ob, tuple_of ob (relation_name Child) p))"

definition writeAuthzTuples :: "'s fga_client \<Rightarrow> tuple_key list \<Rightarrow> 's \<Rightarrow> 's" where
  "writeAuthzTuples c ks s =
     (if ks = [] then s else writeTupleChunks c (map (\<lambda>writes. ([], writes)) (chunkArray MAX_TUPLES_PER_WRITE ks)) s)"

definition deleteAuthzTuples :: "'s fga_client \<Rightarrow> tuple_key list \<Rightarrow> 's \<Rightarrow> 's" where
  "deleteAuthzTuples c ks s =
     (if ks = [] then s
      else writeTupleChunks c (map (\<lambda>deletes. (deletes, [])) (chunkArray MAX_TUPLES_PER_WRITE (normalizeTupleKeysForDelete ks))) s)"

definition setObjectParentRelation ::
  "'s fga_client \<Rightarrow> authz_type \<Rightarrow> string \<Rightarrow> authz_type \<Rightarrow> string \<Rightarrow> 's \<Rightarrow> 's option" where
  "setObjectParentRelation c objectType objectId parentType parentId s =
     (let ob = createAuthzObject objectType objectId;
          (expectedParent, expectedChild) = createObjectParentTupleKeys objectType objectId parentType parentId
      in Option.bind (readTuplesForObject c s ob) (\<lambda>tuples. Some
        (let existingParents = filter (\<lambda>k. tk_relation k = relation_name Parent) tuples;
             existingChildren = map (\<lambda>k. tuple_of ob (relation_name Child) (tk_user k)) existingParents;
             deletes = filter (\<lambda>k. tk_user k \<noteq> tk_user expectedParent \<or> tk_object k \<noteq> tk_object expectedParent) existingParents;
             childDeletes = filter (\<lambda>k. tk_object k \<noteq> tk_object expectedChild \<or> tk_user k \<noteq> tk_user expectedChild) existingChildren;
             hasExpectedParent = list_ex (\<lambda>k. tk_user k = tk_user expectedParent) existingParents;
             hasExpectedChild = list_ex (\<lambda>k. tk_object k = tk_object expectedChild \<and> tk_user k = tk_user expectedChild) existingChildren
         in if deletes = [] \<and> childDeletes = [] \<and> hasExpectedParent \<and> hasExpectedChild then s
            else fc_write c s (normalizeTupleKeysForDelete (deletes @ childDeletes))
                   ((if hasExpectedParent then [] else [expectedParent]) @ (if hasExpectedChild then [] else [expectedChild])))))"

definition replaceDirectUserRelation ::
  "'s fga_client \<Rightarrow> authz_type \<Rightarrow> string \<Rightarrow> string \<Rightarrow> authz_relation option \<Rightarrow> authz_relation list \<Rightarrow> 's \<Rightarrow> 's option" where
  "replaceDirectUserRelation c objectType objectId userId nextRelation candidates s =
     (let ob = createAuthzObject objectType objectId; user = createAuthzUser userId in
      Option.bind (readTuplesForObject c s ob) (\<lambda>tuples. Some
        (let existing = filter (\<lambda>k. tk_user k = user \<and> list_ex (\<lambda>r. relation_name r = tk_relation k) candidates) tuples;
             deletes = filter (\<lambda>k. Some (tk_relation k) \<noteq> map_option relation_name nextRelation) existing;
             hasExpected = (case nextRelation of None \<Rightarrow> False | Some r \<Rightarrow> list_ex (\<lambda>k. tk_relation k = relation_name r) existing)
         in if deletes = [] \<and> (nextRelation = None \<or> hasExpected) then s
            else fc_write c s (normalizeTupleKeysForDelete deletes)
                   (case nextRelation of None \<Rightarrow> [] | Some r \<Rightarrow> if hasExpected then [] else [tuple_of user (relation_name r) ob]))))"

definition deleteObjectAuthzRelations :: "'s fga_client \<Rightarrow> authz_type \<Rightarrow> string \<Rightarrow> 's \<Rightarrow> 's option" where
  "deleteObjectAuthzRelations c objectType objectId s =
     (let ob = createAuthzObject objectType objectId in
      Option.bind (readTuplesForObject c s ob) (\<lambda>existing. Some
        (if existing = [] then s
         else
           let parentChildDeletes = map (\<lambda>k. tuple_of ob (relation_name Child) (tk_user k))
                 (filter (\<lambda>k. tk_relation k = relation_name Parent) existing)
           in fc_write c s (normalizeTupleKeysForDelete (existing @ parentChildDeletes)) [])))"

section \<open>Asking for relations\<close>

definition checkUserObjectRelation :: "'s fga_client \<Rightarrow> 's \<Rightarrow> string \<Rightarrow> authz_relation \<Rightarrow> authz_type \<Rightarrow> string \<Rightarrow> bool" where
  "checkUserObjectRelation c s userId relation objectType objectId =
     fc_check c s (createAuthzUser userId) (relation_name relation) (createAuthzObject objectType objectId)"

definition listUserAuthorizedObjectIds :: "'s fga_client \<Rightarrow> 's \<Rightarrow> string \<Rightarrow> authz_relation \<Rightarrow> authz_type \<Rightarrow> string list" where
  "listUserAuthorizedObjectIds c s userId relation objectType =
     jset_of (filter (\<lambda>i. i \<noteq> []) (map trim (map (\<lambda>name. case js_split '':'' name of _ # i # _ \<Rightarrow> i | _ \<Rightarrow> [])
       (fc_listObjects c s (createAuthzUser userId) (relation_name relation) (type_name objectType)))))"

record management_scope =
  ms_componentIds :: "string list"
  ms_departmentIds :: "string list"
  ms_deviceIds :: "string list"
  ms_factoryIds :: "string list"

definition getUserManagementScopeIds :: "'s fga_client \<Rightarrow> 's \<Rightarrow> string \<Rightarrow> management_scope" where
  "getUserManagementScopeIds c s userId =
     (let ids = listUserAuthorizedObjectIds c s userId CanManageUsers in
      \<lparr>ms_componentIds = ids DeviceComponent, ms_departmentIds = ids Department, ms_deviceIds = ids Device, ms_factoryIds = ids Factory\<rparr>)"

definition ensureUserCanManageObject :: "'s fga_client \<Rightarrow> 's \<Rightarrow> string \<Rightarrow> authz_type \<Rightarrow> string \<Rightarrow> string + unit" where
  "ensureUserCanManageObject c s userId objectType objectId =
     (if checkUserObjectRelation c s userId CanManageUsers objectType objectId then Inr ()
      else Inl ''You do not have permission to manage users in this scope.'')"


section \<open>Listing assignments\<close>

record scope_filters =
  sf_componentIds :: "string list option"
  sf_departmentIds :: "string list option"
  sf_deviceIds :: "string list option"
  sf_factoryIds :: "string list option"
  sf_userIds :: "string list option"

text \<open>Rows of one table: the id of the object, the role or access level, and the user.\<close>

type_synonym assignment_row = "string \<times> string \<times> string"

record assignment_rows =
  ar_component :: "assignment_row list"
  ar_department :: "assignment_row list"
  ar_device :: "assignment_row list"
  ar_factory :: "assignment_row list"

definition no_rows :: assignment_rows where
  "no_rows = \<lparr>ar_component = [], ar_department = [], ar_device = [], ar_factory = []\<rparr>"

definition hasNoRequestedIds :: "string list option \<Rightarrow> bool" where
  "hasNoRequestedIds v \<longleftrightarrow> v = Some []"

definition shouldInclude :: "string \<Rightarrow> string list option \<Rightarrow> bool" where
  "shouldInclude candidateId filterValues \<longleftrightarrow> (case filterValues of None \<Rightarrow> True | Some ids \<Rightarrow> candidateId \<in> set ids)"

definition createScopedObjects :: "scope_filters \<Rightarrow> string list" where
  "createScopedObjects f =
     (let objects = (\<lambda>t ids. map (createAuthzObject t) (case ids of None \<Rightarrow> [] | Some is \<Rightarrow> is)) in
      objects Factory (sf_factoryIds f) @ objects Department (sf_departmentIds f) @
      objects Device (sf_deviceIds f) @ objects DeviceComponent (sf_componentIds f))"

text \<open>The body of the loop over the tuples.\<close>

definition admin_or_viewer :: "string \<Rightarrow> bool" where
  "admin_or_viewer r \<longleftrightarrow> r = relation_name Admin \<or> r = relation_name Viewer"

definition add_assignment :: "scope_filters \<Rightarrow> tuple_key \<Rightarrow> assignment_rows \<Rightarrow> assignment_rows" where
  "add_assignment f k rows =
     (case parseAuthzUserId (tk_user k) of
        None \<Rightarrow> rows
      | Some userId \<Rightarrow>
          if \<not> shouldInclude userId (sf_userIds f) then rows
          else
            (case parseAuthzObject (tk_object k) of
               None \<Rightarrow> rows
             | Some (Factory, i) \<Rightarrow>
                 if admin_or_viewer (tk_relation k) \<and> shouldInclude i (sf_factoryIds f)
                 then rows\<lparr>ar_factory := ar_factory rows @ [(i, if tk_relation k = relation_name Admin then ''admin'' else ''viewer'', userId)]\<rparr>
                 else rows
             | Some (Department, i) \<Rightarrow>
                 if admin_or_viewer (tk_relation k) \<and> shouldInclude i (sf_departmentIds f)
                 then rows\<lparr>ar_department := ar_department rows @ [(i, if tk_relation k = relation_name Admin then ''admin'' else ''viewer'', userId)]\<rparr>
                 else rows
             | Some (Device, i) \<Rightarrow>
                 if tk_relation k = relation_name Viewer \<and> shouldInclude i (sf_deviceIds f)
                 then rows\<lparr>ar_device := ar_device rows @ [(i, ''viewer'', userId)]\<rparr>
                 else rows
             | Some (DeviceComponent, i) \<Rightarrow>
                 if (tk_relation k = relation_name Reader \<or> tk_relation k = relation_name Writer) \<and> shouldInclude i (sf_componentIds f)
                 then rows\<lparr>ar_component := ar_component rows @ [(i, if tk_relation k = relation_name Writer then ''write'' else ''read'', userId)]\<rparr>
                 else rows))"

text \<open>\<open>Promise.all(objects.map(...)).flat()\<close>\<close>

fun read_objects :: "'s fga_client \<Rightarrow> 's \<Rightarrow> string list \<Rightarrow> tuple_key list option" where
  "read_objects c s [] = Some []"
| "read_objects c s (ob # obs) =
     Option.bind (readTuplesForObject c s ob) (\<lambda>ts. Option.bind (read_objects c s obs) (\<lambda>rest. Some (ts @ rest)))"

definition getScopedAssignments ::
  "(string \<Rightarrow> string \<Rightarrow> bool) \<Rightarrow> 's fga_client \<Rightarrow> scope_filters \<Rightarrow> 's \<Rightarrow> assignment_rows option" where
  "getScopedAssignments le c f s =
     (if hasNoRequestedIds (sf_factoryIds f) \<or> hasNoRequestedIds (sf_departmentIds f) \<or> hasNoRequestedIds (sf_deviceIds f) \<or>
         hasNoRequestedIds (sf_componentIds f) \<or> hasNoRequestedIds (sf_userIds f)
      then Some no_rows
      else
        let scopedObjects = jset_of (createScopedObjects f) in
        Option.bind (if scopedObjects = [] then readAllTuples le c s else read_objects c s scopedObjects)
          (\<lambda>tuples. Some (fold (add_assignment f) tuples no_rows)))"

end
