(* ===== verification/Authz_Laws.thy ===== *)
theory Authz_Laws
  imports Authz_Store
begin

text \<open>
  What the authorization code guarantees of the tuple store. The contract of the server is the
  locale \<open>tuple_store\<close> (paged reads are complete, writes add and delete tuples) and \<open>checked_store\<close> (checks
  follow the model); the lemmas of the operations are proved once inside it.
\<close>

section \<open>Pages\<close>

inductive pages :: "(string option \<Rightarrow> tuple_key list \<times> string option) \<Rightarrow> string option \<Rightarrow> tuple_key list \<Rightarrow> bool" for fetch where
  last_page: "fetch token = (ts, next) \<Longrightarrow> blank_to_none next = None \<Longrightarrow> pages fetch token ts"
| next_page: "fetch token = (ts, next) \<Longrightarrow> blank_to_none next = Some t \<Longrightarrow> pages fetch (Some t) rest \<Longrightarrow> pages fetch token (ts @ rest)"

lemma read_pages_complete: "pages fetch token ts \<Longrightarrow> read_pages fetch token = Some ts"
  by (induction rule: pages.induct) (subst read_pages.simps, simp)+

section \<open>Chunks\<close>

lemma concat_chunkArray: "0 < n \<Longrightarrow> concat (chunkArray n xs) = xs"
  by (induction n xs rule: chunkArray.induct) (subst chunkArray.simps, simp)

lemma chunk_length: "ys \<in> set (chunkArray n xs) \<Longrightarrow> length ys \<le> n \<and> ys \<noteq> []"
proof (induction n xs rule: chunkArray.induct)
  case (1 n xs)
  then show ?case by (subst (asm) (2) chunkArray.simps) (auto split: if_splits)
qed

lemma fold_batches: "fold (\<lambda>batch. fold f batch) (chunkArray MAX_PARALLEL_REQUESTS xs) s = fold f xs s"
proof -
  have "fold (\<lambda>batch. fold f batch) xss s = fold f (concat xss) s" for xss s
    by (induction xss arbitrary: s) auto
  then show ?thesis by (simp add: concat_chunkArray MAX_PARALLEL_REQUESTS_def)
qed

section \<open>The contract of the store\<close>

locale tuple_store =
  fixes c :: "'s fga_client"
    and tuples :: "'s \<Rightarrow> tuple_key set"
  assumes reads: "\<exists>ts. pages (fc_read c s fil) None ts \<and> set ts = {k \<in> tuples s. fil = None \<or> fil = Some (tk_object k)}"
    and writes: "set ds \<inter> set ws = {} \<Longrightarrow> tuples (fc_write c s ds ws) = (tuples s - set ds) \<union> set ws"
begin

lemma read_object: "\<exists>ts. readTuplesForObject c s ob = Some ts \<and> set ts = {k \<in> tuples s. tk_object k = ob}"
  using reads [of s "Some ob"] by (auto simp: readTuplesForObject_def read_pages_complete)

lemma read_all: "\<exists>ts. readAllTuples le c s = Some ts \<and> set ts = tuples s"
  using reads [of s None] by (auto simp: readAllTuples_def read_pages_complete)

lemma read_objects_set: "\<exists>ts. read_objects c s obs = Some ts \<and> set ts = {k \<in> tuples s. tk_object k \<in> set obs}"
proof (induction obs)
  case (Cons ob obs)
  then show ?case using read_object [of s ob] by fastforce
qed simp

lemma write_chunks: "tuples (fold (\<lambda>(ds, ws) s. fc_write c s ds ws) (map (\<lambda>ws. ([], ws)) wss) s) = tuples s \<union> set (concat wss)"
  by (induction wss arbitrary: s) (auto simp: writes)

lemma delete_chunks: "tuples (fold (\<lambda>(ds, ws) s. fc_write c s ds ws) (map (\<lambda>ds. (ds, [])) dss) s) = tuples s - set (concat dss)"
  by (induction dss arbitrary: s) (auto simp: writes)

lemma write_tuples: "tuples (writeAuthzTuples c ks s) = tuples s \<union> set ks"
  using write_chunks [of "chunkArray MAX_TUPLES_PER_WRITE ks" s]
  by (simp add: writeAuthzTuples_def writeTupleChunks_def fold_batches concat_chunkArray MAX_TUPLES_PER_WRITE_def)

lemma delete_tuples: "tuples (deleteAuthzTuples c ks s) = tuples s - set ks"
proof -
  have "normalizeTupleKeysForDelete ks = ks" by (simp add: normalizeTupleKeysForDelete_def tuple_of_eta)
  then show ?thesis
    using delete_chunks [of "chunkArray MAX_TUPLES_PER_WRITE ks" s]
    by (simp add: deleteAuthzTuples_def writeTupleChunks_def fold_batches concat_chunkArray MAX_TUPLES_PER_WRITE_def)
qed

end


section \<open>What the mutations do\<close>

text \<open>The store after an object was moved below \<open>p\<close>.\<close>

definition reparent :: "tuple_key set \<Rightarrow> string \<Rightarrow> string \<Rightarrow> tuple_key set" where
  "reparent T ob p =
     T - {tuple_of q ''parent'' ob | q. q \<noteq> p} - {tuple_of ob ''child'' q | q. parent_in T ob q \<and> q \<noteq> p} \<union>
     {tuple_of p ''parent'' ob} \<union> (if parent_in T ob p then {} else {tuple_of ob ''child'' p})"

text \<open>The store after the grants of a user on an object were replaced.\<close>

definition regrant :: "tuple_key set \<Rightarrow> string \<Rightarrow> string \<Rightarrow> string option \<Rightarrow> string list \<Rightarrow> tuple_key set" where
  "regrant T user ob nextRel candidates =
     T - {tuple_of user r ob | r. r \<in> set candidates} \<union> {tuple_of user r ob | r. nextRel = Some r}"

text \<open>The store without the tuples of an object and its entries in its parents.\<close>

definition forget :: "tuple_key set \<Rightarrow> string \<Rightarrow> tuple_key set" where
  "forget T ob = {k \<in> T. tk_object k \<noteq> ob} - {tuple_of ob ''child'' q | q. parent_in T ob q}"

lemma normalize_id [simp]: "normalizeTupleKeysForDelete ks = ks"
  by (simp add: normalizeTupleKeysForDelete_def tuple_of_eta)

lemma tuples_with_relation: "{k \<in> T. tk_relation k = r \<and> tk_object k = ob} = {tuple_of q r ob | q. tuple_of q r ob \<in> T}"
proof (rule set_eqI)
  fix k show "k \<in> {k \<in> T. tk_relation k = r \<and> tk_object k = ob} \<longleftrightarrow> k \<in> {tuple_of q r ob | q. tuple_of q r ob \<in> T}"
    by (cases k) (auto simp: tuple_of_def)
qed

lemma tuples_with_user:
  "{k \<in> T. tk_user k = u \<and> P (tk_relation k) \<and> tk_object k = ob} = {tuple_of u r ob | r. P r \<and> tuple_of u r ob \<in> T}"
proof (rule set_eqI)
  fix k show "k \<in> {k \<in> T. tk_user k = u \<and> P (tk_relation k) \<and> tk_object k = ob} \<longleftrightarrow> k \<in> {tuple_of u r ob | r. P r \<and> tuple_of u r ob \<in> T}"
    by (cases k) (auto simp: tuple_of_def)
qed

lemma child_entries:
  "(\<lambda>k. tuple_of ob ''child'' (tk_user k)) ` {tuple_of q r ob' | q. P q} = {tuple_of ob ''child'' q | q. P q}"
proof -
  have "{tuple_of q r ob' | q. P q} = (\<lambda>q. tuple_of q r ob') ` {q. P q}" by auto
  then show ?thesis by (simp add: image_image) auto
qed

lemma relation_among: "(\<exists>k \<in> {tuple_of u r ob | r. Q r}. tk_relation k = x) \<longleftrightarrow> Q x"
  by (auto intro!: bexI [of _ "tuple_of u x ob"])

context tuple_store
begin

lemma set_parent:
  "\<exists>s'. setObjectParentRelation c ot oi pt pi s = Some s' \<and>
     tuples s' = reparent (tuples s) (createAuthzObject ot oi) (createAuthzObject pt pi)"
proof -
  let ?ob = "createAuthzObject ot oi" and ?p = "createAuthzObject pt pi"
  obtain ts where read: "readTuplesForObject c s ?ob = Some ts" and ts: "set ts = {k \<in> tuples s. tk_object k = ?ob}"
    using read_object by blast
  define parents where "parents = filter (\<lambda>k. tk_relation k = ''parent'') ts"
  define deletes where "deletes = filter (\<lambda>k. tk_user k \<noteq> ?p \<or> tk_object k \<noteq> ?ob) parents"
  define childDeletes where "childDeletes = filter (\<lambda>k. tk_object k \<noteq> ?p \<or> tk_user k \<noteq> ?ob) (map (\<lambda>k. tuple_of ?ob ''child'' (tk_user k)) parents)"
  have parents: "set parents = {tuple_of q ''parent'' ?ob | q. parent_in (tuples s) ?ob q}"
    using tuples_with_relation [of "tuples s" "''parent''" ?ob] ts by (auto simp: parents_def parent_in_def)
  have del: "set deletes = {tuple_of q ''parent'' ?ob | q. parent_in (tuples s) ?ob q \<and> q \<noteq> ?p}"
    unfolding deletes_def by (auto simp: parents)
  have cdel: "set childDeletes = {tuple_of ?ob ''child'' q | q. parent_in (tuples s) ?ob q \<and> q \<noteq> ?p}"
    unfolding childDeletes_def set_filter set_map parents child_entries by auto
  have has: "list_ex (\<lambda>k. tk_user k = ?p) parents \<longleftrightarrow> parent_in (tuples s) ?ob ?p"
    "list_ex (\<lambda>k. tk_object k = ?p \<and> tk_user k = ?ob) (map (\<lambda>k. tuple_of ?ob ''child'' (tk_user k)) parents) \<longleftrightarrow> parent_in (tuples s) ?ob ?p"
    by (auto simp: list_ex_iff parents)
  let ?ws = "if parent_in (tuples s) ?ob ?p then [] else [tuple_of ?p ''parent'' ?ob, tuple_of ?ob ''child'' ?p]"
  have res: "setObjectParentRelation c ot oi pt pi s =
      Some (if deletes = [] \<and> childDeletes = [] \<and> parent_in (tuples s) ?ob ?p then s else fc_write c s (deletes @ childDeletes) ?ws)"
    using read has unfolding parents_def deletes_def childDeletes_def
    by (simp add: setObjectParentRelation_def createObjectParentTupleKeys_def Let_def)
  have wr: "tuples (fc_write c s (deletes @ childDeletes) ?ws) = tuples s - (set deletes \<union> set childDeletes) \<union> set ?ws"
    by (subst writes) (auto simp: del cdel)
  have eq: "tuples s - (set deletes \<union> set childDeletes) \<union> set ?ws = reparent (tuples s) ?ob ?p"
    unfolding del cdel reparent_def by (auto simp: parent_in_def)
  then show ?thesis
    using res wr by (cases "deletes = [] \<and> childDeletes = [] \<and> parent_in (tuples s) ?ob ?p") simp_all
qed

lemma replace_relation:
  "\<exists>s'. replaceDirectUserRelation c ot oi uid nextRel cands s = Some s' \<and>
     tuples s' = regrant (tuples s) (createAuthzUser uid) (createAuthzObject ot oi) (map_option relation_name nextRel) (map relation_name cands)"
proof -
  let ?ob = "createAuthzObject ot oi" and ?u = "createAuthzUser uid"
  obtain ts where read: "readTuplesForObject c s ?ob = Some ts" and ts: "set ts = {k \<in> tuples s. tk_object k = ?ob}"
    using read_object by blast
  define existing where "existing = filter (\<lambda>k. tk_user k = ?u \<and> list_ex (\<lambda>r. relation_name r = tk_relation k) cands) ts"
  define deletes where "deletes = filter (\<lambda>k. Some (tk_relation k) \<noteq> map_option relation_name nextRel) existing"
  have existing: "set existing = {tuple_of ?u r ?ob | r. r \<in> relation_name ` set cands \<and> tuple_of ?u r ?ob \<in> tuples s}"
  proof -
    have "set existing = {k \<in> tuples s. tk_user k = ?u \<and> tk_relation k \<in> relation_name ` set cands \<and> tk_object k = ?ob}"
      using ts by (auto simp: existing_def list_ex_iff intro: rev_image_eqI)
    also have "\<dots> = {tuple_of ?u r ?ob | r. r \<in> relation_name ` set cands \<and> tuple_of ?u r ?ob \<in> tuples s}"
      by (rule tuples_with_user)
    finally show ?thesis .
  qed
  have del: "set deletes = {tuple_of ?u r ?ob | r. r \<in> relation_name ` set cands \<and> tuple_of ?u r ?ob \<in> tuples s \<and> Some r \<noteq> map_option relation_name nextRel}"
    unfolding deletes_def by (auto simp: existing)
  define has where "has = (case nextRel of None \<Rightarrow> False | Some r \<Rightarrow> list_ex (\<lambda>k. tk_relation k = relation_name r) existing)"
  let ?ws = "case nextRel of None \<Rightarrow> [] | Some r \<Rightarrow> if has then [] else [tuple_of ?u (relation_name r) ?ob]"
  have res: "replaceDirectUserRelation c ot oi uid nextRel cands s =
      Some (if deletes = [] \<and> (nextRel = None \<or> has) then s else fc_write c s deletes ?ws)"
    using read unfolding existing_def deletes_def has_def by (cases nextRel) (auto simp: replaceDirectUserRelation_def Let_def)
  have has': "has \<longleftrightarrow> (\<exists>r. nextRel = Some r \<and> r \<in> set cands \<and> tuple_of ?u (relation_name r) ?ob \<in> tuples s)"
    unfolding has_def list_ex_iff existing relation_among by (cases nextRel) (auto simp: inj_image_mem_iff inj_def)
  have wr: "tuples (fc_write c s deletes ?ws) = tuples s - set deletes \<union> set ?ws"
    by (subst writes) (auto simp: del split: option.splits)
  have "tuples s - set deletes \<union> set ?ws =
      regrant (tuples s) ?u ?ob (map_option relation_name nextRel) (map relation_name cands)"
    unfolding del regrant_def using has' by (cases nextRel) auto
  then show ?thesis
    using res wr by (cases "deletes = [] \<and> (nextRel = None \<or> has)"; cases nextRel) auto
qed

lemma delete_object:
  "\<exists>s'. deleteObjectAuthzRelations c ot oi s = Some s' \<and> tuples s' = forget (tuples s) (createAuthzObject ot oi)"
proof -
  let ?ob = "createAuthzObject ot oi"
  obtain ts where read: "readTuplesForObject c s ?ob = Some ts" and ts: "set ts = {k \<in> tuples s. tk_object k = ?ob}"
    using read_object by blast
  define cdel where "cdel = map (\<lambda>k. tuple_of ?ob ''child'' (tk_user k)) (filter (\<lambda>k. tk_relation k = ''parent'') ts)"
  have cdel: "set cdel = {tuple_of ?ob ''child'' q | q. parent_in (tuples s) ?ob q}"
  proof -
    have "set (filter (\<lambda>k. tk_relation k = ''parent'') ts) = {tuple_of q ''parent'' ?ob | q. parent_in (tuples s) ?ob q}"
      using tuples_with_relation [of "tuples s" "''parent''" ?ob] ts by (auto simp: parent_in_def)
    then show ?thesis unfolding cdel_def set_map by (simp add: child_entries)
  qed
  have res: "deleteObjectAuthzRelations c ot oi s = Some (if ts = [] then s else fc_write c s (ts @ cdel) [])"
    using read unfolding cdel_def by (simp add: deleteObjectAuthzRelations_def Let_def)
  have "tuples (fc_write c s (ts @ cdel) []) = forget (tuples s) ?ob"
    by (subst writes) (auto simp: forget_def cdel ts)
  moreover have "ts = [] \<Longrightarrow> forget (tuples s) ?ob = tuples s"
    using ts by (auto simp: forget_def parent_in_def)
  ultimately show ?thesis using res by simp
qed

end


section \<open>Checks that follow the model\<close>

locale checked_store = tuple_store +
  assumes checks: "fc_check c s u r ob \<longleftrightarrow> allows AUTHORIZATION_MODEL (tuples s) u r ob"
    and lists: "set (fc_listObjects c s u r t) = {ob. object_type ob = t \<and> allows AUTHORIZATION_MODEL (tuples s) u r ob}"
begin

lemma write_check:
  "checkUserObjectRelation c s uid CanWrite DeviceComponent i \<longleftrightarrow>
     tuple_of (createAuthzUser uid) ''writer'' (createAuthzObject DeviceComponent i) \<in> tuples s"
  by (simp add: checkUserObjectRelation_def checks component_rules(1) granted_def)

text \<open>The ids that are listed are those of the objects that would pass the check.\<close>

lemma listed_ids:
  assumes "\<And>ob. object_type ob = type_name t \<Longrightarrow> allows AUTHORIZATION_MODEL (tuples s) (createAuthzUser uid) (relation_name r) ob \<Longrightarrow>
      \<exists>i. ob = createAuthzObject t i \<and> trim i = i \<and> i \<noteq> [] \<and> CHR '':'' \<notin> set i"
  shows "i \<in> set (listUserAuthorizedObjectIds c s uid r t) \<longleftrightarrow> i \<noteq> [] \<and> trim i = i \<and> CHR '':'' \<notin> set i \<and> checkUserObjectRelation c s uid r t i"
proof -
  have split: "js_split '':'' (createAuthzObject t j) = [type_name t, j]" if "CHR '':'' \<notin> set j" for j
    using that js_split_char [OF type_name_no_colon(1)] js_split_char_none by (simp add: createAuthzObject_def)
  have "i \<in> set (listUserAuthorizedObjectIds c s uid r t) \<longleftrightarrow>
      (\<exists>j. allows AUTHORIZATION_MODEL (tuples s) (createAuthzUser uid) (relation_name r) (createAuthzObject t j) \<and>
         i = j \<and> trim j = j \<and> j \<noteq> [] \<and> CHR '':'' \<notin> set j)" (is "?l \<longleftrightarrow> ?r")
  proof
    assume ?l
    then obtain ob where "object_type ob = type_name t" "allows AUTHORIZATION_MODEL (tuples s) (createAuthzUser uid) (relation_name r) ob"
      and i: "i = trim (case js_split '':'' ob of _ # i # _ \<Rightarrow> i | _ \<Rightarrow> [])" "i \<noteq> []"
      by (auto simp: listUserAuthorizedObjectIds_def lists)
    with assms [of ob] split show ?r by auto
  next
    assume ?r
    then show ?l using split
      by (auto simp: listUserAuthorizedObjectIds_def lists image_iff intro!: exI [of _ "createAuthzObject t i"])
  qed
  then show ?thesis by (auto simp: checkUserObjectRelation_def checks)
qed

end

section \<open>A store that satisfies the contract\<close>

text \<open>
  The documented server over a list of tuples: pages of a hundred entries, named by a token that
  stands for the offset of the next page; duplicate writes and missing deletes are ignored.
\<close>

definition server_page :: "tuple_key list \<Rightarrow> string option \<Rightarrow> tuple_key list \<times> string option" where
  "server_page ks token =
     (let off = (case token of None \<Rightarrow> 0 | Some t \<Rightarrow> length t) in
      (take 100 (drop off ks), if off + 100 < length ks then Some (replicate (off + 100) (CHR ''x'')) else None))"

definition server_client :: "tuple_key list fga_client" where
  "server_client = \<lparr>fc_read = (\<lambda>s fil. server_page (filter (\<lambda>k. fil = None \<or> fil = Some (tk_object k)) s)),
     fc_write = (\<lambda>s ds ws. filter (\<lambda>k. k \<notin> set ds) s @ filter (\<lambda>k. k \<notin> set s \<or> k \<in> set ds) ws),
     fc_check = (\<lambda>s. allows AUTHORIZATION_MODEL (set s)),
     fc_listObjects = (\<lambda>s u r t. filter (\<lambda>ob. object_type ob = t \<and> allows AUTHORIZATION_MODEL (set s) u r ob) (map tk_object s))\<rparr>"

lemma page_token: "blank_to_none (Some (replicate (n + 100) (CHR ''x''))) = Some (replicate (n + 100) (CHR ''x''))"
proof -
  have "trim (replicate (n + 100) (CHR ''x'')) = replicate (n + 100) (CHR ''x'')"
    by (rule trim_eq_self) (simp add: js_space_def)
  then show ?thesis by (simp add: blank_to_none_def)
qed

lemma server_pages: "off \<le> length ks \<Longrightarrow> (case token of None \<Rightarrow> 0 | Some t \<Rightarrow> length t) = off \<Longrightarrow> pages (server_page ks) token (drop off ks)"
proof (induction "length ks - off" arbitrary: off token rule: less_induct)
  case less
  show ?case
  proof (cases "off + 100 < length ks")
    case True
    have "pages (server_page ks) (Some (replicate (off + 100) (CHR ''x''))) (drop (off + 100) ks)"
      using less(1) [of "off + 100" "Some (replicate (off + 100) (CHR ''x''))"] True by simp
    moreover have "server_page ks token = (take 100 (drop off ks), Some (replicate (off + 100) (CHR ''x'')))"
      using less(3) True by (simp add: server_page_def Let_def)
    ultimately have "pages (server_page ks) token (take 100 (drop off ks) @ drop (off + 100) ks)"
      using next_page [OF _ page_token] by blast
    then show ?thesis by (metis append_take_drop_id drop_drop add.commute)
  next
    case False
    then have "server_page ks token = (drop off ks, None)" using less(3) by (simp add: server_page_def Let_def)
    then show ?thesis by (rule last_page) (simp add: blank_to_none_def)
  qed
qed

lemma allows_object: "allows m T u r ob \<Longrightarrow> ob \<in> tk_object ` T"
  by (induction rule: allows.induct) force+

interpretation fga: checked_store server_client set
proof (unfold_locales, goal_cases)
  case (1 s fil)
  show ?case using server_pages [of 0 "filter (\<lambda>k. fil = None \<or> fil = Some (tk_object k)) s" None]
    by (intro exI [of _ "filter (\<lambda>k. fil = None \<or> fil = Some (tk_object k)) s"]) (auto simp: server_client_def)
qed (auto simp: server_client_def dest: allows_object)

end
