(* ===== verification/Authz_Props.thy ===== *)
theory Authz_Props
  imports Authz_Laws
begin

text \<open>
  Properties of the authorization service: moving objects in the hierarchy, replacing grants,
  deleting objects, and listing assignments.
\<close>

section \<open>The hierarchy\<close>

lemma reparent_links:
  assumes "mirrored T"
  shows "mirrored (reparent T ob p)" and "parent_in (reparent T ob p) ob q \<longleftrightarrow> q = p"
proof -
  have mirror: "parent_in T x q \<longleftrightarrow> child_in T q x" for x q using assms by (simp add: mirrored_def)
  have par: "parent_in (reparent T ob p) x q \<longleftrightarrow> (if x = ob then q = p else parent_in T x q)" for x q
    by (auto simp: parent_in_def reparent_def)
  have "child_in (reparent T ob p) q x \<longleftrightarrow> (if x = ob then q = p else child_in T q x)" for x q
    using mirror [of ob q] by (auto simp: child_in_def parent_in_def reparent_def)
  then show "mirrored (reparent T ob p)" using par mirror by (simp add: mirrored_def)
  show "parent_in (reparent T ob p) ob q \<longleftrightarrow> q = p" using par by simp
qed

lemma reparent_other:
  "tk_relation k \<notin> {''parent'', ''child''} \<or> (tk_object k \<noteq> ob \<and> tk_user k \<noteq> ob) \<Longrightarrow> k \<in> reparent T ob p \<longleftrightarrow> k \<in> T"
  by (auto simp: reparent_def split: if_splits)

lemma forget_mirrored:
  assumes "mirrored T"
  shows "mirrored (forget T ob) \<longleftrightarrow> (\<nexists>x. x \<noteq> ob \<and> child_in T ob x)"
proof -
  have mirror: "parent_in T x q \<longleftrightarrow> child_in T q x" for x q using assms by (simp add: mirrored_def)
  have "parent_in (forget T ob) x q \<longleftrightarrow> parent_in T x q \<and> x \<noteq> ob" for x q
    by (auto simp: parent_in_def forget_def)
  moreover have "child_in (forget T ob) q x \<longleftrightarrow> child_in T q x \<and> q \<noteq> ob \<and> x \<noteq> ob" for x q
    using mirror [of ob q] by (auto simp: child_in_def parent_in_def forget_def)
  ultimately have "mirrored (forget T ob) \<longleftrightarrow> (\<forall>x q. child_in T q x \<and> x \<noteq> ob \<longrightarrow> q \<noteq> ob)"
    using mirror by (auto simp: mirrored_def)
  then show ?thesis by blast
qed

text \<open>
  Moving an object keeps the hierarchy. On every store that follows the documented contract of
  OpenFGA and stores its links from both ends, \<open>setObjectParentRelation\<close> ends, leaves the object with
  the requested parent as its only parent, keeps all links stored from both ends, and changes no
  other tuple.
\<close>

theorem set_parent_keeps_hierarchy:
  assumes "tuple_store c tuples" and "mirrored (tuples s)"
  shows "\<exists>s'. setObjectParentRelation c ot oi pt pi s = Some s' \<and> mirrored (tuples s') \<and>
    (\<forall>q. parent_in (tuples s') (createAuthzObject ot oi) q \<longleftrightarrow> q = createAuthzObject pt pi) \<and>
    (\<forall>k. tk_relation k \<notin> {''parent'', ''child''} \<or> (tk_object k \<noteq> createAuthzObject ot oi \<and> tk_user k \<noteq> createAuthzObject ot oi) \<longrightarrow>
       (k \<in> tuples s' \<longleftrightarrow> k \<in> tuples s))"
  using tuple_store.set_parent [OF assms(1), of ot oi pt pi s] reparent_links [OF assms(2)]
    reparent_other [where T = "tuples s" and ob = "createAuthzObject ot oi" and p = "createAuthzObject pt pi"] by metis

text \<open>
  A broken link is not repaired. \<open>setObjectParentRelation\<close> takes the child entry of the parent for
  present whenever the parent entry of the object is: a store in which only the parent entry exists is
  left as it is, and the object stays out of reach of navigation from its parent.
\<close>

theorem parent_link_not_repaired:
  assumes "tuple_store c tuples"
    and "parent_in (tuples s) (createAuthzObject ot oi) (createAuthzObject pt pi)"
    and "\<not> child_in (tuples s) (createAuthzObject pt pi) (createAuthzObject ot oi)"
  shows "\<exists>s'. setObjectParentRelation c ot oi pt pi s = Some s' \<and>
    \<not> child_in (tuples s') (createAuthzObject pt pi) (createAuthzObject ot oi)"
proof -
  have "\<not> child_in (reparent (tuples s) (createAuthzObject ot oi) (createAuthzObject pt pi)) (createAuthzObject pt pi) (createAuthzObject ot oi)"
    using assms(2,3) by (simp add: child_in_def reparent_def)
  then show ?thesis using tuple_store.set_parent [OF assms(1), of ot oi pt pi s] by metis
qed

text \<open>
  Deleting an object takes its grants away. After \<open>deleteObjectAuthzRelations\<close> no tuple is about the
  object, so nobody is granted anything on it directly, and the links stay stored from both
  ends exactly when the object had no other object below it (the callers delete the components
  of a device before the device).
\<close>

theorem delete_object_relations:
  assumes "tuple_store c tuples" and "mirrored (tuples s)"
  shows "\<exists>s'. deleteObjectAuthzRelations c ot oi s = Some s' \<and> tuples s' \<subseteq> tuples s \<and>
    (\<forall>u roles. \<not> granted (tuples s') u roles (createAuthzObject ot oi)) \<and>
    (mirrored (tuples s') \<longleftrightarrow> (\<nexists>x. x \<noteq> createAuthzObject ot oi \<and> child_in (tuples s) (createAuthzObject ot oi) x))"
proof -
  have "forget T ob \<subseteq> T" "\<not> granted (forget T ob) u roles ob" for T ob u roles by (auto simp: forget_def granted_def)
  then show ?thesis
    using tuple_store.delete_object [OF assms(1), of ot oi s] forget_mirrored [OF assms(2), of "createAuthzObject ot oi"] by metis
qed

section \<open>Grants\<close>

text \<open>
  Granting and revoking take effect at once. On a store whose checks follow the authorization
  model, after \<open>replaceDirectUserRelation\<close> on a component with the candidates reader and writer, the
  user may write to the component exactly when the new relation is writer, and no other user
  and no other component gains or loses the right to write.
\<close>

theorem replace_relation_effective:
  assumes "checked_store c tuples" and "nextRel \<in> {None, Some Reader, Some Writer}"
  shows "\<exists>s'. replaceDirectUserRelation c DeviceComponent i uid nextRel [Reader, Writer] s = Some s' \<and>
    (checkUserObjectRelation c s' uid CanWrite DeviceComponent i \<longleftrightarrow> nextRel = Some Writer) \<and>
    (\<forall>uid' i'. (uid', i') \<noteq> (uid, i) \<longrightarrow>
       checkUserObjectRelation c s' uid' CanWrite DeviceComponent i' = checkUserObjectRelation c s uid' CanWrite DeviceComponent i')"
proof -
  have store: "tuple_store c tuples" using assms(1) by (simp add: checked_store_def)
  obtain s' where s': "replaceDirectUserRelation c DeviceComponent i uid nextRel [Reader, Writer] s = Some s'"
    and T: "tuples s' = regrant (tuples s) (createAuthzUser uid) (createAuthzObject DeviceComponent i)
      (map_option relation_name nextRel) (map relation_name [Reader, Writer])"
    using tuple_store.replace_relation [OF store, of DeviceComponent i uid nextRel "[Reader, Writer]" s] by blast
  have "tuple_of (createAuthzUser uid') ''writer'' (createAuthzObject DeviceComponent i') \<in> tuples s' \<longleftrightarrow>
      (if (uid', i') = (uid, i) then nextRel = Some Writer
       else tuple_of (createAuthzUser uid') ''writer'' (createAuthzObject DeviceComponent i') \<in> tuples s)" for uid' i'
    using assms(2) unfolding T regrant_def by auto
  then show ?thesis using s' by (auto simp: checked_store.write_check [OF assms(1)])
qed

section \<open>Assignments\<close>

text \<open>The row a tuple contributes, and the table it belongs to.\<close>

definition role_of :: "authz_type \<Rightarrow> string \<Rightarrow> string option" where
  "role_of t r =
     (if t \<in> {Factory, Department} then
        (if r = ''admin'' then Some ''admin'' else if r = ''viewer'' then Some ''viewer'' else None)
      else if t = Device then (if r = ''viewer'' then Some ''viewer'' else None)
      else if r = ''writer'' then Some ''write'' else if r = ''reader'' then Some ''read'' else None)"

definition requested_ids :: "scope_filters \<Rightarrow> authz_type \<Rightarrow> string list option" where
  "requested_ids f t =
     (case t of Factory \<Rightarrow> sf_factoryIds f | Department \<Rightarrow> sf_departmentIds f | Device \<Rightarrow> sf_deviceIds f
      | DeviceComponent \<Rightarrow> sf_componentIds f)"

definition table_of :: "authz_type \<Rightarrow> assignment_rows \<Rightarrow> assignment_row list" where
  "table_of t rows =
     (case t of Factory \<Rightarrow> ar_factory rows | Department \<Rightarrow> ar_department rows | Device \<Rightarrow> ar_device rows
      | DeviceComponent \<Rightarrow> ar_component rows)"

definition row_of :: "scope_filters \<Rightarrow> tuple_key \<Rightarrow> authz_type \<Rightarrow> assignment_row \<Rightarrow> bool" where
  "row_of f k t row \<longleftrightarrow> (case row of (i, role, u) \<Rightarrow>
     parseAuthzUserId (tk_user k) = Some u \<and> parseAuthzObject (tk_object k) = Some (t, i) \<and>
     role_of t (tk_relation k) = Some role \<and> shouldInclude u (sf_userIds f) \<and> shouldInclude i (requested_ids f t))"

lemma add_assignment_rows:
  "set (table_of t (add_assignment f k rows)) = set (table_of t rows) \<union> {row. row_of f k t row}"
proof (cases "parseAuthzUserId (tk_user k)")
  case (Some u)
  show ?thesis
  proof (cases "parseAuthzObject (tk_object k)")
    case obj: (Some p)
    obtain ty i where p: "p = (ty, i)" by (cases p)
    show ?thesis using Some obj unfolding p
      by (cases ty; cases t) (auto simp: add_assignment_def table_of_def row_of_def role_of_def requested_ids_def admin_or_viewer_def)
  qed (use Some in \<open>auto simp: add_assignment_def row_of_def\<close>)
qed (auto simp: add_assignment_def row_of_def)

lemma assignment_fold:
  "set (table_of t (fold (add_assignment f) ks rows)) = set (table_of t rows) \<union> {row. \<exists>k \<in> set ks. row_of f k t row}"
  by (induction ks arbitrary: rows) (auto simp: add_assignment_rows)

definition in_scope :: "scope_filters \<Rightarrow> string \<Rightarrow> bool" where
  "in_scope f ob \<longleftrightarrow> createScopedObjects f = [] \<or> ob \<in> set (createScopedObjects f)"

definition asks_nothing :: "scope_filters \<Rightarrow> bool" where
  "asks_nothing f \<longleftrightarrow> Some [] \<in> {sf_factoryIds f, sf_departmentIds f, sf_deviceIds f, sf_componentIds f, sf_userIds f}"

text \<open>
  The listed assignments are the direct grants in scope. On every store that follows the
  contract, \<open>getScopedAssignments\<close> ends; with an empty list among the requested ids it
  lists nothing, and otherwise a row appears in the table of an object type exactly when the store
  holds a tuple on an object in scope whose user, object and relation read as that row and pass the
  filters.
\<close>

theorem scoped_assignments_exact:
  assumes "tuple_store c tuples"
  shows "\<exists>rows. getScopedAssignments le c f s = Some rows \<and>
    (\<forall>t row. row \<in> set (table_of t rows) \<longleftrightarrow>
       \<not> asks_nothing f \<and> (\<exists>k \<in> tuples s. in_scope f (tk_object k) \<and> row_of f k t row))"
proof -
  have none: "set (table_of t no_rows) = {}" for t by (cases t) (simp_all add: table_of_def no_rows_def)
  show ?thesis
  proof (cases "asks_nothing f")
    case True
    then have "getScopedAssignments le c f s = Some no_rows"
      by (auto simp: getScopedAssignments_def asks_nothing_def hasNoRequestedIds_def)
    then show ?thesis using True none by simp
  next
    case False
    let ?obs = "jset_of (createScopedObjects f)"
    have empty: "?obs = [] \<longleftrightarrow> createScopedObjects f = []" by (metis set_empty set_jset_of)
    obtain ts where read: "(if ?obs = [] then readAllTuples le c s else read_objects c s ?obs) = Some ts"
      and ts: "set ts = {k \<in> tuples s. in_scope f (tk_object k)}"
      using tuple_store.read_all [OF assms, of le s] tuple_store.read_objects_set [OF assms, of s ?obs] empty
      by (cases "?obs = []") (auto simp: in_scope_def)
    have "getScopedAssignments le c f s = Some (fold (add_assignment f) ts no_rows)"
      using False read by (auto simp: getScopedAssignments_def asks_nothing_def hasNoRequestedIds_def Let_def)
    then show ?thesis using False none ts by (simp add: assignment_fold) blast
  qed
qed


section \<open>A store\<close>

text \<open>One factory with a department, a device and a component; an administrator and a reader.\<close>

definition demo_links :: "tuple_key list" where
  "demo_links =
     (let f = createAuthzObject Factory ''f''; d = createAuthzObject Department ''d'';
          v = createAuthzObject Device ''v''; k = createAuthzObject DeviceComponent ''k'' in
      [tuple_of f ''parent'' d, tuple_of d ''child'' f, tuple_of d ''parent'' v, tuple_of v ''child'' d,
       tuple_of v ''parent'' k, tuple_of k ''child'' v])"

definition demo_tuples :: "tuple_key list" where
  "demo_tuples = demo_links @
     [tuple_of (createAuthzUser ''alice'') ''admin'' (createAuthzObject Factory ''f''),
      tuple_of (createAuthzUser ''bob'') ''reader'' (createAuthzObject DeviceComponent ''k'')]"

lemmas demo_store_defs = demo_tuples_def demo_links_def Let_def

lemma demo_typed: "well_typed AUTHORIZATION_MODEL (set demo_tuples)"
  by (simp add: well_typed_def demo_store_defs type_def_model) (simp add: model_defs)

lemma demo_mirrored: "mirrored (set demo_tuples)"
  by (auto simp: mirrored_def parent_in_def child_in_def demo_store_defs)

lemma demo_alice: "device_viewer (set demo_tuples) (createAuthzUser ''alice'') (createAuthzObject Device ''v'')"
  unfolding device_viewer_def department_grant_def
  by (rule disjI2, rule exI [of _ "createAuthzObject Department ''d''"], intro conjI disjI2 exI [of _ "createAuthzObject Factory ''f''"])
    (simp_all add: parent_in_def granted_def demo_store_defs)

theorem authorization_closed_form_witness:
  "allows AUTHORIZATION_MODEL (set demo_tuples) (createAuthzUser ''alice'') ''can_read'' (createAuthzObject Device ''v'') \<and>
   \<not> allows AUTHORIZATION_MODEL (set demo_tuples) (createAuthzUser ''alice'') ''can_write'' (createAuthzObject DeviceComponent ''k'')"
  using authorization_closed_form [OF demo_typed, of "createAuthzUser ''alice''" "''k''" "''v''"] demo_alice
  by (simp add: granted_def demo_store_defs)

theorem navigation_follows_reading_witness:
  "allows AUTHORIZATION_MODEL (set demo_tuples) (createAuthzUser ''bob'') ''can_navigate'' (createAuthzObject Device ''v'')"
proof -
  let ?k = "createAuthzObject DeviceComponent ''k''"
  have "allows AUTHORIZATION_MODEL (set demo_tuples) (createAuthzUser ''bob'') ''can_read'' ?k"
    using component_rules(2) [of ?k "set demo_tuples"] by (simp add: granted_def demo_store_defs)
  moreover have "parent_in (set demo_tuples) ?k (createAuthzObject Device ''v'')" by (simp add: parent_in_def demo_store_defs)
  ultimately show ?thesis
    using navigation_follows_reading [OF demo_typed demo_mirrored, of "createAuthzUser ''bob''" "''v''"] by blast
qed

theorem set_parent_keeps_hierarchy_witness:
  "\<exists>s'. setObjectParentRelation server_client Device ''v'' Department ''e'' demo_tuples = Some s' \<and> mirrored (set s') \<and>
     parent_in (set s') (createAuthzObject Device ''v'') (createAuthzObject Department ''e'')"
  using set_parent_keeps_hierarchy [OF fga.tuple_store_axioms demo_mirrored, of Device "''v''" Department "''e''"] by blast

theorem parent_link_not_repaired_witness:
  "\<exists>s'. setObjectParentRelation server_client Department ''d'' Factory ''f''
       [tuple_of (createAuthzObject Factory ''f'') ''parent'' (createAuthzObject Department ''d'')] = Some s' \<and>
     \<not> child_in (set s') (createAuthzObject Factory ''f'') (createAuthzObject Department ''d'')"
  by (rule parent_link_not_repaired [OF fga.tuple_store_axioms]) (simp_all add: parent_in_def child_in_def)

theorem delete_object_relations_witness:
  "\<exists>s'. deleteObjectAuthzRelations server_client DeviceComponent ''k'' demo_tuples = Some s' \<and> mirrored (set s') \<and>
     \<not> granted (set s') (createAuthzUser ''bob'') [''reader''] (createAuthzObject DeviceComponent ''k'')"
proof -
  have "\<nexists>x. x \<noteq> createAuthzObject DeviceComponent ''k'' \<and> child_in (set demo_tuples) (createAuthzObject DeviceComponent ''k'') x"
    by (auto simp: child_in_def demo_store_defs)
  then show ?thesis
    using delete_object_relations [OF fga.tuple_store_axioms demo_mirrored, of DeviceComponent "''k''"] by blast
qed

theorem replace_relation_effective_witness:
  "\<exists>s'. replaceDirectUserRelation server_client DeviceComponent ''k'' ''bob'' (Some Writer) [Reader, Writer] demo_tuples = Some s' \<and>
     checkUserObjectRelation server_client s' ''bob'' CanWrite DeviceComponent ''k''"
  using replace_relation_effective [OF fga.checked_store_axioms, of "Some Writer" "''k''" "''bob''" demo_tuples] by blast

definition demo_filters :: scope_filters where
  "demo_filters = \<lparr>sf_componentIds = Some [''k''], sf_departmentIds = None, sf_deviceIds = None, sf_factoryIds = None, sf_userIds = None\<rparr>"

theorem scoped_assignments_exact_witness:
  "\<exists>rows. getScopedAssignments (\<lambda>_ _. True) server_client demo_filters demo_tuples = Some rows \<and>
     (''k'', ''read'', ''bob'') \<in> set (table_of DeviceComponent rows)"
proof -
  let ?k = "tuple_of (createAuthzUser ''bob'') ''reader'' (createAuthzObject DeviceComponent ''k'')"
  have "?k \<in> set demo_tuples" by (simp add: demo_store_defs)
  moreover have "row_of demo_filters ?k DeviceComponent (''k'', ''read'', ''bob'')" by code_simp
  moreover have "in_scope demo_filters (tk_object ?k)" "\<not> asks_nothing demo_filters" by code_simp+
  ultimately show ?thesis
    using scoped_assignments_exact [OF fga.tuple_store_axioms, of "\<lambda>_ _. True" demo_filters demo_tuples] by blast
qed

end
