(* ===== verification/Device_Access.thy ===== *)
theory Device_Access
  imports Authz_Props Ws_Handler
begin

text \<open>
  From a grant to a published message. \<open>getDeviceComponentAccessForUser\<close>
  (\<open>lib/authz/device-access.ts\<close>) turns the relations of a user into the components of a device the
  user sees and into a gateway token; the gateway decides on the token's lists alone. The theorems
  join the three parts: authorization model, token, gateway.
\<close>

section \<open>The tables\<close>

record catalog_row =
  ct_key :: string
  ct_description :: "string option"
  ct_navigationLabel :: string
  ct_readActions :: "string list"
  ct_rendererKey :: "string option"
  ct_routePath :: "string option"
  ct_serviceName :: string
  ct_sortOrder :: int
  ct_writeActions :: "string list"

record installation =
  is_id :: string
  is_deviceId :: string
  is_componentKey :: string
  is_enabled :: bool

record device_db =
  db_devices :: "string list"
  db_installations :: "installation list"
  db_catalog :: "catalog_row list"

datatype access_level = AccessRead | AccessWrite

record component_access =
  dc_accessLevel :: access_level
  dc_componentKey :: string
  dc_description :: "string option"
  dc_enabled :: bool
  dc_id :: string
  dc_navigationLabel :: string
  dc_readActions :: "string list"
  dc_rendererKey :: "string option"
  dc_routePath :: "string option"
  dc_serviceName :: string
  dc_sortOrder :: int
  dc_writeActions :: "string list"

text \<open>The join of installations and catalogue for one device.\<close>

definition installation_rows :: "device_db \<Rightarrow> string \<Rightarrow> (installation \<times> catalog_row) list" where
  "installation_rows db deviceId =
     [(i, ct). i \<leftarrow> db_installations db, is_deviceId i = deviceId, ct \<leftarrow> db_catalog db, ct_key ct = is_componentKey i]"

definition access_record :: "access_level \<Rightarrow> installation \<Rightarrow> catalog_row \<Rightarrow> component_access" where
  "access_record level i ct =
     \<lparr>dc_accessLevel = level, dc_componentKey = is_componentKey i, dc_description = ct_description ct,
      dc_enabled = is_enabled i, dc_id = is_id i, dc_navigationLabel = ct_navigationLabel ct,
      dc_readActions = ct_readActions ct, dc_rendererKey = ct_rendererKey ct, dc_routePath = ct_routePath ct,
      dc_serviceName = ct_serviceName ct, dc_sortOrder = ct_sortOrder ct, dc_writeActions = ct_writeActions ct\<rparr>"

section \<open>Access to a device\<close>

datatype access_error = DeviceNotFound | NoDeviceAccess | TokenFailed token_error

record 'token device_access =
  da_canManageUsers :: bool
  da_components :: "component_access list"
  da_gatewayAccessToken :: 'token

definition component_visible :: "bool \<Rightarrow> bool \<Rightarrow> string list \<Rightarrow> installation \<Rightarrow> bool" where
  "component_visible isSysadmin canReadDevice readable i \<longleftrightarrow>
     is_enabled i \<and> (isSysadmin \<or> canReadDevice \<or> is_id i \<in> set readable)"

definition accessible_components ::
  "bool \<Rightarrow> bool \<Rightarrow> string list \<Rightarrow> string list \<Rightarrow> (installation \<times> catalog_row) list \<Rightarrow> component_access list" where
  "accessible_components isSysadmin canReadDevice readable writable rows =
     sort_key dc_sortOrder
       (map (\<lambda>(i, ct). access_record (if isSysadmin \<or> is_id i \<in> set writable then AccessWrite else AccessRead) i ct)
          (filter (\<lambda>(i, _). component_visible isSysadmin canReadDevice readable i) rows))"

definition granted_actions :: "component_access \<Rightarrow> string list" where
  "granted_actions a = (if dc_accessLevel a = AccessWrite then dc_readActions a @ dc_writeActions a else dc_readActions a)"

definition access_payload :: "string \<Rightarrow> string \<Rightarrow> component_access list \<Rightarrow> token_payload" where
  "access_payload userId deviceId components =
     \<lparr>tp_allowedSelectors = concat (map granted_actions components), tp_allowedServiceNames = map dc_serviceName components,
      tp_deviceId = deviceId, tp_userId = userId\<rparr>"

definition getDeviceComponentAccessForUser ::
  "'s fga_client \<Rightarrow> 's \<Rightarrow> (string \<Rightarrow> jwt_request \<Rightarrow> 'token) \<Rightarrow> string option \<Rightarrow> device_db \<Rightarrow> string \<Rightarrow> string \<Rightarrow> bool \<Rightarrow>
   access_error + 'token device_access" where
  "getDeviceComponentAccessForUser c s sign_jwt secret db userId deviceRecordId isSysadmin =
     (if deviceRecordId \<notin> set (db_devices db) then Inl DeviceNotFound
      else if \<not> (isSysadmin \<or> checkUserObjectRelation c s userId CanNavigate Device deviceRecordId) then Inl NoDeviceAccess
      else
        let canReadDevice = (isSysadmin \<or> checkUserObjectRelation c s userId CanRead Device deviceRecordId);
            rows = installation_rows db deviceRecordId;
            canManageUsers = (isSysadmin \<or> checkUserObjectRelation c s userId CanManageUsers Device deviceRecordId);
            readable = (if isSysadmin then [] else listUserAuthorizedObjectIds c s userId CanRead DeviceComponent);
            writable = (if isSysadmin then [] else listUserAuthorizedObjectIds c s userId CanWrite DeviceComponent);
            components = accessible_components isSysadmin canReadDevice readable writable rows
        in case signDeviceGatewayAccessToken sign_jwt secret (access_payload userId deviceRecordId components) None of
             Inl e \<Rightarrow> Inl (TokenFailed e)
           | Inr tok \<Rightarrow> Inr \<lparr>da_canManageUsers = canManageUsers, da_components = components, da_gatewayAccessToken = tok\<rparr>)"

section \<open>What the token allows\<close>

lemma accessible_iff:
  "a \<in> set (accessible_components adm rd readable writable rows) \<longleftrightarrow>
     (\<exists>(i, ct) \<in> set rows. component_visible adm rd readable i \<and>
        a = access_record (if adm \<or> is_id i \<in> set writable then AccessWrite else AccessRead) i ct)"
  by (force simp: accessible_components_def)

text \<open>Names as the manifests and tables hold them: trimmed, not blank and without the selector's colon.\<close>

definition plain_name :: "string \<Rightarrow> bool" where
  "plain_name n \<longleftrightarrow> trim n = n \<and> n \<noteq> [] \<and> CHR '':'' \<notin> set n"

definition plain_rows :: "(installation \<times> catalog_row) list \<Rightarrow> bool" where
  "plain_rows rows \<longleftrightarrow> (\<forall>(i, ct) \<in> set rows. plain_name (ct_serviceName ct) \<and>
     (\<forall>a \<in> set (ct_readActions ct @ ct_writeActions ct). plain_name a))"

lemma normalize_plain: "\<forall>x \<in> set xs. plain_name x \<Longrightarrow> set (normalizeStringList xs) = set xs"
proof -
  assume plain: "\<forall>x \<in> set xs. plain_name x"
  then have "map trim xs = xs" "filter (\<lambda>v. v \<noteq> []) xs = xs" by (simp_all add: plain_name_def map_idI filter_id_conv)
  then show "set (normalizeStringList xs) = set xs" by (simp add: normalizeStringList_def)
qed

text \<open>The gateway's decision in terms of the components the token was issued for.\<close>

definition token_context :: "token_payload \<Rightarrow> client_context" where
  "token_context p = context_of_token
     \<lparr>tp_allowedSelectors = normalizeStringList (tp_allowedSelectors p), tp_allowedServiceNames = normalizeStringList (tp_allowedServiceNames p),
      tp_deviceId = trim (tp_deviceId p), tp_userId = trim (tp_userId p)\<rparr>"

lemma publish_iff:
  assumes names: "\<forall>a \<in> set comps. plain_name (dc_serviceName a) \<and> (\<forall>x \<in> set (granted_actions a). plain_name x)"
    and svc: "pk_service p = Some svc"
  shows "canClientPublishPacket p (token_context (access_payload uid dev comps)) \<longleftrightarrow>
    (\<exists>a \<in> set comps. dc_serviceName a = svc) \<and> (\<exists>a \<in> set comps. env_type (pk_envelope p) \<in> set (granted_actions a))"
proof -
  have sel: "set (normalizeStringList (concat (map granted_actions comps))) = {x. \<exists>a \<in> set comps. x \<in> set (granted_actions a)}"
    using names by (subst normalize_plain) auto
  have svcs: "set (normalizeStringList (map dc_serviceName comps)) = dc_serviceName ` set comps"
    using names by (subst normalize_plain) auto
  have scoped: "x \<notin> {x. \<exists>a \<in> set comps. x \<in> set (granted_actions a)}" if "createTransportActionSelector a b t = Some x" for a b t x
  proof -
    have "CHR '':'' \<in> set x" using that by (auto simp: createTransportActionSelector_def Let_def split: if_splits)
    then show ?thesis using names by (auto simp: plain_name_def)
  qed
  show ?thesis using svc scoped
    by (auto simp: canClientPublishPacket_def token_context_def context_of_token_def access_payload_def sel svcs image_iff
        split: option.splits)
qed


lemma plain_components:
  assumes "plain_rows rows" "a \<in> set (accessible_components adm rd readable writable rows)"
  shows "plain_name (dc_serviceName a) \<and> (\<forall>x \<in> set (granted_actions a). plain_name x)"
  using assms by (auto simp: accessible_iff plain_rows_def access_record_def granted_actions_def split: if_splits)

text \<open>A verified token of an access record carries the payload of the components it was issued for.\<close>

lemma access_token_context:
  assumes jwt: "\<And>key req. \<exists>registered. jwt_verify key (jr_audience req) (jr_issuer req) (sign_jwt key req) =
      Some (jr_claims req @ registered)"
    and ids: "trim uid \<noteq> []" "trim dev \<noteq> []"
    and access: "getDeviceComponentAccessForUser c s sign_jwt secret db uid dev adm = Inr res"
    and verify: "verifyDeviceGatewayAccessToken jwt_verify secret (da_gatewayAccessToken res) = Inr payload"
  shows "context_of_token payload = token_context (access_payload uid dev (da_components res))"
proof -
  have signed: "signDeviceGatewayAccessToken sign_jwt secret (access_payload uid dev (da_components res)) None = Inr (da_gatewayAccessToken res)"
    using access by (auto simp: getDeviceComponentAccessForUser_def Let_def split: if_splits sum.splits)
  have "blank_to_none secret \<noteq> None"
    using signed by (auto simp: signDeviceGatewayAccessToken_def readRequiredSecret_def Let_def split: option.splits)
  from token_roundtrip [of jwt_verify sign_jwt secret "access_payload uid dev (da_components res)" None, OF jwt this]
  show ?thesis using ids signed verify by (auto simp: access_payload_def token_context_def)
qed

definition clean_components :: "tuple_key set \<Rightarrow> bool" where
  "clean_components T \<longleftrightarrow> (\<forall>k \<in> T. object_type (tk_object k) = ''device_component'' \<longrightarrow>
     (\<exists>i. tk_object k = createAuthzObject DeviceComponent i \<and> plain_name i))"

lemma listed_components:
  assumes "checked_store c tuples" "clean_components (tuples s)"
  shows "i \<in> set (listUserAuthorizedObjectIds c s uid r DeviceComponent) \<longleftrightarrow> plain_name i \<and> checkUserObjectRelation c s uid r DeviceComponent i"
proof -
  have "\<exists>j. ob = createAuthzObject DeviceComponent j \<and> trim j = j \<and> j \<noteq> [] \<and> CHR '':'' \<notin> set j"
    if "object_type ob = type_name DeviceComponent" "allows AUTHORIZATION_MODEL (tuples s) (createAuthzUser uid) (relation_name r) ob" for ob
    using allows_object [OF that(2)] that(1) assms(2) by (force simp: clean_components_def plain_name_def)
  from checked_store.listed_ids [OF assms(1) this] show ?thesis by (auto simp: plain_name_def)
qed

section \<open>Properties\<close>



text \<open>
  C37. Action names shared between components escalate. The gateway compares the type of a packet
  with the union of the actions of all components of the token. When two enabled components of a
  device have a write action of one name, a user who is a writer of the first and only a reader
  of the second can publish that write action to the service of the second.
\<close>

theorem shared_action_escalates:
  assumes store: "checked_store c tuples" and clean: "clean_components (tuples s)"
    and jwt: "\<And>key req. \<exists>registered. jwt_verify key (jr_audience req) (jr_issuer req) (sign_jwt key req) =
      Some (jr_claims req @ registered)"
    and ids: "trim uid \<noteq> []" "trim dev \<noteq> []"
    and access: "getDeviceComponentAccessForUser c s sign_jwt secret db uid dev False = Inr res"
    and verify: "verifyDeviceGatewayAccessToken jwt_verify secret (da_gatewayAccessToken res) = Inr payload"
    and rows: "plain_rows (installation_rows db dev)" "(i, ct) \<in> set (installation_rows db dev)" "(j, ct') \<in> set (installation_rows db dev)"
    and enabled: "is_enabled i" "is_enabled j" and names: "plain_name (is_id i)" "plain_name (is_id j)"
    and writer: "tuple_of (createAuthzUser uid) ''writer'' (createAuthzObject DeviceComponent (is_id i)) \<in> tuples s"
    and reader: "tuple_of (createAuthzUser uid) ''reader'' (createAuthzObject DeviceComponent (is_id j)) \<in> tuples s"
    and shared: "a \<in> set (ct_writeActions ct)" "a \<in> set (ct_writeActions ct')"
    and packet: "pk_service p = Some (ct_serviceName ct')" "env_type (pk_envelope p) = a"
  shows "canClientPublishPacket p (context_of_token payload)"
proof -
  let ?readable = "listUserAuthorizedObjectIds c s uid CanRead DeviceComponent"
  let ?writable = "listUserAuthorizedObjectIds c s uid CanWrite DeviceComponent"
  obtain rd where comps: "da_components res = accessible_components False rd ?readable ?writable (installation_rows db dev)"
    using access by (auto simp: getDeviceComponentAccessForUser_def Let_def split: if_splits sum.splits)
  have reads: "checkUserObjectRelation c s uid CanRead DeviceComponent x"
    if "granted (tuples s) (createAuthzUser uid) [''reader'', ''writer''] (createAuthzObject DeviceComponent x)" for x
    using that checked_store.checks [OF store] by (simp add: checkUserObjectRelation_def component_rules(2))
  have "is_id i \<in> set ?writable" "is_id i \<in> set ?readable" "is_id j \<in> set ?readable"
    using writer reader names reads checked_store.write_check [OF store]
    by (simp_all add: listed_components [OF store clean] granted_def)
  then have "access_record AccessWrite i ct \<in> set (da_components res)"
    "\<exists>level. access_record level j ct' \<in> set (da_components res)"
    using rows(2,3) enabled by (auto simp: comps accessible_iff component_visible_def intro!: bexI)
  then have "\<exists>x \<in> set (da_components res). a \<in> set (granted_actions x)" "\<exists>x \<in> set (da_components res). dc_serviceName x = ct_serviceName ct'"
    using shared(1) by (force simp: granted_actions_def access_record_def)+
  then show ?thesis
    using packet publish_iff [of "da_components res" p] plain_components [OF rows(1)] comps
    unfolding access_token_context [OF jwt ids access verify] by metis
qed


section \<open>A device with two components\<close>

definition access_store :: "tuple_key list" where
  "access_store =
     [tuple_of (createAuthzObject DeviceComponent ''ka'') ''child'' (createAuthzObject Device ''v''),
      tuple_of (createAuthzUser ''bob'') ''writer'' (createAuthzObject DeviceComponent ''ka''),
      tuple_of (createAuthzUser ''bob'') ''reader'' (createAuthzObject DeviceComponent ''kb'')]"

definition access_catalog :: "string \<Rightarrow> string list \<Rightarrow> string list \<Rightarrow> catalog_row" where
  "access_catalog n rs ws = \<lparr>ct_key = n, ct_description = None, ct_navigationLabel = n, ct_readActions = rs,
     ct_rendererKey = None, ct_routePath = None, ct_serviceName = n, ct_sortOrder = 0, ct_writeActions = ws\<rparr>"

definition access_install :: "string \<Rightarrow> string \<Rightarrow> installation" where
  "access_install i key = \<lparr>is_id = i, is_deviceId = ''v'', is_componentKey = key, is_enabled = True\<rparr>"

definition access_db :: device_db where
  "access_db = \<lparr>db_devices = [''v''], db_installations = [access_install ''ka'' ''a'', access_install ''kb'' ''b''],
     db_catalog = [access_catalog ''a'' [''get-x''] [''restart'', ''zoom''], access_catalog ''b'' [''get-y''] [''restart'']]\<rparr>"

definition access_packet :: "string \<Rightarrow> string \<Rightarrow> packet" where
  "access_packet svc t = \<lparr>pk_deviceId = ''v'', pk_envelope = [(''type'', JStr t)], pk_service = Some svc, pk_subtopic = ''command''\<rparr>"

lemma access_rows:
  "installation_rows access_db ''v'' =
     [(access_install ''ka'' ''a'', access_catalog ''a'' [''get-x''] [''restart'', ''zoom'']),
      (access_install ''kb'' ''b'', access_catalog ''b'' [''get-y''] [''restart''])]"
  "plain_rows (installation_rows access_db ''v'')" "plain_name ''ka''" "plain_name ''kb''"
  by code_simp+

lemma access_clean: "clean_components (set access_store)"
  using access_rows(3,4) by (auto simp: clean_components_def access_store_def)

lemma demo_jwt: "\<exists>registered. demo_verify key (jr_audience req) (jr_issuer req) (demo_sign key req) = Some (jr_claims req @ registered)"
  by (simp add: demo_verify_def demo_sign_def)

lemma access_ids: "trim ''bob'' \<noteq> []" "trim ''v'' \<noteq> []"
  by code_simp+

lemma access_tuples:
  "child_in (set access_store) (createAuthzObject Device ''v'') (createAuthzObject DeviceComponent ''ka'')"
  "tuple_of (createAuthzUser ''bob'') ''writer'' (createAuthzObject DeviceComponent ''ka'') \<in> set access_store"
  "tuple_of (createAuthzUser ''bob'') ''reader'' (createAuthzObject DeviceComponent ''kb'') \<in> set access_store"
  "tuple_of (createAuthzUser ''bob'') ''writer'' (createAuthzObject DeviceComponent ''kb'') \<notin> set access_store"
  by (simp_all add: child_in_def access_store_def)

lemma access_reads: "allows AUTHORIZATION_MODEL (set access_store) (createAuthzUser ''bob'') ''can_read'' (createAuthzObject DeviceComponent ''ka'')"
  using component_rules(2) [of "createAuthzObject DeviceComponent ''ka''"] access_tuples(2) by (auto simp: granted_def)

lemma access_packet_simps:
  "env_type (pk_envelope (access_packet svc t)) = t" "pk_service (access_packet svc t) = Some svc"
  by (simp_all add: access_packet_def env_type_def obj_get_def)

lemma access_granted:
  "\<exists>res payload. getDeviceComponentAccessForUser server_client access_store demo_sign (Some ''s'') access_db ''bob'' ''v'' False = Inr res \<and>
     verifyDeviceGatewayAccessToken demo_verify (Some ''s'') (da_gatewayAccessToken res) = Inr payload"
proof -
  have "allows AUTHORIZATION_MODEL (set access_store) (createAuthzUser ''bob'') ''can_navigate'' (createAuthzObject Device ''v'')"
    using navigate_child [OF _ access_tuples(1)] component_navigate [of "createAuthzObject DeviceComponent ''ka''"] access_reads by simp
  then have nav: "checkUserObjectRelation server_client access_store ''bob'' CanNavigate Device ''v''"
    by (simp add: checkUserObjectRelation_def fga.checks)
  have secret: "blank_to_none (Some ''s'') \<noteq> None" by code_simp
  have signed: "\<exists>tok payload. signDeviceGatewayAccessToken demo_sign (Some ''s'') (access_payload ''bob'' ''v'' comps) None = Inr tok \<and>
      verifyDeviceGatewayAccessToken demo_verify (Some ''s'') tok = Inr payload" for comps
    using token_roundtrip [of demo_verify demo_sign "Some ''s''" "access_payload ''bob'' ''v'' comps" None, OF demo_jwt secret] access_ids
    by (auto simp: access_payload_def)
  have dev: "''v'' \<in> set (db_devices access_db)" by (simp add: access_db_def)
  define comps where "comps = accessible_components False (checkUserObjectRelation server_client access_store ''bob'' CanRead Device ''v'')
    (listUserAuthorizedObjectIds server_client access_store ''bob'' CanRead DeviceComponent)
    (listUserAuthorizedObjectIds server_client access_store ''bob'' CanWrite DeviceComponent) (installation_rows access_db ''v'')"
  obtain tok payload where "signDeviceGatewayAccessToken demo_sign (Some ''s'') (access_payload ''bob'' ''v'' comps) None = Inr tok"
    "verifyDeviceGatewayAccessToken demo_verify (Some ''s'') tok = Inr payload" using signed by blast
  then show ?thesis using nav dev by (simp add: getDeviceComponentAccessForUser_def Let_def flip: comps_def)
qed

theorem shared_action_escalates_witness:
  "\<exists>res payload. getDeviceComponentAccessForUser server_client access_store demo_sign (Some ''s'') access_db ''bob'' ''v'' False = Inr res \<and>
     verifyDeviceGatewayAccessToken demo_verify (Some ''s'') (da_gatewayAccessToken res) = Inr payload \<and>
     canClientPublishPacket (access_packet ''b'' ''restart'') (context_of_token payload) \<and>
     tuple_of (createAuthzUser ''bob'') ''writer'' (createAuthzObject DeviceComponent ''kb'') \<notin> set access_store"
proof -
  obtain res payload where run: "getDeviceComponentAccessForUser server_client access_store demo_sign (Some ''s'') access_db ''bob'' ''v'' False = Inr res"
    "verifyDeviceGatewayAccessToken demo_verify (Some ''s'') (da_gatewayAccessToken res) = Inr payload"
    using access_granted by blast
  have "canClientPublishPacket (access_packet ''b'' ''restart'') (context_of_token payload)"
    by (rule shared_action_escalates [OF fga.checked_store_axioms access_clean demo_jwt access_ids run access_rows(2),
        of "access_install ''ka'' ''a''" "access_catalog ''a'' [''get-x''] [''restart'', ''zoom'']"
           "access_install ''kb'' ''b''" "access_catalog ''b'' [''get-y''] [''restart'']" "''restart''"])
      (simp_all add: access_rows access_packet_simps access_install_def access_catalog_def access_tuples)
  then show ?thesis using run access_tuples(4) by blast
qed


end
