(* ===== verification/Backend_Db.thy ===== *)
theory Backend_Db
  imports Device_Access
begin

text \<open>
  The backend's database (\<open>trakrai-backend/src/db/schema.ts\<close>) and the shape of its request handlers.
  A table is the list of its rows; an insert or update that breaks a primary key, a unique index or a
  foreign key of the schema fails. Time stamps are kept only where a query orders by them. A handler
  runs on the database and the authorization store together: it returns a result or an error with
  the state it leaves behind, or \<open>None\<close> when a loop over the store's pages does not end. Requests are
  handled one after the other.
\<close>

section \<open>Tables\<close>

record factory_row =
  fr_id :: string
  fr_name :: string
  fr_description :: "string option"

record department_row =
  dr_id :: string
  dr_factoryId :: string
  dr_name :: string
  dr_description :: "string option"

record device_row =
  dv_id :: string
  dv_departmentId :: string
  dv_name :: string
  dv_description :: "string option"
  dv_accessToken :: string
  dv_isActive :: bool
  dv_createdAt :: nat

record catalog_entry = catalog_row +
  ce_displayName :: string
  ce_defaultEnabled :: bool

record user_row =
  us_id :: string
  us_name :: string
  us_email :: string
  us_role :: "string option"
  us_banned :: "bool option"
  us_emailVerified :: bool

record backend_db =
  bd_factories :: "factory_row list"
  bd_departments :: "department_row list"
  bd_devices :: "device_row list"
  bd_catalog :: "catalog_entry list"
  bd_installations :: "installation list"
  bd_users :: "user_row list"

text \<open>The part of the database that \<open>getDeviceComponentAccessForUser\<close> reads.\<close>

definition access_view :: "backend_db \<Rightarrow> device_db" where
  "access_view db = \<lparr>db_devices = map dv_id (bd_devices db), db_installations = bd_installations db,
     db_catalog = map catalog_row.truncate (bd_catalog db)\<rparr>"

section \<open>Handlers\<close>

datatype sql_error = UniqueViolation | ForeignKeyViolation | MissingFromClause

datatype trpc_error =
    Unauthorized string
  | Forbidden string
  | NotFound string
  | BadRequest string
  | InternalError string
  | PlainError string
  | SqlFailed sql_error

record 's backend =
  bk_db :: backend_db
  bk_authz :: 's

type_synonym ('s, 'a) handler = "'s backend \<Rightarrow> ((trpc_error + 'a) \<times> 's backend) option"

definition hreturn :: "'a \<Rightarrow> ('s, 'a) handler" where
  "hreturn x = (\<lambda>s. Some (Inr x, s))"

definition hfail :: "trpc_error \<Rightarrow> ('s, 'a) handler" where
  "hfail e = (\<lambda>s. Some (Inl e, s))"

definition hbind :: "('s, 'a) handler \<Rightarrow> ('a \<Rightarrow> ('s, 'b) handler) \<Rightarrow> ('s, 'b) handler" where
  "hbind m f = (\<lambda>s. case m s of None \<Rightarrow> None | Some (Inl e, s') \<Rightarrow> Some (Inl e, s') | Some (Inr x, s') \<Rightarrow> f x s')"

definition hcheck :: "trpc_error + unit \<Rightarrow> ('s, unit) handler" where
  "hcheck r = (case r of Inl e \<Rightarrow> hfail e | Inr _ \<Rightarrow> hreturn ())"

text \<open>A query, a statement that may break a constraint, and a call of the authorization store.\<close>

definition hquery :: "(backend_db \<Rightarrow> 'a) \<Rightarrow> ('s, 'a) handler" where
  "hquery q = (\<lambda>s. Some (Inr (q (bk_db s)), s))"

definition hexec :: "(backend_db \<Rightarrow> sql_error + backend_db) \<Rightarrow> ('s, unit) handler" where
  "hexec f = (\<lambda>s. case f (bk_db s) of Inl e \<Rightarrow> Some (Inl (SqlFailed e), s) | Inr db \<Rightarrow> Some (Inr (), s\<lparr>bk_db := db\<rparr>))"

definition hauthz :: "('s \<Rightarrow> 's option) \<Rightarrow> ('s, unit) handler" where
  "hauthz f = (\<lambda>s. case f (bk_authz s) of None \<Rightarrow> None | Some a \<Rightarrow> Some (Inr (), s\<lparr>bk_authz := a\<rparr>))"

definition hask :: "('s \<Rightarrow> 'a) \<Rightarrow> ('s, 'a) handler" where
  "hask q = (\<lambda>s. Some (Inr (q (bk_authz s)), s))"

fun hfor :: "('x \<Rightarrow> ('s, unit) handler) \<Rightarrow> 'x list \<Rightarrow> ('s, unit) handler" where
  "hfor f [] = hreturn ()"
| "hfor f (x # xs) = hbind (f x) (\<lambda>_. hfor f xs)"

lemmas handler_defs = hreturn_def hfail_def hbind_def hcheck_def hquery_def hexec_def hauthz_def hask_def

section \<open>Statements\<close>

definition insert_factory :: "factory_row \<Rightarrow> backend_db \<Rightarrow> sql_error + backend_db" where
  "insert_factory r db =
     (if fr_id r \<in> fr_id ` set (bd_factories db) then Inl UniqueViolation
      else Inr (db\<lparr>bd_factories := bd_factories db @ [r]\<rparr>))"

definition insert_department :: "department_row \<Rightarrow> backend_db \<Rightarrow> sql_error + backend_db" where
  "insert_department r db =
     (if dr_id r \<in> dr_id ` set (bd_departments db) then Inl UniqueViolation
      else if dr_factoryId r \<notin> fr_id ` set (bd_factories db) then Inl ForeignKeyViolation
      else Inr (db\<lparr>bd_departments := bd_departments db @ [r]\<rparr>))"

definition insert_device :: "device_row \<Rightarrow> backend_db \<Rightarrow> sql_error + backend_db" where
  "insert_device r db =
     (if dv_id r \<in> dv_id ` set (bd_devices db) \<or> dv_accessToken r \<in> dv_accessToken ` set (bd_devices db) then Inl UniqueViolation
      else if dv_departmentId r \<notin> dr_id ` set (bd_departments db) then Inl ForeignKeyViolation
      else Inr (db\<lparr>bd_devices := bd_devices db @ [r]\<rparr>))"

definition insert_catalog :: "catalog_entry \<Rightarrow> backend_db \<Rightarrow> sql_error + backend_db" where
  "insert_catalog r db =
     (if ct_key r \<in> ct_key ` set (bd_catalog db) then Inl UniqueViolation
      else Inr (db\<lparr>bd_catalog := bd_catalog db @ [r]\<rparr>))"

text \<open>One statement inserts several rows, or none.\<close>

fun insert_installations :: "installation list \<Rightarrow> backend_db \<Rightarrow> sql_error + backend_db" where
  "insert_installations [] db = Inr db"
| "insert_installations (r # rs) db =
     (if is_id r \<in> is_id ` set (bd_installations db) \<or>
         (is_deviceId r, is_componentKey r) \<in> (\<lambda>i. (is_deviceId i, is_componentKey i)) ` set (bd_installations db) then Inl UniqueViolation
      else if is_deviceId r \<notin> dv_id ` set (bd_devices db) \<or> is_componentKey r \<notin> ct_key ` set (bd_catalog db) then Inl ForeignKeyViolation
      else insert_installations rs (db\<lparr>bd_installations := bd_installations db @ [r]\<rparr>))"

definition update_factory :: "string \<Rightarrow> (factory_row \<Rightarrow> factory_row) \<Rightarrow> backend_db \<Rightarrow> sql_error + backend_db" where
  "update_factory i f db = Inr (db\<lparr>bd_factories := map (\<lambda>r. if fr_id r = i then f r else r) (bd_factories db)\<rparr>)"

definition update_department :: "string \<Rightarrow> string \<Rightarrow> (department_row \<Rightarrow> department_row) \<Rightarrow> backend_db \<Rightarrow> sql_error + backend_db" where
  "update_department i factoryId f db =
     (if i \<in> dr_id ` set (bd_departments db) \<and> factoryId \<notin> fr_id ` set (bd_factories db) then Inl ForeignKeyViolation
      else Inr (db\<lparr>bd_departments := map (\<lambda>r. if dr_id r = i then (f r)\<lparr>dr_factoryId := factoryId\<rparr> else r) (bd_departments db)\<rparr>))"

definition update_device :: "string \<Rightarrow> string \<Rightarrow> (device_row \<Rightarrow> device_row) \<Rightarrow> backend_db \<Rightarrow> sql_error + backend_db" where
  "update_device i departmentId f db =
     (if i \<in> dv_id ` set (bd_devices db) \<and> departmentId \<notin> dr_id ` set (bd_departments db) then Inl ForeignKeyViolation
      else Inr (db\<lparr>bd_devices := map (\<lambda>r. if dv_id r = i then (f r)\<lparr>dv_departmentId := departmentId\<rparr> else r) (bd_devices db)\<rparr>))"

definition update_catalog :: "string \<Rightarrow> (catalog_entry \<Rightarrow> catalog_entry) \<Rightarrow> backend_db \<Rightarrow> sql_error + backend_db" where
  "update_catalog k f db = Inr (db\<lparr>bd_catalog := map (\<lambda>r. if ct_key r = k then f r else r) (bd_catalog db)\<rparr>)"

definition update_installation :: "string \<Rightarrow> bool \<Rightarrow> backend_db \<Rightarrow> sql_error + backend_db" where
  "update_installation i enabled db =
     Inr (db\<lparr>bd_installations := map (\<lambda>r. if is_id r = i then r\<lparr>is_enabled := enabled\<rparr> else r) (bd_installations db)\<rparr>)"

text \<open>\<open>onDelete: 'cascade'\<close> takes the device's installations along.\<close>

definition delete_device :: "string \<Rightarrow> backend_db \<Rightarrow> sql_error + backend_db" where
  "delete_device i db =
     Inr (db\<lparr>bd_devices := filter (\<lambda>r. dv_id r \<noteq> i) (bd_devices db),
             bd_installations := filter (\<lambda>r. is_deviceId r \<noteq> i) (bd_installations db)\<rparr>)"

end
