(* ===== verification/Access_Control.thy ===== *)
theory Access_Control
  imports Backend_Db
begin

text \<open>
  The requests that change the backend: the access control router
  (\<open>server/routers/access-control/router.ts\<close> and \<open>helpers.ts\<close>) and the devices router
  (\<open>server/routers/devices.ts\<close>). Inputs are the values the input schemas let through. The identifiers
  that \<open>randomUUID\<close> draws are the sequence \<open>fresh\<close>. A statement with \<open>returning()\<close> gives the rows it
  wrote, so the branches for an insert without a row cannot be taken and are left out.
\<close>

section \<open>Guards\<close>

record caller =
  cl_id :: string
  cl_role :: "string option"

definition requireSysAdmin :: "string option \<Rightarrow> trpc_error + unit" where
  "requireSysAdmin role = (if \<not> isSysAdminRole role then Inl (Forbidden ''Only sysadmins can perform this action.'') else Inr ())"

definition requireDeviceSysAdmin :: "string option \<Rightarrow> trpc_error + unit" where
  "requireDeviceSysAdmin role = (if \<not> isSysAdminRole role then Inl (Forbidden ''Only sysadmins can manage registered devices.'') else Inr ())"

definition assertUserCanManageScope :: "'s fga_client \<Rightarrow> caller \<Rightarrow> authz_type \<Rightarrow> string \<Rightarrow> ('s, unit) handler" where
  "assertUserCanManageScope c u scopeType scopeId =
     (if isSysAdminRole (cl_role u) then hreturn ()
      else hbind (hask (\<lambda>a. ensureUserCanManageObject c a (cl_id u) scopeType scopeId)) (\<lambda>r.
        case r of Inl m \<Rightarrow> hfail (PlainError m) | Inr _ \<Rightarrow> hreturn ()))"

definition normalizeOptionalText :: "string \<Rightarrow> string option" where
  "normalizeOptionalText v = blank_to_none (Some v)"

definition normalizeStringArray :: "string list \<Rightarrow> string list" where
  "normalizeStringArray values = jset_of (filter (\<lambda>v. v \<noteq> []) (map trim values))"

section \<open>Factories, departments and the catalogue\<close>

definition createFactory :: "(nat \<Rightarrow> string) \<Rightarrow> caller \<Rightarrow> string \<Rightarrow> string \<Rightarrow> ('s, factory_row) handler" where
  "createFactory fresh u description name =
     hbind (hcheck (requireSysAdmin (cl_role u))) (\<lambda>_.
     let row = \<lparr>fr_id = fresh 0, fr_name = name, fr_description = normalizeOptionalText description\<rparr> in
     hbind (hexec (insert_factory row)) (\<lambda>_. hreturn row))"

definition createDepartment ::
  "'s fga_client \<Rightarrow> (nat \<Rightarrow> string) \<Rightarrow> caller \<Rightarrow> string \<Rightarrow> string \<Rightarrow> string \<Rightarrow> ('s, department_row) handler" where
  "createDepartment c fresh u description factoryId name =
     hbind (hcheck (requireSysAdmin (cl_role u))) (\<lambda>_.
     let row = \<lparr>dr_id = fresh 0, dr_factoryId = factoryId, dr_name = name, dr_description = normalizeOptionalText description\<rparr> in
     hbind (hexec (insert_department row)) (\<lambda>_.
     hbind (hauthz (setObjectParentRelation c Department (dr_id row) Factory (dr_factoryId row))) (\<lambda>_. hreturn row)))"

definition parent_keys :: "installation \<Rightarrow> tuple_key list" where
  "parent_keys i = (case createObjectParentTupleKeys DeviceComponent (is_id i) Device (is_deviceId i) of (p, ch) \<Rightarrow> [p, ch])"

definition createCatalogEntry ::
  "'s fga_client \<Rightarrow> (nat \<Rightarrow> string) \<Rightarrow> caller \<Rightarrow> catalog_entry \<Rightarrow> ('s, catalog_entry) handler" where
  "createCatalogEntry c fresh u input =
     hbind (hcheck (requireSysAdmin (cl_role u))) (\<lambda>_.
     let row = input\<lparr>ct_description := blank_to_none (ct_description input), ct_readActions := normalizeStringArray (ct_readActions input),
           ct_rendererKey := blank_to_none (ct_rendererKey input), ct_routePath := blank_to_none (ct_routePath input),
           ct_writeActions := normalizeStringArray (ct_writeActions input)\<rparr> in
     hbind (hexec (insert_catalog row)) (\<lambda>_.
     hbind (hquery (\<lambda>db. map dv_id (bd_devices db))) (\<lambda>existingDevices.
     if existingDevices = [] then hreturn row
     else
       let installations = map (\<lambda>(n, d). \<lparr>is_id = fresh n, is_deviceId = d, is_componentKey = ct_key row, is_enabled = ce_defaultEnabled row\<rparr>)
             (List.enumerate 0 existingDevices) in
       hbind (hexec (insert_installations installations)) (\<lambda>_.
       hbind (hauthz (\<lambda>a. Some (writeAuthzTuples c (concat (map parent_keys installations)) a))) (\<lambda>_. hreturn row)))))"

definition updateFactory :: "caller \<Rightarrow> string \<Rightarrow> string \<Rightarrow> string \<Rightarrow> ('s, factory_row) handler" where
  "updateFactory u i description name =
     hbind (hcheck (requireSysAdmin (cl_role u))) (\<lambda>_.
     hbind (hexec (update_factory i (\<lambda>r. r\<lparr>fr_description := normalizeOptionalText description, fr_name := name\<rparr>))) (\<lambda>_.
     hbind (hquery (\<lambda>db. find (\<lambda>r. fr_id r = i) (bd_factories db))) (\<lambda>r.
     case r of None \<Rightarrow> hfail (NotFound ''Factory not found.'') | Some row \<Rightarrow> hreturn row)))"

definition updateDepartment ::
  "'s fga_client \<Rightarrow> caller \<Rightarrow> string \<Rightarrow> string \<Rightarrow> string \<Rightarrow> string \<Rightarrow> ('s, department_row) handler" where
  "updateDepartment c u i description factoryId name =
     hbind (hcheck (requireSysAdmin (cl_role u))) (\<lambda>_.
     hbind (hexec (update_department i factoryId (\<lambda>r. r\<lparr>dr_description := normalizeOptionalText description, dr_name := name\<rparr>))) (\<lambda>_.
     hbind (hquery (\<lambda>db. find (\<lambda>r. dr_id r = i) (bd_departments db))) (\<lambda>r.
     case r of
       None \<Rightarrow> hfail (NotFound ''Department not found.'')
     | Some row \<Rightarrow>
         hbind (hauthz (setObjectParentRelation c Department (dr_id row) Factory (dr_factoryId row))) (\<lambda>_. hreturn row))))"

definition updateCatalogEntry :: "caller \<Rightarrow> catalog_entry \<Rightarrow> ('s, catalog_entry) handler" where
  "updateCatalogEntry u input =
     hbind (hcheck (requireSysAdmin (cl_role u))) (\<lambda>_.
     hbind (hexec (update_catalog (ct_key input) (\<lambda>_. input\<lparr>ct_description := blank_to_none (ct_description input),
           ct_readActions := normalizeStringArray (ct_readActions input), ct_rendererKey := blank_to_none (ct_rendererKey input),
           ct_routePath := blank_to_none (ct_routePath input), ct_writeActions := normalizeStringArray (ct_writeActions input)\<rparr>))) (\<lambda>_.
     hbind (hquery (\<lambda>db. find (\<lambda>r. ct_key r = ct_key input) (bd_catalog db))) (\<lambda>r.
     case r of None \<Rightarrow> hfail (NotFound ''Device app catalog entry not found.'') | Some row \<Rightarrow> hreturn row)))"

definition setInstallationState ::
  "'s fga_client \<Rightarrow> (nat \<Rightarrow> string) \<Rightarrow> caller \<Rightarrow> string \<Rightarrow> string \<Rightarrow> bool \<Rightarrow> ('s, installation option) handler" where
  "setInstallationState c fresh u componentKey deviceId enabled =
     hbind (hcheck (requireSysAdmin (cl_role u))) (\<lambda>_.
     hbind (hquery (\<lambda>db. find (\<lambda>i. is_deviceId i = deviceId \<and> is_componentKey i = componentKey) (bd_installations db))) (\<lambda>existing.
     case existing of
       None \<Rightarrow>
         let row = \<lparr>is_id = fresh 0, is_deviceId = deviceId, is_componentKey = componentKey, is_enabled = enabled\<rparr> in
         hbind (hexec (insert_installations [row])) (\<lambda>_.
         hbind (hauthz (\<lambda>a. Some (writeAuthzTuples c (parent_keys row) a))) (\<lambda>_. hreturn (Some row)))
     | Some i \<Rightarrow>
         hbind (hexec (update_installation (is_id i) enabled)) (\<lambda>_.
         hquery (\<lambda>db. find (\<lambda>r. is_id r = is_id i) (bd_installations db)))))"

section \<open>Assignments\<close>

datatype scope_role = RoleAdmin | RoleViewer

datatype assignment =
    AssignFactory scope_role string string
  | AssignDepartment scope_role string string
  | AssignDevice string string
  | AssignComponent access_level string string

fun assignment_scope :: "assignment \<Rightarrow> authz_type \<times> string" where
  "assignment_scope (AssignFactory _ i _) = (Factory, i)"
| "assignment_scope (AssignDepartment _ i _) = (Department, i)"
| "assignment_scope (AssignDevice i _) = (Device, i)"
| "assignment_scope (AssignComponent _ i _) = (DeviceComponent, i)"

fun candidate_relations :: "authz_type \<Rightarrow> authz_relation list" where
  "candidate_relations Factory = [Admin, Viewer]"
| "candidate_relations Department = [Admin, Viewer]"
| "candidate_relations Device = [Viewer]"
| "candidate_relations DeviceComponent = [Reader, Writer]"

definition readInstallationOrThrow :: "string \<Rightarrow> ('s, installation) handler" where
  "readInstallationOrThrow installationId =
     hbind (hquery (\<lambda>db. find (\<lambda>i. is_id i = installationId) (bd_installations db))) (\<lambda>r.
       case r of None \<Rightarrow> hfail (NotFound ''Component installation not found.'') | Some i \<Rightarrow> hreturn i)"

definition removeAssignment :: "'s fga_client \<Rightarrow> caller \<Rightarrow> authz_type \<Rightarrow> string \<Rightarrow> string \<Rightarrow> ('s, unit) handler" where
  "removeAssignment c u scopeType scopeId userId =
     hbind (assertUserCanManageScope c u scopeType scopeId) (\<lambda>_.
     hauthz (replaceDirectUserRelation c scopeType scopeId userId None (candidate_relations scopeType)))"

definition upsertAssignment :: "'s fga_client \<Rightarrow> caller \<Rightarrow> assignment \<Rightarrow> ('s, unit) handler" where
  "upsertAssignment c u input =
     hbind (case assignment_scope input of (t, i) \<Rightarrow> assertUserCanManageScope c u t i) (\<lambda>_.
     case input of
       AssignFactory role i userId \<Rightarrow>
         hauthz (replaceDirectUserRelation c Factory i userId (Some (if role = RoleAdmin then Admin else Viewer)) (candidate_relations Factory))
     | AssignDepartment role i userId \<Rightarrow>
         hauthz (replaceDirectUserRelation c Department i userId (Some (if role = RoleAdmin then Admin else Viewer)) (candidate_relations Department))
     | AssignDevice i userId \<Rightarrow>
         hauthz (replaceDirectUserRelation c Device i userId (Some Viewer) (candidate_relations Device))
     | AssignComponent level i userId \<Rightarrow>
         hbind (readInstallationOrThrow i) (\<lambda>_.
         hauthz (replaceDirectUserRelation c DeviceComponent i userId (Some (if level = AccessWrite then Writer else Reader)) (candidate_relations DeviceComponent))))"

section \<open>Devices\<close>

record device_item =
  di_accessToken :: "string option"
  di_canManageUsers :: bool
  di_departmentId :: string
  di_departmentName :: string
  di_description :: "string option"
  di_factoryId :: string
  di_factoryName :: string
  di_id :: string
  di_isActive :: bool
  di_name :: string

definition joined_device :: "device_row \<Rightarrow> department_row \<Rightarrow> factory_row \<Rightarrow> device_item" where
  "joined_device v d f =
     \<lparr>di_accessToken = Some (dv_accessToken v), di_canManageUsers = False, di_departmentId = dr_id d, di_departmentName = dr_name d,
      di_description = dv_description v, di_factoryId = fr_id f, di_factoryName = fr_name f, di_id = dv_id v,
      di_isActive = dv_isActive v, di_name = dv_name v\<rparr>"

text \<open>\<open>orderBy(desc(device.createdAt), desc(device.id))\<close>; \<open>le\<close> is the order of texts in the database.\<close>

definition readJoinedDevices :: "(string \<Rightarrow> string \<Rightarrow> bool) \<Rightarrow> backend_db \<Rightarrow> string list option \<Rightarrow> device_item list" where
  "readJoinedDevices le db deviceIds =
     [joined_device v d f.
       v \<leftarrow> sort_key (\<lambda>v. - int (dv_createdAt v)) (sort_by (\<lambda>a b. le b a) dv_id (bd_devices db)),
       (case deviceIds of None \<Rightarrow> True | Some ids \<Rightarrow> dv_id v \<in> set ids),
       d \<leftarrow> bd_departments db, dr_id d = dv_departmentId v,
       f \<leftarrow> bd_factories db, fr_id f = dr_factoryId d]"

definition createDevice ::
  "(string \<Rightarrow> string \<Rightarrow> bool) \<Rightarrow> 's fga_client \<Rightarrow> (nat \<Rightarrow> string) \<Rightarrow> string \<Rightarrow> nat \<Rightarrow> caller \<Rightarrow> string \<Rightarrow> string \<Rightarrow> string \<Rightarrow> ('s, device_item) handler" where
  "createDevice le c fresh token now u departmentId description name =
     hbind (hcheck (requireDeviceSysAdmin (cl_role u))) (\<lambda>_.
     let row = \<lparr>dv_id = fresh 0, dv_departmentId = departmentId, dv_name = name, dv_description = normalizeOptionalText description,
           dv_accessToken = token, dv_isActive = True, dv_createdAt = now\<rparr> in
     hbind (hexec (insert_device row)) (\<lambda>_.
     hbind (hauthz (setObjectParentRelation c Device (dv_id row) Department (dv_departmentId row))) (\<lambda>_.
     hbind (hquery bd_catalog) (\<lambda>defaultComponents.
     let installations = map (\<lambda>(n, e). \<lparr>is_id = fresh n, is_deviceId = dv_id row, is_componentKey = ct_key e, is_enabled = ce_defaultEnabled e\<rparr>)
           (List.enumerate 1 defaultComponents) in
     hbind (if defaultComponents = [] then hreturn ()
            else hbind (hexec (insert_installations installations)) (\<lambda>_.
                 hauthz (\<lambda>a. Some (writeAuthzTuples c (concat (map parent_keys installations)) a)))) (\<lambda>_.
     hbind (hquery (\<lambda>db. readJoinedDevices le db (Some [dv_id row]))) (\<lambda>js.
     case js of [] \<Rightarrow> hfail (PlainError ''Failed to load created device.'') | j # _ \<Rightarrow> hreturn (j\<lparr>di_canManageUsers := True\<rparr>)))))))"

definition updateDevice ::
  "(string \<Rightarrow> string \<Rightarrow> bool) \<Rightarrow> 's fga_client \<Rightarrow> caller \<Rightarrow> string \<Rightarrow> string \<Rightarrow> string \<Rightarrow> bool \<Rightarrow> string \<Rightarrow> ('s, device_item) handler" where
  "updateDevice le c u i departmentId description isActive name =
     hbind (hcheck (requireDeviceSysAdmin (cl_role u))) (\<lambda>_.
     hbind (hexec (update_device i departmentId (\<lambda>r. r\<lparr>dv_description := normalizeOptionalText description, dv_isActive := isActive, dv_name := name\<rparr>))) (\<lambda>_.
     hbind (hquery (\<lambda>db. find (\<lambda>r. dv_id r = i) (bd_devices db))) (\<lambda>r.
     case r of
       None \<Rightarrow> hfail (NotFound ''Device not found.'')
     | Some row \<Rightarrow>
         hbind (hauthz (setObjectParentRelation c Device (dv_id row) Department (dv_departmentId row))) (\<lambda>_.
         hbind (hquery (\<lambda>db. readJoinedDevices le db (Some [dv_id row]))) (\<lambda>js.
         case js of [] \<Rightarrow> hfail (PlainError ''Failed to load updated device.'') | j # _ \<Rightarrow> hreturn (j\<lparr>di_canManageUsers := True\<rparr>))))))"

definition deleteDevice :: "(string \<Rightarrow> string \<Rightarrow> bool) \<Rightarrow> 's fga_client \<Rightarrow> caller \<Rightarrow> string \<Rightarrow> ('s, device_item) handler" where
  "deleteDevice le c u i =
     hbind (hcheck (requireDeviceSysAdmin (cl_role u))) (\<lambda>_.
     hbind (hquery (\<lambda>db. readJoinedDevices le db (Some [i]))) (\<lambda>js.
     hbind (hquery (\<lambda>db. map is_id (filter (\<lambda>r. is_deviceId r = i) (bd_installations db)))) (\<lambda>installationRows.
     case js of
       [] \<Rightarrow> hfail (NotFound ''Device not found.'')
     | j # _ \<Rightarrow>
         hbind (hfor (\<lambda>k. hauthz (deleteObjectAuthzRelations c DeviceComponent k)) installationRows) (\<lambda>_.
         hbind (hauthz (deleteObjectAuthzRelations c Device i)) (\<lambda>_.
         hbind (hexec (delete_device i)) (\<lambda>_. hreturn (j\<lparr>di_canManageUsers := True\<rparr>)))))))"

definition getDeviceById :: "(string \<Rightarrow> string \<Rightarrow> bool) \<Rightarrow> 's fga_client \<Rightarrow> caller \<Rightarrow> string \<Rightarrow> ('s, device_item) handler" where
  "getDeviceById le c u i =
     hbind (hquery (\<lambda>db. readJoinedDevices le db (Some [i]))) (\<lambda>js.
     case js of
       [] \<Rightarrow> hfail (NotFound ''Device not found.'')
     | j # _ \<Rightarrow>
         hbind (if isSysAdminRole (cl_role u) then hreturn ()
                else hbind (hask (\<lambda>a. listUserAuthorizedObjectIds c a (cl_id u) CanNavigate Device)) (\<lambda>navigable.
                     if i \<notin> set navigable then hfail (Forbidden ''You do not have access to this device.'') else hreturn ())) (\<lambda>_.
         hbind (if isSysAdminRole (cl_role u) then hreturn [i]
                else hask (\<lambda>a. ms_deviceIds (getUserManagementScopeIds c a (cl_id u)))) (\<lambda>managed.
         hreturn (j\<lparr>di_accessToken := (if isSysAdminRole (cl_role u) then di_accessToken j else None), di_canManageUsers := i \<in> set managed\<rparr>))))"

definition listDevices :: "(string \<Rightarrow> string \<Rightarrow> bool) \<Rightarrow> 's fga_client \<Rightarrow> caller \<Rightarrow> ('s, device_item list \<times> bool) handler" where
  "listDevices le c u =
     (let sysadmin = isSysAdminRole (cl_role u) in
      hbind (if sysadmin then hreturn None else hask (\<lambda>a. Some (listUserAuthorizedObjectIds c a (cl_id u) CanNavigate Device))) (\<lambda>ids.
      hbind (hquery (\<lambda>db. readJoinedDevices le db ids)) (\<lambda>js.
      hbind (if sysadmin then hreturn (map di_id js) else hask (\<lambda>a. ms_deviceIds (getUserManagementScopeIds c a (cl_id u)))) (\<lambda>managed.
      hreturn (map (\<lambda>j. j\<lparr>di_accessToken := (if sysadmin then di_accessToken j else None), di_canManageUsers := di_id j \<in> set managed\<rparr>) js, sysadmin)))))"

record route_component =
  rc_accessLevel :: access_level
  rc_componentKey :: string
  rc_description :: "string option"
  rc_enabled :: bool
  rc_id :: string
  rc_navigationLabel :: string
  rc_rendererKey :: "string option"
  rc_routePath :: "string option"
  rc_serviceName :: string
  rc_sortOrder :: int

definition route_component_of :: "component_access \<Rightarrow> route_component" where
  "route_component_of a =
     \<lparr>rc_accessLevel = dc_accessLevel a, rc_componentKey = dc_componentKey a, rc_description = dc_description a,
      rc_enabled = dc_enabled a, rc_id = dc_id a, rc_navigationLabel = dc_navigationLabel a, rc_rendererKey = dc_rendererKey a,
      rc_routePath = dc_routePath a, rc_serviceName = dc_serviceName a, rc_sortOrder = dc_sortOrder a\<rparr>"

record 'token route_context =
  rx_canManageUsers :: bool
  rx_components :: "route_component list"
  rx_device :: device_item
  rx_gatewayAccessToken :: 'token
  rx_isSysadmin :: bool

fun access_message :: "access_error \<Rightarrow> string" where
  "access_message DeviceNotFound = ''Device not found.''"
| "access_message NoDeviceAccess = ''You do not have access to this device.''"
| "access_message (TokenFailed SecretRequired) = ''LIVE_GATEWAY_AUTH_SECRET is required.''"
| "access_message (TokenFailed _) = ''Live gateway access token payload is invalid.''"

definition getRouteContext ::
  "(string \<Rightarrow> string \<Rightarrow> bool) \<Rightarrow> 's fga_client \<Rightarrow> (string \<Rightarrow> jwt_request \<Rightarrow> 'token) \<Rightarrow> string option \<Rightarrow> caller \<Rightarrow> string \<Rightarrow> ('s, 'token route_context) handler" where
  "getRouteContext le c sign_jwt secret u i =
     hbind (hquery (\<lambda>db. readJoinedDevices le db (Some [i]))) (\<lambda>js.
     case js of
       [] \<Rightarrow> hfail (NotFound ''Device not found.'')
     | j # _ \<Rightarrow>
         let sysadmin = isSysAdminRole (cl_role u) in
         (\<lambda>s. case getDeviceComponentAccessForUser c (bk_authz s) sign_jwt secret (access_view (bk_db s)) (cl_id u) i sysadmin of
            Inl e \<Rightarrow> hfail (Forbidden (access_message e)) s
          | Inr a \<Rightarrow> hreturn \<lparr>rx_canManageUsers = da_canManageUsers a, rx_components = map route_component_of (da_components a),
              rx_device = j\<lparr>di_accessToken := (if sysadmin then di_accessToken j else None), di_canManageUsers := da_canManageUsers a\<rparr>,
              rx_gatewayAccessToken = da_gatewayAccessToken a, rx_isSysadmin = sysadmin\<rparr> s))"

end
