(* ===== verification/Sql_Query.thy ===== *)
theory Sql_Query
  imports Access_Control
begin

text \<open>
  The queries the backend sends to its database: joins, conditions, grouping, ordering and pages,
  over the tables of \<open>Backend_Db\<close>. A query fails when a condition names a table that is not among those it
  selects from. \<open>ilike\<close> and the order of texts are those of the database and are arguments; equal
  texts keep the order the tables have, in every query alike. Conditions contain no negation, so an
  unknown truth value counts as false; a membership test in an empty list is false.
\<close>

section \<open>Rows of a join\<close>

datatype sql_table = TFactory | TDepartment | TDevice | TCatalog | TInstallation | TUser

record jrow =
  jr_factory :: "factory_row option"
  jr_department :: "department_row option"
  jr_device :: "device_row option"
  jr_catalog :: "catalog_entry option"
  jr_installation :: "installation option"
  jr_user :: "user_row option"

definition no_row :: jrow where
  "no_row = \<lparr>jr_factory = None, jr_department = None, jr_device = None, jr_catalog = None, jr_installation = None, jr_user = None\<rparr>"

fun with_table :: "backend_db \<Rightarrow> sql_table \<Rightarrow> jrow \<Rightarrow> jrow list" where
  "with_table db TFactory j = map (\<lambda>r. j\<lparr>jr_factory := Some r\<rparr>) (bd_factories db)"
| "with_table db TDepartment j = map (\<lambda>r. j\<lparr>jr_department := Some r\<rparr>) (bd_departments db)"
| "with_table db TDevice j = map (\<lambda>r. j\<lparr>jr_device := Some r\<rparr>) (bd_devices db)"
| "with_table db TCatalog j = map (\<lambda>r. j\<lparr>jr_catalog := Some r\<rparr>) (bd_catalog db)"
| "with_table db TInstallation j = map (\<lambda>r. j\<lparr>jr_installation := Some r\<rparr>) (bd_installations db)"
| "with_table db TUser j = map (\<lambda>r. j\<lparr>jr_user := Some r\<rparr>) (bd_users db)"

section \<open>Columns and conditions\<close>

datatype text_column =
    FactoryId | FactoryName | FactoryDescription
  | DepartmentId | DepartmentFactoryId | DepartmentName | DepartmentDescription
  | DeviceId | DeviceDepartmentId | DeviceName | DeviceDescription
  | CatalogKey | CatalogDisplayName | CatalogServiceName | CatalogDescription
  | InstallationId | InstallationDeviceId | InstallationComponentKey
  | UserId | UserName | UserEmail

fun column_table :: "text_column \<Rightarrow> sql_table" where
  "column_table FactoryId = TFactory" | "column_table FactoryName = TFactory" | "column_table FactoryDescription = TFactory"
| "column_table DepartmentId = TDepartment" | "column_table DepartmentFactoryId = TDepartment"
| "column_table DepartmentName = TDepartment" | "column_table DepartmentDescription = TDepartment"
| "column_table DeviceId = TDevice" | "column_table DeviceDepartmentId = TDevice"
| "column_table DeviceName = TDevice" | "column_table DeviceDescription = TDevice"
| "column_table CatalogKey = TCatalog" | "column_table CatalogDisplayName = TCatalog"
| "column_table CatalogServiceName = TCatalog" | "column_table CatalogDescription = TCatalog"
| "column_table InstallationId = TInstallation" | "column_table InstallationDeviceId = TInstallation"
| "column_table InstallationComponentKey = TInstallation"
| "column_table UserId = TUser" | "column_table UserName = TUser" | "column_table UserEmail = TUser"

fun column_value :: "text_column \<Rightarrow> jrow \<Rightarrow> string option" where
  "column_value FactoryId j = map_option fr_id (jr_factory j)"
| "column_value FactoryName j = map_option fr_name (jr_factory j)"
| "column_value FactoryDescription j = Option.bind (jr_factory j) fr_description"
| "column_value DepartmentId j = map_option dr_id (jr_department j)"
| "column_value DepartmentFactoryId j = map_option dr_factoryId (jr_department j)"
| "column_value DepartmentName j = map_option dr_name (jr_department j)"
| "column_value DepartmentDescription j = Option.bind (jr_department j) dr_description"
| "column_value DeviceId j = map_option dv_id (jr_device j)"
| "column_value DeviceDepartmentId j = map_option dv_departmentId (jr_device j)"
| "column_value DeviceName j = map_option dv_name (jr_device j)"
| "column_value DeviceDescription j = Option.bind (jr_device j) dv_description"
| "column_value CatalogKey j = map_option ct_key (jr_catalog j)"
| "column_value CatalogDisplayName j = map_option ce_displayName (jr_catalog j)"
| "column_value CatalogServiceName j = map_option ct_serviceName (jr_catalog j)"
| "column_value CatalogDescription j = Option.bind (jr_catalog j) ct_description"
| "column_value InstallationId j = map_option is_id (jr_installation j)"
| "column_value InstallationDeviceId j = map_option is_deviceId (jr_installation j)"
| "column_value InstallationComponentKey j = map_option is_componentKey (jr_installation j)"
| "column_value UserId j = map_option us_id (jr_user j)"
| "column_value UserName j = map_option us_name (jr_user j)"
| "column_value UserEmail j = map_option us_email (jr_user j)"

datatype condition =
    And "condition list"
  | Or "condition list"
  | InArray text_column "string list"
  | EqColumns text_column text_column
  | EqText text_column string
  | ILike text_column string
  | DeviceActive
  | InstallationEnabled

record sql_text =
  st_le :: "string \<Rightarrow> string \<Rightarrow> bool"
  st_ilike :: "string \<Rightarrow> string \<Rightarrow> bool"

definition device_active :: "jrow \<Rightarrow> bool" where
  "device_active j \<longleftrightarrow> (case jr_device j of None \<Rightarrow> False | Some v \<Rightarrow> dv_isActive v)"

definition installation_enabled :: "jrow \<Rightarrow> bool" where
  "installation_enabled j \<longleftrightarrow> (case jr_installation j of None \<Rightarrow> False | Some i \<Rightarrow> is_enabled i)"

fun holds :: "sql_text \<Rightarrow> condition \<Rightarrow> jrow \<Rightarrow> bool" where
  "holds t (And cs) j \<longleftrightarrow> (\<forall>c \<in> set cs. holds t c j)"
| "holds t (Or cs) j \<longleftrightarrow> (\<exists>c \<in> set cs. holds t c j)"
| "holds t (InArray c vs) j \<longleftrightarrow> (case column_value c j of None \<Rightarrow> False | Some v \<Rightarrow> v \<in> set vs)"
| "holds t (EqColumns c d) j \<longleftrightarrow> column_value c j \<noteq> None \<and> column_value c j = column_value d j"
| "holds t (EqText c v) j \<longleftrightarrow> column_value c j = Some v"
| "holds t (ILike c p) j \<longleftrightarrow> (case column_value c j of None \<Rightarrow> False | Some v \<Rightarrow> st_ilike t v p)"
| "holds t DeviceActive j \<longleftrightarrow> device_active j"
| "holds t InstallationEnabled j \<longleftrightarrow> installation_enabled j"

fun condition_tables :: "condition \<Rightarrow> sql_table list" where
  "condition_tables (And cs) = concat (map condition_tables cs)"
| "condition_tables (Or cs) = concat (map condition_tables cs)"
| "condition_tables (InArray c _) = [column_table c]"
| "condition_tables (EqColumns c d) = [column_table c, column_table d]"
| "condition_tables (EqText c _) = [column_table c]"
| "condition_tables (ILike c _) = [column_table c]"
| "condition_tables DeviceActive = [TDevice]"
| "condition_tables InstallationEnabled = [TInstallation]"

text \<open>\<open>and(...)\<close> and \<open>or(...)\<close> leave undefined operands out; without operands they are undefined.\<close>

definition sql_and :: "condition option list \<Rightarrow> condition option" where
  "sql_and cs = (case List.map_filter (\<lambda>c. c) cs of [] \<Rightarrow> None | [c] \<Rightarrow> Some c | ds \<Rightarrow> Some (And ds))"

definition sql_or :: "condition option list \<Rightarrow> condition option" where
  "sql_or cs = (case List.map_filter (\<lambda>c. c) cs of [] \<Rightarrow> None | [c] \<Rightarrow> Some c | ds \<Rightarrow> Some (Or ds))"

definition holds_where :: "sql_text \<Rightarrow> condition option \<Rightarrow> jrow \<Rightarrow> bool" where
  "holds_where t w j \<longleftrightarrow> (case w of None \<Rightarrow> True | Some c \<Rightarrow> holds t c j)"

section \<open>Selecting\<close>

datatype join = InnerJoin sql_table condition | LeftJoin sql_table condition

fun join_table :: "join \<Rightarrow> sql_table" where
  "join_table (InnerJoin t _) = t"
| "join_table (LeftJoin t _) = t"

fun join_rows :: "sql_text \<Rightarrow> backend_db \<Rightarrow> join \<Rightarrow> jrow \<Rightarrow> jrow list" where
  "join_rows t db (InnerJoin tab c) j = filter (holds t c) (with_table db tab j)"
| "join_rows t db (LeftJoin tab c) j = (case filter (holds t c) (with_table db tab j) of [] \<Rightarrow> [j] | js \<Rightarrow> js)"

definition joined :: "sql_text \<Rightarrow> backend_db \<Rightarrow> sql_table \<Rightarrow> join list \<Rightarrow> jrow list" where
  "joined t db tab joins = fold (\<lambda>jn js. concat (map (join_rows t db jn) js)) joins (with_table db tab no_row)"

definition sql_select :: "sql_text \<Rightarrow> backend_db \<Rightarrow> sql_table \<Rightarrow> join list \<Rightarrow> condition option \<Rightarrow> sql_error + jrow list" where
  "sql_select t db tab joins w =
     (if \<forall>c \<in> set_option w. set (condition_tables c) \<subseteq> insert tab (set (map join_table joins))
      then Inr (filter (holds_where t w) (joined t db tab joins)) else Inl MissingFromClause)"

text \<open>\<open>groupBy\<close> on key columns: the groups in the order of their first rows.\<close>

fun sql_group :: "(jrow \<Rightarrow> 'k) \<Rightarrow> jrow list \<Rightarrow> jrow list list" where
  "sql_group key [] = []"
| "sql_group key (j # js) = (j # filter (\<lambda>i. key i = key j) js) # sql_group key (filter (\<lambda>i. key i \<noteq> key j) js)"

text \<open>Aggregates over a group: \<open>count(column)\<close> counts values that are not null.\<close>

definition count_column :: "text_column \<Rightarrow> jrow list \<Rightarrow> nat" where
  "count_column c js = length (filter (\<lambda>j. column_value c j \<noteq> None) js)"

definition count_distinct :: "text_column \<Rightarrow> jrow list \<Rightarrow> nat" where
  "count_distinct c js = length (remdups (List.map_filter (column_value c) js))"

definition text_of :: "text_column \<Rightarrow> jrow \<Rightarrow> string" where
  "text_of c j = (case column_value c j of None \<Rightarrow> [] | Some v \<Rightarrow> v)"

text \<open>\<open>orderBy(asc(a), asc(b), ...)\<close>: the last column is sorted first, and the sort is stable.\<close>

definition sql_order :: "sql_text \<Rightarrow> ('r \<Rightarrow> string) list \<Rightarrow> 'r list \<Rightarrow> 'r list" where
  "sql_order t keys xs = fold (\<lambda>k ys. sort_by (st_le t) k ys) (rev keys) xs"

definition sql_page :: "nat \<Rightarrow> nat \<Rightarrow> 'r list \<Rightarrow> 'r list" where
  "sql_page page perPage xs = take perPage (drop ((page - 1) * perPage) xs)"

definition hselect :: "sql_text \<Rightarrow> sql_table \<Rightarrow> join list \<Rightarrow> condition option \<Rightarrow> ('s, jrow list) handler" where
  "hselect t tab joins w = (\<lambda>s. case sql_select t (bk_db s) tab joins w of Inl e \<Rightarrow> Some (Inl (SqlFailed e), s) | Inr js \<Rightarrow> Some (Inr js, s))"

definition hcount :: "sql_text \<Rightarrow> sql_table \<Rightarrow> join list \<Rightarrow> condition option \<Rightarrow> ('s, nat) handler" where
  "hcount t tab joins w = hbind (hselect t tab joins w) (\<lambda>js. hreturn (length js))"

text \<open>The joins along the hierarchy.\<close>

definition join_department :: join where
  "join_department = InnerJoin TDepartment (EqColumns DepartmentId DeviceDepartmentId)"

definition join_factory :: join where
  "join_factory = InnerJoin TFactory (EqColumns FactoryId DepartmentFactoryId)"

definition join_device :: join where
  "join_device = InnerJoin TDevice (EqColumns DeviceId InstallationDeviceId)"

definition join_catalog :: join where
  "join_catalog = InnerJoin TCatalog (EqColumns CatalogKey InstallationComponentKey)"

definition left_installations :: join where
  "left_installations = LeftJoin TInstallation (EqColumns InstallationDeviceId DeviceId)"

definition left_devices :: join where
  "left_devices = LeftJoin TDevice (EqColumns DeviceDepartmentId DepartmentId)"

lemmas join_defs = join_department_def join_factory_def join_device_def join_catalog_def left_installations_def left_devices_def

end
