(* ===== verification/Access_Queries.thy ===== *)
theory Access_Queries
  imports Sql_Query
begin

text \<open>
  The queries of the access control router (\<open>server/routers/access-control/queries.ts\<close>) and the data of
  its management console (\<open>management-console.ts\<close>). Counts are lists of named numbers in the order of the
  answer's fields.
\<close>

section \<open>Pages, patterns and navigation\<close>

record 'row page =
  pg_page :: nat
  pg_pageCount :: nat
  pg_perPage :: nat
  pg_totalCount :: nat
  pg_rows :: "'row list"

definition toPaginationMeta :: "nat \<Rightarrow> nat \<Rightarrow> nat \<Rightarrow> 'row list \<Rightarrow> 'row page" where
  "toPaginationMeta page perPage totalCount rows =
     \<lparr>pg_page = page, pg_pageCount = max 1 ((totalCount + perPage - 1) div perPage), pg_perPage = perPage,
      pg_totalCount = totalCount, pg_rows = rows\<rparr>"

definition buildSearchPattern :: "string \<Rightarrow> string option" where
  "buildSearchPattern v = (let n = trim v in if n = [] then None else Some (''%'' @ n @ ''%''))"

definition search_condition :: "string option \<Rightarrow> text_column list \<Rightarrow> condition option" where
  "search_condition pattern cols = (case pattern of None \<Rightarrow> None | Some p \<Rightarrow> sql_or (map (\<lambda>c. Some (ILike c p)) cols))"

record navigation =
  nv_defaultHref :: string
  nv_isSysadmin :: bool
  nv_showApps :: bool
  nv_showDepartments :: bool
  nv_showDevices :: bool
  nv_showFactories :: bool
  nv_showUsers :: bool

definition FORBIDDEN_MESSAGE :: string where
  "FORBIDDEN_MESSAGE = ''You do not have access to advanced permissions.''"

definition buildNavigation :: "bool \<Rightarrow> string list \<Rightarrow> string list \<Rightarrow> trpc_error + navigation" where
  "buildNavigation isSysadmin factoryIds departmentIds =
     (let showUsers = isSysadmin;
          showFactories = (isSysadmin \<or> factoryIds \<noteq> []);
          showScopedTabs = (isSysadmin \<or> factoryIds \<noteq> [] \<or> departmentIds \<noteq> []);
          href = (if showUsers then ''/access-control/users'' else if showScopedTabs then ''/access-control/devices''
                  else if showFactories then ''/access-control/factories'' else ''/access-control/apps'')
      in if showUsers \<or> showFactories \<or> showScopedTabs
         then Inr \<lparr>nv_defaultHref = href, nv_isSysadmin = isSysadmin, nv_showApps = showScopedTabs, nv_showDepartments = showScopedTabs,
           nv_showDevices = showScopedTabs, nv_showFactories = showFactories, nv_showUsers = showUsers\<rparr>
         else Inl (Forbidden FORBIDDEN_MESSAGE))"

record management_access =
  ma_manageableDepartmentIds :: "string list"
  ma_manageableFactoryIds :: "string list"
  ma_navigation :: navigation

definition hlift :: "trpc_error + 'a \<Rightarrow> ('s, 'a) handler" where
  "hlift r = (case r of Inl e \<Rightarrow> hfail e | Inr x \<Rightarrow> hreturn x)"

definition readManagementAccessContext :: "'s fga_client \<Rightarrow> caller \<Rightarrow> ('s, management_access) handler" where
  "readManagementAccessContext c u =
     (if isSysAdminRole (cl_role u) then
        hbind (hlift (buildNavigation True [] [])) (\<lambda>nav.
        hreturn \<lparr>ma_manageableDepartmentIds = [], ma_manageableFactoryIds = [], ma_navigation = nav\<rparr>)
      else
        hbind (hask (\<lambda>a. listUserAuthorizedObjectIds c a (cl_id u) CanManageUsers Factory)) (\<lambda>factoryIds.
        hbind (hask (\<lambda>a. listUserAuthorizedObjectIds c a (cl_id u) CanManageUsers Department)) (\<lambda>departmentIds.
        hbind (hlift (buildNavigation False factoryIds departmentIds)) (\<lambda>nav.
        hreturn \<lparr>ma_manageableDepartmentIds = departmentIds, ma_manageableFactoryIds = factoryIds, ma_navigation = nav\<rparr>))))"

definition getNavigation :: "'s fga_client \<Rightarrow> caller \<Rightarrow> ('s, navigation) handler" where
  "getNavigation c u = hbind (readManagementAccessContext c u) (\<lambda>a. hreturn (ma_navigation a))"

section \<open>Conditions\<close>

record page_input =
  pi_departmentId :: "string list"
  pi_factoryId :: "string list"
  pi_name :: string
  pi_page :: nat
  pi_perPage :: nat

definition buildFactoryFilterCondition :: "page_input \<Rightarrow> condition option" where
  "buildFactoryFilterCondition inp = (if pi_factoryId inp = [] then None else Some (InArray FactoryId (pi_factoryId inp)))"

definition buildDepartmentFilterCondition :: "page_input \<Rightarrow> condition option" where
  "buildDepartmentFilterCondition inp = (if pi_departmentId inp = [] then None else Some (InArray DepartmentId (pi_departmentId inp)))"

definition buildHierarchyFilterCondition :: "page_input \<Rightarrow> condition option" where
  "buildHierarchyFilterCondition inp = sql_and [buildFactoryFilterCondition inp, buildDepartmentFilterCondition inp]"

definition buildFactoryAccessCondition :: "management_access \<Rightarrow> condition option" where
  "buildFactoryAccessCondition a = (if nv_isSysadmin (ma_navigation a) then None else Some (InArray FactoryId (ma_manageableFactoryIds a)))"

text \<open>The branches of the access conditions of departments and of devices, which differ in one column.\<close>

definition access_branches :: "text_column \<Rightarrow> management_access \<Rightarrow> trpc_error + condition option" where
  "access_branches factoryColumn a =
     (if nv_isSysadmin (ma_navigation a) then Inr None
      else case List.map_filter (\<lambda>c. c)
          [if ma_manageableDepartmentIds a = [] then None else Some (InArray DepartmentId (ma_manageableDepartmentIds a)),
           if ma_manageableFactoryIds a = [] then None else Some (InArray factoryColumn (ma_manageableFactoryIds a))] of
        [] \<Rightarrow> Inl (Forbidden FORBIDDEN_MESSAGE)
      | branches \<Rightarrow> Inr (sql_or (map Some branches)))"

definition buildDepartmentAccessCondition :: "management_access \<Rightarrow> trpc_error + condition option" where
  "buildDepartmentAccessCondition a = access_branches DepartmentFactoryId a"

definition buildDeviceScopeAccessCondition :: "management_access \<Rightarrow> trpc_error + condition option" where
  "buildDeviceScopeAccessCondition a = access_branches FactoryId a"

section \<open>Assignments and installations of a scope\<close>

text \<open>A direct assignment: the relation and the user.\<close>

definition readDirectUserAssignments :: "'s fga_client \<Rightarrow> 's \<Rightarrow> string \<Rightarrow> authz_relation list \<Rightarrow> (string \<times> string) list option" where
  "readDirectUserAssignments c a objectName relations =
     map_option (List.map_filter (\<lambda>k.
       case parseAuthzUserId (tk_user k) of
         None \<Rightarrow> None
       | Some userId \<Rightarrow> if list_ex (\<lambda>r. relation_name r = tk_relation k) relations then Some (tk_relation k, userId) else None))
       (readTuplesForObject c a objectName)"

record scope_assignment =
  sa_id :: string
  sa_role :: string
  sa_userEmail :: string
  sa_userId :: string
  sa_userName :: string

definition scope_row :: "(string \<Rightarrow> string) \<Rightarrow> user_row list \<Rightarrow> string \<times> string \<Rightarrow> scope_assignment option" where
  "scope_row mapRelation users asg =
     map_option (\<lambda>u. \<lparr>sa_id = snd asg @ '':'' @ fst asg, sa_role = mapRelation (fst asg), sa_userEmail = us_email u, sa_userId = snd asg,
         sa_userName = (if trim (us_name u) = [] then us_email u else us_name u)\<rparr>)
       (find (\<lambda>u. us_id u = snd asg) (rev users))"

definition readScopeAssignmentRows ::
  "(string \<Rightarrow> string \<Rightarrow> bool) \<Rightarrow> 's fga_client \<Rightarrow> string \<Rightarrow> authz_relation list \<Rightarrow> (string \<Rightarrow> string) \<Rightarrow> ('s, scope_assignment list) handler" where
  "readScopeAssignmentRows locale_le c scopeObject relations mapRelation =
     (\<lambda>s. case readDirectUserAssignments c (bk_authz s) scopeObject relations of
        None \<Rightarrow> None
      | Some assignments \<Rightarrow>
          if assignments = [] then hreturn [] s
          else
            let userIds = jset_of (map snd assignments);
                users = filter (\<lambda>u. us_id u \<in> set userIds) (bd_users (bk_db s))
            in hreturn (sort_by locale_le (\<lambda>r. sa_userName r @ '':'' @ sa_userEmail r) (List.map_filter (scope_row mapRelation users) assignments)) s)"

fun scope_relation_label :: "authz_type \<Rightarrow> string \<Rightarrow> string" where
  "scope_relation_label Factory r = (if r = relation_name Admin then ''admin'' else ''viewer'')"
| "scope_relation_label Department r = (if r = relation_name Admin then ''admin'' else ''viewer'')"
| "scope_relation_label Device r = ''viewer''"
| "scope_relation_label DeviceComponent r = (if r = relation_name Writer then ''write'' else ''read'')"

definition getScopeAssignments ::
  "(string \<Rightarrow> string \<Rightarrow> bool) \<Rightarrow> 's fga_client \<Rightarrow> caller \<Rightarrow> authz_type \<Rightarrow> string \<Rightarrow> ('s, scope_assignment list) handler" where
  "getScopeAssignments locale_le c u scopeType scopeId =
     hbind (assertUserCanManageScope c u scopeType scopeId) (\<lambda>_.
     readScopeAssignmentRows locale_le c (createAuthzObject scopeType scopeId) (candidate_relations scopeType) (scope_relation_label scopeType))"

record installation_item =
  ii_componentDisplayName :: string
  ii_componentKey :: string
  ii_deviceId :: string
  ii_enabled :: bool
  ii_id :: string
  ii_serviceName :: string

text \<open>\<open>orderBy(asc(sortOrder), asc(displayName))\<close> on the catalogue.\<close>

definition catalog_order :: "sql_text \<Rightarrow> ('r \<Rightarrow> jrow) \<Rightarrow> 'r list \<Rightarrow> 'r list" where
  "catalog_order t row xs =
     sort_key (\<lambda>x. case jr_catalog (row x) of None \<Rightarrow> 0 | Some e \<Rightarrow> ct_sortOrder e) (sql_order t [\<lambda>x. text_of CatalogDisplayName (row x)] xs)"

definition installation_item_of :: "jrow \<Rightarrow> installation_item option" where
  "installation_item_of j =
     (case (jr_installation j, jr_catalog j) of
        (Some i, Some e) \<Rightarrow> Some \<lparr>ii_componentDisplayName = ce_displayName e, ii_componentKey = is_componentKey i, ii_deviceId = is_deviceId i,
          ii_enabled = is_enabled i, ii_id = is_id i, ii_serviceName = ct_serviceName e\<rparr>
      | _ \<Rightarrow> None)"

definition readDeviceInstallationRows :: "sql_text \<Rightarrow> string \<Rightarrow> ('s, installation_item list) handler" where
  "readDeviceInstallationRows t deviceId =
     hbind (hselect t TInstallation [join_catalog] (Some (EqText InstallationDeviceId deviceId))) (\<lambda>js.
     hreturn (List.map_filter installation_item_of (catalog_order t (\<lambda>j. j) js)))"

definition listDeviceInstallations :: "sql_text \<Rightarrow> 's fga_client \<Rightarrow> caller \<Rightarrow> string \<Rightarrow> ('s, installation_item list) handler" where
  "listDeviceInstallations t c u deviceId =
     hbind (assertUserCanManageScope c u Device deviceId) (\<lambda>_. readDeviceInstallationRows t deviceId)"

record assignable_user =
  au_email :: string
  au_id :: string
  au_name :: string
  au_role :: "string option"

definition assignable_user_of :: "user_row \<Rightarrow> assignable_user" where
  "assignable_user_of r = \<lparr>au_email = us_email r, au_id = us_id r, au_name = us_name r, au_role = us_role r\<rparr>"

definition listAssignableUsers :: "sql_text \<Rightarrow> 's fga_client \<Rightarrow> caller \<Rightarrow> string \<Rightarrow> nat \<Rightarrow> ('s, assignable_user list) handler" where
  "listAssignableUsers t c u query limit =
     hbind (readManagementAccessContext c u) (\<lambda>_.
     hbind (hselect t TUser [] (search_condition (buildSearchPattern query) [UserName, UserEmail])) (\<lambda>js.
     hreturn (map assignable_user_of (take limit (sql_order t [us_name, us_email] (List.map_filter jr_user js))))))"

section \<open>Listings of a scope\<close>

type_synonym stats = "(string \<times> nat) list"

text \<open>What the listings share: guard, conditions, the number of matching rows and the page.\<close>

record ('row, 'filters) scope_listing =
  sl_filterOptions :: 'filters
  sl_navigation :: navigation
  sl_stats :: stats
  sl_table :: "'row page"

definition hguard :: "bool \<Rightarrow> trpc_error \<Rightarrow> ('s, unit) handler" where
  "hguard b e = (if b then hreturn () else hfail e)"

record app_item =
  ap_defaultEnabled :: bool
  ap_description :: "string option"
  ap_displayName :: string
  ap_enabledInstallCount :: nat
  ap_installCount :: nat
  ap_key :: string
  ap_navigationLabel :: string
  ap_readActions :: "string list"
  ap_rendererKey :: "string option"
  ap_routePath :: "string option"
  ap_serviceName :: string
  ap_sortOrder :: int
  ap_writeActions :: "string list"

definition app_item_of :: "jrow list \<Rightarrow> app_item option" where
  "app_item_of g =
     Option.bind (jr_catalog (hd g)) (\<lambda>e. Some
       \<lparr>ap_defaultEnabled = ce_defaultEnabled e, ap_description = ct_description e, ap_displayName = ce_displayName e,
        ap_enabledInstallCount = length (filter installation_enabled g), ap_installCount = count_column InstallationId g,
        ap_key = ct_key e, ap_navigationLabel = ct_navigationLabel e, ap_readActions = ct_readActions e, ap_rendererKey = ct_rendererKey e,
        ap_routePath = ct_routePath e, ap_serviceName = ct_serviceName e, ap_sortOrder = ct_sortOrder e, ap_writeActions = ct_writeActions e\<rparr>)"

definition app_page :: "sql_text \<Rightarrow> page_input \<Rightarrow> jrow list \<Rightarrow> app_item list" where
  "app_page t inp js = List.map_filter app_item_of (sql_page (pi_page inp) (pi_perPage inp) (catalog_order t hd (sql_group (column_value CatalogKey) js)))"

definition listScopeApps :: "sql_text \<Rightarrow> 's fga_client \<Rightarrow> caller \<Rightarrow> page_input \<Rightarrow> ('s, (app_item, unit) scope_listing) handler" where
  "listScopeApps t c u inp =
     hbind (readManagementAccessContext c u) (\<lambda>access.
     hbind (hguard (nv_showApps (ma_navigation access)) (Forbidden FORBIDDEN_MESSAGE)) (\<lambda>_.
     hbind (hlift (buildDeviceScopeAccessCondition access)) (\<lambda>accessCondition.
     let search = search_condition (buildSearchPattern (pi_name inp)) [CatalogDisplayName, CatalogKey, CatalogServiceName, CatalogDescription];
         scoped = sql_and [accessCondition, buildHierarchyFilterCondition inp];
         answer = (\<lambda>totalCount rows installations enabled. hreturn
           \<lparr>sl_filterOptions = (), sl_navigation = ma_navigation access,
            sl_stats = [(''enabledInstallationCount'', enabled), (''installationCount'', installations), (''appCount'', totalCount)],
            sl_table = toPaginationMeta (pi_page inp) (pi_perPage inp) totalCount rows\<rparr>)
     in if scoped = None then
          hbind (hcount t TCatalog [] search) (\<lambda>totalCount.
          hbind (hselect t TCatalog [LeftJoin TInstallation (EqColumns InstallationComponentKey CatalogKey)] search) (\<lambda>js.
          hbind (hcount t TInstallation [] None) (\<lambda>installations.
          hbind (hcount t TInstallation [] (Some InstallationEnabled)) (\<lambda>enabled.
          answer totalCount (app_page t inp js) installations enabled))))
        else
          hbind (hselect t TInstallation [join_catalog, join_device, join_department, join_factory] (sql_and [scoped, search])) (\<lambda>js.
          hbind (hcount t TInstallation [join_device, join_department, join_factory] scoped) (\<lambda>installations.
          hbind (hcount t TInstallation [join_device, join_department, join_factory] (sql_and [scoped, Some InstallationEnabled])) (\<lambda>enabled.
          answer (count_distinct CatalogKey js) (app_page t inp js) installations enabled))))))"

record department_item =
  dp_description :: "string option"
  dp_deviceCount :: nat
  dp_factoryId :: string
  dp_factoryName :: string
  dp_id :: string
  dp_name :: string

definition department_item_of :: "jrow list \<Rightarrow> department_item option" where
  "department_item_of g =
     (case (jr_department (hd g), jr_factory (hd g)) of
        (Some d, Some f) \<Rightarrow> Some \<lparr>dp_description = dr_description d, dp_deviceCount = count_distinct DeviceId g, dp_factoryId = fr_id f,
          dp_factoryName = fr_name f, dp_id = dr_id d, dp_name = dr_name d\<rparr>
      | _ \<Rightarrow> None)"

text \<open>Options of a filter: a label and a value, each pair once.\<close>

definition factory_options :: "sql_text \<Rightarrow> jrow list \<Rightarrow> (string \<times> string) list" where
  "factory_options t js = sql_order t [fst] (jset_of (List.map_filter (\<lambda>j. map_option (\<lambda>f. (fr_name f, fr_id f)) (jr_factory j)) js))"

definition listScopeDepartments :: "sql_text \<Rightarrow> 's fga_client \<Rightarrow> caller \<Rightarrow> page_input \<Rightarrow> ('s, (department_item, (string \<times> string) list) scope_listing) handler" where
  "listScopeDepartments t c u inp =
     hbind (readManagementAccessContext c u) (\<lambda>access.
     hbind (hguard (nv_showDepartments (ma_navigation access)) (Forbidden FORBIDDEN_MESSAGE)) (\<lambda>_.
     hbind (hlift (buildDepartmentAccessCondition access)) (\<lambda>accessCondition.
     let search = search_condition (buildSearchPattern (pi_name inp)) [DepartmentName, DepartmentDescription];
         scoped = sql_and [accessCondition, buildFactoryFilterCondition inp];
         whereClause = sql_and [scoped, search]
     in
     hbind (hcount t TDepartment [] whereClause) (\<lambda>totalCount.
     hbind (hselect t TDepartment [join_factory, left_devices] whereClause) (\<lambda>js.
     let groups = sql_group (\<lambda>j. (column_value DepartmentId j, column_value FactoryId j)) js;
         rows = sql_page (pi_page inp) (pi_perPage inp) (sql_order t [\<lambda>g. text_of FactoryName (hd g), \<lambda>g. text_of DepartmentName (hd g)] groups)
     in
     hbind (hcount t TDevice [join_department, join_factory] scoped) (\<lambda>devices.
     hbind (hcount t TDevice [join_department, join_factory] (sql_and [scoped, Some DeviceActive])) (\<lambda>active.
     hbind (hselect t TDepartment [join_factory] accessCondition) (\<lambda>fs.
     hreturn \<lparr>sl_filterOptions = factory_options t fs, sl_navigation = ma_navigation access,
       sl_stats = [(''activeDeviceCount'', active), (''departmentCount'', totalCount), (''deviceCount'', devices)],
       sl_table = toPaginationMeta (pi_page inp) (pi_perPage inp) totalCount (List.map_filter department_item_of rows)\<rparr>))))))))"

record device_scope_item =
  ds_departmentId :: string
  ds_departmentName :: string
  ds_description :: "string option"
  ds_enabledAppCount :: nat
  ds_factoryId :: string
  ds_factoryName :: string
  ds_id :: string
  ds_isActive :: bool
  ds_name :: string
  ds_totalAppCount :: nat

definition device_scope_item_of :: "jrow list \<Rightarrow> device_scope_item option" where
  "device_scope_item_of g =
     (case (jr_device (hd g), jr_department (hd g), jr_factory (hd g)) of
        (Some v, Some d, Some f) \<Rightarrow> Some \<lparr>ds_departmentId = dr_id d, ds_departmentName = dr_name d, ds_description = dv_description v,
          ds_enabledAppCount = length (filter installation_enabled g), ds_factoryId = fr_id f, ds_factoryName = fr_name f, ds_id = dv_id v,
          ds_isActive = dv_isActive v, ds_name = dv_name v, ds_totalAppCount = count_column InstallationId g\<rparr>
      | _ \<Rightarrow> None)"

definition device_groups :: "sql_text \<Rightarrow> jrow list \<Rightarrow> jrow list list" where
  "device_groups t js =
     sql_order t [\<lambda>g. text_of FactoryName (hd g), \<lambda>g. text_of DepartmentName (hd g), \<lambda>g. text_of DeviceName (hd g)]
       (sql_group (\<lambda>j. (column_value DeviceId j, column_value DepartmentId j, column_value FactoryId j)) js)"

text \<open>The options of the department filter: one per department, labelled with its factory.\<close>

definition department_options :: "sql_text \<Rightarrow> jrow list \<Rightarrow> (string \<times> string) list" where
  "department_options t js =
     map (\<lambda>g. (text_of FactoryName (hd g) @ '' / '' @ text_of DepartmentName (hd g), text_of DepartmentId (hd g)))
       (sql_order t [\<lambda>g. text_of FactoryName (hd g), \<lambda>g. text_of DepartmentName (hd g)]
         (sql_group (\<lambda>j. (column_value DepartmentId j, column_value FactoryName j, column_value DepartmentName j)) js))"

definition listScopeDevices ::
  "sql_text \<Rightarrow> 's fga_client \<Rightarrow> caller \<Rightarrow> page_input \<Rightarrow>
   ('s, (device_scope_item, (string \<times> string) list \<times> (string \<times> string) list) scope_listing) handler" where
  "listScopeDevices t c u inp =
     hbind (readManagementAccessContext c u) (\<lambda>access.
     hbind (hguard (nv_showDevices (ma_navigation access)) (Forbidden FORBIDDEN_MESSAGE)) (\<lambda>_.
     hbind (hlift (buildDeviceScopeAccessCondition access)) (\<lambda>accessCondition.
     let search = search_condition (buildSearchPattern (pi_name inp)) [DeviceName, DeviceDescription, DepartmentName, FactoryName];
         scoped = sql_and [accessCondition, buildHierarchyFilterCondition inp];
         whereClause = sql_and [scoped, search]
     in
     hbind (hcount t TDevice [join_department, join_factory] whereClause) (\<lambda>totalCount.
     hbind (hselect t TDevice [join_department, join_factory, left_installations] whereClause) (\<lambda>js.
     hbind (hcount t TDevice [join_department, join_factory] (sql_and [scoped, Some DeviceActive])) (\<lambda>active.
     hbind (hcount t TInstallation [join_device, join_department, join_factory] (sql_and [scoped, Some InstallationEnabled])) (\<lambda>enabled.
     hbind (hselect t TDevice [join_department, join_factory] accessCondition) (\<lambda>fs.
     hbind (hselect t TDevice [join_department, join_factory]
       (sql_and [accessCondition, if pi_factoryId inp = [] then None else Some (InArray FactoryId (pi_factoryId inp))])) (\<lambda>ds.
     hreturn \<lparr>sl_filterOptions = (department_options t ds, factory_options t fs), sl_navigation = ma_navigation access,
       sl_stats = [(''activeDeviceCount'', active), (''deviceCount'', totalCount), (''enabledAppCount'', enabled)],
       sl_table = toPaginationMeta (pi_page inp) (pi_perPage inp) totalCount
         (List.map_filter device_scope_item_of (sql_page (pi_page inp) (pi_perPage inp) (device_groups t js)))\<rparr>)))))))))"

record factory_item =
  fi_departmentCount :: nat
  fi_description :: "string option"
  fi_deviceCount :: nat
  fi_id :: string
  fi_name :: string

definition factory_item_of :: "jrow list \<Rightarrow> factory_item option" where
  "factory_item_of g =
     map_option (\<lambda>f. \<lparr>fi_departmentCount = count_distinct DepartmentId g, fi_description = fr_description f,
       fi_deviceCount = count_distinct DeviceId g, fi_id = fr_id f, fi_name = fr_name f\<rparr>) (jr_factory (hd g))"

definition left_departments :: join where
  "left_departments = LeftJoin TDepartment (EqColumns DepartmentFactoryId FactoryId)"

definition listScopeFactories :: "sql_text \<Rightarrow> 's fga_client \<Rightarrow> caller \<Rightarrow> page_input \<Rightarrow> ('s, (factory_item, unit) scope_listing) handler" where
  "listScopeFactories t c u inp =
     hbind (readManagementAccessContext c u) (\<lambda>access.
     hbind (hguard (nv_showFactories (ma_navigation access)) (Forbidden FORBIDDEN_MESSAGE)) (\<lambda>_.
     let accessCondition = buildFactoryAccessCondition access;
         search = search_condition (buildSearchPattern (pi_name inp)) [FactoryName, FactoryDescription];
         whereClause = sql_and [accessCondition, search]
     in
     hbind (hcount t TFactory [] whereClause) (\<lambda>totalCount.
     hbind (hselect t TFactory [left_departments, left_devices] whereClause) (\<lambda>js.
     let rows = sql_page (pi_page inp) (pi_perPage inp) (sql_order t [\<lambda>g. text_of FactoryName (hd g)] (sql_group (column_value FactoryId) js)) in
     hbind (hcount t TDepartment [join_factory] accessCondition) (\<lambda>departments.
     hbind (hcount t TDevice [join_department, join_factory] accessCondition) (\<lambda>devices.
     hreturn \<lparr>sl_filterOptions = (), sl_navigation = ma_navigation access,
       sl_stats = [(''departmentCount'', departments), (''deviceCount'', devices), (''factoryCount'', totalCount)],
       sl_table = toPaginationMeta (pi_page inp) (pi_perPage inp) totalCount (List.map_filter factory_item_of rows)\<rparr>))))))"

definition listUsers :: "sql_text \<Rightarrow> caller \<Rightarrow> page_input \<Rightarrow> ('s, (user_row, unit) scope_listing) handler" where
  "listUsers t u inp =
     hbind (hcheck (requireSysAdmin (cl_role u))) (\<lambda>_.
     let whereClause = search_condition (buildSearchPattern (pi_name inp)) [UserName, UserEmail] in
     hbind (hselect t TUser [] whereClause) (\<lambda>js.
     hbind (hquery bd_users) (\<lambda>allUsers.
     hbind (hlift (buildNavigation True [] [])) (\<lambda>nav.
     hreturn \<lparr>sl_filterOptions = (), sl_navigation = nav,
       sl_stats = [(''adminCount'', length (filter (\<lambda>r. \<exists>v \<in> set_option (us_role r). st_ilike t v ''%admin%'') allUsers)),
         (''bannedCount'', length (filter (\<lambda>r. us_banned r = Some True) allUsers)), (''userCount'', length js),
         (''verifiedCount'', length (filter us_emailVerified allUsers))],
       sl_table = toPaginationMeta (pi_page inp) (pi_perPage inp) (length js)
         (sql_page (pi_page inp) (pi_perPage inp) (sql_order t [us_name, us_email] (List.map_filter jr_user js)))\<rparr>))))"

definition buildRoleLabel :: "string \<Rightarrow> string option" where
  "buildRoleLabel role = map_of [(''admin'', ''Admin''), (''viewer'', ''Viewer''), (''read'', ''Read''), (''write'', ''Write'')] role"

section \<open>The management console\<close>

record console =
  mc_assignments :: assignment_rows
  mc_authz :: "authz_state option"
  mc_catalog :: "catalog_entry list"
  mc_departments :: "department_row list"
  mc_devices :: "device_row list"
  mc_factories :: "factory_row list"
  mc_installations :: "installation list"
  mc_isSysadmin :: bool
  mc_users :: "user_row list"

definition no_filters :: scope_filters where
  "no_filters = \<lparr>sf_componentIds = None, sf_departmentIds = None, sf_deviceIds = None, sf_factoryIds = None, sf_userIds = None\<rparr>"

text \<open>\<open>getAuthzDebugState\<close> reports the identifiers of the connection to the authorization server, the argument \<open>debug\<close>.\<close>

definition readManagementConsoleData ::
  "(string \<Rightarrow> string \<Rightarrow> bool) \<Rightarrow> sql_text \<Rightarrow> 's fga_client \<Rightarrow> authz_state \<Rightarrow> caller \<Rightarrow> ('s, console) handler" where
  "readManagementConsoleData locale_le t c debug u = (\<lambda>s.
     let db = bk_db s; users = sql_order t [us_name, us_email] (bd_users db) in
     if isSysAdminRole (cl_role u) then
       (case getScopedAssignments locale_le c no_filters (bk_authz s) of
          None \<Rightarrow> None
        | Some assignments \<Rightarrow> hreturn
            \<lparr>mc_assignments = assignments, mc_authz = Some debug, mc_catalog = sort_key ct_sortOrder (bd_catalog db),
             mc_departments = sql_order t [dr_name] (bd_departments db), mc_devices = sql_order t [dv_name] (bd_devices db),
             mc_factories = sql_order t [fr_name] (bd_factories db), mc_installations = sql_order t [is_deviceId] (bd_installations db),
             mc_isSysadmin = True, mc_users = users\<rparr> s)
     else
       let scope = getUserManagementScopeIds c (bk_authz s) (cl_id u);
           installations = filter (\<lambda>i. is_id i \<in> set (ms_componentIds scope)) (bd_installations db);
           deviceIds = fold (\<lambda>i ids. jadd (is_deviceId i) ids) installations (ms_deviceIds scope);
           devices = filter (\<lambda>v. dv_id v \<in> set deviceIds) (bd_devices db);
           departmentIds = fold (\<lambda>v ids. jadd (dv_departmentId v) ids) devices (ms_departmentIds scope);
           departments = filter (\<lambda>d. dr_id d \<in> set departmentIds) (bd_departments db);
           factoryIds = fold (\<lambda>d ids. jadd (dr_factoryId d) ids) departments (ms_factoryIds scope);
           factories = filter (\<lambda>f. fr_id f \<in> set factoryIds) (bd_factories db);
           componentKeys = jset_of (map is_componentKey installations)
       in (case getScopedAssignments locale_le c \<lparr>sf_componentIds = Some (ms_componentIds scope), sf_departmentIds = Some departmentIds,
               sf_deviceIds = Some deviceIds, sf_factoryIds = Some factoryIds, sf_userIds = None\<rparr> (bk_authz s) of
             None \<Rightarrow> None
           | Some assignments \<Rightarrow> hreturn
               \<lparr>mc_assignments = assignments, mc_authz = None, mc_catalog = filter (\<lambda>e. ct_key e \<in> set componentKeys) (bd_catalog db),
                mc_departments = departments, mc_devices = devices, mc_factories = factories, mc_installations = installations,
                mc_isSysadmin = False, mc_users = users\<rparr> s))"

end
