(* ===== verification/Workspace_Queries.thy ===== *)
theory Workspace_Queries
  imports Access_Queries
begin

text \<open>
  The queries of the workspace router (\<open>server/routers/workspace/router.ts\<close>): the pages of a factory, a
  department and a device with their sidebars, and the directories of system administrators.
\<close>

section \<open>Sidebars\<close>

text \<open>\<open>count(distinct case when ... in (ids) then column end)\<close>: \<open>None\<close> counts every value.\<close>

definition count_among :: "text_column \<Rightarrow> string list option \<Rightarrow> jrow list \<Rightarrow> nat" where
  "count_among c ids g = count_distinct c (filter (\<lambda>j. case ids of None \<Rightarrow> True | Some is \<Rightarrow> text_of c j \<in> set is \<and> column_value c j \<noteq> None) g)"

definition ids_condition :: "text_column \<Rightarrow> string list option \<Rightarrow> condition option" where
  "ids_condition c ids = map_option (InArray c) ids"

definition sidebar_factory :: "string list option \<Rightarrow> string list option \<Rightarrow> jrow list \<Rightarrow> factory_item option" where
  "sidebar_factory departmentIds deviceIds g =
     map_option (\<lambda>f. \<lparr>fi_departmentCount = count_among DepartmentId departmentIds g, fi_description = fr_description f,
       fi_deviceCount = count_among DeviceId deviceIds g, fi_id = fr_id f, fi_name = fr_name f\<rparr>) (jr_factory (hd g))"

definition readFactorySidebarRows ::
  "sql_text \<Rightarrow> string list option \<Rightarrow> string list option \<Rightarrow> string list option \<Rightarrow> ('s, factory_item list) handler" where
  "readFactorySidebarRows t factoryIds departmentIds deviceIds =
     (if factoryIds = Some [] then hreturn []
      else hbind (hselect t TFactory [left_departments, left_devices] (ids_condition FactoryId factoryIds)) (\<lambda>js.
        hreturn (List.map_filter (sidebar_factory departmentIds deviceIds)
          (sql_order t [\<lambda>g. text_of FactoryName (hd g)] (sql_group (column_value FactoryId) js)))))"

record sidebar_department =
  sd_activeDeviceCount :: nat
  sd_description :: "string option"
  sd_deviceCount :: nat
  sd_factoryId :: string
  sd_id :: string
  sd_name :: string

definition sidebar_department_of :: "string list option \<Rightarrow> jrow list \<Rightarrow> sidebar_department option" where
  "sidebar_department_of deviceIds g =
     map_option (\<lambda>d. \<lparr>sd_activeDeviceCount = count_among DeviceId deviceIds (filter device_active g), sd_description = dr_description d,
       sd_deviceCount = count_among DeviceId deviceIds g, sd_factoryId = dr_factoryId d, sd_id = dr_id d, sd_name = dr_name d\<rparr>)
       (jr_department (hd g))"

definition department_groups :: "sql_text \<Rightarrow> jrow list \<Rightarrow> jrow list list" where
  "department_groups t js = sql_order t [\<lambda>g. text_of DepartmentName (hd g)] (sql_group (column_value DepartmentId) js)"

definition readDepartmentSidebarRows ::
  "sql_text \<Rightarrow> string \<Rightarrow> string list option \<Rightarrow> string list option \<Rightarrow> ('s, sidebar_department list) handler" where
  "readDepartmentSidebarRows t factoryId departmentIds deviceIds =
     (if departmentIds = Some [] then hreturn []
      else hbind (hselect t TDepartment [left_devices]
          (sql_and [Some (EqText DepartmentFactoryId factoryId), ids_condition DepartmentId departmentIds])) (\<lambda>js.
        hreturn (List.map_filter (sidebar_department_of deviceIds) (department_groups t js))))"

record sidebar_device =
  sv_departmentId :: string
  sv_description :: "string option"
  sv_enabledAppCount :: nat
  sv_id :: string
  sv_isActive :: bool
  sv_name :: string
  sv_totalAppCount :: nat

definition counted_apps :: "string list option \<Rightarrow> jrow list \<Rightarrow> jrow list" where
  "counted_apps componentIds g = filter (\<lambda>j. case column_value InstallationId j of
     None \<Rightarrow> False | Some i \<Rightarrow> (case componentIds of None \<Rightarrow> True | Some is \<Rightarrow> i \<in> set is)) g"

definition sidebar_device_of :: "string list option \<Rightarrow> jrow list \<Rightarrow> sidebar_device option" where
  "sidebar_device_of componentIds g =
     map_option (\<lambda>v. \<lparr>sv_departmentId = dv_departmentId v, sv_description = dv_description v,
       sv_enabledAppCount = length (filter installation_enabled (counted_apps componentIds g)), sv_id = dv_id v, sv_isActive = dv_isActive v,
       sv_name = dv_name v, sv_totalAppCount = length (counted_apps componentIds g)\<rparr>) (jr_device (hd g))"

definition named_device_groups :: "sql_text \<Rightarrow> jrow list \<Rightarrow> jrow list list" where
  "named_device_groups t js = sql_order t [\<lambda>g. text_of DeviceName (hd g)] (sql_group (column_value DeviceId) js)"

definition readDeviceSidebarRows ::
  "sql_text \<Rightarrow> string \<Rightarrow> string list option \<Rightarrow> string list option \<Rightarrow> ('s, sidebar_device list) handler" where
  "readDeviceSidebarRows t departmentId deviceIds componentIds =
     (if deviceIds = Some [] then hreturn []
      else hbind (hselect t TDevice [left_installations]
          (sql_and [Some (EqText DeviceDepartmentId departmentId), ids_condition DeviceId deviceIds])) (\<lambda>js.
        hreturn (List.map_filter (sidebar_device_of componentIds) (named_device_groups t js))))"

section \<open>Guards\<close>

definition requirePanelSysadmin :: "string option \<Rightarrow> trpc_error + unit" where
  "requirePanelSysadmin role = (if \<not> isSysAdminRole role then Inl (Forbidden ''Only sysadmins can access this panel.'') else Inr ())"

definition requireNavigableFactory :: "'s fga_client \<Rightarrow> caller \<Rightarrow> string \<Rightarrow> ('s, unit) handler" where
  "requireNavigableFactory c u factoryId =
     (if isSysAdminRole (cl_role u) then hreturn ()
      else hbind (hask (\<lambda>a. checkUserObjectRelation c a (cl_id u) CanNavigate Factory factoryId)) (\<lambda>allowed.
        hguard allowed (Forbidden ''You do not have access to this factory.'')))"

definition requireNavigableDepartment :: "'s fga_client \<Rightarrow> caller \<Rightarrow> string \<Rightarrow> ('s, unit) handler" where
  "requireNavigableDepartment c u departmentId =
     (if isSysAdminRole (cl_role u) then hreturn ()
      else hbind (hask (\<lambda>a. checkUserObjectRelation c a (cl_id u) CanNavigate Department departmentId)) (\<lambda>allowed.
        hguard allowed (Forbidden ''You do not have access to this department.'')))"

text \<open>The ids a caller may reach; \<open>undefined\<close> (no restriction) for a system administrator.\<close>

definition reachable_ids :: "'s fga_client \<Rightarrow> caller \<Rightarrow> authz_relation \<Rightarrow> authz_type \<Rightarrow> ('s, string list option) handler" where
  "reachable_ids c u r ty =
     (if isSysAdminRole (cl_role u) then hreturn None else hask (\<lambda>a. Some (listUserAuthorizedObjectIds c a (cl_id u) r ty)))"

definition resolveNavigableFactoryIds :: "'s fga_client \<Rightarrow> caller \<Rightarrow> ('s, string list option) handler" where
  "resolveNavigableFactoryIds c u = reachable_ids c u CanNavigate Factory"

definition may_read :: "'s fga_client \<Rightarrow> caller \<Rightarrow> authz_type \<Rightarrow> string \<Rightarrow> ('s, bool) handler" where
  "may_read c u ty i = (if isSysAdminRole (cl_role u) then hreturn True else hask (\<lambda>a. checkUserObjectRelation c a (cl_id u) CanRead ty i))"

section \<open>The workspace of a factory\<close>

record workspace_page_input =
  wi_name :: string
  wi_page :: nat
  wi_perPage :: nat

record workspace_department =
  wd_activeDeviceCount :: nat
  wd_description :: "string option"
  wd_deviceCount :: nat
  wd_id :: string
  wd_name :: string

definition workspace_department_of :: "string list option \<Rightarrow> jrow list \<Rightarrow> workspace_department option" where
  "workspace_department_of deviceIds g =
     map_option (\<lambda>d. \<lparr>wd_activeDeviceCount = count_among DeviceId deviceIds (filter device_active g), wd_description = dr_description d,
       wd_deviceCount = count_among DeviceId deviceIds g, wd_id = dr_id d, wd_name = dr_name d\<rparr>) (jr_department (hd g))"

record factory_workspace =
  fw_factories :: "factory_item list"
  fw_isSysadmin :: bool
  fw_selectedFactory :: factory_row
  fw_stats :: stats
  fw_table :: "workspace_department page"

definition getFactoryWorkspace :: "sql_text \<Rightarrow> 's fga_client \<Rightarrow> caller \<Rightarrow> string \<Rightarrow> workspace_page_input \<Rightarrow> ('s, factory_workspace) handler" where
  "getFactoryWorkspace t c u factoryId inp =
     hbind (requireNavigableFactory c u factoryId) (\<lambda>_.
     let sysadmin = isSysAdminRole (cl_role u); search = search_condition (buildSearchPattern (wi_name inp)) [DepartmentName, DepartmentDescription] in
     hbind (resolveNavigableFactoryIds c u) (\<lambda>navigableFactoryIds.
     hbind (reachable_ids c u CanNavigate Department) (\<lambda>navigableDepartmentIds.
     hbind (reachable_ids c u CanNavigate Device) (\<lambda>navigableDeviceIds.
     hbind (hquery (\<lambda>db. find (\<lambda>f. fr_id f = factoryId) (bd_factories db))) (\<lambda>selected.
     hbind (readFactorySidebarRows t navigableFactoryIds navigableDepartmentIds navigableDeviceIds) (\<lambda>factories.
     case selected of
       None \<Rightarrow> hfail (NotFound ''Factory not found.'')
     | Some currentFactory \<Rightarrow>
         hbind (may_read c u Factory factoryId) (\<lambda>canRead.
         hbind (hguard (canRead \<or> sysadmin \<or> navigableDepartmentIds \<noteq> Some []) (Forbidden ''You do not have access to this factory.'')) (\<lambda>_.
         let scoped = (Some (EqText DepartmentFactoryId factoryId)) #
               (if canRead \<or> sysadmin then [] else [Some (InArray DepartmentId (case navigableDepartmentIds of None \<Rightarrow> [] | Some ids \<Rightarrow> ids))]);
             deviceIds = (if canRead \<or> sysadmin then None else navigableDeviceIds)
         in
         hbind (hcount t TDepartment [] (sql_and (scoped @ [search]))) (\<lambda>totalCount.
         hbind (hselect t TDepartment [left_devices] (sql_and (scoped @ [search]))) (\<lambda>js.
         hbind (hcount t TDepartment [] (sql_and scoped)) (\<lambda>departments.
         hbind (hcount t TDevice [join_department] (sql_and (scoped @ [ids_condition DeviceId deviceIds]))) (\<lambda>devices.
         hbind (hcount t TDevice [join_department] (sql_and (scoped @ [Some DeviceActive, ids_condition DeviceId deviceIds]))) (\<lambda>active.
         hreturn \<lparr>fw_factories = factories, fw_isSysadmin = sysadmin, fw_selectedFactory = currentFactory,
           fw_stats = [(''activeDeviceCount'', active), (''departmentCount'', departments), (''deviceCount'', devices)],
           fw_table = toPaginationMeta (wi_page inp) (wi_perPage inp) totalCount
             (List.map_filter (workspace_department_of deviceIds) (sql_page (wi_page inp) (wi_perPage inp) (department_groups t js)))\<rparr>)))))))))))))"

section \<open>The workspace of a department\<close>

record workspace_device =
  wv_description :: "string option"
  wv_enabledAppCount :: nat
  wv_id :: string
  wv_isActive :: bool
  wv_name :: string
  wv_totalAppCount :: nat

definition workspace_device_of :: "string list option \<Rightarrow> jrow list \<Rightarrow> workspace_device option" where
  "workspace_device_of componentIds g =
     map_option (\<lambda>v. \<lparr>wv_description = dv_description v,
       wv_enabledAppCount = length (filter installation_enabled (counted_apps componentIds g)), wv_id = dv_id v, wv_isActive = dv_isActive v,
       wv_name = dv_name v, wv_totalAppCount = length (counted_apps componentIds g)\<rparr>) (jr_device (hd g))"

record selected_department =
  sp_description :: "string option"
  sp_factoryId :: string
  sp_factoryName :: string
  sp_id :: string
  sp_name :: string

definition selected_department_of :: "jrow \<Rightarrow> selected_department option" where
  "selected_department_of j =
     (case (jr_department j, jr_factory j) of
        (Some d, Some f) \<Rightarrow> Some \<lparr>sp_description = dr_description d, sp_factoryId = fr_id f, sp_factoryName = fr_name f,
          sp_id = dr_id d, sp_name = dr_name d\<rparr>
      | _ \<Rightarrow> None)"

record department_workspace =
  dw_departments :: "sidebar_department list"
  dw_isSysadmin :: bool
  dw_selectedDepartment :: selected_department
  dw_stats :: stats
  dw_table :: "workspace_device page"

definition getDepartmentWorkspace :: "sql_text \<Rightarrow> 's fga_client \<Rightarrow> caller \<Rightarrow> string \<Rightarrow> workspace_page_input \<Rightarrow> ('s, department_workspace) handler" where
  "getDepartmentWorkspace t c u departmentId inp =
     hbind (requireNavigableDepartment c u departmentId) (\<lambda>_.
     let sysadmin = isSysAdminRole (cl_role u); search = search_condition (buildSearchPattern (wi_name inp)) [DeviceName, DeviceDescription] in
     hbind (hselect t TDepartment [join_factory] (Some (EqText DepartmentId departmentId))) (\<lambda>selected.
     case List.map_filter selected_department_of selected of
       [] \<Rightarrow> hfail (NotFound ''Department not found.'')
     | row # _ \<Rightarrow>
         hbind (may_read c u Department departmentId) (\<lambda>canRead.
         hbind (reachable_ids c u CanNavigate Department) (\<lambda>navigableDepartmentIds.
         hbind (reachable_ids c u CanNavigate Device) (\<lambda>navigableDeviceIds.
         hbind (reachable_ids c u CanRead DeviceComponent) (\<lambda>readableComponentIds.
         hbind (hguard (canRead \<or> sysadmin \<or> navigableDeviceIds \<noteq> Some []) (Forbidden ''You do not have access to this department.'')) (\<lambda>_.
         hbind (may_read c u Factory (sp_factoryId row)) (\<lambda>canReadParentFactory.
         let scoped = (Some (EqText DeviceDepartmentId departmentId)) #
               (if canRead \<or> sysadmin then [] else [Some (InArray DeviceId (case navigableDeviceIds of None \<Rightarrow> [] | Some ids \<Rightarrow> ids))]);
             visibleDepartmentIds = (if canReadParentFactory \<or> sysadmin then None else navigableDepartmentIds);
             componentIds = (if canRead \<or> sysadmin then None else readableComponentIds)
         in
         hbind (readDepartmentSidebarRows t (sp_factoryId row) visibleDepartmentIds navigableDeviceIds) (\<lambda>departments.
         hbind (hcount t TDevice [] (sql_and scoped)) (\<lambda>devices.
         hbind (hcount t TDevice [] (sql_and (scoped @ [Some DeviceActive]))) (\<lambda>active.
         hbind (hcount t TInstallation [join_device]
           (sql_and (scoped @ [Some InstallationEnabled, ids_condition InstallationId componentIds]))) (\<lambda>enabled.
         hbind (hcount t TDevice [] (sql_and (scoped @ [search]))) (\<lambda>totalCount.
         hbind (hselect t TDevice [left_installations] (sql_and (scoped @ [search]))) (\<lambda>js.
         hreturn \<lparr>dw_departments = departments, dw_isSysadmin = sysadmin, dw_selectedDepartment = row,
           dw_stats = [(''activeDeviceCount'', active), (''deviceCount'', devices), (''enabledAppCount'', enabled)],
           dw_table = toPaginationMeta (wi_page inp) (wi_perPage inp) totalCount
             (List.map_filter (workspace_device_of componentIds) (sql_page (wi_page inp) (wi_perPage inp) (named_device_groups t js)))\<rparr>))))))))))))))"

section \<open>The workspace of a device\<close>

record 'token device_workspace =
  vw_canManageUsers :: bool
  vw_components :: "component_access list"
  vw_device :: device_item
  vw_devices :: "sidebar_device list"
  vw_gatewayAccessToken :: 'token
  vw_isSysadmin :: bool
  vw_stats :: stats

definition hdevice_access ::
  "'s fga_client \<Rightarrow> (string \<Rightarrow> jwt_request \<Rightarrow> 'token) \<Rightarrow> string option \<Rightarrow> caller \<Rightarrow> string \<Rightarrow> ('s, 'token device_access) handler" where
  "hdevice_access c sign_jwt secret u i = (\<lambda>s.
     case getDeviceComponentAccessForUser c (bk_authz s) sign_jwt secret (access_view (bk_db s)) (cl_id u) i (isSysAdminRole (cl_role u)) of
       Inl e \<Rightarrow> hfail (Forbidden (access_message e)) s
     | Inr a \<Rightarrow> hreturn a s)"

definition getDeviceWorkspace ::
  "sql_text \<Rightarrow> 's fga_client \<Rightarrow> (string \<Rightarrow> jwt_request \<Rightarrow> 'token) \<Rightarrow> string option \<Rightarrow> caller \<Rightarrow> string \<Rightarrow> ('s, 'token device_workspace) handler" where
  "getDeviceWorkspace t c sign_jwt secret u deviceId =
     hbind (hquery (\<lambda>db. readJoinedDevices (st_le t) db (Some [deviceId]))) (\<lambda>selected.
     case selected of
       [] \<Rightarrow> hfail (NotFound ''Device not found.'')
     | row # _ \<Rightarrow>
         let sysadmin = isSysAdminRole (cl_role u) in
         hbind (hdevice_access c sign_jwt secret u deviceId) (\<lambda>access.
         hbind (may_read c u Device deviceId) (\<lambda>canRead.
         hbind (may_read c u Department (di_departmentId row)) (\<lambda>canReadParent.
         let readableComponentIds = (if canRead \<or> sysadmin then None else Some (map dc_id (da_components access))) in
         hbind (if canReadParent \<or> sysadmin then hreturn None
                else hask (\<lambda>a. Some (listUserAuthorizedObjectIds c a (cl_id u) CanNavigate Device))) (\<lambda>visibleDeviceIds.
         hbind (readDeviceSidebarRows t (di_departmentId row) visibleDeviceIds readableComponentIds) (\<lambda>devices.
         let own = [Some (EqText InstallationDeviceId deviceId),
               if canRead then None else Some (InArray InstallationId (case readableComponentIds of None \<Rightarrow> [] | Some ids \<Rightarrow> ids))] in
         hbind (hcount t TInstallation [] (sql_and own)) (\<lambda>total.
         hbind (hcount t TInstallation [] (sql_and (own @ [Some InstallationEnabled]))) (\<lambda>enabled.
         hreturn \<lparr>vw_canManageUsers = da_canManageUsers access, vw_components = da_components access,
           vw_device = row\<lparr>di_accessToken := (if sysadmin then di_accessToken row else None), di_canManageUsers := da_canManageUsers access\<rparr>,
           vw_devices = devices, vw_gatewayAccessToken = da_gatewayAccessToken access, vw_isSysadmin = sysadmin,
           vw_stats = [(''enabledAppCount'', enabled), (''totalAppCount'', total), (''visibleAppCount'', length (da_components access))]\<rparr>))))))))"

section \<open>Directories of system administrators\<close>

record 'row directory =
  dy_stats :: stats
  dy_table :: "'row page"

definition listSysadminFactories :: "sql_text \<Rightarrow> caller \<Rightarrow> workspace_page_input \<Rightarrow> ('s, factory_item directory) handler" where
  "listSysadminFactories t u inp =
     hbind (hcheck (requirePanelSysadmin (cl_role u))) (\<lambda>_.
     let whereClause = search_condition (buildSearchPattern (wi_name inp)) [FactoryName, FactoryDescription] in
     hbind (hcount t TFactory [] whereClause) (\<lambda>totalCount.
     hbind (hselect t TFactory [] whereClause) (\<lambda>js.
     hbind (readFactorySidebarRows t
       (Some (map (text_of FactoryId) (sql_page (wi_page inp) (wi_perPage inp) (sql_order t [text_of FactoryName] js)))) None None) (\<lambda>rows.
     hbind (hcount t TDepartment [] None) (\<lambda>departments.
     hbind (hcount t TDevice [] None) (\<lambda>devices.
     hreturn \<lparr>dy_stats = [(''departmentCount'', departments), (''deviceCount'', devices), (''factoryCount'', totalCount)],
       dy_table = toPaginationMeta (wi_page inp) (wi_perPage inp) totalCount rows\<rparr>))))))"

record directory_department = department_item +
  dd_activeDeviceCount :: nat

definition directory_department_of :: "jrow list \<Rightarrow> directory_department option" where
  "directory_department_of g =
     map_option (\<lambda>d. department_item.extend d \<lparr>dd_activeDeviceCount = count_distinct DeviceId (filter device_active g)\<rparr>) (department_item_of g)"

definition listSysadminDepartments :: "sql_text \<Rightarrow> caller \<Rightarrow> workspace_page_input \<Rightarrow> ('s, directory_department directory) handler" where
  "listSysadminDepartments t u inp =
     hbind (hcheck (requirePanelSysadmin (cl_role u))) (\<lambda>_.
     let whereClause = search_condition (buildSearchPattern (wi_name inp)) [DepartmentName, DepartmentDescription] in
     hbind (hcount t TDepartment [] whereClause) (\<lambda>totalCount.
     hbind (hselect t TDepartment [join_factory, left_devices] whereClause) (\<lambda>js.
     let groups = sql_group (\<lambda>j. (column_value DepartmentId j, column_value FactoryId j)) js;
         rows = sql_page (wi_page inp) (wi_perPage inp) (sql_order t [\<lambda>g. text_of FactoryName (hd g), \<lambda>g. text_of DepartmentName (hd g)] groups)
     in
     hbind (hcount t TDevice [] None) (\<lambda>devices.
     hbind (hcount t TDevice [] (Some DeviceActive)) (\<lambda>active.
     hreturn \<lparr>dy_stats = [(''activeDeviceCount'', active), (''departmentCount'', totalCount), (''deviceCount'', devices)],
       dy_table = toPaginationMeta (wi_page inp) (wi_perPage inp) totalCount (List.map_filter directory_department_of rows)\<rparr>)))))"

record directory_device = device_scope_item +
  dx_accessToken :: string

definition directory_device_of :: "jrow list \<Rightarrow> directory_device option" where
  "directory_device_of g =
     (case (device_scope_item_of g, jr_device (hd g)) of
        (Some i, Some v) \<Rightarrow> Some (device_scope_item.extend i \<lparr>dx_accessToken = dv_accessToken v\<rparr>)
      | _ \<Rightarrow> None)"

definition listSysadminDevices :: "sql_text \<Rightarrow> caller \<Rightarrow> workspace_page_input \<Rightarrow> ('s, directory_device directory) handler" where
  "listSysadminDevices t u inp =
     hbind (hcheck (requirePanelSysadmin (cl_role u))) (\<lambda>_.
     let whereClause = search_condition (buildSearchPattern (wi_name inp)) [DeviceName, DeviceDescription] in
     hbind (hcount t TDevice [] whereClause) (\<lambda>totalCount.
     hbind (hselect t TDevice [join_department, join_factory, left_installations] whereClause) (\<lambda>js.
     hbind (hcount t TDevice [] (Some DeviceActive)) (\<lambda>active.
     hbind (hcount t TInstallation [] (Some InstallationEnabled)) (\<lambda>enabled.
     hreturn \<lparr>dy_stats = [(''activeDeviceCount'', active), (''deviceCount'', totalCount), (''enabledAppCount'', enabled)],
       dy_table = toPaginationMeta (wi_page inp) (wi_perPage inp) totalCount
         (List.map_filter directory_device_of (sql_page (wi_page inp) (wi_perPage inp) (device_groups t js)))\<rparr>)))))"

definition listSysadminApps :: "sql_text \<Rightarrow> caller \<Rightarrow> workspace_page_input \<Rightarrow> ('s, app_item directory) handler" where
  "listSysadminApps t u inp =
     hbind (hcheck (requirePanelSysadmin (cl_role u))) (\<lambda>_.
     let whereClause = search_condition (buildSearchPattern (wi_name inp)) [CatalogDisplayName, CatalogKey, CatalogServiceName] in
     hbind (hcount t TCatalog [] whereClause) (\<lambda>totalCount.
     hbind (hselect t TCatalog [LeftJoin TInstallation (EqColumns InstallationComponentKey CatalogKey)] whereClause) (\<lambda>js.
     let rows = sql_page (wi_page inp) (wi_perPage inp) (catalog_order t hd (sql_group (column_value CatalogKey) js)) in
     hbind (hcount t TInstallation [] None) (\<lambda>installations.
     hbind (hcount t TInstallation [] (Some InstallationEnabled)) (\<lambda>enabled.
     hreturn \<lparr>dy_stats = [(''appCount'', totalCount), (''enabledInstallationsCount'', enabled), (''installationsCount'', installations)],
       dy_table = toPaginationMeta (wi_page inp) (wi_perPage inp) totalCount (List.map_filter app_item_of rows)\<rparr>)))))"

text \<open>An option of the department picker: factory id and name, department id and name.\<close>

definition listDepartmentOptions :: "sql_text \<Rightarrow> caller \<Rightarrow> ('s, (string \<times> string \<times> string \<times> string) list) handler" where
  "listDepartmentOptions t u =
     hbind (hcheck (requirePanelSysadmin (cl_role u))) (\<lambda>_.
     hbind (hselect t TDepartment [join_factory] None) (\<lambda>js.
     hreturn (map (\<lambda>j. (text_of FactoryId j, text_of FactoryName j, text_of DepartmentId j, text_of DepartmentName j))
       (sql_order t [text_of FactoryName, text_of DepartmentName] js))))"

definition listFactoriesNav :: "sql_text \<Rightarrow> 's fga_client \<Rightarrow> caller \<Rightarrow> ('s, factory_item list) handler" where
  "listFactoriesNav t c u =
     (if isSysAdminRole (cl_role u) then readFactorySidebarRows t None None None
      else
        hbind (resolveNavigableFactoryIds c u) (\<lambda>factoryIds.
        hbind (hask (\<lambda>a. listUserAuthorizedObjectIds c a (cl_id u) CanNavigate Department)) (\<lambda>departmentIds.
        hbind (hask (\<lambda>a. listUserAuthorizedObjectIds c a (cl_id u) CanNavigate Device)) (\<lambda>deviceIds.
        readFactorySidebarRows t factoryIds (Some departmentIds) (Some deviceIds)))))"

end
