(* ===== verification/Access_Sync.thy ===== *)
theory Access_Sync
  imports Access_Control
begin

text \<open>
  The database and the authorization store stay in step. The requests of the two routers are the
  steps of a transition system; a step draws identifiers that no row has yet. The rows of the
  database determine the links of the store, and who may change grants follows from both.
\<close>

section \<open>Requests\<close>

datatype request =
    CreateFactory string string
  | CreateDepartment string string string
  | CreateCatalogEntry catalog_entry
  | UpdateFactory string string string
  | UpdateDepartment string string string string
  | UpdateCatalogEntry catalog_entry
  | SetInstallationState string string bool
  | RemoveAssignment authz_type string string
  | UpsertAssignment assignment
  | CreateDevice string nat string string string
  | UpdateDevice string string string bool string
  | DeleteDevice string

definition hvoid :: "('s, 'a) handler \<Rightarrow> ('s, unit) handler" where
  "hvoid h = hbind h (\<lambda>_. hreturn ())"

fun serve :: "(string \<Rightarrow> string \<Rightarrow> bool) \<Rightarrow> 's fga_client \<Rightarrow> (nat \<Rightarrow> string) \<Rightarrow> caller \<Rightarrow> request \<Rightarrow> ('s, unit) handler" where
  "serve le c fresh u (CreateFactory description name) = hvoid (createFactory fresh u description name)"
| "serve le c fresh u (CreateDepartment description factoryId name) = hvoid (createDepartment c fresh u description factoryId name)"
| "serve le c fresh u (CreateCatalogEntry e) = hvoid (createCatalogEntry c fresh u e)"
| "serve le c fresh u (UpdateFactory i description name) = hvoid (updateFactory u i description name)"
| "serve le c fresh u (UpdateDepartment i description factoryId name) = hvoid (updateDepartment c u i description factoryId name)"
| "serve le c fresh u (UpdateCatalogEntry e) = hvoid (updateCatalogEntry u e)"
| "serve le c fresh u (SetInstallationState key deviceId enabled) = hvoid (setInstallationState c fresh u key deviceId enabled)"
| "serve le c fresh u (RemoveAssignment t i userId) = removeAssignment c u t i userId"
| "serve le c fresh u (UpsertAssignment a) = upsertAssignment c u a"
| "serve le c fresh u (CreateDevice token now departmentId description name) =
     hvoid (createDevice le c fresh token now u departmentId description name)"
| "serve le c fresh u (UpdateDevice i departmentId description isActive name) =
     hvoid (updateDevice le c u i departmentId description isActive name)"
| "serve le c fresh u (DeleteDevice i) = hvoid (deleteDevice le c u i)"

section \<open>Rows and links\<close>

definition sound_db :: "backend_db \<Rightarrow> bool" where
  "sound_db db \<longleftrightarrow>
     distinct (map fr_id (bd_factories db)) \<and> distinct (map dr_id (bd_departments db)) \<and>
     distinct (map dv_id (bd_devices db)) \<and> distinct (map is_id (bd_installations db)) \<and>
     distinct (map (\<lambda>i. (is_deviceId i, is_componentKey i)) (bd_installations db)) \<and>
     distinct (map ct_key (bd_catalog db)) \<and>
     dr_factoryId ` set (bd_departments db) \<subseteq> fr_id ` set (bd_factories db) \<and>
     dv_departmentId ` set (bd_devices db) \<subseteq> dr_id ` set (bd_departments db) \<and>
     is_deviceId ` set (bd_installations db) \<subseteq> dv_id ` set (bd_devices db) \<and>
     is_componentKey ` set (bd_installations db) \<subseteq> ct_key ` set (bd_catalog db)"

definition department_link :: "department_row \<Rightarrow> string \<times> string" where
  "department_link d = (createAuthzObject Department (dr_id d), createAuthzObject Factory (dr_factoryId d))"

definition device_link :: "device_row \<Rightarrow> string \<times> string" where
  "device_link v = (createAuthzObject Device (dv_id v), createAuthzObject Department (dv_departmentId v))"

definition installation_link :: "installation \<Rightarrow> string \<times> string" where
  "installation_link i = (createAuthzObject DeviceComponent (is_id i), createAuthzObject Device (is_deviceId i))"

definition db_links :: "backend_db \<Rightarrow> (string \<times> string) set" where
  "db_links db = department_link ` set (bd_departments db) \<union> device_link ` set (bd_devices db) \<union>
     installation_link ` set (bd_installations db)"

definition store_links :: "tuple_key set \<Rightarrow> (string \<times> string) set" where
  "store_links T = {(ob, p). parent_in T ob p}"

definition in_step :: "backend_db \<Rightarrow> tuple_key set \<Rightarrow> bool" where
  "in_step db T \<longleftrightarrow> sound_db db \<and> store_links T = db_links db \<and> mirrored T \<and> well_typed AUTHORIZATION_MODEL T"

definition used_ids :: "backend_db \<Rightarrow> string set" where
  "used_ids db = fr_id ` set (bd_factories db) \<union> dr_id ` set (bd_departments db) \<union> dv_id ` set (bd_devices db) \<union>
     is_id ` set (bd_installations db)"

lemmas link_defs = department_link_def device_link_def installation_link_def

section \<open>Changes of the store\<close>

text \<open>Relations that carry grants of users.\<close>

lemma typed_tuple:
  "well_typed AUTHORIZATION_MODEL T \<longleftrightarrow> (\<forall>k \<in> T. well_typed AUTHORIZATION_MODEL {k})"
  by (simp add: well_typed_def)

lemma object_users:
  assumes "well_typed AUTHORIZATION_MODEL T" "k \<in> T" "tk_user k = createAuthzObject t i"
  shows "tk_relation k = ''parent'' \<or> tk_relation k = ''child''"
proof -
  obtain d types where "type_def AUTHORIZATION_MODEL (object_type (tk_object k)) = Some d"
    and direct: "map_of (td_direct d) (tk_relation k) = Some types" "(type_name t, None) \<in> set types"
    using assms by (auto simp: well_typed_def dest!: bspec)
  then have "d \<in> set createTypeDefinitions" by (auto simp: type_def_def AUTHORIZATION_MODEL_def find_Some_iff)
  then show ?thesis using direct by (cases t) (auto simp: model_defs split: if_splits)
qed

lemma link_typed:
  "well_typed AUTHORIZATION_MODEL {tuple_of (createAuthzObject Factory p) ''parent'' (createAuthzObject Department i)}"
  "well_typed AUTHORIZATION_MODEL {tuple_of (createAuthzObject Department i) ''child'' (createAuthzObject Factory p)}"
  "well_typed AUTHORIZATION_MODEL {tuple_of (createAuthzObject Department p) ''parent'' (createAuthzObject Device i)}"
  "well_typed AUTHORIZATION_MODEL {tuple_of (createAuthzObject Device i) ''child'' (createAuthzObject Department p)}"
  "well_typed AUTHORIZATION_MODEL {tuple_of (createAuthzObject Device p) ''parent'' (createAuthzObject DeviceComponent i)}"
  "well_typed AUTHORIZATION_MODEL {tuple_of (createAuthzObject DeviceComponent i) ''child'' (createAuthzObject Device p)}"
  by (simp_all add: well_typed_def type_def_model) (simp_all add: model_defs)

lemma grant_typed:
  "r \<in> relation_name ` set (candidate_relations t) \<Longrightarrow>
     well_typed AUTHORIZATION_MODEL {tuple_of (createAuthzUser uid) r (createAuthzObject t i)}"
  by (cases t) (auto simp: well_typed_def type_def_model, auto simp: model_defs)

lemma reparent_step:
  assumes "mirrored T" "well_typed AUTHORIZATION_MODEL T"
    and "well_typed AUTHORIZATION_MODEL {tuple_of p ''parent'' ob}" "well_typed AUTHORIZATION_MODEL {tuple_of ob ''child'' p}"
  shows "mirrored (reparent T ob p)" "well_typed AUTHORIZATION_MODEL (reparent T ob p)"
    "store_links (reparent T ob p) = {l \<in> store_links T. fst l \<noteq> ob} \<union> {(ob, p)}"
proof -
  show "mirrored (reparent T ob p)" using reparent_links(1) [OF assms(1)] .
  have "k \<in> T \<or> k = tuple_of p ''parent'' ob \<or> k = tuple_of ob ''child'' p" if "k \<in> reparent T ob p" for k
    using that by (auto simp: reparent_def split: if_splits)
  then show "well_typed AUTHORIZATION_MODEL (reparent T ob p)"
    using assms(2-4) by (subst typed_tuple) (metis typed_tuple)
  show "store_links (reparent T ob p) = {l \<in> store_links T. fst l \<noteq> ob} \<union> {(ob, p)}"
    by (auto simp: store_links_def parent_in_def reparent_def)
qed

lemma regrant_step:
  assumes "mirrored T" "well_typed AUTHORIZATION_MODEL T" and "set_option r \<subseteq> set (candidate_relations t)"
  shows "mirrored (regrant T (createAuthzUser uid) (createAuthzObject t i) (map_option relation_name r) (map relation_name (candidate_relations t)))"
      (is "mirrored ?T")
    "well_typed AUTHORIZATION_MODEL (regrant T (createAuthzUser uid) (createAuthzObject t i) (map_option relation_name r) (map relation_name (candidate_relations t)))"
    "store_links (regrant T (createAuthzUser uid) (createAuthzObject t i) (map_option relation_name r) (map relation_name (candidate_relations t))) = store_links T"
proof -
  have cand: "''parent'' \<notin> relation_name ` set (candidate_relations t)" "''child'' \<notin> relation_name ` set (candidate_relations t)"
    by (cases t; simp)+
  then have "relation_name x \<noteq> ''parent'' \<and> relation_name x \<noteq> ''child''" if "x \<in> set (candidate_relations t)" for x
    using that by force
  with assms(3) have rels: "map_option relation_name r \<noteq> Some ''parent''" "map_option relation_name r \<noteq> Some ''child''"
    by (cases r; auto)+
  have par: "parent_in ?T ob p \<longleftrightarrow> parent_in T ob p" and ch: "child_in ?T ob p \<longleftrightarrow> child_in T ob p" for ob p
    using cand rels by (auto simp: parent_in_def child_in_def regrant_def)
  show "mirrored ?T" using assms(1) by (simp add: mirrored_def par ch)
  show "store_links ?T = store_links T" by (simp add: store_links_def par)
  have "k \<in> T \<or> (\<exists>x \<in> relation_name ` set (candidate_relations t). k = tuple_of (createAuthzUser uid) x (createAuthzObject t i))" if "k \<in> ?T" for k
    using that assms(3) by (cases r) (auto simp: regrant_def)
  then show "well_typed AUTHORIZATION_MODEL ?T" using assms(2) grant_typed by (subst typed_tuple) (metis typed_tuple)
qed

lemma forget_step:
  assumes "mirrored T" "well_typed AUTHORIZATION_MODEL T" and "\<nexists>x. (x, ob) \<in> store_links T"
  shows "mirrored (forget T ob)" "well_typed AUTHORIZATION_MODEL (forget T ob)"
    "store_links (forget T ob) = {l \<in> store_links T. fst l \<noteq> ob}"
proof -
  have "\<nexists>x. x \<noteq> ob \<and> child_in T ob x" using assms(1,3) by (simp add: mirrored_def store_links_def)
  then show "mirrored (forget T ob)" using forget_mirrored [OF assms(1)] by blast
  show "well_typed AUTHORIZATION_MODEL (forget T ob)" using assms(2) by (simp add: well_typed_def forget_def)
  show "store_links (forget T ob) = {l \<in> store_links T. fst l \<noteq> ob}" by (auto simp: store_links_def parent_in_def forget_def)
qed

definition link_keys :: "string \<times> string \<Rightarrow> tuple_key set" where
  "link_keys l = {tuple_of (snd l) ''parent'' (fst l), tuple_of (fst l) ''child'' (snd l)}"

lemma parent_keys_links: "set (concat (map parent_keys is)) = \<Union> (link_keys ` installation_link ` set is)"
  by (auto simp: parent_keys_def createObjectParentTupleKeys_def Let_def link_keys_def installation_link_def)

lemma new_links_step:
  assumes "mirrored T" "well_typed AUTHORIZATION_MODEL T"
  shows "mirrored (T \<union> \<Union> (link_keys ` L))" "store_links (T \<union> \<Union> (link_keys ` L)) = store_links T \<union> L"
    "L \<subseteq> range installation_link \<Longrightarrow> well_typed AUTHORIZATION_MODEL (T \<union> \<Union> (link_keys ` L))"
proof -
  have par: "parent_in (T \<union> \<Union> (link_keys ` L)) ob p \<longleftrightarrow> parent_in T ob p \<or> (ob, p) \<in> L" for ob p
    by (force simp: parent_in_def link_keys_def)
  have ch: "child_in (T \<union> \<Union> (link_keys ` L)) p ob \<longleftrightarrow> child_in T p ob \<or> (ob, p) \<in> L" for ob p
    by (force simp: child_in_def link_keys_def)
  show "mirrored (T \<union> \<Union> (link_keys ` L))" using assms(1) by (simp add: mirrored_def par ch)
  show "store_links (T \<union> \<Union> (link_keys ` L)) = store_links T \<union> L" by (auto simp: store_links_def par)
  assume L: "L \<subseteq> range installation_link"
  then have "well_typed AUTHORIZATION_MODEL {k}" if "k \<in> \<Union> (link_keys ` L)" for k
    using that link_typed(5,6) by (auto simp: link_keys_def installation_link_def)
  then show "well_typed AUTHORIZATION_MODEL (T \<union> \<Union> (link_keys ` L))"
    using assms(2) by (subst typed_tuple) (metis Un_iff typed_tuple)
qed

section \<open>Changes of the database\<close>

lemma sound_insert_department:
  assumes "sound_db db" "insert_department r db = Inr db'"
  shows "sound_db db' \<and> db_links db' = insert (department_link r) (db_links db) \<and> dr_id r \<notin> dr_id ` set (bd_departments db)"
proof -
  have db': "db' = db\<lparr>bd_departments := bd_departments db @ [r]\<rparr>"
    and new: "dr_id r \<notin> dr_id ` set (bd_departments db)" "dr_factoryId r \<in> fr_id ` set (bd_factories db)"
    using assms(2) by (simp_all add: insert_department_def split: if_splits)
  show ?thesis using assms(1) new unfolding db' by (simp add: sound_db_def db_links_def subset_insertI2)
qed

lemma sound_insert_device:
  assumes "sound_db db" "insert_device r db = Inr db'"
  shows "sound_db db' \<and> db_links db' = insert (device_link r) (db_links db) \<and> bd_catalog db' = bd_catalog db \<and>
    bd_installations db' = bd_installations db \<and> dv_id r \<notin> dv_id ` set (bd_devices db) \<and> dv_id r \<in> dv_id ` set (bd_devices db')"
proof -
  have db': "db' = db\<lparr>bd_devices := bd_devices db @ [r]\<rparr>"
    and new: "dv_id r \<notin> dv_id ` set (bd_devices db)" "dv_departmentId r \<in> dr_id ` set (bd_departments db)"
    using assms(2) by (simp_all add: insert_device_def split: if_splits)
  show ?thesis using assms(1) new unfolding db' by (simp add: sound_db_def db_links_def subset_insertI2)
qed

lemma sound_insert_installations:
  assumes "sound_db db" "insert_installations rs db = Inr db'"
  shows "sound_db db' \<and> db_links db' = db_links db \<union> installation_link ` set rs"
  using assms
proof (induction rs db arbitrary: db' rule: insert_installations.induct)
  case (2 r rs db)
  let ?db = "db\<lparr>bd_installations := bd_installations db @ [r]\<rparr>"
  have run: "insert_installations rs ?db = Inr db'" and new: "is_id r \<notin> is_id ` set (bd_installations db)"
    "(is_deviceId r, is_componentKey r) \<notin> (\<lambda>i. (is_deviceId i, is_componentKey i)) ` set (bd_installations db)"
    "is_deviceId r \<in> dv_id ` set (bd_devices db)" "is_componentKey r \<in> ct_key ` set (bd_catalog db)"
    using 2(3) by (simp_all split: if_splits)
  have "sound_db ?db" using 2(2) new by (simp add: sound_db_def)
  moreover have "db_links ?db = insert (installation_link r) (db_links db)" by (simp add: db_links_def)
  ultimately show ?case using 2(1) run new by simp
qed simp

text \<open>Rows with new identifiers for a new pair of device and component are always accepted.\<close>

lemma insert_installations_accepted:
  assumes "distinct (map is_id rs)" "distinct (map (\<lambda>i. (is_deviceId i, is_componentKey i)) rs)"
    and "is_id ` set rs \<inter> is_id ` set (bd_installations db) = {}"
    and "(\<lambda>i. (is_deviceId i, is_componentKey i)) ` set rs \<inter> (\<lambda>i. (is_deviceId i, is_componentKey i)) ` set (bd_installations db) = {}"
    and "is_deviceId ` set rs \<subseteq> dv_id ` set (bd_devices db)" "is_componentKey ` set rs \<subseteq> ct_key ` set (bd_catalog db)"
  shows "\<exists>db'. insert_installations rs db = Inr db'"
  using assms
proof (induction rs arbitrary: db)
  case (Cons r rs)
  have "\<exists>db'. insert_installations rs (db\<lparr>bd_installations := bd_installations db @ [r]\<rparr>) = Inr db'"
    using Cons.prems by (intro Cons.IH) (auto simp: disjoint_iff)
  then show ?case using Cons.prems by auto
qed simp

lemma image_update:
  assumes "\<And>r. key r = i \<Longrightarrow> h (f r) = l" "\<And>r. fst (h r) = ob \<longleftrightarrow> key r = i" "fst l = ob"
  shows "h ` set (map (\<lambda>r. if key r = i then f r else r) xs) =
    (if i \<in> key ` set xs then {x \<in> h ` set xs. fst x \<noteq> ob} \<union> {l} else h ` set xs)"
  by (induction xs) (use assms in auto)

lemma sound_update_department:
  assumes "sound_db db" "update_department i factoryId f db = Inr db'" "\<And>r. dr_id (f r) = dr_id r"
  shows "sound_db db' \<and> map dr_id (bd_departments db') = map dr_id (bd_departments db) \<and>
    (db_links db' = (if i \<in> dr_id ` set (bd_departments db)
       then {l \<in> db_links db. fst l \<noteq> createAuthzObject Department i} \<union> {(createAuthzObject Department i, createAuthzObject Factory factoryId)}
       else db_links db))"
proof -
  let ?g = "\<lambda>r. if dr_id r = i then (f r)\<lparr>dr_factoryId := factoryId\<rparr> else r"
  have db': "db' = db\<lparr>bd_departments := map ?g (bd_departments db)\<rparr>"
    and fk: "i \<in> dr_id ` set (bd_departments db) \<longrightarrow> factoryId \<in> fr_id ` set (bd_factories db)"
    using assms(2) by (auto simp: update_department_def split: if_splits)
  have rows: "bd_departments db' = map ?g (bd_departments db)" by (simp add: db')
  have names: "map dr_id (bd_departments db') = map dr_id (bd_departments db)" by (simp add: db' assms(3))
  then have ids_set: "dr_id ` set (bd_departments db') = dr_id ` set (bd_departments db)" by (metis list.set_map)
  have "dr_factoryId ` set (bd_departments db') \<subseteq> fr_id ` set (bd_factories db)"
    using assms(1) fk by (auto simp: db' sound_db_def)
  moreover have "bd_factories db' = bd_factories db" "bd_devices db' = bd_devices db" "bd_installations db' = bd_installations db"
    "bd_catalog db' = bd_catalog db" by (simp_all add: db')
  ultimately have "sound_db db'" using assms(1) names ids_set by (simp add: sound_db_def)
  moreover have "department_link ` set (bd_departments db') = (if i \<in> dr_id ` set (bd_departments db)
       then {l \<in> department_link ` set (bd_departments db). fst l \<noteq> createAuthzObject Department i} \<union> {(createAuthzObject Department i, createAuthzObject Factory factoryId)}
       else department_link ` set (bd_departments db))"
    unfolding rows by (rule image_update) (auto simp: department_link_def assms(3))
  moreover have "device_link ` set (bd_devices db') = device_link ` set (bd_devices db)"
    "installation_link ` set (bd_installations db') = installation_link ` set (bd_installations db)"
    "\<forall>l \<in> device_link ` set (bd_devices db) \<union> installation_link ` set (bd_installations db). fst l \<noteq> createAuthzObject Department i"
    by (auto simp: db' device_link_def installation_link_def)
  ultimately show ?thesis using names by (auto simp: db_links_def)
qed

lemma sound_update_device:
  assumes "sound_db db" "update_device i departmentId f db = Inr db'" "\<And>r. dv_id (f r) = dv_id r"
  shows "sound_db db' \<and> map dv_id (bd_devices db') = map dv_id (bd_devices db) \<and>
    (db_links db' = (if i \<in> dv_id ` set (bd_devices db)
       then {l \<in> db_links db. fst l \<noteq> createAuthzObject Device i} \<union> {(createAuthzObject Device i, createAuthzObject Department departmentId)}
       else db_links db))"
proof -
  let ?g = "\<lambda>r. if dv_id r = i then (f r)\<lparr>dv_departmentId := departmentId\<rparr> else r"
  have db': "db' = db\<lparr>bd_devices := map ?g (bd_devices db)\<rparr>"
    and fk: "i \<in> dv_id ` set (bd_devices db) \<longrightarrow> departmentId \<in> dr_id ` set (bd_departments db)"
    using assms(2) by (auto simp: update_device_def split: if_splits)
  have rows: "bd_devices db' = map ?g (bd_devices db)" by (simp add: db')
  have names: "map dv_id (bd_devices db') = map dv_id (bd_devices db)" by (simp add: db' assms(3))
  then have ids_set: "dv_id ` set (bd_devices db') = dv_id ` set (bd_devices db)" by (metis list.set_map)
  have "dv_departmentId ` set (bd_devices db') \<subseteq> dr_id ` set (bd_departments db)"
    using assms(1) fk by (auto simp: db' sound_db_def)
  moreover have "bd_factories db' = bd_factories db" "bd_departments db' = bd_departments db" "bd_installations db' = bd_installations db"
    "bd_catalog db' = bd_catalog db" by (simp_all add: db')
  ultimately have "sound_db db'" using assms(1) names ids_set by (simp add: sound_db_def)
  moreover have "device_link ` set (bd_devices db') = (if i \<in> dv_id ` set (bd_devices db)
       then {l \<in> device_link ` set (bd_devices db). fst l \<noteq> createAuthzObject Device i} \<union> {(createAuthzObject Device i, createAuthzObject Department departmentId)}
       else device_link ` set (bd_devices db))"
    unfolding rows by (rule image_update) (auto simp: device_link_def assms(3))
  moreover have "department_link ` set (bd_departments db') = department_link ` set (bd_departments db)"
    "installation_link ` set (bd_installations db') = installation_link ` set (bd_installations db)"
    "\<forall>l \<in> department_link ` set (bd_departments db) \<union> installation_link ` set (bd_installations db). fst l \<noteq> createAuthzObject Device i"
    by (auto simp: db' department_link_def installation_link_def)
  ultimately show ?thesis using names by (auto simp: db_links_def)
qed

lemma image_filter: "(\<And>r. r \<in> set xs \<Longrightarrow> Q (h r) \<longleftrightarrow> P r) \<Longrightarrow> h ` set (filter P xs) = {l \<in> h ` set xs. Q l}"
  by auto

lemma union_filter:
  "\<forall>l \<in> A \<union> B. Q l \<Longrightarrow> \<forall>l \<in> A \<union> C. P l \<Longrightarrow> A \<union> {l \<in> B. P l} \<union> {l \<in> C. Q l} = {l \<in> A \<union> B \<union> C. P l \<and> Q l}"
  by blast

lemma sound_delete_device:
  assumes "sound_db db" "delete_device i db = Inr db'"
  shows "sound_db db' \<and> db_links db' = {l \<in> db_links db. fst l \<noteq> createAuthzObject Device i \<and>
    fst l \<notin> createAuthzObject DeviceComponent ` is_id ` set (filter (\<lambda>r. is_deviceId r = i) (bd_installations db))}"
proof -
  have db': "db' = db\<lparr>bd_devices := filter (\<lambda>r. dv_id r \<noteq> i) (bd_devices db), bd_installations := filter (\<lambda>r. is_deviceId r \<noteq> i) (bd_installations db)\<rparr>"
    using assms(2) by (simp add: delete_device_def)
  have rows: "bd_installations db' = filter (\<lambda>r. is_deviceId r \<noteq> i) (bd_installations db)" by (simp add: db')
  have keys: "is_id r = is_id r' \<Longrightarrow> r = r'" if "r \<in> set (bd_installations db)" "r' \<in> set (bd_installations db)" for r r'
    using assms(1) that by (auto simp: sound_db_def distinct_map dest: inj_onD)
  have old: "is_deviceId ` set (bd_installations db) \<subseteq> dv_id ` set (bd_devices db)"
    "dv_departmentId ` set (bd_devices db) \<subseteq> dr_id ` set (bd_departments db)"
    "is_componentKey ` set (bd_installations db) \<subseteq> ct_key ` set (bd_catalog db)"
    using assms(1) by (simp_all add: sound_db_def)
  have "is_deviceId ` set (filter (\<lambda>r. is_deviceId r \<noteq> i) (bd_installations db)) \<subseteq> dv_id ` set (filter (\<lambda>r. dv_id r \<noteq> i) (bd_devices db))"
    using old(1) by auto
  moreover have "dv_departmentId ` set (filter (\<lambda>r. dv_id r \<noteq> i) (bd_devices db)) \<subseteq> dr_id ` set (bd_departments db)" using old(2) by auto
  moreover have "is_componentKey ` set (filter (\<lambda>r. is_deviceId r \<noteq> i) (bd_installations db)) \<subseteq> ct_key ` set (bd_catalog db)" using old(3) by auto
  ultimately have "sound_db db'"
    using assms(1) unfolding db' sound_db_def by (simp add: distinct_map_filter)
  moreover have devs: "device_link ` set (bd_devices db') = {l \<in> device_link ` set (bd_devices db). fst l \<noteq> createAuthzObject Device i}"
    by (force simp: db' device_link_def)
  moreover have insts: "installation_link ` set (bd_installations db') = {l \<in> installation_link ` set (bd_installations db).
      fst l \<notin> createAuthzObject DeviceComponent ` is_id ` set (filter (\<lambda>r. is_deviceId r = i) (bd_installations db))}"
  proof -
    have "fst (installation_link r) \<in> createAuthzObject DeviceComponent ` is_id ` set (filter (\<lambda>r. is_deviceId r = i) (bd_installations db)) \<longleftrightarrow>
        is_deviceId r = i" if "r \<in> set (bd_installations db)" for r
      using keys [OF that] that by (auto simp: installation_link_def)
    then show ?thesis unfolding rows by (intro image_filter) simp
  qed
  moreover have deps: "bd_departments db' = bd_departments db" by (simp add: db')
  moreover have "db_links db' = {l \<in> db_links db. fst l \<noteq> createAuthzObject Device i \<and>
    fst l \<notin> createAuthzObject DeviceComponent ` is_id ` set (filter (\<lambda>r. is_deviceId r = i) (bd_installations db))}"
    unfolding db_links_def devs insts deps
    by (rule union_filter) (auto simp: link_defs)
  ultimately show ?thesis by blast
qed

lemma sound_factories:
  assumes "sound_db db"
  shows "insert_factory r db = Inr db' \<Longrightarrow> sound_db db' \<and> db_links db' = db_links db"
    and "update_factory i f db = Inr db' \<Longrightarrow> (\<And>r. fr_id (f r) = fr_id r) \<Longrightarrow> sound_db db' \<and> db_links db' = db_links db"
proof -
  show "insert_factory r db = Inr db' \<Longrightarrow> sound_db db' \<and> db_links db' = db_links db"
    using assms by (clarsimp simp: insert_factory_def split: if_splits) (simp add: sound_db_def db_links_def subset_insertI2)
  assume upd: "update_factory i f db = Inr db'" and ids: "\<And>r. fr_id (f r) = fr_id r"
  then have names: "map fr_id (bd_factories db') = map fr_id (bd_factories db)" by (auto simp: update_factory_def)
  then have "fr_id ` set (bd_factories db') = fr_id ` set (bd_factories db)" by (metis list.set_map)
  moreover have "bd_departments db' = bd_departments db" "bd_devices db' = bd_devices db" "bd_installations db' = bd_installations db"
    "bd_catalog db' = bd_catalog db" using upd by (auto simp: update_factory_def)
  ultimately show "sound_db db' \<and> db_links db' = db_links db" using assms names by (simp add: sound_db_def db_links_def)
qed

lemma sound_catalog:
  assumes "sound_db db"
  shows "insert_catalog r db = Inr db' \<Longrightarrow> sound_db db' \<and> db_links db' = db_links db \<and> ct_key r \<notin> ct_key ` set (bd_catalog db)"
    and "update_catalog k f db = Inr db' \<Longrightarrow> (\<And>r. ct_key r = k \<Longrightarrow> ct_key (f r) = k) \<Longrightarrow> sound_db db' \<and> db_links db' = db_links db"
proof -
  show "insert_catalog r db = Inr db' \<Longrightarrow> sound_db db' \<and> db_links db' = db_links db \<and> ct_key r \<notin> ct_key ` set (bd_catalog db)"
    using assms by (clarsimp simp: insert_catalog_def split: if_splits) (simp add: sound_db_def db_links_def subset_insertI2)
  assume upd: "update_catalog k f db = Inr db'" and ids: "\<And>r. ct_key r = k \<Longrightarrow> ct_key (f r) = k"
  then have names: "map ct_key (bd_catalog db') = map ct_key (bd_catalog db)" by (auto simp: update_catalog_def)
  then have "ct_key ` set (bd_catalog db') = ct_key ` set (bd_catalog db)" by (metis list.set_map)
  moreover have "bd_departments db' = bd_departments db" "bd_devices db' = bd_devices db" "bd_installations db' = bd_installations db"
    "bd_factories db' = bd_factories db" using upd by (auto simp: update_catalog_def)
  ultimately show "sound_db db' \<and> db_links db' = db_links db" using assms names by (simp add: sound_db_def db_links_def)
qed

lemma sound_update_installation:
  assumes "sound_db db" "update_installation i enabled db = Inr db'"
  shows "sound_db db' \<and> db_links db' = db_links db"
proof -
  have "map is_id (bd_installations db') = map is_id (bd_installations db)"
    "map is_deviceId (bd_installations db') = map is_deviceId (bd_installations db)"
    "map is_componentKey (bd_installations db') = map is_componentKey (bd_installations db)"
    "map (\<lambda>i. (is_deviceId i, is_componentKey i)) (bd_installations db') = map (\<lambda>i. (is_deviceId i, is_componentKey i)) (bd_installations db)"
    "map installation_link (bd_installations db') = map installation_link (bd_installations db)"
    using assms(2) by (auto simp: update_installation_def installation_link_def)
  moreover from this have "is_deviceId ` set (bd_installations db') = is_deviceId ` set (bd_installations db)"
    "is_componentKey ` set (bd_installations db') = is_componentKey ` set (bd_installations db)"
    "installation_link ` set (bd_installations db') = installation_link ` set (bd_installations db)"
    by (metis list.set_map)+
  moreover have "bd_departments db' = bd_departments db" "bd_devices db' = bd_devices db" "bd_catalog db' = bd_catalog db"
    "bd_factories db' = bd_factories db" using assms(2) by (auto simp: update_installation_def)
  ultimately show ?thesis using assms(1) by (simp add: sound_db_def db_links_def)
qed

lemma updated_rows:
  "update_department i factoryId f db = Inr db' \<Longrightarrow> d \<in> set (bd_departments db') \<Longrightarrow> dr_id d = i \<Longrightarrow> dr_factoryId d = factoryId"
  "update_device i departmentId g db = Inr db' \<Longrightarrow> v \<in> set (bd_devices db') \<Longrightarrow> dv_id v = i \<Longrightarrow> dv_departmentId v = departmentId"
proof -
  assume upd: "update_department i factoryId f db = Inr db'" and d: "d \<in> set (bd_departments db')" "dr_id d = i"
  from upd have "bd_departments db' = map (\<lambda>r. if dr_id r = i then (f r)\<lparr>dr_factoryId := factoryId\<rparr> else r) (bd_departments db)"
    by (clarsimp simp: update_department_def split: if_splits)
  with d show "dr_factoryId d = factoryId" by auto
next
  assume upd: "update_device i departmentId g db = Inr db'" and v: "v \<in> set (bd_devices db')" "dv_id v = i"
  from upd have "bd_devices db' = map (\<lambda>r. if dv_id r = i then (g r)\<lparr>dv_departmentId := departmentId\<rparr> else r) (bd_devices db)"
    by (clarsimp simp: update_device_def split: if_splits)
  with v show "dv_departmentId v = departmentId" by auto
qed

lemma linked_objects:
  "(createAuthzObject Department i, p) \<in> db_links db \<Longrightarrow> i \<in> dr_id ` set (bd_departments db)"
  "(createAuthzObject Device i, p) \<in> db_links db \<Longrightarrow> i \<in> dv_id ` set (bd_devices db)"
  "(createAuthzObject DeviceComponent i, p) \<in> db_links db \<Longrightarrow> i \<in> is_id ` set (bd_installations db)"
  by (auto simp: db_links_def link_defs)

lemma add_new_link: "\<nexists>p. (ob, p) \<in> L \<Longrightarrow> fst l = ob \<Longrightarrow> insert l L = {k \<in> L. fst k \<noteq> ob} \<union> {l}"
  by force

section \<open>Every request keeps the two in step\<close>

definition synced :: "('s \<Rightarrow> tuple_key set) \<Rightarrow> 's backend \<Rightarrow> bool" where
  "synced tuples s \<longleftrightarrow> in_step (bk_db s) (tuples (bk_authz s))"

definition fresh_ids :: "(nat \<Rightarrow> string) \<Rightarrow> backend_db \<Rightarrow> bool" where
  "fresh_ids fresh db \<longleftrightarrow> inj fresh \<and> range fresh \<inter> used_ids db = {}"

text \<open>A handler that returns and leaves the two in step.\<close>

definition keeps_step :: "('s \<Rightarrow> tuple_key set) \<Rightarrow> ('s, 'a) handler \<Rightarrow> 's backend \<Rightarrow> bool" where
  "keeps_step tuples h s \<longleftrightarrow> (\<exists>r s'. h s = Some (r, s') \<and> synced tuples s')"

lemma keeps_void [simp]: "keeps_step tuples (hvoid h) s \<longleftrightarrow> keeps_step tuples h s"
proof -
  have "hvoid h s = (case h s of None \<Rightarrow> None | Some (Inl e, s') \<Rightarrow> Some (Inl e, s') | Some (Inr _, s') \<Rightarrow> Some (Inr (), s'))"
    by (simp add: hvoid_def handler_defs)
  then show ?thesis by (auto simp: keeps_step_def split: option.splits sum.splits)
qed

lemma check_bind:
  "hbind (hcheck (requireSysAdmin role)) f s = (if isSysAdminRole role then f () s else Some (Inl (Forbidden ''Only sysadmins can perform this action.''), s))"
  "hbind (hcheck (requireDeviceSysAdmin role)) f s =
     (if isSysAdminRole role then f () s else Some (Inl (Forbidden ''Only sysadmins can manage registered devices.''), s))"
  by (simp_all add: handler_defs requireSysAdmin_def requireDeviceSysAdmin_def)

lemma query_bind: "hbind (hquery q) f s = f (q (bk_db s)) s"
  by (simp add: handler_defs)

lemma exec_bind:
  "hbind (hexec q) f s = (case q (bk_db s) of Inl e \<Rightarrow> Some (Inl (SqlFailed e), s) | Inr db \<Rightarrow> f () (s\<lparr>bk_db := db\<rparr>))"
  by (simp add: handler_defs split: sum.splits)

lemma authz_bind:
  "hbind (hauthz q) f s = (case q (bk_authz s) of None \<Rightarrow> None | Some a \<Rightarrow> f () (s\<lparr>bk_authz := a\<rparr>))"
  by (simp add: handler_defs split: option.splits)

lemmas handler_binds = check_bind query_bind exec_bind authz_bind

lemma hbind_assoc: "hbind (hbind m f) g = hbind m (\<lambda>x. hbind (f x) g)"
  by (rule ext) (simp add: hbind_def split: option.splits sum.splits)

lemma keeps_step_simps [simp]:
  "keeps_step tuples (hreturn x) s \<longleftrightarrow> synced tuples s" "keeps_step tuples (hfail e) s \<longleftrightarrow> synced tuples s"
  by (simp_all add: keeps_step_def hreturn_def hfail_def)

lemma keeps_run: "h s = h' s' \<Longrightarrow> keeps_step tuples h s \<longleftrightarrow> keeps_step tuples h' s'"
  by (simp add: keeps_step_def)

lemma syncedD:
  assumes "synced tuples s"
  shows "sound_db (bk_db s)" "store_links (tuples (bk_authz s)) = db_links (bk_db s)" "mirrored (tuples (bk_authz s))"
    "well_typed AUTHORIZATION_MODEL (tuples (bk_authz s))"
  using assms by (simp_all add: synced_def in_step_def)

lemma exec_step:
  assumes "\<And>e. q (bk_db s) = Inl e \<Longrightarrow> synced tuples s" "\<And>db. q (bk_db s) = Inr db \<Longrightarrow> keeps_step tuples (f ()) (s\<lparr>bk_db := db\<rparr>)"
  shows "keeps_step tuples (hbind (hexec q) f) s"
  using assms by (auto simp: keeps_step_def exec_bind split: sum.splits)

lemma sysadmin_step:
  assumes "synced tuples s" "isSysAdminRole role \<Longrightarrow> keeps_step tuples (f ()) s"
  shows "keeps_step tuples (hbind (hcheck (requireSysAdmin role)) f) s" "keeps_step tuples (hbind (hcheck (requireDeviceSysAdmin role)) f) s"
  using assms by (simp_all add: keeps_step_def check_bind)

lemma query_step: "keeps_step tuples (f (q (bk_db s))) s \<Longrightarrow> keeps_step tuples (hbind (hquery q) f) s"
  by (simp add: keeps_step_def query_bind)

text \<open>What an assignment asks for: a relation of a user on the object it names.\<close>

fun assignment_grant :: "assignment \<Rightarrow> string \<times> authz_relation" where
  "assignment_grant (AssignFactory role _ uid) = (uid, if role = RoleAdmin then Admin else Viewer)"
| "assignment_grant (AssignDepartment role _ uid) = (uid, if role = RoleAdmin then Admin else Viewer)"
| "assignment_grant (AssignDevice _ uid) = (uid, Viewer)"
| "assignment_grant (AssignComponent level _ uid) = (uid, if level = AccessWrite then Writer else Reader)"

lemma upsert_call:
  "upsertAssignment c u a = (case assignment_scope a of (t, i) \<Rightarrow> case assignment_grant a of (uid, rel) \<Rightarrow>
     hbind (assertUserCanManageScope c u t i) (\<lambda>_.
       if t = DeviceComponent then hbind (readInstallationOrThrow i) (\<lambda>_. hauthz (replaceDirectUserRelation c t i uid (Some rel) (candidate_relations t)))
       else hauthz (replaceDirectUserRelation c t i uid (Some rel) (candidate_relations t))))"
  by (cases a) (simp_all add: upsertAssignment_def)

lemma assignment_candidate: "snd (assignment_grant a) \<in> set (candidate_relations (fst (assignment_scope a)))"
  by (cases a) auto

lemma if_step:
  "(b \<Longrightarrow> keeps_step tuples h s) \<Longrightarrow> (\<not> b \<Longrightarrow> keeps_step tuples h' s) \<Longrightarrow> keeps_step tuples (if b then h else h') s"
  by simp

lemma sync_upto_links:
  assumes "synced tuples s" "sound_db db" "db_links db = db_links (bk_db s)"
  shows "synced tuples (s\<lparr>bk_db := db\<rparr>)"
  using assms by (simp add: synced_def in_step_def)

lemma row_sync:
  assumes "synced tuples s"
  shows "insert_factory r (bk_db s) = Inr db \<Longrightarrow> synced tuples (s\<lparr>bk_db := db\<rparr>)"
    and "update_factory i f (bk_db s) = Inr db \<Longrightarrow> (\<And>r. fr_id (f r) = fr_id r) \<Longrightarrow> synced tuples (s\<lparr>bk_db := db\<rparr>)"
    and "insert_catalog e (bk_db s) = Inr db \<Longrightarrow> synced tuples (s\<lparr>bk_db := db\<rparr>)"
    and "update_catalog k g (bk_db s) = Inr db \<Longrightarrow> (\<And>e. ct_key e = k \<Longrightarrow> ct_key (g e) = k) \<Longrightarrow> synced tuples (s\<lparr>bk_db := db\<rparr>)"
    and "update_installation i b (bk_db s) = Inr db \<Longrightarrow> synced tuples (s\<lparr>bk_db := db\<rparr>)"
  using sync_upto_links [OF assms] sound_factories [OF syncedD(1) [OF assms]] sound_catalog [OF syncedD(1) [OF assms]]
    sound_update_installation [OF syncedD(1) [OF assms]] by blast+

context tuple_store
begin

lemma parent_step:
  assumes "synced tuples s" "sound_db db"
    and "db_links db = {l \<in> db_links (bk_db s). fst l \<noteq> createAuthzObject t i} \<union> {(createAuthzObject t i, createAuthzObject t' i')}"
    and "(t, t') \<in> {(Department, Factory), (Device, Department)}"
    and "\<And>a. synced tuples (s\<lparr>bk_db := db, bk_authz := a\<rparr>) \<Longrightarrow> keeps_step tuples (f ()) (s\<lparr>bk_db := db, bk_authz := a\<rparr>)"
  shows "keeps_step tuples (hbind (hauthz (setObjectParentRelation c t i t' i')) f) (s\<lparr>bk_db := db\<rparr>)"
proof -
  note old = syncedD [OF assms(1)]
  let ?ob = "createAuthzObject t i" and ?p = "createAuthzObject t' i'"
  obtain a where run: "setObjectParentRelation c t i t' i' (bk_authz s) = Some a" and T: "tuples a = reparent (tuples (bk_authz s)) ?ob ?p"
    using set_parent by blast
  have typed: "well_typed AUTHORIZATION_MODEL {tuple_of ?p ''parent'' ?ob}" "well_typed AUTHORIZATION_MODEL {tuple_of ?ob ''child'' ?p}"
    using assms(4) link_typed(1-4) by auto
  have "synced tuples (s\<lparr>bk_db := db, bk_authz := a\<rparr>)"
    using reparent_step [OF old(3,4) typed] old(2) assms(2,3) by (simp add: synced_def in_step_def T)
  then show ?thesis using assms(5) run by (simp add: keeps_step_def authz_bind)
qed

lemma new_installations_step:
  assumes "synced tuples s" "sound_db db" "db_links db = db_links (bk_db s) \<union> installation_link ` set is"
    and "\<And>a. synced tuples (s\<lparr>bk_db := db, bk_authz := a\<rparr>) \<Longrightarrow> keeps_step tuples (f ()) (s\<lparr>bk_db := db, bk_authz := a\<rparr>)"
  shows "keeps_step tuples (hbind (hauthz (\<lambda>a. Some (writeAuthzTuples c (concat (map parent_keys is)) a))) f) (s\<lparr>bk_db := db\<rparr>)"
proof -
  note old = syncedD [OF assms(1)]
  let ?a = "writeAuthzTuples c (concat (map parent_keys is)) (bk_authz s)"
  have T: "tuples ?a = tuples (bk_authz s) \<union> \<Union> (link_keys ` installation_link ` set is)"
    using write_tuples parent_keys_links by simp
  have "synced tuples (s\<lparr>bk_db := db, bk_authz := ?a\<rparr>)"
    using new_links_step [OF old(3,4), of "installation_link ` set is"] old(2) assms(2,3) unfolding synced_def in_step_def
    by (simp add: T image_subset_iff)
  then show ?thesis using assms(4) by (simp add: keeps_step_def authz_bind)
qed

lemma grant_step:
  assumes "synced tuples s" "set_option r \<subseteq> set (candidate_relations t)"
  shows "keeps_step tuples (hauthz (replaceDirectUserRelation c t i uid r (candidate_relations t))) s"
proof -
  note old = syncedD [OF assms(1)]
  obtain a where run: "replaceDirectUserRelation c t i uid r (candidate_relations t) (bk_authz s) = Some a"
    and T: "tuples a = regrant (tuples (bk_authz s)) (createAuthzUser uid) (createAuthzObject t i) (map_option relation_name r) (map relation_name (candidate_relations t))"
    using replace_relation by blast
  have "synced tuples (s\<lparr>bk_authz := a\<rparr>)"
    using regrant_step [OF old(3,4) assms(2)] old(1,2) by (simp add: synced_def in_step_def T)
  then show ?thesis using run by (simp add: keeps_step_def hauthz_def)
qed

lemma createFactory_step: "synced tuples s \<Longrightarrow> keeps_step tuples (createFactory fresh u description name) s"
  unfolding createFactory_def Let_def by (intro sysadmin_step exec_step) (simp_all add: row_sync(1))

lemma updateFactory_step: "synced tuples s \<Longrightarrow> keeps_step tuples (updateFactory u i description name) s"
  unfolding updateFactory_def by (intro sysadmin_step exec_step query_step) (simp_all add: row_sync(2) split: option.splits)

lemma updateCatalogEntry_step: "synced tuples s \<Longrightarrow> keeps_step tuples (updateCatalogEntry u e) s"
  unfolding updateCatalogEntry_def by (intro sysadmin_step exec_step query_step) (simp_all add: row_sync(4) split: option.splits)

lemma createDepartment_step: "synced tuples s \<Longrightarrow> keeps_step tuples (createDepartment c fresh u description factoryId name) s"
  unfolding createDepartment_def Let_def
proof (intro sysadmin_step exec_step)
  fix db
  let ?r = "\<lparr>dr_id = fresh 0, dr_factoryId = factoryId, dr_name = name, dr_description = normalizeOptionalText description\<rparr>"
  assume s: "synced tuples s" and ins: "insert_department ?r (bk_db s) = Inr db"
  have new: "sound_db db" "db_links db = insert (department_link ?r) (db_links (bk_db s))" "fresh 0 \<notin> dr_id ` set (bd_departments (bk_db s))"
    using sound_insert_department [OF syncedD(1) [OF s] ins] by simp_all
  then have "db_links db = {l \<in> db_links (bk_db s). fst l \<noteq> createAuthzObject Department (fresh 0)} \<union> {department_link ?r}"
    using linked_objects(1) by (subst new(2), intro add_new_link) (auto simp: department_link_def)
  then show "keeps_step tuples (hbind (hauthz (setObjectParentRelation c Department (dr_id ?r) Factory (dr_factoryId ?r))) (\<lambda>_. hreturn ?r)) (s\<lparr>bk_db := db\<rparr>)"
    by (intro parent_step s new(1)) (simp_all add: department_link_def)
qed

lemma updateDepartment_step: "synced tuples s \<Longrightarrow> keeps_step tuples (updateDepartment c u i description factoryId name) s"
  unfolding updateDepartment_def
proof (intro sysadmin_step exec_step query_step)
  fix db
  let ?f = "\<lambda>r. r\<lparr>dr_description := normalizeOptionalText description, dr_name := name\<rparr>"
  let ?found = "find (\<lambda>r. dr_id r = i) (bd_departments (bk_db (s\<lparr>bk_db := db\<rparr>)))"
  assume s: "synced tuples s" and upd: "update_department i factoryId ?f (bk_db s) = Inr db"
  have new: "sound_db db" "map dr_id (bd_departments db) = map dr_id (bd_departments (bk_db s))"
    "db_links db = (if i \<in> dr_id ` set (bd_departments (bk_db s)) then {l \<in> db_links (bk_db s). fst l \<noteq> createAuthzObject Department i} \<union>
       {(createAuthzObject Department i, createAuthzObject Factory factoryId)} else db_links (bk_db s))"
    using sound_update_department [OF syncedD(1) [OF s] upd] by simp_all
  have ids: "dr_id ` set (bd_departments db) = dr_id ` set (bd_departments (bk_db s))" using new(2) by (metis list.set_map)
  show "keeps_step tuples (case ?found of None \<Rightarrow> hfail (NotFound ''Department not found.'')
     | Some row \<Rightarrow> hbind (hauthz (setObjectParentRelation c Department (dr_id row) Factory (dr_factoryId row))) (\<lambda>_. hreturn row)) (s\<lparr>bk_db := db\<rparr>)"
  proof (cases ?found)
    case None
    then have "i \<notin> dr_id ` set (bd_departments db)" by (auto simp: find_None_iff)
    then show ?thesis using None new ids by (simp add: sync_upto_links [OF s])
  next
    case (Some row)
    then have row: "row \<in> set (bd_departments db)" "dr_id row = i" by (auto simp: find_Some_iff)
    then have "dr_factoryId row = factoryId" by (rule updated_rows(1) [OF upd])
    moreover have "i \<in> dr_id ` set (bd_departments (bk_db s))" using row ids by auto
    ultimately show ?thesis
      unfolding Some option.case row(2) using new by (intro parent_step [OF s]) simp_all
  qed
qed

lemma updateDevice_step: "synced tuples s \<Longrightarrow> keeps_step tuples (updateDevice le c u i departmentId description isActive name) s"
  unfolding updateDevice_def
proof (intro sysadmin_step exec_step query_step)
  fix db
  let ?f = "\<lambda>r. r\<lparr>dv_description := normalizeOptionalText description, dv_isActive := isActive, dv_name := name\<rparr>"
  let ?found = "find (\<lambda>r. dv_id r = i) (bd_devices (bk_db (s\<lparr>bk_db := db\<rparr>)))"
  let ?answer = "\<lambda>js. case js of [] \<Rightarrow> hfail (PlainError ''Failed to load updated device.'') | j # _ \<Rightarrow> hreturn (j\<lparr>di_canManageUsers := True\<rparr>)"
  assume s: "synced tuples s" and upd: "update_device i departmentId ?f (bk_db s) = Inr db"
  have new: "sound_db db" "map dv_id (bd_devices db) = map dv_id (bd_devices (bk_db s))"
    "db_links db = (if i \<in> dv_id ` set (bd_devices (bk_db s)) then {l \<in> db_links (bk_db s). fst l \<noteq> createAuthzObject Device i} \<union>
       {(createAuthzObject Device i, createAuthzObject Department departmentId)} else db_links (bk_db s))"
    using sound_update_device [OF syncedD(1) [OF s] upd] by simp_all
  have ids: "dv_id ` set (bd_devices db) = dv_id ` set (bd_devices (bk_db s))" using new(2) by (metis list.set_map)
  show "keeps_step tuples (case ?found of None \<Rightarrow> hfail (NotFound ''Device not found.'')
     | Some row \<Rightarrow> hbind (hauthz (setObjectParentRelation c Device (dv_id row) Department (dv_departmentId row))) (\<lambda>_.
         hbind (hquery (\<lambda>db. readJoinedDevices le db (Some [dv_id row]))) ?answer)) (s\<lparr>bk_db := db\<rparr>)"
  proof (cases ?found)
    case None
    then have "i \<notin> dv_id ` set (bd_devices db)" by (auto simp: find_None_iff)
    then show ?thesis using None new ids by (simp add: sync_upto_links [OF s])
  next
    case (Some row)
    then have row: "row \<in> set (bd_devices db)" "dv_id row = i" by (auto simp: find_Some_iff)
    then have "dv_departmentId row = departmentId" by (rule updated_rows(2) [OF upd])
    moreover have "i \<in> dv_id ` set (bd_devices (bk_db s))" using row ids by auto
    ultimately show ?thesis
      unfolding Some option.case row(2) using new by (intro parent_step [OF s] query_step) (simp_all split: list.splits)
  qed
qed

lemma insert_installations_step:
  assumes "synced tuples s"
    and "\<And>s'. synced tuples s' \<Longrightarrow> keeps_step tuples (f ()) s'"
  shows "keeps_step tuples (hbind (hexec (insert_installations is)) (\<lambda>_.
    hbind (hauthz (\<lambda>a. Some (writeAuthzTuples c (concat (map parent_keys is)) a))) f)) s"
proof (intro exec_step)
  fix db assume ins: "insert_installations is (bk_db s) = Inr db"
  show "keeps_step tuples (hbind (hauthz (\<lambda>a. Some (writeAuthzTuples c (concat (map parent_keys is)) a))) f) (s\<lparr>bk_db := db\<rparr>)"
    using sound_insert_installations [OF syncedD(1) [OF assms(1)] ins] by (intro new_installations_step [OF assms(1)] assms(2)) simp_all
qed (rule assms(1))

lemma createCatalogEntry_step: "synced tuples s \<Longrightarrow> keeps_step tuples (createCatalogEntry c fresh u e) s"
  unfolding createCatalogEntry_def Let_def
  by (rule sysadmin_step, assumption, rule exec_step, assumption, intro query_step if_step insert_installations_step)
    (simp_all add: row_sync(3))

lemma setInstallationState_step: "synced tuples s \<Longrightarrow> keeps_step tuples (setInstallationState c fresh u key deviceId enabled) s"
proof -
  assume s: "synced tuples s"
  let ?new = "\<lparr>is_id = fresh 0, is_deviceId = deviceId, is_componentKey = key, is_enabled = enabled\<rparr>"
  let ?found = "find (\<lambda>i. is_deviceId i = deviceId \<and> is_componentKey i = key) (bd_installations (bk_db s))"
  have create: "keeps_step tuples (hbind (hexec (insert_installations [?new])) (\<lambda>_.
      hbind (hauthz (\<lambda>a. Some (writeAuthzTuples c (parent_keys ?new) a))) (\<lambda>_. hreturn (Some ?new)))) s"
    using insert_installations_step [OF s, of "\<lambda>_. hreturn (Some ?new)" "[?new]"] by simp
  have update: "keeps_step tuples (hbind (hexec (update_installation (is_id i) enabled)) (\<lambda>_. hquery q)) s"
    for i :: installation and q :: "backend_db \<Rightarrow> installation option"
    using row_sync(5) [OF s] s by (intro exec_step) (auto simp: keeps_step_def hquery_def)
  show ?thesis unfolding setInstallationState_def Let_def
    using create update s by (intro sysadmin_step query_step) (simp_all split: option.splits)
qed

lemma removeAssignment_step: "synced tuples s \<Longrightarrow> keeps_step tuples (removeAssignment c u t i uid) s"
  using grant_step [of s None t i uid]
  by (auto simp: removeAssignment_def assertUserCanManageScope_def keeps_step_def hbind_def hask_def hreturn_def hfail_def
      split: sum.splits if_splits)

lemma upsertAssignment_step: "synced tuples s \<Longrightarrow> keeps_step tuples (upsertAssignment c u a) s"
proof -
  assume s: "synced tuples s"
  obtain t i uid rel where a: "assignment_scope a = (t, i)" "assignment_grant a = (uid, rel)" by (meson surj_pair)
  have "keeps_step tuples (hauthz (replaceDirectUserRelation c t i uid (Some rel) (candidate_relations t))) s"
    using grant_step [OF s, of "Some rel" t i uid] assignment_candidate [of a] a by simp
  then show ?thesis unfolding upsert_call a prod.case
    using s by (auto simp: keeps_step_def assertUserCanManageScope_def readInstallationOrThrow_def hbind_def hask_def hquery_def hreturn_def hfail_def
        split: sum.splits option.splits)
qed

lemma createDevice_step: "synced tuples s \<Longrightarrow> keeps_step tuples (createDevice le c fresh token now u departmentId description name) s"
  unfolding createDevice_def Let_def
proof (rule sysadmin_step, assumption, rule exec_step, assumption)
  fix db
  let ?r = "\<lparr>dv_id = fresh 0, dv_departmentId = departmentId, dv_name = name, dv_description = normalizeOptionalText description,
           dv_accessToken = token, dv_isActive = True, dv_createdAt = now\<rparr>"
  let ?is = "\<lambda>comps. map (\<lambda>(n, e). \<lparr>is_id = fresh n, is_deviceId = dv_id ?r, is_componentKey = ct_key e, is_enabled = ce_defaultEnabled e\<rparr>) (List.enumerate 1 comps)"
  let ?answer = "\<lambda>js. case js of [] \<Rightarrow> hfail (PlainError ''Failed to load created device.'') | j # _ \<Rightarrow> hreturn (j\<lparr>di_canManageUsers := True\<rparr>)"
  assume s: "synced tuples s" and ins: "insert_device ?r (bk_db s) = Inr db"
  have new: "sound_db db" "db_links db = insert (device_link ?r) (db_links (bk_db s))" "fresh 0 \<notin> dv_id ` set (bd_devices (bk_db s))"
    using sound_insert_device [OF syncedD(1) [OF s] ins] by simp_all
  then have links: "db_links db = {l \<in> db_links (bk_db s). fst l \<noteq> createAuthzObject Device (fresh 0)} \<union> {device_link ?r}"
    using linked_objects(2) by (subst new(2), intro add_new_link) (auto simp: device_link_def)
  have load: "keeps_step tuples (hbind (hquery q) ?answer) s'" if "synced tuples s'" for q s'
    using that by (intro query_step) (simp split: list.splits)
  have install: "keeps_step tuples (hbind (if comps = [] then hreturn () else hbind (hexec (insert_installations (?is comps))) (\<lambda>_.
      hauthz (\<lambda>a. Some (writeAuthzTuples c (concat (map parent_keys (?is comps))) a)))) (\<lambda>_. hbind (hquery q) ?answer)) s'"
    if "synced tuples s'" for comps q s'
  proof (cases "comps = []")
    case True
    then show ?thesis using load [OF that] by (simp add: keeps_step_def hbind_def hreturn_def)
  next
    case False
    show ?thesis unfolding if_not_P [OF False] hbind_assoc by (rule insert_installations_step [OF that load])
  qed
  show "keeps_step tuples (hbind (hauthz (setObjectParentRelation c Device (dv_id ?r) Department (dv_departmentId ?r))) (\<lambda>_.
     hbind (hquery bd_catalog) (\<lambda>comps. hbind (if comps = [] then hreturn () else hbind (hexec (insert_installations (?is comps))) (\<lambda>_.
       hauthz (\<lambda>a. Some (writeAuthzTuples c (concat (map parent_keys (?is comps))) a)))) (\<lambda>_.
       hbind (hquery (\<lambda>db. readJoinedDevices le db (Some [dv_id ?r]))) ?answer)))) (s\<lparr>bk_db := db\<rparr>)"
  proof (rule parent_step [OF s new(1)])
    show "db_links db = {l \<in> db_links (bk_db s). fst l \<noteq> createAuthzObject Device (dv_id ?r)} \<union>
        {(createAuthzObject Device (dv_id ?r), createAuthzObject Department (dv_departmentId ?r))}"
      using links by (simp add: device_link_def)
  qed (simp, rule query_step, rule install)
qed

lemma forget_all:
  assumes "mirrored (tuples (bk_authz s))" "well_typed AUTHORIZATION_MODEL (tuples (bk_authz s))"
    and "\<And>ob p k. (ob, p) \<in> store_links (tuples (bk_authz s)) \<Longrightarrow> p \<noteq> createAuthzObject DeviceComponent k"
  shows "\<exists>a. hfor (\<lambda>k. hauthz (deleteObjectAuthzRelations c DeviceComponent k)) ks s = Some (Inr (), s\<lparr>bk_authz := a\<rparr>) \<and>
    mirrored (tuples a) \<and> well_typed AUTHORIZATION_MODEL (tuples a) \<and>
    store_links (tuples a) = {l \<in> store_links (tuples (bk_authz s)). fst l \<notin> createAuthzObject DeviceComponent ` set ks} \<and>
    tuples a \<subseteq> {k \<in> tuples (bk_authz s). tk_object k \<notin> createAuthzObject DeviceComponent ` set ks}"
  using assms
proof (induction ks arbitrary: s)
  case Nil
  then show ?case by (auto simp: hreturn_def intro!: exI [of _ "bk_authz s"])
next
  case (Cons k ks)
  let ?ob = "createAuthzObject DeviceComponent k"
  obtain a where run: "deleteObjectAuthzRelations c DeviceComponent k (bk_authz s) = Some a" and T: "tuples a = forget (tuples (bk_authz s)) ?ob"
    using delete_object by blast
  have leaf: "\<nexists>x. (x, ?ob) \<in> store_links (tuples (bk_authz s))" using Cons.prems(3) by blast
  note step = forget_step [OF Cons.prems(1,2) leaf, folded T]
  have "(ob, p) \<in> store_links (tuples a) \<Longrightarrow> p \<noteq> createAuthzObject DeviceComponent k'" for ob p k'
    using step(3) Cons.prems(3) by blast
  with step(1,2) obtain b where "hfor (\<lambda>k. hauthz (deleteObjectAuthzRelations c DeviceComponent k)) ks (s\<lparr>bk_authz := a\<rparr>) = Some (Inr (), s\<lparr>bk_authz := b\<rparr>)"
    "mirrored (tuples b)" "well_typed AUTHORIZATION_MODEL (tuples b)"
    "store_links (tuples b) = {l \<in> store_links (tuples a). fst l \<notin> createAuthzObject DeviceComponent ` set ks}"
    "tuples b \<subseteq> {k \<in> tuples a. tk_object k \<notin> createAuthzObject DeviceComponent ` set ks}"
    using Cons.IH [of "s\<lparr>bk_authz := a\<rparr>"] by auto
  moreover have "tuples a \<subseteq> {k \<in> tuples (bk_authz s). tk_object k \<noteq> ?ob}" by (auto simp: T forget_def)
  ultimately show ?case using run step(3) by (intro exI [of _ b]) (auto simp: authz_bind)
qed

lemma delete_effect:
  assumes "synced tuples s" and "isSysAdminRole (cl_role u)" and "readJoinedDevices le (bk_db s) (Some [i]) = j # js"
  shows "\<exists>b db. deleteDevice le c u i s = Some (Inr (j\<lparr>di_canManageUsers := True\<rparr>), s\<lparr>bk_authz := b, bk_db := db\<rparr>) \<and>
    delete_device i (bk_db s) = Inr db \<and> synced tuples (s\<lparr>bk_authz := b, bk_db := db\<rparr>) \<and>
    (\<forall>k \<in> tuples b. tk_object k \<noteq> createAuthzObject Device i \<and>
       (\<forall>r \<in> set (bd_installations (bk_db s)). is_deviceId r = i \<longrightarrow> tk_object k \<noteq> createAuthzObject DeviceComponent (is_id r)))"
proof -
  note old = syncedD [OF assms(1)]
  let ?ks = "map is_id (filter (\<lambda>r. is_deviceId r = i) (bd_installations (bk_db s)))"
  let ?comps = "createAuthzObject DeviceComponent ` set ?ks" and ?dev = "createAuthzObject Device i"
  have "p \<noteq> createAuthzObject DeviceComponent k" if "(ob, p) \<in> store_links (tuples (bk_authz s))" for ob p k
    using that by (auto simp: old(2) db_links_def link_defs)
  then obtain a where loop: "hfor (\<lambda>k. hauthz (deleteObjectAuthzRelations c DeviceComponent k)) ?ks s = Some (Inr (), s\<lparr>bk_authz := a\<rparr>)"
    and a: "mirrored (tuples a)" "well_typed AUTHORIZATION_MODEL (tuples a)" "store_links (tuples a) = {l \<in> db_links (bk_db s). fst l \<notin> ?comps}"
      "tuples a \<subseteq> {k \<in> tuples (bk_authz s). tk_object k \<notin> ?comps}"
    using forget_all [OF old(3,4), of ?ks] unfolding old(2) by blast
  obtain b where run: "deleteObjectAuthzRelations c Device i a = Some b" and T: "tuples b = forget (tuples a) ?dev"
    using delete_object by blast
  have "\<nexists>x. (x, ?dev) \<in> store_links (tuples a)" by (auto simp: a(3) db_links_def link_defs)
  note b = forget_step [OF a(1,2) this, folded T]
  obtain db where del: "delete_device i (bk_db s) = Inr db" by (simp add: delete_device_def)
  have "sound_db db" "store_links (tuples b) = db_links db"
    using sound_delete_device [OF old(1) del] by (auto simp: b(3) a(3))
  then have final: "synced tuples (s\<lparr>bk_authz := b, bk_db := db\<rparr>)" using b(1,2) by (simp add: synced_def in_step_def)
  have "deleteDevice le c u i s = Some (Inr (j\<lparr>di_canManageUsers := True\<rparr>), s\<lparr>bk_authz := b, bk_db := db\<rparr>)"
    using assms(2,3) loop run del
    by (simp add: deleteDevice_def check_bind query_bind) (simp add: hbind_def hauthz_def hexec_def hreturn_def)
  moreover have "tk_object k \<noteq> ?dev" "tk_object k \<notin> ?comps" if "k \<in> tuples b" for k
    using that a(4) by (auto simp: T forget_def)
  ultimately show ?thesis using del final by (intro exI [of _ b] exI [of _ db]) auto
qed

lemma deleteDevice_step: "synced tuples s \<Longrightarrow> keeps_step tuples (deleteDevice le c u i) s"
proof (cases "isSysAdminRole (cl_role u)")
  case True
  assume s: "synced tuples s"
  show ?thesis
  proof (cases "readJoinedDevices le (bk_db s) (Some [i])")
    case Nil
    then show ?thesis using True s by (simp add: keeps_step_def deleteDevice_def check_bind query_bind hfail_def)
  next
    case (Cons j js)
    then show ?thesis using delete_effect [OF s True Cons] by (auto simp: keeps_step_def)
  qed
qed (simp add: keeps_step_def deleteDevice_def check_bind)

lemma serve_step: "synced tuples s \<Longrightarrow> keeps_step tuples (serve le c fresh u req) s"
  by (cases req) (simp_all add: createFactory_step createDepartment_step createCatalogEntry_step updateFactory_step updateDepartment_step
      updateCatalogEntry_step setInstallationState_step removeAssignment_step upsertAssignment_step createDevice_step updateDevice_step
      deleteDevice_step)

end

section \<open>The backend as a transition system\<close>

inductive backend_step :: "(string \<Rightarrow> string \<Rightarrow> bool) \<Rightarrow> 's fga_client \<Rightarrow> 's backend \<Rightarrow> 's backend \<Rightarrow> bool" for le c where
  served: "serve le c fresh u req s = Some (r, s') \<Longrightarrow> backend_step le c s s'"

lemma serve_synced: "tuple_store c tuples \<Longrightarrow> synced tuples s \<Longrightarrow> serve le c fresh u req s = Some (r, s') \<Longrightarrow> synced tuples s'"
  using tuple_store.serve_step [of c tuples s le fresh u req] by (auto simp: keeps_step_def)

definition empty_backend :: "('s \<Rightarrow> tuple_key set) \<Rightarrow> 's backend \<Rightarrow> bool" where
  "empty_backend tuples s \<longleftrightarrow> tuples (bk_authz s) = {} \<and> bd_factories (bk_db s) = [] \<and> bd_departments (bk_db s) = [] \<and>
     bd_devices (bk_db s) = [] \<and> bd_catalog (bk_db s) = [] \<and> bd_installations (bk_db s) = []"

lemma empty_synced: "empty_backend tuples s \<Longrightarrow> synced tuples s"
  by (auto simp: empty_backend_def synced_def in_step_def sound_db_def store_links_def db_links_def mirrored_def parent_in_def child_in_def
      well_typed_def)

context tuple_store
begin

lemma backend_system: "invariant_system (empty_backend tuples) (backend_step le c) (synced tuples)"
  by unfold_locales (auto simp: empty_synced elim!: backend_step.cases intro: serve_synced [OF tuple_store_axioms])

end

interpretation backend: invariant_system "empty_backend set" "backend_step le server_client" "synced set" for le
  by (rule fga.backend_system)

end
