(* ===== verification/Query_Laws.thy ===== *)
theory Query_Laws
  imports Workspace_Queries Access_Sync
begin

text \<open>
  Laws of the query model: pages cut a list without loss, grouping by a key splits joined rows back
  into the rows they came from, and a join along the hierarchy of a consistent database has exactly
  one row for every device.
\<close>

section \<open>Pages and order\<close>

lemma concat_chunks: "concat (map (\<lambda>p. take n (drop (p * n) xs)) [0..<m]) = take (m * n) xs"
proof (induction m)
  case (Suc m)
  have "take (m * n) xs @ take n (drop (m * n) xs) = take (m * n + n) xs" by (simp add: take_add)
  then show ?case using Suc by (simp add: add.commute)
qed simp

lemma pages_complete:
  assumes "0 < n"
  shows "concat (map (\<lambda>p. sql_page p n xs) [1..<Suc (max 1 ((length xs + n - 1) div n))]) = xs"
proof -
  let ?m = "max 1 ((length xs + n - 1) div n)"
  have shift: "map (\<lambda>p. sql_page p n xs) [1..<Suc ?m] = map (\<lambda>p. take n (drop (p * n) xs)) [0..<?m]"
  proof -
    have "[1..<Suc ?m] = map Suc [0..<?m]" by (simp add: map_Suc_upt del: upt_Suc)
    then show ?thesis by (simp add: sql_page_def comp_def del: upt_Suc)
  qed
  have "length xs \<le> ((length xs + n - 1) div n) * n"
  proof -
    have "length xs + n - 1 < ((length xs + n - 1) div n) * n + n"
      using div_mult_mod_eq [of "length xs + n - 1" n] mod_less_divisor [OF assms, of "length xs + n - 1"] by linarith
    then show ?thesis by linarith
  qed
  moreover have "((length xs + n - 1) div n) * n \<le> ?m * n" by (rule mult_le_mono1) simp
  ultimately have "length xs \<le> ?m * n" by linarith
  then show ?thesis unfolding shift concat_chunks by simp
qed

lemma set_sql_order [simp]: "set (sql_order t keys xs) = set xs"
proof -
  have "set (fold (\<lambda>k ys. sort_by (st_le t) k ys) ks xs) = set xs" for ks
    by (induction ks arbitrary: xs) simp_all
  then show ?thesis by (simp add: sql_order_def)
qed

lemma mset_sql_order [simp]: "mset (sql_order t keys xs) = mset xs"
proof -
  have "mset (fold (\<lambda>k ys. sort_by (st_le t) k ys) ks xs) = mset xs" for ks
    by (induction ks arbitrary: xs) simp_all
  then show ?thesis by (simp add: sql_order_def)
qed

lemma length_sql_order [simp]: "length (sql_order t keys xs) = length xs"
  by (metis mset_sql_order size_mset)

section \<open>Groups\<close>

lemma group_concat:
  assumes "\<And>x. x \<in> set xs \<Longrightarrow> g x \<noteq> [] \<and> (\<forall>j \<in> set (g x). key j = k x)" and "distinct (map k xs)"
  shows "sql_group key (concat (map g xs)) = map g xs"
  using assms
proof (induction xs)
  case (Cons x xs)
  obtain j js where g: "g x = j # js" using Cons.prems(1) [of x] by (cases "g x") auto
  have own: "\<forall>i \<in> set (j # js). key i = k x" using Cons.prems(1) [of x] by (simp add: g)
  have other: "key i \<noteq> k x" if "i \<in> set (concat (map g xs))" for i
  proof -
    obtain y where "y \<in> set xs" "i \<in> set (g y)" using \<open>i \<in> set (concat (map g xs))\<close> by auto
    then have "key i = k y" "k y \<noteq> k x" using Cons.prems(1) [of y] Cons.prems(2) by (auto simp: image_iff)
    then show ?thesis by simp
  qed
  have "filter (\<lambda>i. key i = key j) (js @ concat (map g xs)) = js" "filter (\<lambda>i. key i \<noteq> key j) (js @ concat (map g xs)) = concat (map g xs)"
    using own other by (auto simp: filter_id_conv filter_empty_conv)
  moreover have "sql_group key (concat (map g xs)) = map g xs" using Cons by auto
  ultimately show ?case by (simp add: g)
qed simp

lemma filter_concat_groups:
  assumes "\<And>x. x \<in> set xs \<Longrightarrow> \<forall>j \<in> set (g x). P j \<longleftrightarrow> Q x"
  shows "filter P (concat (map g xs)) = concat (map g (filter Q xs))"
  using assms by (induction xs) (auto simp: filter_id_conv filter_empty_conv)

lemma map_filter_Some: "(\<And>x. x \<in> set xs \<Longrightarrow> f x = Some (h x)) \<Longrightarrow> List.map_filter f xs = map h xs"
  by (induction xs) (auto simp: List.map_filter_simps)

lemma map_filter_concat: "List.map_filter f (concat xss) = concat (map (List.map_filter f) xss)"
  by (induction xss) (auto simp: List.map_filter_def)

text \<open>The items of all pages are the items of all groups.\<close>

lemma paged_items:
  assumes "0 < n" "\<And>g. g \<in> set G \<Longrightarrow> f g = Some (item g)"
  shows "concat (map (\<lambda>p. List.map_filter f (sql_page p n G)) [1..<Suc (max 1 ((length G + n - 1) div n))]) = map item G"
  using arg_cong [OF pages_complete [OF assms(1), of G], of "List.map_filter f"]
  by (simp add: map_filter_concat comp_def map_filter_Some [OF assms(2)] del: upt_Suc)

section \<open>Conditions and joins\<close>

fun same_table :: "sql_table \<Rightarrow> jrow \<Rightarrow> jrow \<Rightarrow> bool" where
  "same_table TFactory i j \<longleftrightarrow> jr_factory i = jr_factory j"
| "same_table TDepartment i j \<longleftrightarrow> jr_department i = jr_department j"
| "same_table TDevice i j \<longleftrightarrow> jr_device i = jr_device j"
| "same_table TCatalog i j \<longleftrightarrow> jr_catalog i = jr_catalog j"
| "same_table TInstallation i j \<longleftrightarrow> jr_installation i = jr_installation j"
| "same_table TUser i j \<longleftrightarrow> jr_user i = jr_user j"

lemma same_column: "same_table (column_table c) i j \<Longrightarrow> column_value c i = column_value c j"
  by (cases c) simp_all

lemma holds_agree:
  "(\<And>tab. tab \<in> set (condition_tables c) \<Longrightarrow> same_table tab i j) \<Longrightarrow> holds t c i \<longleftrightarrow> holds t c j"
proof (induction c)
  case (And cs)
  then show ?case by auto
next
  case (Or cs)
  then show ?case by auto
next
  case (EqColumns c d)
  then show ?case using same_column [of c i j] same_column [of d i j] by simp
qed (auto dest: same_column simp: device_active_def installation_enabled_def)

lemma holds_sql_and: "holds_where t (sql_and cs) j \<longleftrightarrow> (\<forall>c \<in> set cs. holds_where t c j)"
proof -
  have "(\<forall>c \<in> set (List.map_filter (\<lambda>c. c) cs). holds t c j) \<longleftrightarrow> (\<forall>c \<in> set cs. holds_where t c j)"
    by (induction cs) (auto simp: List.map_filter_simps holds_where_def split: option.splits)
  then show ?thesis by (auto simp: sql_and_def holds_where_def split: list.splits)
qed

lemma holds_sql_or: "cs \<noteq> [] \<Longrightarrow> holds_where t (sql_or (map Some cs)) j \<longleftrightarrow> (\<exists>c \<in> set cs. holds t c j)"
proof -
  have "List.map_filter (\<lambda>c. c) (map Some cs) = cs" by (induction cs) (simp_all add: List.map_filter_simps)
  moreover assume "cs \<noteq> []"
  ultimately show ?thesis by (auto simp: sql_or_def holds_where_def split: list.splits)
qed

definition where_tables :: "condition option \<Rightarrow> sql_table set" where
  "where_tables w = (\<Union>c \<in> set_option w. set (condition_tables c))"

lemma where_tables_simps [simp]: "where_tables None = {}" "where_tables (Some c) = set (condition_tables c)"
  by (simp_all add: where_tables_def)

lemma tables_sql_and [simp]: "where_tables (sql_and cs) = (\<Union>w \<in> set cs. where_tables w)"
proof -
  have "where_tables (sql_and cs) = (\<Union>c \<in> set (List.map_filter (\<lambda>c. c) cs). set (condition_tables c))"
    by (auto simp: where_tables_def sql_and_def split: list.splits)
  also have "\<dots> = (\<Union>w \<in> set cs. where_tables w)"
    by (induction cs) (auto simp: where_tables_def List.map_filter_simps split: option.splits)
  finally show ?thesis .
qed

lemma tables_sql_or [simp]: "where_tables (sql_or cs) = (\<Union>w \<in> set cs. where_tables w)"
proof -
  have "where_tables (sql_or cs) = (\<Union>c \<in> set (List.map_filter (\<lambda>c. c) cs). set (condition_tables c))"
    by (auto simp: where_tables_def sql_or_def split: list.splits)
  also have "\<dots> = (\<Union>w \<in> set cs. where_tables w)"
    by (induction cs) (auto simp: where_tables_def List.map_filter_simps split: option.splits)
  finally show ?thesis .
qed

lemma sql_select_ok:
  "where_tables w \<subseteq> insert tab (join_table ` set joins) \<Longrightarrow> sql_select t db tab joins w = Inr (filter (holds_where t w) (joined t db tab joins))"
  by (auto simp: sql_select_def where_tables_def)

lemma where_agree: "(\<And>tab. tab \<in> where_tables w \<Longrightarrow> same_table tab i j) \<Longrightarrow> holds_where t w i \<longleftrightarrow> holds_where t w j"
  by (cases w) (auto simp: holds_where_def where_tables_def intro!: holds_agree)

lemma filter_unique: "distinct (map key xs) \<Longrightarrow> x \<in> set xs \<Longrightarrow> filter (\<lambda>y. key y = key x) xs = [x]"
  by (induction xs) (auto simp: filter_empty_conv image_iff)

text \<open>The row of a device with its department and factory.\<close>

definition department_of :: "backend_db \<Rightarrow> device_row \<Rightarrow> department_row" where
  "department_of db v = hd (filter (\<lambda>d. dr_id d = dv_departmentId v) (bd_departments db))"

definition factory_of :: "backend_db \<Rightarrow> department_row \<Rightarrow> factory_row" where
  "factory_of db d = hd (filter (\<lambda>f. fr_id f = dr_factoryId d) (bd_factories db))"

lemma department_of:
  assumes "sound_db db" "v \<in> set (bd_devices db)"
  shows "filter (\<lambda>d. dr_id d = dv_departmentId v) (bd_departments db) = [department_of db v]"
    and "department_of db v \<in> set (bd_departments db)" "dr_id (department_of db v) = dv_departmentId v"
proof -
  obtain d where d: "d \<in> set (bd_departments db)" "dr_id d = dv_departmentId v" using assms by (force simp: sound_db_def)
  have "filter (\<lambda>d. dr_id d = dv_departmentId v) (bd_departments db) = [d]"
    using filter_unique [of dr_id "bd_departments db" d] assms(1) d by (simp add: sound_db_def)
  then show "filter (\<lambda>d. dr_id d = dv_departmentId v) (bd_departments db) = [department_of db v]"
    "department_of db v \<in> set (bd_departments db)" "dr_id (department_of db v) = dv_departmentId v" using d by (simp_all add: department_of_def)
qed

lemma factory_of:
  assumes "sound_db db" "d \<in> set (bd_departments db)"
  shows "filter (\<lambda>f. fr_id f = dr_factoryId d) (bd_factories db) = [factory_of db d]"
    and "factory_of db d \<in> set (bd_factories db)" "fr_id (factory_of db d) = dr_factoryId d"
proof -
  obtain f where f: "f \<in> set (bd_factories db)" "fr_id f = dr_factoryId d" using assms by (force simp: sound_db_def)
  have "filter (\<lambda>f. fr_id f = dr_factoryId d) (bd_factories db) = [f]"
    using filter_unique [of fr_id "bd_factories db" f] assms(1) f by (simp add: sound_db_def)
  then show "filter (\<lambda>f. fr_id f = dr_factoryId d) (bd_factories db) = [factory_of db d]"
    "factory_of db d \<in> set (bd_factories db)" "fr_id (factory_of db d) = dr_factoryId d" using f by (simp_all add: factory_of_def)
qed

definition device_join :: "backend_db \<Rightarrow> device_row \<Rightarrow> jrow" where
  "device_join db v = no_row\<lparr>jr_device := Some v, jr_department := Some (department_of db v), jr_factory := Some (factory_of db (department_of db v))\<rparr>"

lemma joined_devices:
  assumes "sound_db db"
  shows "joined t db TDevice [join_department, join_factory] = map (device_join db) (bd_devices db)"
proof -
  have one: "concat (map (join_rows t db join_factory) (join_rows t db join_department (no_row\<lparr>jr_device := Some v\<rparr>))) = [device_join db v]"
    if "v \<in> set (bd_devices db)" for v
  proof -
    have "join_rows t db join_department (no_row\<lparr>jr_device := Some v\<rparr>) = [no_row\<lparr>jr_device := Some v, jr_department := Some (department_of db v)\<rparr>]"
      using department_of(1) [OF assms that] by (simp add: join_department_def filter_map comp_def no_row_def)
    moreover have "join_rows t db join_factory (no_row\<lparr>jr_device := Some v, jr_department := Some (department_of db v)\<rparr>) = [device_join db v]"
      using factory_of(1) [OF assms department_of(2) [OF assms that]]
      by (simp add: join_factory_def filter_map comp_def no_row_def device_join_def)
    ultimately show ?thesis by simp
  qed
  have "concat (map (join_rows t db join_factory) (concat (map (join_rows t db join_department) (map (\<lambda>v. no_row\<lparr>jr_device := Some v\<rparr>) vs)))) =
      map (device_join db) vs" if "set vs \<subseteq> set (bd_devices db)" for vs
    using that one by (induction vs) auto
  then show ?thesis by (simp add: joined_def)
qed

lemma bind_ok: "h s = Some (Inr x, s) \<Longrightarrow> hbind h f s = f x s"
  by (simp add: hbind_def)

lemma bind_fail: "h s = Some (Inl e, s) \<Longrightarrow> hbind h f s = Some (Inl e, s)"
  by (simp add: hbind_def)

lemma select_ok:
  "sql_select t (bk_db s) tab joins w = Inr js \<Longrightarrow> hselect t tab joins w s = Some (Inr js, s)"
  "sql_select t (bk_db s) tab joins w = Inr js \<Longrightarrow> hcount t tab joins w s = Some (Inr (length js), s)"
  by (simp_all add: hselect_def hcount_def hbind_def hreturn_def)

lemma pure_ok: "hreturn x s = Some (Inr x, s)" "hlift (Inr x) s = Some (Inr x, s)" "hguard True e s = Some (Inr (), s)" "hquery q s = Some (Inr (q (bk_db s)), s)"
  "hask p s = Some (Inr (p (bk_authz s)), s)"
  by (simp_all add: hlift_def hguard_def handler_defs)

text \<open>The rows a left join with the installations makes of a device.\<close>

definition device_rows :: "sql_text \<Rightarrow> backend_db \<Rightarrow> device_row \<Rightarrow> jrow list" where
  "device_rows t db v = join_rows t db left_installations (device_join db v)"

lemma left_join_rows:
  "join_rows t db (LeftJoin tab c) j \<noteq> []"
  "i \<in> set (join_rows t db (LeftJoin tab c) j) \<Longrightarrow> i = j \<or> i \<in> set (with_table db tab j) \<and> holds t c i"
proof -
  show "join_rows t db (LeftJoin tab c) j \<noteq> []" by (simp split: list.splits)
  have "set (filter (holds t c) (with_table db tab j)) \<subseteq> {i \<in> set (with_table db tab j). holds t c i}" by auto
  moreover assume "i \<in> set (join_rows t db (LeftJoin tab c) j)"
  ultimately show "i = j \<or> i \<in> set (with_table db tab j) \<and> holds t c i"
    by (cases "filter (holds t c) (with_table db tab j)") auto
qed

lemma device_rows:
  "device_rows t db v \<noteq> []"
  "j \<in> set (device_rows t db v) \<Longrightarrow> jr_device j = Some v \<and> jr_department j = Some (department_of db v) \<and>
     jr_factory j = Some (factory_of db (department_of db v))"
proof -
  show "device_rows t db v \<noteq> []" by (simp add: device_rows_def left_installations_def left_join_rows(1) del: join_rows.simps)
  assume "j \<in> set (device_rows t db v)"
  then show "jr_device j = Some v \<and> jr_department j = Some (department_of db v) \<and> jr_factory j = Some (factory_of db (department_of db v))"
    using left_join_rows(2) [of j t db TInstallation "EqColumns InstallationDeviceId DeviceId" "device_join db v"]
    by (auto simp: device_rows_def left_installations_def device_join_def simp del: join_rows.simps)
qed

lemma joined_append: "joined t db tab (joins @ [jn]) = concat (map (join_rows t db jn) (joined t db tab joins))"
  by (simp add: joined_def)

lemma joined_device_installations:
  assumes "sound_db db"
  shows "joined t db TDevice [join_department, join_factory, left_installations] = concat (map (device_rows t db) (bd_devices db))"
  using joined_append [of t db TDevice "[join_department, join_factory]" left_installations] joined_devices [OF assms]
  by (simp add: comp_def device_rows_def [abs_def])

lemma device_selection:
  assumes "sound_db db" "where_tables w \<subseteq> {TDevice, TDepartment, TFactory}"
  shows "sql_select t db TDevice [join_department, join_factory] w = Inr (map (device_join db) (filter (\<lambda>v. holds_where t w (device_join db v)) (bd_devices db)))"
    and "sql_select t db TDevice [join_department, join_factory, left_installations] w =
      Inr (concat (map (device_rows t db) (filter (\<lambda>v. holds_where t w (device_join db v)) (bd_devices db))))"
proof -
  show "sql_select t db TDevice [join_department, join_factory] w = Inr (map (device_join db) (filter (\<lambda>v. holds_where t w (device_join db v)) (bd_devices db)))"
    using assms(2) by (subst sql_select_ok) (auto simp: join_defs joined_devices [OF assms(1), unfolded join_defs] filter_map comp_def)
  have same: "holds_where t w j \<longleftrightarrow> holds_where t w (device_join db v)" if "j \<in> set (device_rows t db v)" for j v
    using device_rows(2) [OF that] assms(2) by (intro where_agree) (auto simp: device_join_def)
  show "sql_select t db TDevice [join_department, join_factory, left_installations] w =
      Inr (concat (map (device_rows t db) (filter (\<lambda>v. holds_where t w (device_join db v)) (bd_devices db))))"
    using assms(2) same
    by (subst sql_select_ok) (auto simp: join_defs joined_device_installations [OF assms(1), unfolded join_defs] intro!: filter_concat_groups)
qed

lemma device_groups_set:
  assumes "sound_db db"
  shows "sql_group (\<lambda>j. (column_value DeviceId j, column_value DepartmentId j, column_value FactoryId j))
      (concat (map (device_rows t db) (filter P (bd_devices db)))) = map (device_rows t db) (filter P (bd_devices db))"
proof (rule group_concat)
  let ?k = "\<lambda>v. (Some (dv_id v), Some (dr_id (department_of db v)), Some (fr_id (factory_of db (department_of db v))))"
  show "device_rows t db v \<noteq> [] \<and> (\<forall>j \<in> set (device_rows t db v). (column_value DeviceId j, column_value DepartmentId j, column_value FactoryId j) = ?k v)" for v
    using device_rows(1) [of t db v] device_rows(2) [of _ t db v] by auto
  have "distinct (map dv_id (bd_devices db))" using assms by (simp add: sound_db_def)
  then show "distinct (map ?k (filter P (bd_devices db)))" by (auto simp: distinct_map inj_on_def)
qed

end
