(* ===== verification/Access_Rights.thy ===== *)
theory Access_Rights
  imports Access_Sync
begin

text \<open>
  What the requests of the access control and devices routers guarantee: the hierarchy of the store
  follows the rows, only administrators change grants, a new device comes with the whole catalogue, a
  deleted one leaves nothing behind, and the access token of a device is shown to system
  administrators only.
\<close>

section \<open>Who manages what\<close>

text \<open>The right to manage users in a scope, read off the rows of the database and the grants alone.\<close>

definition admin_grant :: "tuple_key set \<Rightarrow> string \<Rightarrow> authz_type \<Rightarrow> string \<Rightarrow> bool" where
  "admin_grant T uid t i \<longleftrightarrow> tuple_of (createAuthzUser uid) ''admin'' (createAuthzObject t i) \<in> T"

definition administers_department :: "backend_db \<Rightarrow> tuple_key set \<Rightarrow> string \<Rightarrow> string \<Rightarrow> bool" where
  "administers_department db T uid i \<longleftrightarrow> admin_grant T uid Department i \<or>
     (\<exists>d \<in> set (bd_departments db). dr_id d = i \<and> admin_grant T uid Factory (dr_factoryId d))"

definition administers_device :: "backend_db \<Rightarrow> tuple_key set \<Rightarrow> string \<Rightarrow> string \<Rightarrow> bool" where
  "administers_device db T uid i \<longleftrightarrow> (\<exists>v \<in> set (bd_devices db). dv_id v = i \<and> administers_department db T uid (dv_departmentId v))"

fun administers :: "backend_db \<Rightarrow> tuple_key set \<Rightarrow> string \<Rightarrow> authz_type \<Rightarrow> string \<Rightarrow> bool" where
  "administers db T uid Factory i \<longleftrightarrow> admin_grant T uid Factory i"
| "administers db T uid Department i \<longleftrightarrow> administers_department db T uid i"
| "administers db T uid Device i \<longleftrightarrow> administers_device db T uid i"
| "administers db T uid DeviceComponent i \<longleftrightarrow> (\<exists>k \<in> set (bd_installations db). is_id k = i \<and> administers_device db T uid (is_deviceId k))"

lemma parent_rows:
  assumes "in_step db T"
  shows "parent_in T (createAuthzObject Department i) p \<longleftrightarrow> (\<exists>d \<in> set (bd_departments db). dr_id d = i \<and> p = createAuthzObject Factory (dr_factoryId d))"
    and "parent_in T (createAuthzObject Device i) p \<longleftrightarrow> (\<exists>v \<in> set (bd_devices db). dv_id v = i \<and> p = createAuthzObject Department (dv_departmentId v))"
    and "parent_in T (createAuthzObject DeviceComponent i) p \<longleftrightarrow> (\<exists>k \<in> set (bd_installations db). is_id k = i \<and> p = createAuthzObject Device (is_deviceId k))"
proof -
  have "parent_in T ob p \<longleftrightarrow> (ob, p) \<in> db_links db" for ob p
    using assms by (auto simp: in_step_def store_links_def)
  then show "parent_in T (createAuthzObject Department i) p \<longleftrightarrow> (\<exists>d \<in> set (bd_departments db). dr_id d = i \<and> p = createAuthzObject Factory (dr_factoryId d))"
    and "parent_in T (createAuthzObject Device i) p \<longleftrightarrow> (\<exists>v \<in> set (bd_devices db). dv_id v = i \<and> p = createAuthzObject Department (dv_departmentId v))"
    and "parent_in T (createAuthzObject DeviceComponent i) p \<longleftrightarrow> (\<exists>k \<in> set (bd_installations db). is_id k = i \<and> p = createAuthzObject Device (is_deviceId k))"
    by (auto simp: db_links_def link_defs)
qed

lemma manage_admin:
  "object_type ob \<in> {''factory'', ''department'', ''device''} \<Longrightarrow>
     allows AUTHORIZATION_MODEL T u ''can_manage_users'' ob \<longleftrightarrow> allows AUTHORIZATION_MODEL T u ''admin'' ob"
  by (subst allows_iff) auto

lemma manages_iff:
  assumes "in_step db T"
  shows "allows AUTHORIZATION_MODEL T (createAuthzUser uid) ''can_manage_users'' (createAuthzObject t i) \<longleftrightarrow> administers db T uid t i"
proof -
  have typed: "well_typed AUTHORIZATION_MODEL T" using assms by (simp add: in_step_def)
  let ?u = "createAuthzUser uid"
  have grant: "granted T ?u [''admin''] (createAuthzObject t' j) \<longleftrightarrow> admin_grant T uid t' j" for t' j
    by (simp add: granted_def admin_grant_def)
  have dep: "department_grant T ?u [''admin''] (createAuthzObject Department j) \<longleftrightarrow> administers_department db T uid j" for j
    by (auto simp: department_grant_def administers_department_def grant parent_rows(1) [OF assms])
  have dev: "device_admin T ?u (createAuthzObject Device j) \<longleftrightarrow> administers_device db T uid j" for j
    by (auto simp: device_admin_def administers_device_def parent_rows(2) [OF assms] dep)
  show ?thesis
  proof (cases t)
    case Factory
    then show ?thesis by (simp add: manage_admin factory_rules grant)
  next
    case Department
    then show ?thesis by (simp add: manage_admin department_closed [OF typed] dep)
  next
    case Device
    then show ?thesis by (simp add: manage_admin device_closed [OF typed] dev)
  next
    case DeviceComponent
    then show ?thesis by (auto simp: component_closed [OF typed] parent_rows(3) [OF assms] dev)
  qed
qed

section \<open>Properties\<close>


lemma managed_call:
  assumes "checked_store c tuples" "synced tuples s" "\<not> isSysAdminRole (cl_role u)"
    and "hbind (assertUserCanManageScope c u t i) f s = Some (r, s')"
  shows "s' = s \<or> (administers (bk_db s) (tuples (bk_authz s)) (cl_id u) t i \<and> f () s = Some (r, s'))"
proof -
  have "checkUserObjectRelation c (bk_authz s) (cl_id u) CanManageUsers t i \<longleftrightarrow> administers (bk_db s) (tuples (bk_authz s)) (cl_id u) t i"
    using manages_iff [of "bk_db s" "tuples (bk_authz s)"] assms(2) checked_store.checks [OF assms(1)]
    by (simp add: synced_def checkUserObjectRelation_def)
  then show ?thesis
    using assms(3,4) by (auto simp: assertUserCanManageScope_def ensureUserCanManageObject_def hbind_def hask_def hreturn_def hfail_def split: if_splits)
qed

lemma granted_change:
  assumes "tuple_store c tuples" "set_option nr \<subseteq> set (candidate_relations t)"
    and "hauthz (replaceDirectUserRelation c t i uid nr (candidate_relations t)) s = Some (r, s')"
  shows "bk_db s' = bk_db s \<and> (\<forall>k. (k \<in> tuples (bk_authz s')) \<noteq> (k \<in> tuples (bk_authz s)) \<longrightarrow>
    tk_user k = createAuthzUser uid \<and> tk_object k = createAuthzObject t i \<and> tk_relation k \<in> relation_name ` set (candidate_relations t))"
proof -
  obtain a where a: "replaceDirectUserRelation c t i uid nr (candidate_relations t) (bk_authz s) = Some a"
    "tuples a = regrant (tuples (bk_authz s)) (createAuthzUser uid) (createAuthzObject t i) (map_option relation_name nr) (map relation_name (candidate_relations t))"
    using tuple_store.replace_relation [OF assms(1)] by blast
  then have s': "s' = s\<lparr>bk_authz := a\<rparr>" using assms(3) by (simp add: hauthz_def)
  show ?thesis unfolding s' using assms(2) by (cases nr) (auto simp: a(2) regrant_def)
qed

text \<open>
  C7. Changing grants takes an administrator. A request of a caller who is no system administrator
  never changes the database, and every tuple it adds or removes is a grant of a user on an object
  that the caller administers: by an admin grant on the object itself, or on the department or the
  factory above it as the rows have them.
\<close>

theorem grants_need_authority:
  assumes store: "checked_store c tuples" and sync: "synced tuples s" and run: "serve le c fresh u req s = Some (r, s')"
    and role: "\<not> isSysAdminRole (cl_role u)"
  shows "bk_db s' = bk_db s \<and> (\<forall>k. (k \<in> tuples (bk_authz s')) \<noteq> (k \<in> tuples (bk_authz s)) \<longrightarrow>
    (\<exists>t i uid. tk_user k = createAuthzUser uid \<and> tk_object k = createAuthzObject t i \<and>
       tk_relation k \<in> relation_name ` set (candidate_relations t) \<and>
       administers (bk_db s) (tuples (bk_authz s)) (cl_id u) t i))"
proof -
  have ts: "tuple_store c tuples" using store by (simp add: checked_store_def)
  have forbidden: "s' = s" if "\<And>t i uid. req \<noteq> RemoveAssignment t i uid" "\<And>a. req \<noteq> UpsertAssignment a"
    using that run role
    by (cases req) (auto simp: hvoid_def createFactory_def createDepartment_def createCatalogEntry_def updateFactory_def updateDepartment_def
        updateCatalogEntry_def setInstallationState_def createDevice_def updateDevice_def deleteDevice_def check_bind hbind_assoc Let_def)
  have grant: ?thesis if "s' = s \<or> (administers (bk_db s) (tuples (bk_authz s)) (cl_id u) t i \<and>
      hauthz (replaceDirectUserRelation c t i uid nr (candidate_relations t)) s = Some (r, s'))"
      "set_option nr \<subseteq> set (candidate_relations t)" for t i uid nr
    using that granted_change [OF ts that(2), of i uid s r s'] by blast
  show ?thesis
  proof (cases req)
    case (RemoveAssignment t i uid)
    then show ?thesis
      using run managed_call [OF store sync role, of t i "\<lambda>_. hauthz (replaceDirectUserRelation c t i uid None (candidate_relations t))" r s']
      by (intro grant [of t i uid None]) (simp_all add: removeAssignment_def)
  next
    case (UpsertAssignment a)
    obtain t i uid rel where a: "assignment_scope a = (t, i)" "assignment_grant a = (uid, rel)" by (meson surj_pair)
    let ?h = "hauthz (replaceDirectUserRelation c t i uid (Some rel) (candidate_relations t))"
    have lookup: "s' = s \<or> ?h s = Some (r, s')"
      if "(if t = DeviceComponent then hbind (readInstallationOrThrow i) (\<lambda>_. ?h) else ?h) s = Some (r, s')"
      using that by (auto simp: readInstallationOrThrow_def handler_defs split: option.splits if_splits)
    show ?thesis
      using managed_call [OF store sync role, of t i _ r s'] run lookup assignment_candidate [of a]
      by (intro grant [of t i uid "Some rel"]) (auto simp: UpsertAssignment upsert_call a)
  qed (use forbidden in auto)
qed

text \<open>
  C23. A deleted device leaves nothing behind. When a request to delete a device succeeds, its row and
  its installations are gone, and the store holds no tuple any more about the device or one of its
  components, neither a grant nor a link from or to another object.
\<close>

theorem deleted_device_forgotten:
  assumes store: "tuple_store c tuples" and sync: "synced tuples s" and run: "deleteDevice le c u i s = Some (Inr item, s')"
    and ob: "ob = createAuthzObject Device i \<or> (\<exists>r \<in> set (bd_installations (bk_db s)). is_deviceId r = i \<and> ob = createAuthzObject DeviceComponent (is_id r))"
  shows "i \<notin> dv_id ` set (bd_devices (bk_db s')) \<and> i \<notin> is_deviceId ` set (bd_installations (bk_db s')) \<and>
    (\<forall>k \<in> tuples (bk_authz s'). tk_object k \<noteq> ob \<and> tk_user k \<noteq> ob)"
proof -
  have adm: "isSysAdminRole (cl_role u)" using run by (auto simp: deleteDevice_def check_bind split: if_splits)
  obtain j js where "readJoinedDevices le (bk_db s) (Some [i]) = j # js"
    using run adm by (cases "readJoinedDevices le (bk_db s) (Some [i])") (simp_all add: deleteDevice_def check_bind query_bind hfail_def)
  from tuple_store.delete_effect [OF store sync adm this] run obtain db
    where db: "bk_db s' = db" "delete_device i (bk_db s) = Inr db" and new: "synced tuples s'"
      and objs: "\<forall>k \<in> tuples (bk_authz s'). tk_object k \<noteq> ob" using ob by auto
  have left: "bd_devices (bk_db s') = filter (\<lambda>r. dv_id r \<noteq> i) (bd_devices (bk_db s))"
    "bd_installations (bk_db s') = filter (\<lambda>r. is_deviceId r \<noteq> i) (bd_installations (bk_db s))"
    using db(2) unfolding db(1) delete_device_def by auto
  have rows: "i \<notin> dv_id ` set (bd_devices (bk_db s'))" "i \<notin> is_deviceId ` set (bd_installations (bk_db s'))"
    by (auto simp: left)
  have "tk_user k \<noteq> ob" if k: "k \<in> tuples (bk_authz s')" for k
  proof
    assume user: "tk_user k = ob"
    then consider "tk_relation k = ''parent''" | "tk_relation k = ''child''"
      using object_users [OF syncedD(4) [OF new] k] ob by auto
    then show False
    proof cases
      case 1
      then have "tuple_of ob ''parent'' (tk_object k) \<in> tuples (bk_authz s')" using k user by (metis tuple_of_eta)
      then have "(tk_object k, ob) \<in> db_links (bk_db s')" by (simp add: store_links_def parent_in_def flip: syncedD(2) [OF new])
      then show False using ob rows(2) by (auto simp: db_links_def link_defs)
    next
      case 2
      then have "child_in (tuples (bk_authz s')) (tk_object k) ob" using k user by (metis child_in_def tuple_of_eta)
      then have "tuple_of (tk_object k) ''parent'' ob \<in> tuples (bk_authz s')" using syncedD(3) [OF new] by (simp add: mirrored_def parent_in_def)
      then show False using objs by force
    qed
  qed
  then show ?thesis using rows objs by blast
qed

section \<open>New devices\<close>

lemma inserted_installations: "insert_installations rs db = Inr db' \<Longrightarrow> db' = db\<lparr>bd_installations := bd_installations db @ rs\<rparr>"
  by (induction rs db arbitrary: db' rule: insert_installations.induct) (auto split: if_splits)

lemma joined_items:
  "j \<in> set (readJoinedDevices le db (Some [i])) \<longleftrightarrow> (\<exists>v \<in> set (bd_devices db). \<exists>d \<in> set (bd_departments db). \<exists>f \<in> set (bd_factories db).
     dv_id v = i \<and> dr_id d = dv_departmentId v \<and> fr_id f = dr_factoryId d \<and> j = joined_device v d f)"
  by (auto simp: readJoinedDevices_def)

definition default_installations :: "(nat \<Rightarrow> string) \<Rightarrow> string \<Rightarrow> catalog_entry list \<Rightarrow> installation list" where
  "default_installations fresh i comps =
     map (\<lambda>(n, e). \<lparr>is_id = fresh n, is_deviceId = i, is_componentKey = ct_key e, is_enabled = ce_defaultEnabled e\<rparr>) (List.enumerate 1 comps)"

lemma length_default [simp]: "length (default_installations fresh i comps) = length comps"
  by (simp add: default_installations_def)

lemma nth_default:
  "n < length comps \<Longrightarrow> default_installations fresh i comps ! n =
     \<lparr>is_id = fresh (Suc n), is_deviceId = i, is_componentKey = ct_key (comps ! n), is_enabled = ce_defaultEnabled (comps ! n)\<rparr>"
  by (simp add: default_installations_def nth_enumerate_eq)

lemma default_cases:
  assumes "k \<in> set (default_installations fresh i comps)"
  obtains n where "n < length comps" "k = \<lparr>is_id = fresh (Suc n), is_deviceId = i, is_componentKey = ct_key (comps ! n), is_enabled = ce_defaultEnabled (comps ! n)\<rparr>"
  using assms by (auto simp: in_set_conv_nth nth_default)

lemma default_installations_complete:
  assumes "e \<in> set comps"
  shows "\<exists>k \<in> set (default_installations fresh i comps). is_deviceId k = i \<and> is_componentKey k = ct_key e \<and> is_enabled k = ce_defaultEnabled e"
proof -
  obtain n where n: "n < length comps" "e = comps ! n" using assms by (auto simp: in_set_conv_nth)
  then have "default_installations fresh i comps ! n \<in> set (default_installations fresh i comps)" by simp
  then show ?thesis using n by (intro bexI [of _ "default_installations fresh i comps ! n"]) (simp_all add: nth_default)
qed

lemma default_installations_accepted:
  assumes "sound_db db" "fresh_ids fresh db" "dv_id r = fresh 0"
  shows "insert_installations (default_installations fresh (fresh 0) (bd_catalog db)) (db\<lparr>bd_devices := bd_devices db @ [r]\<rparr>) =
    Inr (db\<lparr>bd_devices := bd_devices db @ [r], bd_installations := bd_installations db @ default_installations fresh (fresh 0) (bd_catalog db)\<rparr>)"
proof -
  let ?is = "default_installations fresh (fresh 0) (bd_catalog db)" and ?db = "db\<lparr>bd_devices := bd_devices db @ [r]\<rparr>"
  have unused: "fresh n \<notin> used_ids db" for n using assms(2) by (auto simp: fresh_ids_def)
  have inj: "fresh m = fresh n \<longleftrightarrow> m = n" for m n using assms(2) by (auto simp: fresh_ids_def dest: injD)
  have keys: "ct_key (bd_catalog db ! m) = ct_key (bd_catalog db ! n) \<longleftrightarrow> m = n" if "m < length (bd_catalog db)" "n < length (bd_catalog db)" for m n
    using assms(1) that nth_eq_iff_index_eq [of "map ct_key (bd_catalog db)" m n] by (simp add: sound_db_def)
  have nodev: "fresh 0 \<notin> is_deviceId ` set (bd_installations db)"
    using assms(1) unused [of 0] by (auto simp: sound_db_def used_ids_def)
  have "\<exists>db'. insert_installations ?is ?db = Inr db'"
  proof (rule insert_installations_accepted)
    show "distinct (map is_id ?is)" by (simp add: distinct_conv_nth nth_default inj)
    show "distinct (map (\<lambda>i. (is_deviceId i, is_componentKey i)) ?is)" by (simp add: distinct_conv_nth nth_default keys)
    show "is_id ` set ?is \<inter> is_id ` set (bd_installations ?db) = {}"
      using unused by (auto simp: used_ids_def elim!: default_cases) (metis imageI)
    show "(\<lambda>i. (is_deviceId i, is_componentKey i)) ` set ?is \<inter> (\<lambda>i. (is_deviceId i, is_componentKey i)) ` set (bd_installations ?db) = {}"
      using nodev by (auto elim!: default_cases)
    show "is_deviceId ` set ?is \<subseteq> dv_id ` set (bd_devices ?db)" using assms(3) by (auto elim!: default_cases)
    show "is_componentKey ` set ?is \<subseteq> ct_key ` set (bd_catalog ?db)" by (auto elim!: default_cases)
  qed
  then obtain db' where "insert_installations ?is ?db = Inr db'" by blast
  with inserted_installations [OF this] show ?thesis by simp
qed

definition new_device :: "string \<Rightarrow> string \<Rightarrow> string \<Rightarrow> string \<Rightarrow> string \<Rightarrow> nat \<Rightarrow> device_row" where
  "new_device i departmentId name description token now =
     \<lparr>dv_id = i, dv_departmentId = departmentId, dv_name = name, dv_description = normalizeOptionalText description,
      dv_accessToken = token, dv_isActive = True, dv_createdAt = now\<rparr>"

lemma createDevice_alt:
  "createDevice le c fresh token now u departmentId description name =
     hbind (hcheck (requireDeviceSysAdmin (cl_role u))) (\<lambda>_.
     hbind (hexec (insert_device (new_device (fresh 0) departmentId name description token now))) (\<lambda>_.
     hbind (hauthz (setObjectParentRelation c Device (fresh 0) Department departmentId)) (\<lambda>_.
     hbind (hquery bd_catalog) (\<lambda>comps.
     hbind (if comps = [] then hreturn ()
            else hbind (hexec (insert_installations (default_installations fresh (fresh 0) comps))) (\<lambda>_.
                 hauthz (\<lambda>a. Some (writeAuthzTuples c (concat (map parent_keys (default_installations fresh (fresh 0) comps))) a)))) (\<lambda>_.
     hbind (hquery (\<lambda>db. readJoinedDevices le db (Some [fresh 0]))) (\<lambda>js.
     case js of [] \<Rightarrow> hfail (PlainError ''Failed to load created device.'') | j # _ \<Rightarrow> hreturn (j\<lparr>di_canManageUsers := True\<rparr>)))))))"
  unfolding createDevice_def new_device_def default_installations_def Let_def device_row.select_convs ..

lemma create_effect:
  assumes store: "tuple_store c tuples" and sync: "synced tuples s" and adm: "isSysAdminRole (cl_role u)"
    and ids: "fresh_ids fresh (bk_db s)" and tok: "token \<notin> dv_accessToken ` set (bd_devices (bk_db s))"
    and dep: "departmentId \<in> dr_id ` set (bd_departments (bk_db s))"
  shows "\<exists>j a. createDevice le c fresh token now u departmentId description name s = Some (Inr (j\<lparr>di_canManageUsers := True\<rparr>), s\<lparr>bk_db := (bk_db s)\<lparr>
      bd_devices := bd_devices (bk_db s) @ [new_device (fresh 0) departmentId name description token now],
      bd_installations := bd_installations (bk_db s) @ default_installations fresh (fresh 0) (bd_catalog (bk_db s))\<rparr>, bk_authz := a\<rparr>) \<and>
    di_id j = fresh 0 \<and> di_accessToken j = Some token \<and>
    tuples a = reparent (tuples (bk_authz s)) (createAuthzObject Device (fresh 0)) (createAuthzObject Department departmentId) \<union>
      \<Union> (link_keys ` installation_link ` set (default_installations fresh (fresh 0) (bd_catalog (bk_db s))))"
proof -
  let ?r = "new_device (fresh 0) departmentId name description token now" and ?db = "bk_db s"
  let ?is = "default_installations fresh (fresh 0) (bd_catalog ?db)"
  let ?db1 = "?db\<lparr>bd_devices := bd_devices ?db @ [?r]\<rparr>" and ?db2 = "?db\<lparr>bd_devices := bd_devices ?db @ [?r], bd_installations := bd_installations ?db @ ?is\<rparr>"
  have sound: "sound_db ?db" using syncedD(1) [OF sync] .
  have new: "fresh 0 \<notin> dv_id ` set (bd_devices ?db)" using ids by (auto simp: fresh_ids_def used_ids_def)
  have ins: "insert_device ?r ?db = Inr ?db1" using new tok dep by (simp add: insert_device_def new_device_def)
  obtain a where par: "setObjectParentRelation c Device (fresh 0) Department departmentId (bk_authz s) = Some a"
    and T: "tuples a = reparent (tuples (bk_authz s)) (createAuthzObject Device (fresh 0)) (createAuthzObject Department departmentId)"
    using tuple_store.set_parent [OF store] by blast
  define b where "b = (if bd_catalog ?db = [] then a else writeAuthzTuples c (concat (map parent_keys ?is)) a)"
  have Tb: "tuples b = tuples a \<union> \<Union> (link_keys ` installation_link ` set ?is)"
    using tuple_store.write_tuples [OF store] parent_keys_links [of ?is] by (simp add: b_def default_installations_def)
  have acc: "insert_installations ?is ?db1 = Inr ?db2"
    by (rule default_installations_accepted [OF sound ids]) (simp add: new_device_def)
  obtain d where d: "d \<in> set (bd_departments ?db)" "dr_id d = departmentId" using dep by auto
  then obtain f where f: "f \<in> set (bd_factories ?db)" "fr_id f = dr_factoryId d" using sound by (force simp: sound_db_def)
  have "joined_device ?r d f \<in> set (readJoinedDevices le ?db2 (Some [fresh 0]))"
    using d f by (auto simp: joined_items new_device_def)
  then obtain j js where js: "readJoinedDevices le ?db2 (Some [fresh 0]) = j # js"
    by (cases "readJoinedDevices le ?db2 (Some [fresh 0])") auto
  then have "j \<in> set (readJoinedDevices le ?db2 (Some [fresh 0]))" by simp
  then have j: "di_id j = fresh 0" "di_accessToken j = Some token" using new
    by (auto simp: joined_items joined_device_def new_device_def) (metis imageI)
  have "createDevice le c fresh token now u departmentId description name s = Some (Inr (j\<lparr>di_canManageUsers := True\<rparr>), s\<lparr>bk_db := ?db2, bk_authz := b\<rparr>)"
  proof (cases "bd_catalog ?db = []")
    case True
    then have none: "?is = []" by (simp add: default_installations_def)
    then have "?db1 = ?db2" by simp
    then show ?thesis using adm ins par js True unfolding none
      by (simp add: createDevice_alt check_bind exec_bind authz_bind query_bind b_def) (simp add: hbind_def hreturn_def hquery_def)
  next
    case False
    then show ?thesis using adm ins par js acc
      by (simp add: createDevice_alt check_bind exec_bind authz_bind query_bind hbind_assoc b_def) (simp add: hreturn_def)
  qed
  then show ?thesis using j Tb T by blast
qed

text \<open>
  C25. A new device comes with the whole catalogue. A system administrator registers a device in an
  existing department, with identifiers and an access token nobody has yet: the request succeeds, every
  catalogue entry is installed on the device and enabled as the entry says, and whoever may view the
  department may read every one of the components at once.
\<close>

theorem created_device_complete:
  assumes store: "tuple_store c tuples" and sync: "synced tuples s" and adm: "isSysAdminRole (cl_role u)"
    and ids: "fresh_ids fresh (bk_db s)" and tok: "token \<notin> dv_accessToken ` set (bd_devices (bk_db s))"
    and dep: "departmentId \<in> dr_id ` set (bd_departments (bk_db s))"
  shows "\<exists>item s'. createDevice le c fresh token now u departmentId description name s = Some (Inr item, s') \<and> di_id item = fresh 0 \<and>
    di_accessToken item = Some token \<and>
    (\<forall>e \<in> set (bd_catalog (bk_db s)). \<exists>k \<in> set (bd_installations (bk_db s')).
       is_deviceId k = fresh 0 \<and> is_componentKey k = ct_key e \<and> is_enabled k = ce_defaultEnabled e \<and>
       (\<forall>v. department_grant (tuples (bk_authz s)) v [''viewer'', ''admin''] (createAuthzObject Department departmentId) \<longrightarrow>
          allows AUTHORIZATION_MODEL (tuples (bk_authz s')) v ''can_read'' (createAuthzObject DeviceComponent (is_id k))))"
proof -
  let ?T = "tuples (bk_authz s)" and ?dev = "createAuthzObject Device (fresh 0)" and ?dep = "createAuthzObject Department departmentId"
  let ?is = "default_installations fresh (fresh 0) (bd_catalog (bk_db s))"
  obtain j a where run: "createDevice le c fresh token now u departmentId description name s = Some (Inr (j\<lparr>di_canManageUsers := True\<rparr>), s\<lparr>bk_db := (bk_db s)\<lparr>
      bd_devices := bd_devices (bk_db s) @ [new_device (fresh 0) departmentId name description token now],
      bd_installations := bd_installations (bk_db s) @ ?is\<rparr>, bk_authz := a\<rparr>)" (is "_ = Some (_, ?s')")
    and j: "di_id j = fresh 0" "di_accessToken j = Some token"
    and T': "tuples a = reparent ?T ?dev ?dep \<union> \<Union> (link_keys ` installation_link ` set ?is)"
    using create_effect [OF assms, of le now description name] by (elim exE conjE) (rule that; assumption)
  from tuple_store.createDevice_step [OF store sync, of le fresh token now u departmentId description name] have "synced tuples ?s'" unfolding keeps_step_def run by simp
  then have typed: "well_typed AUTHORIZATION_MODEL (tuples a)" using syncedD(4) [of tuples ?s'] by simp
  have unlinked: "\<not> parent_in ?T ?dev p" for p
    using linked_objects(2) [of "fresh 0" p "bk_db s"] ids
    by (auto simp: fresh_ids_def used_ids_def store_links_def simp flip: syncedD(2) [OF sync])
  then have sub: "?T \<subseteq> tuples a" by (auto simp: T' reparent_def parent_in_def)
  have dev: "parent_in (tuples a) ?dev ?dep" by (simp add: T' parent_in_def reparent_def)
  have reads: "allows AUTHORIZATION_MODEL (tuples a) v ''can_read'' (createAuthzObject DeviceComponent (is_id k))"
    if "k \<in> set ?is" "is_deviceId k = fresh 0" "department_grant ?T v [''viewer'', ''admin''] ?dep" for k v
  proof -
    have "parent_in (tuples a) (createAuthzObject DeviceComponent (is_id k)) ?dev"
      using that(1,2) by (force simp: T' parent_in_def link_keys_def installation_link_def)
    moreover have "department_grant (tuples a) v [''viewer'', ''admin''] ?dep"
      using that(3) sub by (auto simp: department_grant_def granted_def parent_in_def)
    ultimately show ?thesis using component_closed(1) [OF typed] dev by (auto simp: device_viewer_def)
  qed
  have "\<exists>k \<in> set (bd_installations (bk_db ?s')). is_deviceId k = fresh 0 \<and> is_componentKey k = ct_key e \<and> is_enabled k = ce_defaultEnabled e \<and>
      (\<forall>v. department_grant ?T v [''viewer'', ''admin''] ?dep \<longrightarrow>
         allows AUTHORIZATION_MODEL (tuples (bk_authz ?s')) v ''can_read'' (createAuthzObject DeviceComponent (is_id k)))"
    if e: "e \<in> set (bd_catalog (bk_db s))" for e
    using default_installations_complete [OF e, of fresh "fresh 0"] reads by auto
  then show ?thesis using run j by (intro exI [of _ "j\<lparr>di_canManageUsers := True\<rparr>"] exI [of _ ?s']) simp
qed

section \<open>The access token of a device\<close>

text \<open>
  C27. The access token of a device is shown to system administrators only. Whatever a caller without
  that role is answered by the queries of the devices router, the token of the device is left out; a
  device is answered only if the caller may navigate to it, and a listing holds only such devices.
\<close>

theorem device_token_confidential:
  assumes "\<not> isSysAdminRole (cl_role u)"
  shows "(\<forall>i item s'. getDeviceById le c u i s = Some (Inr item, s') \<longrightarrow> s' = s \<and> di_accessToken item = None \<and> di_id item = i \<and>
       i \<in> set (listUserAuthorizedObjectIds c (bk_authz s) (cl_id u) CanNavigate Device)) \<and>
    (\<forall>items adm s'. listDevices le c u s = Some (Inr (items, adm), s') \<longrightarrow> s' = s \<and> \<not> adm \<and>
       (\<forall>item \<in> set items. di_accessToken item = None \<and> di_id item \<in> set (listUserAuthorizedObjectIds c (bk_authz s) (cl_id u) CanNavigate Device))) \<and>
    (\<forall>i rc s'. getRouteContext le c sign_jwt secret u i s = Some (Inr rc, s') \<longrightarrow> s' = s \<and> di_accessToken (rx_device rc) = None \<and>
       checkUserObjectRelation c (bk_authz s) (cl_id u) CanNavigate Device i)"
proof -
  have ids: "di_id j = i" if "readJoinedDevices le db (Some [i]) = j # js" for db i j js
    using that joined_items [of j le db i] by (auto simp: joined_device_def)
  have listed: "di_id j \<in> set ks" if "j \<in> set (readJoinedDevices le db (Some ks))" for db ks j
    using that by (auto simp: readJoinedDevices_def joined_device_def)
  show ?thesis using assms
    by (auto simp: getDeviceById_def listDevices_def getRouteContext_def handler_defs Let_def getDeviceComponentAccessForUser_def ids listed
        split: list.splits if_splits sum.splits)
qed

section \<open>A backend with one device\<close>

definition text_le :: "string \<Rightarrow> string \<Rightarrow> bool" where
  "text_le _ _ = True"

definition root_user :: caller where
  "root_user = \<lparr>cl_id = ''root'', cl_role = Some ''admin''\<rparr>"

definition alice :: caller where
  "alice = \<lparr>cl_id = ''alice'', cl_role = None\<rparr>"

definition demo_ids :: "string \<Rightarrow> nat \<Rightarrow> string" where
  "demo_ids p n = p @ replicate n CHR ''x''"

definition backend0 :: "tuple_key list backend" where
  "backend0 = \<lparr>bk_db = \<lparr>bd_factories = [], bd_departments = [], bd_devices = [], bd_catalog = [], bd_installations = [], bd_users = []\<rparr>, bk_authz = []\<rparr>"

definition demo_entry :: catalog_entry where
  "demo_entry = \<lparr>ct_key = ''cam'', ct_description = None, ct_navigationLabel = ''Cam'', ct_readActions = [''get''], ct_rendererKey = None,
     ct_routePath = None, ct_serviceName = ''cam'', ct_sortOrder = 0, ct_writeActions = [''set''], ce_displayName = ''Cam'', ce_defaultEnabled = True\<rparr>"

fun serve_all :: "(string \<times> caller \<times> request) list \<Rightarrow> tuple_key list backend \<Rightarrow> tuple_key list backend option" where
  "serve_all [] s = Some s"
| "serve_all ((p, u, req) # qs) s = (case serve text_le server_client (demo_ids p) u req s of None \<Rightarrow> None | Some (_, s') \<Rightarrow> serve_all qs s')"

definition setup_requests :: "(string \<times> caller \<times> request) list" where
  "setup_requests =
     [(''f'', root_user, CreateFactory [] ''Plant''), (''d'', root_user, CreateDepartment [] ''f'' ''Press''),
      (''c'', root_user, CreateCatalogEntry demo_entry),
      ([], root_user, UpsertAssignment (AssignDepartment RoleAdmin ''d'' ''alice''))]"

definition device_request :: "string \<times> caller \<times> request" where
  "device_request = (''v'', root_user, CreateDevice ''tok'' 0 ''d'' [] ''Camera'')"

definition backend1 :: "tuple_key list backend" where
  "backend1 = the (serve_all setup_requests backend0)"

definition backend2 :: "tuple_key list backend" where
  "backend2 = the (serve_all (setup_requests @ [device_request]) backend0)"

lemma serve_all_reach:
  "serve_all qs s = Some s' \<Longrightarrow> reachable_from (empty_backend set) (backend_step text_le server_client) s \<Longrightarrow>
     reachable_from (empty_backend set) (backend_step text_le server_client) s'"
  by (induction qs s rule: serve_all.induct) (simp, force split: option.splits intro: reach_next served)

lemma backends_reached:
  "reachable_from (empty_backend set) (backend_step text_le server_client) backend1"
  "reachable_from (empty_backend set) (backend_step text_le server_client) backend2"
proof -
  have start: "reachable_from (empty_backend set) (backend_step text_le server_client) backend0"
    by (rule reach_start) (simp add: empty_backend_def backend0_def)
  have "serve_all setup_requests backend0 = Some backend1" "serve_all (setup_requests @ [device_request]) backend0 = Some backend2" by code_simp+
  then show "reachable_from (empty_backend set) (backend_step text_le server_client) backend1"
    "reachable_from (empty_backend set) (backend_step text_le server_client) backend2" using serve_all_reach [OF _ start] by blast+
qed

lemma backends_synced: "synced set backend1" "synced set backend2"
  using backend.inv_reachable backends_reached by blast+

lemma demo_ids_inj: "inj (demo_ids p)"
  by (rule injI) (simp add: demo_ids_def replicate_eq_replicate)


theorem created_device_complete_witness:
  "\<exists>item s'. createDevice text_le server_client (demo_ids ''v'') ''tok'' 0 root_user ''d'' [] ''Camera'' backend1 = Some (Inr item, s') \<and>
     di_id item = ''v'' \<and> (\<exists>k \<in> set (bd_installations (bk_db s')). is_componentKey k = ''cam'')"
proof -
  have cat: "demo_entry \<in> set (bd_catalog (bk_db backend1))" "isSysAdminRole (cl_role root_user)" by code_simp+
  have ids: "used_ids (bk_db backend1) = {''f'', ''d''}" by code_simp
  have fresh: "fresh_ids (demo_ids ''v'') (bk_db backend1)"
    unfolding fresh_ids_def ids using demo_ids_inj by (auto simp: demo_ids_def)
  have "''tok'' \<notin> dv_accessToken ` set (bd_devices (bk_db backend1))" "''d'' \<in> dr_id ` set (bd_departments (bk_db backend1))" by code_simp+
  note made = created_device_complete [OF fga.tuple_store_axioms backends_synced(1) cat(2) fresh this]
  have "demo_ids ''v'' 0 = ''v''" by (simp add: demo_ids_def)
  then show ?thesis using made [of text_le 0 "[]" "''Camera''"] cat(1) by (fastforce simp: demo_entry_def)
qed

theorem deleted_device_forgotten_witness:
  "\<exists>item s'. deleteDevice text_le server_client root_user ''v'' backend2 = Some (Inr item, s') \<and>
     (\<forall>k \<in> set (bk_authz s'). tk_object k \<noteq> createAuthzObject Device ''v'') \<and> bk_authz s' \<noteq> []"
proof -
  obtain item s' where run: "deleteDevice text_le server_client root_user ''v'' backend2 = Some (Inr item, s')" "bk_authz s' \<noteq> []"
  proof -
    have "case deleteDevice text_le server_client root_user ''v'' backend2 of Some (Inr _, s') \<Rightarrow> bk_authz s' \<noteq> [] | _ \<Rightarrow> False" by code_simp
    then show ?thesis using that by (simp split: option.splits prod.splits sum.splits)
  qed
  then show ?thesis using deleted_device_forgotten [OF fga.tuple_store_axioms backends_synced(2) run(1), of "createAuthzObject Device ''v''"] by blast
qed

theorem grants_need_authority_witness:
  "\<exists>r s'. serve text_le server_client (demo_ids []) alice (UpsertAssignment (AssignDevice ''v'' ''bob'')) backend2 = Some (r, s') \<and>
     tuple_of (createAuthzUser ''bob'') ''viewer'' (createAuthzObject Device ''v'') \<in> set (bk_authz s') \<and> bk_db s' = bk_db backend2 \<and>
     administers (bk_db backend2) (set (bk_authz backend2)) ''alice'' Device ''v''"
proof -
  let ?k = "tuple_of (createAuthzUser ''bob'') ''viewer'' (createAuthzObject Device ''v'')"
  have adm: "administers (bk_db backend2) (set (bk_authz backend2)) ''alice'' Device ''v''" by code_simp
  have role: "\<not> isSysAdminRole (cl_role alice)" "cl_id alice = ''alice''" by code_simp+
  have "checkUserObjectRelation server_client (bk_authz backend2) ''alice'' CanManageUsers Device ''v''"
    using adm manages_iff [of "bk_db backend2" "set (bk_authz backend2)"] backends_synced(2)
    by (simp add: synced_def checkUserObjectRelation_def fga.checks)
  then have call: "serve text_le server_client (demo_ids []) alice (UpsertAssignment (AssignDevice ''v'' ''bob'')) backend2 =
      hauthz (replaceDirectUserRelation server_client Device ''v'' ''bob'' (Some Viewer) [Viewer]) backend2"
    using role by (simp add: upsertAssignment_def assertUserCanManageScope_def ensureUserCanManageObject_def hbind_def hask_def hreturn_def)
  have "case hauthz (replaceDirectUserRelation server_client Device ''v'' ''bob'' (Some Viewer) [Viewer]) backend2 of
      Some (_, s') \<Rightarrow> ?k \<in> set (bk_authz s') | None \<Rightarrow> False" by code_simp
  then obtain r s' where run: "serve text_le server_client (demo_ids []) alice (UpsertAssignment (AssignDevice ''v'' ''bob'')) backend2 = Some (r, s')"
    "?k \<in> set (bk_authz s')" unfolding call by (simp split: option.splits prod.splits)
  have "bk_db s' = bk_db backend2" using grants_need_authority [OF fga.checked_store_axioms backends_synced(2) run(1) role(1)] ..
  then show ?thesis using run adm by blast
qed

theorem device_token_confidential_witness:
  "\<exists>items s'. listDevices text_le server_client alice backend2 = Some (Inr (items, False), s') \<and> (\<forall>item \<in> set items. di_accessToken item = None)"
proof -
  have role: "\<not> isSysAdminRole (cl_role alice)" by code_simp
  then obtain items s' where run: "listDevices text_le server_client alice backend2 = Some (Inr (items, False), s')"
    by (simp add: listDevices_def handler_defs Let_def)
  then show ?thesis using device_token_confidential [OF role, of text_le server_client backend2] by blast
qed

end
