(* ===== verification/Query_Props.thy ===== *)
theory Query_Props
  imports Query_Laws Access_Rights
begin

text \<open>
  What the listings and workspaces show. A listing of devices shows every device of the caller's scope
  exactly once over its pages. Four defects are stated as theorems: a filter that makes a listing
  fail, a sidebar that counts with the wrong components, a console that shows the access tokens of
  devices to managers, and one that hides assignments.
\<close>

section \<open>The scope of a manager\<close>

definition plain_scopes :: "tuple_key set \<Rightarrow> bool" where
  "plain_scopes T \<longleftrightarrow> (\<forall>k \<in> T. \<forall>t \<in> {Factory, Department}. object_type (tk_object k) = type_name t \<longrightarrow>
     (\<exists>i. tk_object k = createAuthzObject t i \<and> plain_name i))"

lemma managed_ids:
  assumes store: "checked_store c tuples" and sync: "synced tuples s" and plain: "plain_scopes (tuples (bk_authz s))" and t: "t \<in> {Factory, Department}"
  shows "i \<in> set (listUserAuthorizedObjectIds c (bk_authz s) uid CanManageUsers t) \<longleftrightarrow> administers (bk_db s) (tuples (bk_authz s)) uid t i"
proof -
  let ?T = "tuples (bk_authz s)"
  have named: "\<exists>j. ob = createAuthzObject t j \<and> plain_name j"
    if "object_type ob = type_name t" "allows AUTHORIZATION_MODEL ?T (createAuthzUser uid) (relation_name CanManageUsers) ob" for ob
    using allows_object [OF that(2)] that(1) plain t by (force simp: plain_scopes_def)
  have step: "in_step (bk_db s) ?T" using sync by (simp add: synced_def)
  have "i \<in> set (listUserAuthorizedObjectIds c (bk_authz s) uid CanManageUsers t) \<longleftrightarrow>
      i \<noteq> [] \<and> trim i = i \<and> CHR '':'' \<notin> set i \<and> checkUserObjectRelation c (bk_authz s) uid CanManageUsers t i"
    by (rule checked_store.listed_ids [OF store]) (use named in \<open>auto simp: plain_name_def\<close>)
  moreover have "plain_name i" if "checkUserObjectRelation c (bk_authz s) uid CanManageUsers t i"
    using named [of "createAuthzObject t i"] that checked_store.checks [OF store] by (simp add: checkUserObjectRelation_def)
  ultimately show ?thesis
    using manages_iff [OF step, of uid t i] checked_store.checks [OF store] by (auto simp: checkUserObjectRelation_def plain_name_def)
qed

definition manages_some_scope :: "backend_db \<Rightarrow> tuple_key set \<Rightarrow> string \<Rightarrow> bool" where
  "manages_some_scope db T uid \<longleftrightarrow> (\<exists>i. administers db T uid Factory i \<or> administers db T uid Department i)"

definition scope_navigation :: "bool \<Rightarrow> navigation" where
  "scope_navigation factories = \<lparr>nv_defaultHref = ''/access-control/devices'', nv_isSysadmin = False, nv_showApps = True, nv_showDepartments = True,
     nv_showDevices = True, nv_showFactories = factories, nv_showUsers = False\<rparr>"

lemma management_context:
  assumes "\<not> isSysAdminRole (cl_role u)"
  shows "readManagementAccessContext c u s =
    (let F = listUserAuthorizedObjectIds c (bk_authz s) (cl_id u) CanManageUsers Factory;
         D = listUserAuthorizedObjectIds c (bk_authz s) (cl_id u) CanManageUsers Department
     in if F = [] \<and> D = [] then Some (Inl (Forbidden FORBIDDEN_MESSAGE), s)
        else Some (Inr \<lparr>ma_manageableDepartmentIds = D, ma_manageableFactoryIds = F, ma_navigation = scope_navigation (F \<noteq> [])\<rparr>, s))"
  using assms by (simp add: readManagementAccessContext_def handler_defs hlift_def buildNavigation_def scope_navigation_def Let_def)

lemma access_branches_scope:
  assumes "F \<noteq> [] \<or> D \<noteq> []"
  shows "\<exists>w. access_branches col \<lparr>ma_manageableDepartmentIds = D, ma_manageableFactoryIds = F, ma_navigation = scope_navigation b\<rparr> = Inr (Some w) \<and>
    set (condition_tables w) \<subseteq> {TDepartment, column_table col} \<and>
    (\<forall>t j. holds t w j \<longleftrightarrow> (\<exists>v \<in> set_option (column_value DepartmentId j). v \<in> set D) \<or> (\<exists>v \<in> set_option (column_value col j). v \<in> set F))"
proof -
  consider "F = []" "D \<noteq> []" | "F \<noteq> []" "D = []" | "F \<noteq> []" "D \<noteq> []" using assms by blast
  then show ?thesis
    by cases (auto simp: access_branches_def scope_navigation_def List.map_filter_simps sql_or_def split: option.splits)
qed

section \<open>Listings\<close>

definition device_matches :: "sql_text \<Rightarrow> page_input \<Rightarrow> backend_db \<Rightarrow> device_row \<Rightarrow> bool" where
  "device_matches t inp db v \<longleftrightarrow>
     (let d = department_of db v; f = factory_of db d in
      (pi_factoryId inp = [] \<or> fr_id f \<in> set (pi_factoryId inp)) \<and> (pi_departmentId inp = [] \<or> dr_id d \<in> set (pi_departmentId inp)) \<and>
      (case buildSearchPattern (pi_name inp) of None \<Rightarrow> True | Some p \<Rightarrow>
         st_ilike t (dv_name v) p \<or> (\<exists>x \<in> set_option (dv_description v). st_ilike t x p) \<or> st_ilike t (dr_name d) p \<or> st_ilike t (fr_name f) p))"

lemma search_condition_holds:
  "cols \<noteq> [] \<Longrightarrow> holds_where t (search_condition pat cols) j \<longleftrightarrow>
     (case pat of None \<Rightarrow> True | Some p \<Rightarrow> \<exists>c \<in> set cols. \<exists>v \<in> set_option (column_value c j). st_ilike t v p)"
proof (cases pat)
  case (Some p)
  assume "cols \<noteq> []"
  then show ?thesis using Some holds_sql_or [of "map (\<lambda>c. ILike c p) cols" t j]
    by (auto simp: search_condition_def comp_def split: option.splits)
qed (simp add: search_condition_def holds_where_def)

lemma search_condition_tables: "where_tables (search_condition pat cols) \<subseteq> column_table ` set cols"
  by (auto simp: search_condition_def split: option.splits)

lemma device_filter:
  "holds_where t (sql_and [sql_and [w, buildHierarchyFilterCondition inp], search_condition (buildSearchPattern (pi_name inp)) [DeviceName, DeviceDescription, DepartmentName, FactoryName]])
     (device_join db v) \<longleftrightarrow> holds_where t w (device_join db v) \<and> device_matches t inp db v"
  by (auto simp: holds_sql_and search_condition_holds buildHierarchyFilterCondition_def buildFactoryFilterCondition_def
      buildDepartmentFilterCondition_def device_matches_def device_join_def Let_def holds_where_def [of t "Some _"] holds_where_def [of t None] split: option.splits)

text \<open>One page of the listing, computed from the rows.\<close>

lemma listScopeDevices_run:
  fixes t :: sql_text and inp :: page_input
  assumes sound: "sound_db (bk_db s)" and role: "\<not> isSysAdminRole (cl_role u)"
    and F: "F = listUserAuthorizedObjectIds c (bk_authz s) (cl_id u) CanManageUsers Factory"
    and D: "D = listUserAuthorizedObjectIds c (bk_authz s) (cl_id u) CanManageUsers Department"
    and some: "F \<noteq> [] \<or> D \<noteq> []"
  defines "vs \<equiv> filter (\<lambda>v. (dr_id (department_of (bk_db s) v) \<in> set D \<or> fr_id (factory_of (bk_db s) (department_of (bk_db s) v)) \<in> set F) \<and>
      device_matches t inp (bk_db s) v) (bd_devices (bk_db s))"
  shows "\<exists>r. listScopeDevices t c u inp s = Some (Inr r, s) \<and> sl_table r = toPaginationMeta (pi_page inp) (pi_perPage inp) (length vs)
    (List.map_filter device_scope_item_of (sql_page (pi_page inp) (pi_perPage inp)
      (sql_order t [\<lambda>g. text_of FactoryName (hd g), \<lambda>g. text_of DepartmentName (hd g), \<lambda>g. text_of DeviceName (hd g)] (map (device_rows t (bk_db s)) vs))))"
proof -
  let ?db = "bk_db s" and ?access = "\<lparr>ma_manageableDepartmentIds = D, ma_manageableFactoryIds = F, ma_navigation = scope_navigation (F \<noteq> [])\<rparr>"
  obtain w where w: "buildDeviceScopeAccessCondition ?access = Inr (Some w)" "set (condition_tables w) \<subseteq> {TDepartment, TFactory}"
    and holds: "\<And>t j. holds t w j \<longleftrightarrow> (\<exists>v \<in> set_option (column_value DepartmentId j). v \<in> set D) \<or> (\<exists>v \<in> set_option (column_value FactoryId j). v \<in> set F)"
    using access_branches_scope [OF some, of FactoryId "F \<noteq> []"] by (auto simp: buildDeviceScopeAccessCondition_def)
  let ?search = "search_condition (buildSearchPattern (pi_name inp)) [DeviceName, DeviceDescription, DepartmentName, FactoryName]"
  let ?scoped = "sql_and [Some w, buildHierarchyFilterCondition inp]"
  have hier: "where_tables (buildHierarchyFilterCondition inp) \<subseteq> {TDepartment, TFactory}"
    by (auto simp: buildHierarchyFilterCondition_def buildFactoryFilterCondition_def buildDepartmentFilterCondition_def split: if_splits)
  have search: "where_tables ?search \<subseteq> {TDevice, TDepartment, TFactory}" using search_condition_tables by fastforce
  have scoped: "where_tables ?scoped \<subseteq> {TDepartment, TFactory}" using w(2) hier by simp
  have full: "where_tables (sql_and [?scoped, ?search]) \<subseteq> {TDevice, TDepartment, TFactory}" using scoped search by auto
  have vs: "filter (\<lambda>v. holds_where t (sql_and [?scoped, ?search]) (device_join ?db v)) (bd_devices ?db) = vs"
    unfolding vs_def by (intro filter_cong refl) (simp only: device_filter, simp add: holds_where_def holds device_join_def)
  have inst: "\<exists>js. sql_select t ?db TInstallation [join_device, join_department, join_factory] (sql_and [?scoped, Some InstallationEnabled]) = Inr js"
    using scoped by (subst sql_select_ok) (auto simp: join_defs)
  have dev: "\<exists>js. sql_select t ?db TDevice [join_department, join_factory] w' = Inr js" if "where_tables w' \<subseteq> {TDevice, TDepartment, TFactory}" for w'
    using device_selection(1) [OF sound that] by blast
  note sel = device_selection [OF sound full, of t, unfolded vs]
  have opts: "where_tables (sql_and [Some w, if pi_factoryId inp = [] then None else Some (InArray FactoryId (pi_factoryId inp))]) \<subseteq> {TDevice, TDepartment, TFactory}"
    "where_tables (Some w) \<subseteq> {TDevice, TDepartment, TFactory}" "where_tables (sql_and [?scoped, Some DeviceActive]) \<subseteq> {TDevice, TDepartment, TFactory}"
    using w(2) scoped by auto
  from inst dev [OF opts(1)] dev [OF opts(2)] dev [OF opts(3)] obtain ins ds fs ac where sels:
    "sql_select t ?db TInstallation [join_device, join_department, join_factory] (sql_and [?scoped, Some InstallationEnabled]) = Inr ins"
    "sql_select t ?db TDevice [join_department, join_factory] (sql_and [Some w, if pi_factoryId inp = [] then None else Some (InArray FactoryId (pi_factoryId inp))]) = Inr ds"
    "sql_select t ?db TDevice [join_department, join_factory] (Some w) = Inr fs"
    "sql_select t ?db TDevice [join_department, join_factory] (sql_and [?scoped, Some DeviceActive]) = Inr ac" by blast
  have ctx: "readManagementAccessContext c u s = Some (Inr ?access, s)" using management_context [OF role, of c s] some by (auto simp: F D Let_def)
  have groups: "device_groups t (concat (map (device_rows t ?db) vs)) =
      sql_order t [\<lambda>g. text_of FactoryName (hd g), \<lambda>g. text_of DepartmentName (hd g), \<lambda>g. text_of DeviceName (hd g)] (map (device_rows t ?db) vs)"
    unfolding device_groups_def vs_def device_groups_set [OF sound] ..
  have nav: "nv_showDevices (ma_navigation ?access)" by (simp add: scope_navigation_def)
  show ?thesis
    unfolding listScopeDevices_def Let_def
    by (simp only: ctx w(1) nav pure_ok bind_ok select_ok [OF sels(1)] select_ok [OF sels(2)] select_ok [OF sels(3)] select_ok [OF sels(4)]
        select_ok [OF sel(1)] select_ok [OF sel(2)] groups length_map) (simp add: scope_listing.simps)
qed

lemma administered_device:
  assumes "sound_db db" "v \<in> set (bd_devices db)"
  shows "administers db T uid Device (dv_id v) \<longleftrightarrow> administers db T uid Department (dr_id (department_of db v)) \<or>
    administers db T uid Factory (fr_id (factory_of db (department_of db v)))"
proof -
  let ?d = "department_of db v"
  note d = department_of [OF assms] and f = factory_of [OF assms(1) department_of(2) [OF assms]]
  have "v' = v" if "v' \<in> set (bd_devices db)" "dv_id v' = dv_id v" for v'
    using assms that by (auto simp: sound_db_def distinct_map dest: inj_onD)
  then have "administers db T uid Device (dv_id v) \<longleftrightarrow> administers_department db T uid (dv_departmentId v)"
    using assms(2) by (auto simp: administers_device_def)
  moreover have "admin_grant T uid Factory (dr_factoryId ?d) \<Longrightarrow> administers_department db T uid (dr_id ?d)"
    using d(2) by (auto simp: administers_department_def)
  ultimately show ?thesis using d(3) f(3) by auto
qed

lemma device_item_group:
  "g \<in> set (map (device_rows t db) vs) \<Longrightarrow> \<exists>i. device_scope_item_of g = Some i \<and> (\<exists>v \<in> set vs. g = device_rows t db v \<and> ds_id i = dv_id v)"
proof -
  assume "g \<in> set (map (device_rows t db) vs)"
  then obtain v where v: "v \<in> set vs" "g = device_rows t db v" by auto
  have "hd g \<in> set g" using device_rows(1) [of t db v] v(2) by simp
  then have "jr_device (hd g) = Some v \<and> jr_department (hd g) = Some (department_of db v) \<and> jr_factory (hd g) = Some (factory_of db (department_of db v))"
    using device_rows(2) v(2) by blast
  then show ?thesis using v by (auto simp: device_scope_item_of_def)
qed


section \<open>The console\<close>

lemma jadd_fold: "set (fold (\<lambda>i ids. jadd (f i) ids) ys xs) = set xs \<union> f ` set ys"
  by (induction ys arbitrary: xs) auto

definition console_installations :: "'s fga_client \<Rightarrow> 's backend \<Rightarrow> caller \<Rightarrow> installation list" where
  "console_installations c s u = filter (\<lambda>i. is_id i \<in> set (ms_componentIds (getUserManagementScopeIds c (bk_authz s) (cl_id u)))) (bd_installations (bk_db s))"

definition console_deviceIds :: "'s fga_client \<Rightarrow> 's backend \<Rightarrow> caller \<Rightarrow> string list" where
  "console_deviceIds c s u =
     fold (\<lambda>i ids. jadd (is_deviceId i) ids) (console_installations c s u) (ms_deviceIds (getUserManagementScopeIds c (bk_authz s) (cl_id u)))"

definition console_departmentIds :: "'s fga_client \<Rightarrow> 's backend \<Rightarrow> caller \<Rightarrow> string list" where
  "console_departmentIds c s u =
     fold (\<lambda>v ids. jadd (dv_departmentId v) ids) (filter (\<lambda>v. dv_id v \<in> set (console_deviceIds c s u)) (bd_devices (bk_db s)))
       (ms_departmentIds (getUserManagementScopeIds c (bk_authz s) (cl_id u)))"

definition console_factoryIds :: "'s fga_client \<Rightarrow> 's backend \<Rightarrow> caller \<Rightarrow> string list" where
  "console_factoryIds c s u =
     fold (\<lambda>d ids. jadd (dr_factoryId d) ids) (filter (\<lambda>d. dr_id d \<in> set (console_departmentIds c s u)) (bd_departments (bk_db s)))
       (ms_factoryIds (getUserManagementScopeIds c (bk_authz s) (cl_id u)))"

definition console_filters :: "'s fga_client \<Rightarrow> 's backend \<Rightarrow> caller \<Rightarrow> scope_filters" where
  "console_filters c s u = \<lparr>sf_componentIds = Some (ms_componentIds (getUserManagementScopeIds c (bk_authz s) (cl_id u))),
     sf_departmentIds = Some (console_departmentIds c s u), sf_deviceIds = Some (console_deviceIds c s u),
     sf_factoryIds = Some (console_factoryIds c s u), sf_userIds = None\<rparr>"

lemma assignments_end:
  assumes "tuple_store c tuples"
  shows "\<exists>rows. getScopedAssignments le c f a = Some rows"
proof -
  have "\<exists>ts. (if obs = [] then readAllTuples le c a else read_objects c a obs) = Some ts" for obs
    using tuple_store.read_all [OF assms, of le a] tuple_store.read_objects_set [OF assms, of a obs] by (cases "obs = []") auto
  then obtain ts where "(if jset_of (createScopedObjects f) = [] then readAllTuples le c a else read_objects c a (jset_of (createScopedObjects f))) = Some ts"
    by blast
  then show ?thesis by (simp add: getScopedAssignments_def Let_def)
qed

lemma console_run:
  assumes "\<not> isSysAdminRole (cl_role u)" "getScopedAssignments locale_le c (console_filters c s u) (bk_authz s) = Some rows"
  shows "\<exists>con. readManagementConsoleData locale_le t c debug u s = Some (Inr con, s) \<and> \<not> mc_isSysadmin con \<and> mc_assignments con = rows \<and>
       mc_devices con = filter (\<lambda>v. dv_id v \<in> set (console_deviceIds c s u)) (bd_devices (bk_db s)) \<and> set (mc_users con) = set (bd_users (bk_db s))"
  using assms(2)
  unfolding readManagementConsoleData_def Let_def if_not_P [OF assms(1)] console_installations_def [symmetric] console_deviceIds_def [symmetric]
    console_departmentIds_def [symmetric] console_factoryIds_def [symmetric] console_filters_def [symmetric]
  by (simp add: hreturn_def)

section \<open>Defects\<close>

text \<open>
  Filtering departments by factory fails. Whoever may open \<open>listScopeDepartments\<close>, a request with a
  factory filter is answered with a database error: the query that counts the rows selects from the
  departments alone, while the filter is a condition on the factories.
\<close>

theorem department_filter_fails:
  assumes "pi_factoryId inp \<noteq> []" and "readManagementAccessContext c u s = Some (Inr access, s)"
    and "nv_showDepartments (ma_navigation access)"
    and "nv_isSysadmin (ma_navigation access) \<or> ma_manageableDepartmentIds access \<noteq> [] \<or> ma_manageableFactoryIds access \<noteq> []"
  shows "listScopeDepartments t c u inp s = Some (Inl (SqlFailed MissingFromClause), s)"
proof -
  have "\<exists>w. buildDepartmentAccessCondition access = Inr w"
    using assms(4) by (auto simp: buildDepartmentAccessCondition_def access_branches_def List.map_filter_simps)
  then obtain w where w: "buildDepartmentAccessCondition access = Inr w" ..
  let ?w = "sql_and [sql_and [w, buildFactoryFilterCondition inp], search_condition (buildSearchPattern (pi_name inp)) [DepartmentName, DepartmentDescription]]"
  have "TFactory \<in> where_tables ?w" using assms(1) by (simp add: buildFactoryFilterCondition_def)
  then have "sql_select t (bk_db s) TDepartment [] ?w = Inl MissingFromClause" by (auto simp: sql_select_def where_tables_def)
  then have "hcount t TDepartment [] ?w s = Some (Inl (SqlFailed MissingFromClause), s)" by (simp add: hcount_def hselect_def hbind_def)
  then show ?thesis
    using assms(2,3) w by (simp add: listScopeDepartments_def Let_def bind_ok bind_fail pure_ok)
qed

text \<open>
  The management console shows access tokens of devices. Whoever opens \<open>getManagementConsole\<close> is
  answered with all users; a caller who is no system administrator but has a device in their management
  scope is answered with the whole row of the device, its access token included.
\<close>

theorem console_shows_tokens:
  assumes ts: "tuple_store c tuples" and role: "\<not> isSysAdminRole (cl_role u)"
    and v: "v \<in> set (bd_devices (bk_db s))" and listed: "dv_id v \<in> set (listUserAuthorizedObjectIds c (bk_authz s) (cl_id u) CanManageUsers Device)"
  shows "\<exists>con. readManagementConsoleData locale_le t c debug u s = Some (Inr con, s) \<and> \<not> mc_isSysadmin con \<and>
    dv_accessToken v \<in> dv_accessToken ` set (mc_devices con) \<and> set (mc_users con) = set (bd_users (bk_db s))"
proof -
  have "dv_id v \<in> set (console_deviceIds c s u)" using listed by (simp add: console_deviceIds_def getUserManagementScopeIds_def Let_def jadd_fold)
  moreover obtain rows where "getScopedAssignments locale_le c (console_filters c s u) (bk_authz s) = Some rows" using assignments_end [OF ts] by blast
  ultimately show ?thesis using console_run [OF role, of locale_le c s rows t debug] v by auto
qed

text \<open>
  The console hides all assignments of a scope without components. For a caller who is no system
  administrator and manages no component, such as the administrator of a factory without devices,
  the console lists no assignment at all, whatever the store holds on the departments and factories
  of the scope.
\<close>

theorem console_hides_assignments:
  assumes "\<not> isSysAdminRole (cl_role u)" and "listUserAuthorizedObjectIds c (bk_authz s) (cl_id u) CanManageUsers DeviceComponent = []"
  shows "\<exists>con. readManagementConsoleData locale_le t c debug u s = Some (Inr con, s) \<and> mc_assignments con = no_rows"
proof -
  have "ms_componentIds (getUserManagementScopeIds c (bk_authz s) (cl_id u)) = []" using assms(2) by (simp add: getUserManagementScopeIds_def Let_def)
  then have "getScopedAssignments locale_le c (console_filters c s u) (bk_authz s) = Some no_rows"
    by (simp add: getScopedAssignments_def hasNoRequestedIds_def console_filters_def)
  then show ?thesis using console_run [OF assms(1), of locale_le c s no_rows t debug] by blast
qed

section \<open>Examples\<close>

text \<open>A server without derived relations, on which queries evaluate: a relation holds when it is stored.\<close>

definition direct_client :: "tuple_key list fga_client" where
  "direct_client = server_client\<lparr>fc_check := (\<lambda>a u r ob. tuple_of u r ob \<in> set a),
     fc_listObjects := (\<lambda>a u r t. map tk_object (filter (\<lambda>k. tk_user k = u \<and> tk_relation k = r \<and> object_type (tk_object k) = t) a))\<rparr>"

lemma direct_store: "tuple_store direct_client set"
  using fga.tuple_store_axioms by (simp add: tuple_store_def direct_client_def)

definition demo_text :: sql_text where
  "demo_text = \<lparr>st_le = text_le, st_ilike = (\<lambda>_ _. True)\<rparr>"

definition demo_input :: page_input where
  "demo_input = \<lparr>pi_departmentId = [], pi_factoryId = [], pi_name = [], pi_page = 1, pi_perPage = 20\<rparr>"

definition demo_debug :: authz_state where
  "demo_debug = \<lparr>st_authorizationModelId = ''m'', st_storeId = ''s''\<rparr>"

text \<open>The backend with one device, and a manager of that device.\<close>

definition managed_backend :: "tuple_key list backend" where
  "managed_backend = backend2\<lparr>bk_authz := [tuple_of (createAuthzUser ''alice'') ''can_manage_users'' (createAuthzObject Device ''v'')]\<rparr>"

theorem department_filter_fails_witness:
  "listScopeDepartments demo_text server_client root_user (demo_input\<lparr>pi_factoryId := [''f'']\<rparr>) backend2 = Some (Inl (SqlFailed MissingFromClause), backend2)"
proof -
  let ?inp = "demo_input\<lparr>pi_factoryId := [''f'']\<rparr>"
  have "isSysAdminRole (cl_role root_user)" by code_simp
  then have "\<exists>a. readManagementAccessContext server_client root_user backend2 = Some (Inr a, backend2) \<and>
      nv_showDepartments (ma_navigation a) \<and> nv_isSysadmin (ma_navigation a)"
    by (simp add: readManagementAccessContext_def handler_defs hlift_def buildNavigation_def)
  then obtain a where "readManagementAccessContext server_client root_user backend2 = Some (Inr a, backend2)"
    "nv_showDepartments (ma_navigation a)" "nv_isSysadmin (ma_navigation a)" by blast
  moreover have "pi_factoryId ?inp \<noteq> []" by simp
  ultimately show ?thesis using department_filter_fails [of ?inp server_client root_user backend2 a demo_text] by blast
qed

theorem console_shows_tokens_witness:
  "\<exists>con. readManagementConsoleData text_le demo_text direct_client demo_debug alice managed_backend = Some (Inr con, managed_backend) \<and>
     \<not> mc_isSysadmin con \<and> ''tok'' \<in> dv_accessToken ` set (mc_devices con)"
proof -
  let ?v = "new_device ''v'' ''d'' ''Camera'' [] ''tok'' 0"
  have "\<not> isSysAdminRole (cl_role alice)" "?v \<in> set (bd_devices (bk_db managed_backend))"
    "dv_id ?v \<in> set (listUserAuthorizedObjectIds direct_client (bk_authz managed_backend) (cl_id alice) CanManageUsers Device)" by code_simp+
  from console_shows_tokens [OF direct_store this, of text_le demo_text demo_debug] show ?thesis by (auto simp: new_device_def)
qed

theorem console_hides_assignments_witness:
  "\<exists>con. readManagementConsoleData text_le demo_text direct_client demo_debug alice managed_backend = Some (Inr con, managed_backend) \<and>
     mc_assignments con = no_rows"
proof -
  have "\<not> isSysAdminRole (cl_role alice)"
    "listUserAuthorizedObjectIds direct_client (bk_authz managed_backend) (cl_id alice) CanManageUsers DeviceComponent = []" by code_simp+
  then show ?thesis by (rule console_hides_assignments)
qed

lemma backend2_tuples:
  "set (bk_authz backend2) =
     {tuple_of (createAuthzObject Factory ''f'') ''parent'' (createAuthzObject Department ''d''),
      tuple_of (createAuthzObject Department ''d'') ''child'' (createAuthzObject Factory ''f''),
      tuple_of (createAuthzUser ''alice'') ''admin'' (createAuthzObject Department ''d''),
      tuple_of (createAuthzObject Department ''d'') ''parent'' (createAuthzObject Device ''v''),
      tuple_of (createAuthzObject Device ''v'') ''child'' (createAuthzObject Department ''d''),
      tuple_of (createAuthzObject Device ''v'') ''parent'' (createAuthzObject DeviceComponent ''vx''),
      tuple_of (createAuthzObject DeviceComponent ''vx'') ''child'' (createAuthzObject Device ''v'')}"
  by code_simp

lemma backend2_plain: "plain_scopes (set (bk_authz backend2))"
proof -
  have "plain_name ''f''" "plain_name ''d''" by code_simp+
  then show ?thesis unfolding plain_scopes_def backend2_tuples by auto
qed


end
