(* ===== verification/Workspace_Props.thy ===== *)
theory Workspace_Props
  imports Query_Props
begin

text \<open>
  What the workspaces show to a caller without the system administrator role, read off a successful
  answer, and the examples of the query theories.
\<close>

section \<open>Reading off an answer\<close>

lemma bind_InrE:
  assumes "hbind h f s = Some (Inr y, s')"
  obtains x s1 where "h s = Some (Inr x, s1)" "f x s1 = Some (Inr y, s')"
  using assms by (auto simp: hbind_def split: option.splits sum.splits)

lemma select_InrE:
  assumes "hselect t tab joins w s = Some (Inr js, s')"
  obtains "s' = s" "js = filter (holds_where t w) (joined t (bk_db s) tab joins)"
  using assms by (auto simp: hselect_def sql_select_def split: sum.splits if_splits)

lemma count_InrE:
  assumes "hcount t tab joins w s = Some (Inr n, s')"
  obtains "s' = s"
  using assms by (auto simp: hcount_def hreturn_def elim!: bind_InrE select_InrE)

lemma pure_InrE:
  "hreturn x s = Some (Inr y, s') \<longleftrightarrow> y = x \<and> s' = s" "hask p s = Some (Inr z, s') \<longleftrightarrow> z = p (bk_authz s) \<and> s' = s"
  "hquery q s = Some (Inr v, s') \<longleftrightarrow> v = q (bk_db s) \<and> s' = s" "\<not> hfail e s = Some (Inr w, s')"
  "hguard b e s = Some (Inr i, s') \<longleftrightarrow> b \<and> s' = s"
  by (auto simp: hreturn_def hask_def hquery_def hfail_def hguard_def)

lemma group_members:
  "g \<in> set (sql_group key js) \<Longrightarrow> g \<noteq> [] \<and> set g \<subseteq> set js \<and> (\<forall>j \<in> set g. key j = key (hd g))"
proof (induction key js rule: sql_group.induct)
  case (2 key j js)
  show ?case
  proof (cases "g \<in> set (sql_group key (filter (\<lambda>i. key i \<noteq> key j) js))")
    case True
    note ih = "2.IH" [OF this]
    then have "set g \<subseteq> set (j # js)" by (auto dest: subsetD)
    then show ?thesis using ih by blast
  next
    case False
    then have "g = j # filter (\<lambda>i. key i = key j) js" using "2.prems" by simp
    then show ?thesis by auto
  qed
qed simp

lemma paged_group:
  assumes "g \<in> set (sql_page p n (sql_order t keys (sql_group key js)))"
  shows "hd g \<in> set js"
proof -
  have "g \<in> set (sql_group key js)" using assms by (auto simp: sql_page_def dest!: in_set_takeD in_set_dropD)
  from group_members [OF this] show ?thesis using hd_in_set by blast
qed

lemma joined_left:
  assumes "j \<in> set (joined t db tab [LeftJoin tab' c])"
  obtains i where "i \<in> set (with_table db tab no_row)" "j = i \<or> (j \<in> set (with_table db tab' i) \<and> holds t c j)"
proof -
  obtain i where i: "i \<in> set (with_table db tab no_row)" "j \<in> set (join_rows t db (LeftJoin tab' c) i)"
    using assms by (auto simp: joined_def simp del: join_rows.simps)
  then show ?thesis using that left_join_rows(2) [of j t db tab' c i] by blast
qed

section \<open>Siblings of a device\<close>

lemma sidebar_devices:
  assumes "v \<in> set rows" "readDeviceSidebarRows t departmentId deviceIds componentIds s = Some (Inr rows, s')"
  obtains g where "sidebar_device_of componentIds g = Some v" "g \<noteq> []" "\<forall>j \<in> set g. column_value DeviceId j = column_value DeviceId (hd g)"
    "set g \<subseteq> set (joined t (bk_db s) TDevice [left_installations])"
proof -
  have "deviceIds \<noteq> Some []" using assms by (auto simp: readDeviceSidebarRows_def pure_InrE)
  then obtain w where "rows = List.map_filter (sidebar_device_of componentIds) (named_device_groups t (filter w (joined t (bk_db s) TDevice [left_installations])))"
    using assms(2) by (simp add: readDeviceSidebarRows_def) (elim bind_InrE select_InrE, simp add: pure_InrE)
  moreover define js where "js = filter w (joined t (bk_db s) TDevice [left_installations])"
  ultimately have js: "set js \<subseteq> set (joined t (bk_db s) TDevice [left_installations])"
    and rows: "rows = List.map_filter (sidebar_device_of componentIds) (named_device_groups t js)" by auto
  then obtain g where g: "g \<in> set (sql_group (column_value DeviceId) js)" "sidebar_device_of componentIds g = Some v"
    using assms(1) by (auto simp: named_device_groups_def List.map_filter_def)
  then show ?thesis using that [OF g(2)] group_members [OF g(1)] js by blast
qed

text \<open>
  The sidebar counts the applications of the wrong device. A caller opens the workspace of a device
  that they may not read as a whole, so only some of its components are visible to them. The
  sidebar then shows zero applications for every other device of the department, although the
  caller may be allowed to read components there: the counts of all devices are restricted to
  the components of the selected one.
\<close>

theorem sibling_apps_uncounted:
  assumes sound: "sound_db (bk_db s)" and role: "\<not> isSysAdminRole (cl_role u)"
    and unread: "\<not> checkUserObjectRelation c (bk_authz s) (cl_id u) CanRead Device deviceId"
    and run: "getDeviceWorkspace t c sign_jwt secret u deviceId s = Some (Inr ws, s')"
    and v: "v \<in> set (vw_devices ws)" "sv_id v \<noteq> deviceId"
  shows "sv_totalAppCount v = 0 \<and> sv_enabledAppCount v = 0"
proof -
  obtain access departmentId visible s1 where acc: "hdevice_access c sign_jwt secret u deviceId s = Some (Inr access, s)"
    and rows: "readDeviceSidebarRows t departmentId visible (Some (map dc_id (da_components access))) s = Some (Inr (vw_devices ws), s1)"
    using run role unread
    by (auto simp: getDeviceWorkspace_def may_read_def pure_InrE hdevice_access_def Let_def split: list.splits sum.splits if_splits
        elim!: bind_InrE count_InrE)
  obtain g where g: "sidebar_device_of (Some (map dc_id (da_components access))) g = Some v" "g \<noteq> []"
    "\<forall>j \<in> set g. column_value DeviceId j = column_value DeviceId (hd g)" "set g \<subseteq> set (joined t (bk_db s) TDevice [left_installations])"
    using sidebar_devices [OF v(1) rows] .
  have comps: "\<exists>k \<in> set (bd_installations (bk_db s)). is_id k = i \<and> is_deviceId k = deviceId" if "i \<in> set (map dc_id (da_components access))" for i
    using acc that role
    by (auto simp: hdevice_access_def getDeviceComponentAccessForUser_def Let_def pure_InrE accessible_iff access_record_def installation_rows_def access_view_def
        split: sum.splits if_splits) blast+
  have none: "i \<notin> set (map dc_id (da_components access))" if j: "j \<in> set g" "column_value InstallationId j = Some i" for j i
  proof
    assume "i \<in> set (map dc_id (da_components access))"
    then obtain k where k: "k \<in> set (bd_installations (bk_db s))" "is_id k = i" "is_deviceId k = deviceId" using comps by blast
    obtain k' where k': "jr_installation j = Some k'" "k' \<in> set (bd_installations (bk_db s))" "is_id k' = i" "Some (is_deviceId k') = column_value DeviceId j"
      using g(4) j by (auto simp: left_installations_def no_row_def elim!: joined_left dest!: subsetD [OF g(4)])
    then have "k' = k" using k sound by (auto simp: sound_db_def distinct_map dest: inj_onD)
    moreover have "column_value DeviceId j = Some (sv_id v)" using g(1) g(3) j(1) by (auto simp: sidebar_device_of_def)
    ultimately show False using k'(4) k(3) v(2) by auto
  qed
  then have "counted_apps (Some (map dc_id (da_components access))) g = []"
    by (auto simp: counted_apps_def filter_empty_conv split: option.splits)
  then show ?thesis using g(1) by (auto simp: sidebar_device_of_def)
qed

section \<open>What a workspace shows\<close>

lemma table_row:
  assumes "row \<in> set (List.map_filter f (sql_page p n (sql_order t keys (sql_group key (filter w js)))))"
  obtains g where "f g = Some row" "hd g \<in> set js" "w (hd g)"
proof -
  obtain g where g: "f g = Some row" "g \<in> set (sql_page p n (sql_order t keys (sql_group key (filter w js))))"
    using assms by (auto simp: List.map_filter_def)
  from paged_group [OF g(2)] show ?thesis using that [OF g(1)] by simp
qed

lemma sidebar_InrE:
  "readFactorySidebarRows t fs ds vs s = Some (Inr x, s') \<Longrightarrow> s' = s"
  "readDepartmentSidebarRows t i ds vs s = Some (Inr y, s') \<Longrightarrow> s' = s"
  by (auto simp: readFactorySidebarRows_def readDepartmentSidebarRows_def pure_InrE elim!: bind_InrE select_InrE split: if_splits)

lemma factory_workspace_table:
  assumes role: "\<not> isSysAdminRole (cl_role u)" and run: "getFactoryWorkspace t c u i inp s = Some (Inr ws, s')"
  defines "canRead \<equiv> checkUserObjectRelation c (bk_authz s) (cl_id u) CanRead Factory i"
    and "ids \<equiv> listUserAuthorizedObjectIds c (bk_authz s) (cl_id u) CanNavigate Department"
  shows "checkUserObjectRelation c (bk_authz s) (cl_id u) CanNavigate Factory i \<and> fr_id (fw_selectedFactory ws) = i \<and>
    (\<exists>search deviceIds. pg_rows (fw_table ws) =
       List.map_filter (workspace_department_of deviceIds) (sql_page (wi_page inp) (wi_perPage inp) (department_groups t
          (filter (holds_where t (sql_and ((Some (EqText DepartmentFactoryId i) # (if canRead then [] else [Some (InArray DepartmentId ids)])) @ [search])))
             (joined t (bk_db s) TDepartment [left_devices])))))"
proof -
  have nav: "checkUserObjectRelation c (bk_authz s) (cl_id u) CanNavigate Factory i"
    using run role by (auto simp: getFactoryWorkspace_def requireNavigableFactory_def pure_InrE elim!: bind_InrE)
  then have guard: "requireNavigableFactory c u i s = Some (Inr (), s)"
    using role by (simp add: requireNavigableFactory_def bind_ok pure_ok)
  have ids: "resolveNavigableFactoryIds c u s = Some (Inr (Some (listUserAuthorizedObjectIds c (bk_authz s) (cl_id u) CanNavigate Factory)), s)"
    "reachable_ids c u CanNavigate ty s = Some (Inr (Some (listUserAuthorizedObjectIds c (bk_authz s) (cl_id u) CanNavigate ty)), s)"
    "may_read c u Factory i s = Some (Inr canRead, s)" for ty
    using role by (simp_all add: resolveNavigableFactoryIds_def reachable_ids_def may_read_def pure_ok canRead_def)
  have "\<exists>f search deviceIds total js table. find (\<lambda>f. fr_id f = i) (bd_factories (bk_db s)) = Some f \<and> fw_selectedFactory ws = f \<and>
      js = filter (holds_where t (sql_and ((Some (EqText DepartmentFactoryId i) # (if canRead then [] else [Some (InArray DepartmentId ids)])) @ [search])))
             (joined t (bk_db s) TDepartment [left_devices]) \<and>
      pg_rows (fw_table ws) = List.map_filter (workspace_department_of deviceIds) (sql_page (wi_page inp) (wi_perPage inp) (department_groups t js))"
    using run unfolding getFactoryWorkspace_def Let_def ids_def
    apply (simp add: bind_ok [of "requireNavigableFactory c u i"] guard ids bind_ok pure_ok role split del: if_split)
    apply (erule bind_InrE)
    apply (frule sidebar_InrE)
    apply (simp split: option.splits add: pure_InrE bind_ok ids split del: if_split)
    apply (elim conjE bind_InrE count_InrE select_InrE)
    apply (clarsimp simp: pure_InrE toPaginationMeta_def role split del: if_split)
    apply (intro exI, rule refl)
    done
  then show ?thesis using nav by (auto simp: find_Some_iff)
qed

lemma department_workspace_table:
  assumes role: "\<not> isSysAdminRole (cl_role u)" and run: "getDepartmentWorkspace t c u i inp s = Some (Inr ws, s')"
  defines "canRead \<equiv> checkUserObjectRelation c (bk_authz s) (cl_id u) CanRead Department i"
    and "ids \<equiv> listUserAuthorizedObjectIds c (bk_authz s) (cl_id u) CanNavigate Device"
  shows "checkUserObjectRelation c (bk_authz s) (cl_id u) CanNavigate Department i \<and>
    (\<exists>search componentIds. pg_rows (dw_table ws) =
       List.map_filter (workspace_device_of componentIds) (sql_page (wi_page inp) (wi_perPage inp) (named_device_groups t
          (filter (holds_where t (sql_and ((Some (EqText DeviceDepartmentId i) # (if canRead then [] else [Some (InArray DeviceId ids)])) @ [search])))
             (joined t (bk_db s) TDevice [left_installations])))))"
proof -
  have nav: "checkUserObjectRelation c (bk_authz s) (cl_id u) CanNavigate Department i"
    using run role by (auto simp: getDepartmentWorkspace_def requireNavigableDepartment_def pure_InrE elim!: bind_InrE)
  then have guard: "requireNavigableDepartment c u i s = Some (Inr (), s)"
    using role by (simp add: requireNavigableDepartment_def bind_ok pure_ok)
  have ids: "reachable_ids c u r ty s = Some (Inr (Some (listUserAuthorizedObjectIds c (bk_authz s) (cl_id u) r ty)), s)"
    "may_read c u Department i s = Some (Inr canRead, s)"
    "may_read c u Factory f s = Some (Inr (checkUserObjectRelation c (bk_authz s) (cl_id u) CanRead Factory f), s)" for r ty f
    using role by (simp_all add: reachable_ids_def may_read_def pure_ok canRead_def)
  have "\<exists>search componentIds. pg_rows (dw_table ws) =
       List.map_filter (workspace_device_of componentIds) (sql_page (wi_page inp) (wi_perPage inp) (named_device_groups t
          (filter (holds_where t (sql_and ((Some (EqText DeviceDepartmentId i) # (if canRead then [] else [Some (InArray DeviceId ids)])) @ [search])))
             (joined t (bk_db s) TDevice [left_installations]))))"
    using run unfolding getDepartmentWorkspace_def Let_def ids_def
    apply (simp add: bind_ok [of "requireNavigableDepartment c u i"] guard split del: if_split)
    apply (elim bind_InrE select_InrE)
    apply (simp split: list.splits add: pure_InrE bind_ok ids role split del: if_split)
    apply (elim conjE bind_InrE, drule sidebar_InrE(2), elim count_InrE select_InrE)
    apply (clarsimp simp: pure_InrE toPaginationMeta_def ids split del: if_split cong: if_cong)
    apply (intro exI, rule refl)
    done
  then show ?thesis using nav by blast
qed

text \<open>
  C26. A workspace stays within what the caller may reach. When a factory's workspace is answered to a
  caller who is no system administrator, the caller may navigate to the factory, and every row of its
  table is a department of that factory to which the caller may navigate, unless the factory as a
  whole may be read. Likewise a department's workspace lists devices of the department to which the
  caller may navigate, unless the department may be read.
\<close>

theorem workspace_within_reach:
  assumes role: "\<not> isSysAdminRole (cl_role u)"
  shows "(\<forall>ws s'. getFactoryWorkspace t c u i inp s = Some (Inr ws, s') \<longrightarrow>
       checkUserObjectRelation c (bk_authz s) (cl_id u) CanNavigate Factory i \<and> fr_id (fw_selectedFactory ws) = i \<and>
       (\<forall>row \<in> set (pg_rows (fw_table ws)). \<exists>d \<in> set (bd_departments (bk_db s)). dr_id d = wd_id row \<and> dr_factoryId d = i \<and>
          (checkUserObjectRelation c (bk_authz s) (cl_id u) CanRead Factory i \<or>
           dr_id d \<in> set (listUserAuthorizedObjectIds c (bk_authz s) (cl_id u) CanNavigate Department)))) \<and>
    (\<forall>ws s'. getDepartmentWorkspace t c u i inp s = Some (Inr ws, s') \<longrightarrow>
       checkUserObjectRelation c (bk_authz s) (cl_id u) CanNavigate Department i \<and>
       (\<forall>row \<in> set (pg_rows (dw_table ws)). \<exists>v \<in> set (bd_devices (bk_db s)). dv_id v = wv_id row \<and> dv_departmentId v = i \<and>
          (checkUserObjectRelation c (bk_authz s) (cl_id u) CanRead Department i \<or>
           dv_id v \<in> set (listUserAuthorizedObjectIds c (bk_authz s) (cl_id u) CanNavigate Device))))"
proof (intro conjI allI impI)
  fix ws s'
  assume run: "getFactoryWorkspace t c u i inp s = Some (Inr ws, s')"
  note table = factory_workspace_table [OF role run]
  show "checkUserObjectRelation c (bk_authz s) (cl_id u) CanNavigate Factory i" "fr_id (fw_selectedFactory ws) = i" using table by blast+
  show "\<forall>row \<in> set (pg_rows (fw_table ws)). \<exists>d \<in> set (bd_departments (bk_db s)). dr_id d = wd_id row \<and> dr_factoryId d = i \<and>
      (checkUserObjectRelation c (bk_authz s) (cl_id u) CanRead Factory i \<or>
       dr_id d \<in> set (listUserAuthorizedObjectIds c (bk_authz s) (cl_id u) CanNavigate Department))"
  proof
    fix row assume "row \<in> set (pg_rows (fw_table ws))"
    then obtain g deviceIds where g: "workspace_department_of deviceIds g = Some row" "hd g \<in> set (joined t (bk_db s) TDepartment [left_devices])"
      and w: "holds t (EqText DepartmentFactoryId i) (hd g)" "checkUserObjectRelation c (bk_authz s) (cl_id u) CanRead Factory i \<or>
        holds t (InArray DepartmentId (listUserAuthorizedObjectIds c (bk_authz s) (cl_id u) CanNavigate Department)) (hd g)"
      using table by (auto simp: department_groups_def holds_sql_and holds_where_def [of t "Some _"] split: if_splits elim!: table_row)
    obtain d where "jr_department (hd g) = Some d" "d \<in> set (bd_departments (bk_db s))" "dr_id d = wd_id row"
      using g by (auto simp: workspace_department_of_def left_devices_def no_row_def elim!: joined_left)
    then show "\<exists>d \<in> set (bd_departments (bk_db s)). dr_id d = wd_id row \<and> dr_factoryId d = i \<and>
      (checkUserObjectRelation c (bk_authz s) (cl_id u) CanRead Factory i \<or>
       dr_id d \<in> set (listUserAuthorizedObjectIds c (bk_authz s) (cl_id u) CanNavigate Department))" using w by auto
  qed
next
  fix ws s'
  assume run: "getDepartmentWorkspace t c u i inp s = Some (Inr ws, s')"
  note table = department_workspace_table [OF role run]
  show "checkUserObjectRelation c (bk_authz s) (cl_id u) CanNavigate Department i" using table by blast
  show "\<forall>row \<in> set (pg_rows (dw_table ws)). \<exists>v \<in> set (bd_devices (bk_db s)). dv_id v = wv_id row \<and> dv_departmentId v = i \<and>
      (checkUserObjectRelation c (bk_authz s) (cl_id u) CanRead Department i \<or>
       dv_id v \<in> set (listUserAuthorizedObjectIds c (bk_authz s) (cl_id u) CanNavigate Device))"
  proof
    fix row assume "row \<in> set (pg_rows (dw_table ws))"
    then obtain g componentIds where g: "workspace_device_of componentIds g = Some row" "hd g \<in> set (joined t (bk_db s) TDevice [left_installations])"
      and w: "holds t (EqText DeviceDepartmentId i) (hd g)" "checkUserObjectRelation c (bk_authz s) (cl_id u) CanRead Department i \<or>
        holds t (InArray DeviceId (listUserAuthorizedObjectIds c (bk_authz s) (cl_id u) CanNavigate Device)) (hd g)"
      using table by (auto simp: named_device_groups_def holds_sql_and holds_where_def [of t "Some _"] split: if_splits elim!: table_row)
    obtain v where "jr_device (hd g) = Some v" "v \<in> set (bd_devices (bk_db s))" "dv_id v = wv_id row"
      using g by (auto simp: workspace_device_of_def left_installations_def no_row_def elim!: joined_left)
    then show "\<exists>v \<in> set (bd_devices (bk_db s)). dv_id v = wv_id row \<and> dv_departmentId v = i \<and>
      (checkUserObjectRelation c (bk_authz s) (cl_id u) CanRead Department i \<or>
       dv_id v \<in> set (listUserAuthorizedObjectIds c (bk_authz s) (cl_id u) CanNavigate Device))" using w by auto
  qed
qed

section \<open>Examples\<close>

lemma answered: "(case r of Some (Inr x, s) \<Rightarrow> P x s | _ \<Rightarrow> False) \<Longrightarrow> \<exists>x s. r = Some (Inr x, s) \<and> P x s"
  by (cases r; cases "fst (the r)"; cases "the r") auto

text \<open>Two devices with one application each; a user may navigate to both devices and read both applications.\<close>

definition siblings_backend :: "tuple_key list backend" where
  "siblings_backend = (the (serve_all (setup_requests @ [device_request, (''w'', root_user, CreateDevice ''tik'' 1 ''d'' [] ''Door'')]) backend0))\<lparr>
     bk_authz := map (\<lambda>(r, t, i). tuple_of (createAuthzUser ''alice'') (relation_name r) (createAuthzObject t i))
       [(CanNavigate, Factory, ''f''), (CanNavigate, Department, ''d''), (CanNavigate, Device, ''v''), (CanNavigate, Device, ''w''),
        (CanRead, DeviceComponent, ''vx''), (CanRead, DeviceComponent, ''wx'')]\<rparr>"

definition first_page :: workspace_page_input where
  "first_page = \<lparr>wi_name = [], wi_page = 1, wi_perPage = 20\<rparr>"

theorem sibling_apps_uncounted_witness:
  "\<exists>ws v. getDeviceWorkspace demo_text direct_client demo_sign (Some ''s'') alice ''v'' siblings_backend = Some (Inr ws, siblings_backend) \<and>
     v \<in> set (vw_devices ws) \<and> sv_id v = ''w'' \<and> sv_totalAppCount v = 0 \<and>
     checkUserObjectRelation direct_client (bk_authz siblings_backend) ''alice'' CanRead DeviceComponent ''wx'' \<and>
     ''wx'' \<in> is_id ` set (filter (\<lambda>i. is_deviceId i = ''w'') (bd_installations (bk_db siblings_backend)))"
proof -
  have sound: "sound_db (bk_db siblings_backend)" and role: "\<not> isSysAdminRole (cl_role alice)"
    and unread: "\<not> checkUserObjectRelation direct_client (bk_authz siblings_backend) (cl_id alice) CanRead Device ''v''"
    and app: "checkUserObjectRelation direct_client (bk_authz siblings_backend) ''alice'' CanRead DeviceComponent ''wx''"
      "''wx'' \<in> is_id ` set (filter (\<lambda>i. is_deviceId i = ''w'') (bd_installations (bk_db siblings_backend)))" by code_simp+
  have "case getDeviceWorkspace demo_text direct_client demo_sign (Some ''s'') alice ''v'' siblings_backend of
      Some (Inr ws, s) \<Rightarrow> s = siblings_backend \<and> ''w'' \<in> sv_id ` set (vw_devices ws) | _ \<Rightarrow> False" by code_simp
  then obtain ws v where run: "getDeviceWorkspace demo_text direct_client demo_sign (Some ''s'') alice ''v'' siblings_backend = Some (Inr ws, siblings_backend)"
    and v: "v \<in> set (vw_devices ws)" "sv_id v = ''w''" by (auto dest!: answered)
  have "sv_totalAppCount v = 0" using sibling_apps_uncounted [OF sound role unread run v(1)] v(2) by simp
  then show ?thesis using run v app by blast
qed

theorem workspace_within_reach_witness:
  "\<exists>ws row. getFactoryWorkspace demo_text direct_client alice ''f'' first_page siblings_backend = Some (Inr ws, siblings_backend) \<and>
     row \<in> set (pg_rows (fw_table ws)) \<and> (\<exists>d \<in> set (bd_departments (bk_db siblings_backend)). dr_id d = wd_id row \<and> dr_factoryId d = ''f'')"
proof -
  have role: "\<not> isSysAdminRole (cl_role alice)" by code_simp
  have "case getFactoryWorkspace demo_text direct_client alice ''f'' first_page siblings_backend of
      Some (Inr ws, s) \<Rightarrow> s = siblings_backend \<and> pg_rows (fw_table ws) \<noteq> [] | _ \<Rightarrow> False" by code_simp
  then obtain ws where run: "getFactoryWorkspace demo_text direct_client alice ''f'' first_page siblings_backend = Some (Inr ws, siblings_backend)"
    and row: "hd (pg_rows (fw_table ws)) \<in> set (pg_rows (fw_table ws))" by (auto dest!: answered)
  then show ?thesis
    using workspace_within_reach [OF role, of demo_text direct_client "''f''" first_page siblings_backend, THEN conjunct1, rule_format, OF run] by blast
qed

end
