(* ===== verification/Storage_Provider.thy ===== *)
theory Storage_Provider
  imports Js_Value
begin

text \<open>
  The object storage of the backend (\<open>lib/storage/interface.ts\<close>, \<open>s3-compatible-provider.ts\<close>,
  \<open>azure-provider.ts\<close>). The software development kits of the two clouds are arguments: \<open>send\<close> answers a
  command of the S3 client, \<open>presign\<close> and \<open>sas\<close> sign a request, \<open>print_time\<close> prints a time. Calls come one after
  the other. Both providers keep the contract of the locale \<open>url_signer\<close>, on which the package routes rest.
\<close>

section \<open>Interface\<close>

datatype provider_name = AZURE | MINIO | S3

datatype access_target = TargetDevice | TargetPublic

datatype http_method = GET | PUT

record signed_url_options =
  so_accessTarget :: "access_target option"
  so_contentType :: "string option"
  so_expiresIn :: "int option"
  so_key :: string

record object_summary =
  os_key :: string
  os_sizeBytes :: "int option"
  os_updatedAt :: "string option"

record signed_request =
  sq_bucket :: string
  sq_expiresAt :: string
  sq_headers :: "(string \<times> string) list"
  sq_method :: http_method
  sq_objectKey :: string
  sq_provider :: provider_name
  sq_url :: string

definition DEFAULT_SIGNED_URL_EXPIRY_SECONDS :: int where
  "DEFAULT_SIGNED_URL_EXPIRY_SECONDS = 3600"

definition expiry_seconds :: "signed_url_options \<Rightarrow> int" where
  "expiry_seconds opts = (case so_expiresIn opts of None \<Rightarrow> DEFAULT_SIGNED_URL_EXPIRY_SECONDS | Some n \<Rightarrow> n)"

text \<open>What the code may see thrown: an \<open>Error\<close> with its name and HTTP status, or another value.\<close>

datatype storage_error = ErrorThrown string "nat option" | OtherThrown | PlainStorageError string

section \<open>S3 and MinIO\<close>

text \<open>A client differs from the others of a provider only in its endpoint.\<close>

record s3_config =
  sc_bucketName :: string
  sc_deviceEndpoint :: "string option"
  sc_ensureBucketExists :: "bool option"
  sc_providerName :: provider_name
  sc_publicEndpoint :: "string option"
  sc_serverEndpoint :: "string option"

datatype client_mode = ModeDevice | ModePublic | ModeServer

fun client_endpoint :: "s3_config \<Rightarrow> client_mode \<Rightarrow> string option" where
  "client_endpoint cfg ModeDevice = sc_deviceEndpoint cfg"
| "client_endpoint cfg ModePublic = sc_publicEndpoint cfg"
| "client_endpoint cfg ModeServer = (case sc_serverEndpoint cfg of None \<Rightarrow> sc_publicEndpoint cfg | Some e \<Rightarrow> Some e)"

definition resolveClient :: "access_target option \<Rightarrow> client_mode" where
  "resolveClient t = (case t of Some TargetDevice \<Rightarrow> ModeDevice | Some TargetPublic \<Rightarrow> ModePublic | None \<Rightarrow> ModeServer)"

datatype s3_command =
    HeadBucket
  | CreateBucket
  | PutObject string "string option" "string option"
  | GetObject string
  | HeadObject string
  | DeleteObject string
  | DeleteObjects "string list"
  | ListObjectsV2 "string option" nat

datatype s3_reply = Acknowledged | ObjectBody "string option" | Listing "(string option \<times> int option \<times> string option) list option"

type_synonym 'w s3_send = "string option \<Rightarrow> string \<Rightarrow> s3_command \<Rightarrow> 'w \<Rightarrow> (storage_error + s3_reply) \<times> 'w"

text \<open>The state of a provider: whether \<open>ensureBucketExistsPromise\<close> holds a promise that was kept, and the storage.\<close>

record 'w s3_state =
  s3_ensured :: bool
  s3_world :: 'w

fun isBucketAlreadyExistsError :: "storage_error \<Rightarrow> bool" where
  "isBucketAlreadyExistsError (ErrorThrown n _) = (n = ''BucketAlreadyExists'' \<or> n = ''BucketAlreadyOwnedByYou'')"
| "isBucketAlreadyExistsError _ = False"

fun isMissingBucketError :: "storage_error \<Rightarrow> bool" where
  "isMissingBucketError (ErrorThrown n st) = (n = ''NoSuchBucket'' \<or> n = ''NotFound'' \<or> st = Some 404 \<or> st = Some 403)"
| "isMissingBucketError _ = False"

definition ensureBucketExistsInternal :: "'w s3_send \<Rightarrow> s3_config \<Rightarrow> 'w \<Rightarrow> (storage_error + unit) \<times> 'w" where
  "ensureBucketExistsInternal send cfg w =
     (case send (client_endpoint cfg ModeServer) (sc_bucketName cfg) HeadBucket w of
        (Inr _, w1) \<Rightarrow> (Inr (), w1)
      | (Inl e, w1) \<Rightarrow>
          if \<not> isMissingBucketError e then (Inl e, w1)
          else case send (client_endpoint cfg ModeServer) (sc_bucketName cfg) CreateBucket w1 of
            (Inr _, w2) \<Rightarrow> (Inr (), w2)
          | (Inl e2, w2) \<Rightarrow> (if isBucketAlreadyExistsError e2 then Inr () else Inl e2, w2))"

definition ensureBucketExists :: "'w s3_send \<Rightarrow> s3_config \<Rightarrow> 'w s3_state \<Rightarrow> (storage_error + unit) \<times> 'w s3_state" where
  "ensureBucketExists send cfg s =
     (if sc_ensureBucketExists cfg \<noteq> Some True \<or> s3_ensured s then (Inr (), s)
      else case ensureBucketExistsInternal send cfg (s3_world s) of
        (Inr _, w) \<Rightarrow> (Inr (), s\<lparr>s3_ensured := True, s3_world := w\<rparr>)
      | (Inl e, w) \<Rightarrow> (Inl e, s\<lparr>s3_ensured := False, s3_world := w\<rparr>))"

text \<open>A command on the server's client, once the bucket is there.\<close>

definition server_send :: "'w s3_send \<Rightarrow> s3_config \<Rightarrow> s3_command \<Rightarrow> 'w s3_state \<Rightarrow> (storage_error + s3_reply) \<times> 'w s3_state" where
  "server_send send cfg cmd s =
     (case ensureBucketExists send cfg s of
        (Inl e, s1) \<Rightarrow> (Inl e, s1)
      | (Inr _, s1) \<Rightarrow> (let (r, w) = send (client_endpoint cfg ModeServer) (sc_bucketName cfg) cmd (s3_world s1) in (r, s1\<lparr>s3_world := w\<rparr>)))"

definition s3_signed_url ::
  "'w s3_send \<Rightarrow> (string option \<Rightarrow> string \<Rightarrow> s3_command \<Rightarrow> int \<Rightarrow> string) \<Rightarrow> (int \<Rightarrow> string) \<Rightarrow> int \<Rightarrow> s3_config \<Rightarrow> http_method \<Rightarrow> s3_command \<Rightarrow>
   signed_url_options \<Rightarrow> 'w s3_state \<Rightarrow> (storage_error + signed_request) \<times> 'w s3_state" where
  "s3_signed_url send presign print_time now cfg method cmd opts s =
     (case ensureBucketExists send cfg s of
        (Inl e, s1) \<Rightarrow> (Inl e, s1)
      | (Inr _, s1) \<Rightarrow>
          let expiresIn = expiry_seconds opts in
          (Inr \<lparr>sq_bucket = sc_bucketName cfg, sq_expiresAt = print_time (now + expiresIn * 1000), sq_headers = [], sq_method = method,
             sq_objectKey = so_key opts, sq_provider = sc_providerName cfg,
             sq_url = presign (client_endpoint cfg (resolveClient (so_accessTarget opts))) (sc_bucketName cfg) cmd expiresIn\<rparr>, s1))"

definition s3_getSignedUrlForUpload where
  "s3_getSignedUrlForUpload send presign print_time now cfg opts = s3_signed_url send presign print_time now cfg PUT (PutObject (so_key opts) (so_contentType opts) None) opts"

definition s3_getSignedUrlForDownload where
  "s3_getSignedUrlForDownload send presign print_time now cfg opts = s3_signed_url send presign print_time now cfg GET (GetObject (so_key opts)) opts"

definition s3_upload :: "'w s3_send \<Rightarrow> s3_config \<Rightarrow> string \<Rightarrow> string \<Rightarrow> string option \<Rightarrow> 'w s3_state \<Rightarrow> (storage_error + unit) \<times> 'w s3_state" where
  "s3_upload send cfg key data contentType s =
     (case server_send send cfg (PutObject key (Some (case contentType of None \<Rightarrow> ''application/octet-stream'' | Some t \<Rightarrow> t)) (Some data)) s of
        (Inl e, s1) \<Rightarrow> (Inl e, s1) | (Inr _, s1) \<Rightarrow> (Inr (), s1))"

definition s3_download :: "'w s3_send \<Rightarrow> s3_config \<Rightarrow> string \<Rightarrow> 'w s3_state \<Rightarrow> (storage_error + string) \<times> 'w s3_state" where
  "s3_download send cfg key s =
     (case ensureBucketExists send cfg s of
        (Inl e, s1) \<Rightarrow> (Inl e, s1)
      | (Inr _, s1) \<Rightarrow>
          (let (r, w) = send (client_endpoint cfg ModeServer) (sc_bucketName cfg) (GetObject key) (s3_world s1); s2 = s1\<lparr>s3_world := w\<rparr> in
           (case r of
              Inr (ObjectBody (Some b)) \<Rightarrow> (Inr b, s2)
            | Inr _ \<Rightarrow> (Inl (PlainStorageError (''Object body is empty for key: '' @ key)), s2)
            | Inl (ErrorThrown n st) \<Rightarrow>
                (if n = ''NoSuchKey'' \<or> st = Some 404 then Inl (PlainStorageError (''Object not found: '' @ key)) else Inl (ErrorThrown n st), s2)
            | Inl e \<Rightarrow> (Inl e, s2))))"

definition s3_exists :: "'w s3_send \<Rightarrow> s3_config \<Rightarrow> string \<Rightarrow> 'w s3_state \<Rightarrow> (storage_error + bool) \<times> 'w s3_state" where
  "s3_exists send cfg key s =
     (case ensureBucketExists send cfg s of
        (Inl e, s1) \<Rightarrow> (Inl e, s1)
      | (Inr _, s1) \<Rightarrow>
          (let (r, w) = send (client_endpoint cfg ModeServer) (sc_bucketName cfg) (HeadObject key) (s3_world s1); s2 = s1\<lparr>s3_world := w\<rparr> in
           (case r of
              Inr _ \<Rightarrow> (Inr True, s2)
            | Inl (ErrorThrown n st) \<Rightarrow> (if n = ''NotFound'' \<or> st = Some 404 then Inr False else Inl (ErrorThrown n st), s2)
            | Inl e \<Rightarrow> (Inl e, s2))))"

definition acknowledged :: "(storage_error + s3_reply) \<times> 'w s3_state \<Rightarrow> (storage_error + unit) \<times> 'w s3_state" where
  "acknowledged r = (case r of (Inl e, s) \<Rightarrow> (Inl e, s) | (Inr _, s) \<Rightarrow> (Inr (), s))"

definition s3_delete :: "'w s3_send \<Rightarrow> s3_config \<Rightarrow> string \<Rightarrow> 'w s3_state \<Rightarrow> (storage_error + unit) \<times> 'w s3_state" where
  "s3_delete send cfg key s = acknowledged (server_send send cfg (DeleteObject key) s)"

definition s3_deleteMultiple :: "'w s3_send \<Rightarrow> s3_config \<Rightarrow> string list \<Rightarrow> 'w s3_state \<Rightarrow> (storage_error + unit) \<times> 'w s3_state" where
  "s3_deleteMultiple send cfg keys s = (if keys = [] then (Inr (), s) else acknowledged (server_send send cfg (DeleteObjects keys) s))"

definition s3_listObjects :: "'w s3_send \<Rightarrow> s3_config \<Rightarrow> string option \<Rightarrow> nat \<Rightarrow> 'w s3_state \<Rightarrow> (storage_error + object_summary list) \<times> 'w s3_state" where
  "s3_listObjects send cfg keyPrefix maxKeys s =
     (case server_send send cfg (ListObjectsV2 keyPrefix maxKeys) s of
        (Inl e, s1) \<Rightarrow> (Inl e, s1)
      | (Inr (Listing (Some objects)), s1) \<Rightarrow>
          (Inr (filter (\<lambda>ob. os_key ob \<noteq> []) (map (\<lambda>(k, size, t). \<lparr>os_key = (case k of None \<Rightarrow> [] | Some k \<Rightarrow> k), os_sizeBytes = size, os_updatedAt = t\<rparr>) objects)), s1)
      | (Inr _, s1) \<Rightarrow> (Inr [], s1))"

definition s3_list :: "'w s3_send \<Rightarrow> s3_config \<Rightarrow> string option \<Rightarrow> nat \<Rightarrow> 'w s3_state \<Rightarrow> (storage_error + string list) \<times> 'w s3_state" where
  "s3_list send cfg keyPrefix maxKeys s =
     (case s3_listObjects send cfg keyPrefix maxKeys s of (Inl e, s1) \<Rightarrow> (Inl e, s1) | (Inr obs, s1) \<Rightarrow> (Inr (map os_key obs), s1))"

section \<open>Azure\<close>

record azure_config =
  az_accountName :: string
  az_containerName :: string

definition azure_signed_url ::
  "(string \<Rightarrow> string \<Rightarrow> int \<Rightarrow> string \<Rightarrow> string) \<Rightarrow> (string \<Rightarrow> string) \<Rightarrow> (int \<Rightarrow> string) \<Rightarrow> int \<Rightarrow> azure_config \<Rightarrow> http_method \<Rightarrow> string \<Rightarrow>
   signed_url_options \<Rightarrow> 'w \<Rightarrow> (storage_error + signed_request) \<times> 'w" where
  "azure_signed_url sas blob_url print_time now cfg method permissions opts w =
     (let expiresOn = now + expiry_seconds opts * 1000 in
      (Inr \<lparr>sq_bucket = az_containerName cfg, sq_expiresAt = print_time expiresOn, sq_headers = [], sq_method = method, sq_objectKey = so_key opts,
         sq_provider = AZURE, sq_url = blob_url (so_key opts) @ ''?'' @ sas (so_key opts) (az_containerName cfg) expiresOn permissions\<rparr>, w))"

definition azure_getSignedUrlForUpload where
  "azure_getSignedUrlForUpload sas blob_url print_time now cfg = azure_signed_url sas blob_url print_time now cfg PUT ''cw''"

definition azure_getSignedUrlForDownload where
  "azure_getSignedUrlForDownload sas blob_url print_time now cfg = azure_signed_url sas blob_url print_time now cfg GET ''r''"

text \<open>The blobs the container iterates, cut after \<open>maxKeys\<close>.\<close>

definition azure_listObjects :: "(string option \<Rightarrow> object_summary list) \<Rightarrow> string option \<Rightarrow> nat \<Rightarrow> object_summary list" where
  "azure_listObjects listBlobsFlat keyPrefix maxKeys = take maxKeys (listBlobsFlat (if keyPrefix = Some [] then None else keyPrefix))"

section \<open>The contract of a provider\<close>

text \<open>A signed request is one for the key asked for, and for writing or for reading.\<close>

locale url_signer =
  fixes upload download :: "signed_url_options \<Rightarrow> 'p \<Rightarrow> (storage_error + signed_request) \<times> 'p"
  assumes upload_key: "upload opts p = (Inr r, p') \<Longrightarrow> sq_objectKey r = so_key opts \<and> sq_method r = PUT"
    and download_key: "download opts p = (Inr r, p') \<Longrightarrow> sq_objectKey r = so_key opts \<and> sq_method r = GET"

interpretation s3_signer: url_signer "s3_getSignedUrlForUpload send presign print_time now cfg" "s3_getSignedUrlForDownload send presign print_time now cfg"
  for send presign print_time now cfg
  by unfold_locales
    (auto simp: s3_getSignedUrlForUpload_def s3_getSignedUrlForDownload_def s3_signed_url_def Let_def split: prod.splits sum.splits)

interpretation azure_signer: url_signer "azure_getSignedUrlForUpload sas blob_url print_time now cfg" "azure_getSignedUrlForDownload sas blob_url print_time now cfg"
  for sas blob_url print_time now cfg
  by unfold_locales (auto simp: azure_getSignedUrlForUpload_def azure_getSignedUrlForDownload_def azure_signed_url_def Let_def)

end
