(* ===== verification/Package_Artifacts.thy ===== *)
theory Package_Artifacts
  imports Access_Control Storage_Provider "HOL-Library.List_Lexorder"
begin

text \<open>
  Device authentication (\<open>server/trpc.ts\<close>) and the routes that hand out signed storage requests
  (\<open>server/routers/package-artifacts.ts\<close>). The answer of the session library is an argument, as are the two
  signing functions of the storage provider; \<open>Headers.get\<close> ignores case, so the authorization header is
  one optional string. The limits of the input schemas are not modelled. \<open>path.posix.join\<close> of the standard
  library is written out.
\<close>

section \<open>Procedures\<close>

record session_reply =
  sn_user :: "caller option"
  sn_setCookie :: "string option"

text \<open>A middleware gives the context of the handler or an error, and the cookie header it passes on.\<close>

definition protectedProcedure :: "session_reply \<Rightarrow> (trpc_error + caller) \<times> string option" where
  "protectedProcedure reply =
     ((case sn_user reply of None \<Rightarrow> Inl (Unauthorized ''UNAUTHORIZED'') | Some u \<Rightarrow> Inr u), sn_setCookie reply)"

definition readDeviceIdFromInput :: "jv \<Rightarrow> string option" where
  "readDeviceIdFromInput input =
     (case input of
        JObj ps \<Rightarrow> (case obj_get ps ''deviceId'' of JStr s \<Rightarrow> if trim s \<noteq> [] then Some (trim s) else None | _ \<Rightarrow> None)
      | _ \<Rightarrow> None)"

definition readBearerToken :: "string option \<Rightarrow> string option" where
  "readBearerToken authorization =
     (let headerValue = (case authorization of None \<Rightarrow> [] | Some h \<Rightarrow> h);
          matchedToken = (if starts_with ''Bearer '' headerValue then trim (drop 7 headerValue) else [])
      in if matchedToken = [] then None else Some matchedToken)"

definition deviceProcedure :: "backend_db \<Rightarrow> string option \<Rightarrow> session_reply \<Rightarrow> jv \<Rightarrow> (trpc_error + device_row) \<times> string option" where
  "deviceProcedure db authorization reply rawInput =
     (case readDeviceIdFromInput rawInput of
        None \<Rightarrow> (Inl (BadRequest ''deviceId is required for device-authenticated routes.''), None)
      | Some deviceId \<Rightarrow>
          let (foundDevice, cookie) =
            (case readBearerToken authorization of
               Some accessToken \<Rightarrow> (find (\<lambda>v. dv_accessToken v = accessToken \<and> dv_isActive v \<and> dv_id v = deviceId) (bd_devices db), None)
             | None \<Rightarrow>
                 (if sn_user reply \<noteq> None then find (\<lambda>v. dv_isActive v \<and> dv_id v = deviceId) (bd_devices db) else None, sn_setCookie reply))
          in (case foundDevice of None \<Rightarrow> Inl (Unauthorized ''Device access token is missing or invalid.'') | Some v \<Rightarrow> Inr v, cookie))"

section \<open>Storage keys\<close>

text \<open>\<open>path.posix.normalize\<close> and \<open>path.posix.join\<close>.\<close>

fun normalize_segments :: "bool \<Rightarrow> string list \<Rightarrow> string list \<Rightarrow> string list" where
  "normalize_segments aboveRoot acc [] = rev acc"
| "normalize_segments aboveRoot acc (s # ss) =
     (if s = [] \<or> s = ''.'' then normalize_segments aboveRoot acc ss
      else if s = ''..'' then
        (case acc of
           a # as \<Rightarrow> if a \<noteq> ''..'' then normalize_segments aboveRoot as ss
                     else normalize_segments aboveRoot (if aboveRoot then s # acc else acc) ss
         | [] \<Rightarrow> normalize_segments aboveRoot (if aboveRoot then [s] else []) ss)
      else normalize_segments aboveRoot (s # acc) ss)"

definition posix_normalize :: "string \<Rightarrow> string" where
  "posix_normalize path =
     (if path = [] then ''.''
      else let absolute = (hd path = CHR ''/''); trailing = (last path = CHR ''/'');
               body = join ''/'' (normalize_segments (\<not> absolute) [] (js_split ''/'' path));
               body' = (if body = [] \<and> \<not> absolute then ''.'' else body);
               shown = (if trailing \<and> body' \<noteq> [] then body' @ ''/'' else body')
           in if absolute then CHR ''/'' # shown else shown)"

definition posix_join :: "string list \<Rightarrow> string" where
  "posix_join parts = posix_normalize (join ''/'' (filter (\<lambda>p. p \<noteq> []) parts))"

definition DEVICE_STORAGE_PREFIX :: string where
  "DEVICE_STORAGE_PREFIX = ''devices''"

definition PACKAGE_STORAGE_PREFIX :: string where
  "PACKAGE_STORAGE_PREFIX = ''device-packages''"

definition ensureAuthorized :: "string option \<Rightarrow> string option \<Rightarrow> string \<Rightarrow> trpc_error + unit" where
  "ensureAuthorized authorization expectedToken message =
     (case map_option trim expectedToken of
        None \<Rightarrow> Inr ()
      | Some expected \<Rightarrow>
          if expected = [] then Inr ()
          else let headerValue = (case authorization of None \<Rightarrow> [] | Some h \<Rightarrow> h);
                   matchedToken = (if starts_with ''Bearer '' headerValue then drop 7 headerValue else [])
               in if matchedToken \<noteq> expected then Inl (Unauthorized message) else Inr ())"

definition strip_slashes :: "string \<Rightarrow> string" where
  "strip_slashes s = rev (dropWhile (\<lambda>c. c = CHR ''/'') (rev (dropWhile (\<lambda>c. c = CHR ''/'') s)))"

definition normalizeSegments :: "string \<Rightarrow> string \<Rightarrow> trpc_error + string list" where
  "normalizeSegments value fieldName =
     (let normalized = strip_slashes (trim value) in
      if normalized = [] then Inl (BadRequest (fieldName @ '' is required''))
      else let segments = js_split ''/'' normalized in
        if list_ex (\<lambda>s. s = [] \<or> s = ''.'' \<or> s = ''..'') segments
        then Inl (BadRequest (fieldName @ '' must not contain empty, current-directory, or parent-directory segments''))
        else Inr segments)"

definition joinKey :: "string \<Rightarrow> string list \<Rightarrow> string" where
  "joinKey prefixValue segments = posix_join (prefixValue # segments)"

section \<open>Versions and artifacts\<close>

definition is_digit :: "char \<Rightarrow> bool" where
  "is_digit c \<longleftrightarrow> of_char c \<in> {48..57 :: nat}"

text \<open>\<open>Number(part)\<close> of a string of digits, for values that a double represents exactly.\<close>

definition number_of_digits :: "string \<Rightarrow> int" where
  "number_of_digits s = foldl (\<lambda>n c. 10 * n + (of_char c - 48)) 0 s"

text \<open>The pattern of three numbers joined by dots.\<close>

definition is_semver :: "string \<Rightarrow> bool" where
  "is_semver s \<longleftrightarrow> (let parts = js_split ''.'' s in length parts = 3 \<and> list_all (\<lambda>p. p \<noteq> [] \<and> list_all is_digit p) parts)"

fun semver_difference :: "int list \<Rightarrow> int list \<Rightarrow> int" where
  "semver_difference [] [] = 0"
| "semver_difference (l # ls) [] = (if 0 - l \<noteq> 0 then 0 - l else semver_difference ls [])"
| "semver_difference [] (r # rs) = (if r - 0 \<noteq> 0 then r - 0 else semver_difference [] rs)"
| "semver_difference (l # ls) (r # rs) = (if r - l \<noteq> 0 then r - l else semver_difference ls rs)"

definition compareSemverDesc :: "string \<Rightarrow> string \<Rightarrow> int" where
  "compareSemverDesc left right =
     semver_difference (map number_of_digits (js_split ''.'' left)) (map number_of_digits (js_split ''.'' right))"

record package_artifact =
  pa_fileName :: string
  pa_platform :: string
  pa_provider :: provider_name
  pa_remotePath :: string
  pa_serviceName :: string
  pa_sizeBytes :: "int option"
  pa_updatedAt :: "string option"
  pa_version :: string

definition parsePackageArtifact :: "string \<Rightarrow> provider_name \<Rightarrow> int option \<Rightarrow> string option \<Rightarrow> package_artifact option" where
  "parsePackageArtifact objectKey providerName sizeBytes updatedAt =
     (let expectedPrefix = PACKAGE_STORAGE_PREFIX @ ''/'' in
      if \<not> starts_with expectedPrefix objectKey then None
      else let relativePath = drop (length expectedPrefix) objectKey in
        case js_split ''/'' relativePath of
          [serviceName, version, platform, fileName] \<Rightarrow>
            if \<not> is_semver version then None
            else Some \<lparr>pa_fileName = fileName, pa_platform = platform, pa_provider = providerName, pa_remotePath = relativePath,
              pa_serviceName = serviceName, pa_sizeBytes = sizeBytes, pa_updatedAt = updatedAt, pa_version = version\<rparr>
        | _ \<Rightarrow> None)"

text \<open>\<open>localeCompare\<close> is the argument \<open>cmp\<close>; the array's sort is stable.\<close>

definition artifact_compare :: "(string \<Rightarrow> string \<Rightarrow> int) \<Rightarrow> package_artifact \<Rightarrow> package_artifact \<Rightarrow> int" where
  "artifact_compare cmp left right =
     (if cmp (pa_serviceName left) (pa_serviceName right) \<noteq> 0 then cmp (pa_serviceName left) (pa_serviceName right)
      else if compareSemverDesc (pa_version left) (pa_version right) \<noteq> 0 then compareSemverDesc (pa_version left) (pa_version right)
      else if cmp (pa_platform left) (pa_platform right) \<noteq> 0 then cmp (pa_platform left) (pa_platform right)
      else cmp (pa_fileName left) (pa_fileName right))"

fun insert_compared :: "('a \<Rightarrow> 'a \<Rightarrow> int) \<Rightarrow> 'a \<Rightarrow> 'a list \<Rightarrow> 'a list" where
  "insert_compared c x [] = [x]"
| "insert_compared c x (y # ys) = (if c x y \<le> 0 then x # y # ys else y # insert_compared c x ys)"

definition sort_compared :: "('a \<Rightarrow> 'a \<Rightarrow> int) \<Rightarrow> 'a list \<Rightarrow> 'a list" where
  "sort_compared c xs = foldr (insert_compared c) xs []"

section \<open>Routes\<close>

datatype route_error = RouteError trpc_error | StorageFailed storage_error

type_synonym 'p signer = "signed_url_options \<Rightarrow> 'p \<Rightarrow> (storage_error + signed_request) \<times> 'p"

definition signed :: "'p signer \<Rightarrow> access_target \<Rightarrow> string option \<Rightarrow> trpc_error + string \<Rightarrow> 'p \<Rightarrow> (route_error + signed_request) \<times> 'p" where
  "signed sign target contentType key p =
     (case key of
        Inl e \<Rightarrow> (Inl (RouteError e), p)
      | Inr k \<Rightarrow> (case sign \<lparr>so_accessTarget = Some target, so_contentType = contentType, so_expiresIn = None, so_key = k\<rparr> p of
           (Inl e, p') \<Rightarrow> (Inl (StorageFailed e), p') | (Inr r, p') \<Rightarrow> (Inr r, p')))"

text \<open>The validated input of a device route, as the middleware sees it.\<close>

definition device_input :: "string \<Rightarrow> string \<Rightarrow> jv" where
  "device_input deviceId path = JObj [(''deviceId'', JStr deviceId), (''path'', JStr path)]"

definition device_key :: "string \<Rightarrow> string \<Rightarrow> trpc_error + string" where
  "device_key deviceId path =
     (case normalizeSegments deviceId ''deviceId'' of
        Inl e \<Rightarrow> Inl e
      | Inr ds \<Rightarrow> (case normalizeSegments path ''path'' of Inl e \<Rightarrow> Inl e | Inr ps \<Rightarrow> Inr (joinKey DEVICE_STORAGE_PREFIX (ds @ ps))))"

definition package_key :: "string \<Rightarrow> trpc_error + string" where
  "package_key path = (case normalizeSegments path ''path'' of Inl e \<Rightarrow> Inl e | Inr ps \<Rightarrow> Inr (joinKey PACKAGE_STORAGE_PREFIX ps))"

definition authenticated ::
  "backend_db \<Rightarrow> string option \<Rightarrow> session_reply \<Rightarrow> jv \<Rightarrow> ('p \<Rightarrow> (route_error + 'a) \<times> 'p) \<Rightarrow> 'p \<Rightarrow> (route_error + 'a) \<times> 'p" where
  "authenticated db authorization reply raw route p =
     (case fst (deviceProcedure db authorization reply raw) of Inl e \<Rightarrow> (Inl (RouteError e), p) | Inr _ \<Rightarrow> route p)"

definition createDeviceDownloadSession where
  "createDeviceDownloadSession download db authorization reply deviceId path =
     authenticated db authorization reply (device_input deviceId path) (signed download TargetDevice None (device_key deviceId path))"

definition createDeviceUploadSession where
  "createDeviceUploadSession upload db authorization reply contentType deviceId path =
     authenticated db authorization reply (device_input deviceId path)
       (signed upload TargetDevice (Some (case contentType of None \<Rightarrow> ''application/octet-stream'' | Some t \<Rightarrow> t)) (device_key deviceId path))"

definition createPackageDownloadSession where
  "createPackageDownloadSession download db authorization reply deviceId path =
     authenticated db authorization reply (device_input deviceId path) (signed download TargetDevice None (package_key path))"

definition createPackageUploadSession ::
  "'p signer \<Rightarrow> string option \<Rightarrow> string option \<Rightarrow> string option \<Rightarrow> string \<Rightarrow> 'p \<Rightarrow> (route_error + signed_request) \<times> 'p" where
  "createPackageUploadSession upload releaseToken authorization contentType path p =
     (case ensureAuthorized authorization releaseToken ''Package release token is missing or invalid.'' of
        Inl e \<Rightarrow> (Inl (RouteError e), p)
      | Inr _ \<Rightarrow> signed upload TargetPublic (Some (case contentType of None \<Rightarrow> ''application/octet-stream'' | Some t \<Rightarrow> t)) (package_key path) p)"

definition DEFAULT_LIST_LIMIT :: nat where
  "DEFAULT_LIST_LIMIT = 500"

definition listAvailable ::
  "(string \<Rightarrow> string \<Rightarrow> int) \<Rightarrow> provider_name \<Rightarrow> (string option \<Rightarrow> nat \<Rightarrow> 'p \<Rightarrow> (storage_error + object_summary list) \<times> 'p) \<Rightarrow>
   string option \<Rightarrow> 'p \<Rightarrow> (route_error + package_artifact list) \<times> 'p" where
  "listAvailable cmp providerName listObjects serviceName p =
     (case (case serviceName of
              None \<Rightarrow> Inr (PACKAGE_STORAGE_PREFIX @ ''/'')
            | Some n \<Rightarrow> if trim n = [] then Inr (PACKAGE_STORAGE_PREFIX @ ''/'')
                else (case normalizeSegments n ''serviceName'' of Inl e \<Rightarrow> Inl e | Inr ss \<Rightarrow> Inr (posix_join (PACKAGE_STORAGE_PREFIX # ss) @ ''/''))) of
        Inl e \<Rightarrow> (Inl (RouteError e), p)
      | Inr keyPrefix \<Rightarrow>
          (case listObjects (Some keyPrefix) DEFAULT_LIST_LIMIT p of
             (Inl e, p') \<Rightarrow> (Inl (StorageFailed e), p')
           | (Inr obs, p') \<Rightarrow>
               (Inr (sort_compared (artifact_compare cmp)
                  (List.map_filter (\<lambda>ob. parsePackageArtifact (os_key ob) providerName (os_sizeBytes ob) (os_updatedAt ob)) obs)), p')))"

lemma drop_append_exact: "drop (length xs) (xs @ ys) = ys"
  by simp

section \<open>Keys are plain paths\<close>

definition proper_segment :: "string \<Rightarrow> bool" where
  "proper_segment s \<longleftrightarrow> s \<noteq> [] \<and> s \<noteq> ''.'' \<and> s \<noteq> ''..'' \<and> CHR ''/'' \<notin> set s"

lemma normalizeSegments_proper:
  "normalizeSegments v f = Inr ss \<Longrightarrow> ss \<noteq> [] \<and> list_all proper_segment ss"
proof -
  assume "normalizeSegments v f = Inr ss"
  then have ss: "ss = js_split ''/'' (strip_slashes (trim v))" and ok: "\<forall>s \<in> set ss. s \<noteq> [] \<and> s \<noteq> ''.'' \<and> s \<noteq> ''..''"
    by (auto simp: normalizeSegments_def Let_def list_ex_iff split: if_splits)
  have "CHR ''/'' \<notin> set s" if "s \<in> set ss" for s using that set_js_split_char unfolding ss by blast
  then show ?thesis using ok ss by (auto simp: list_all_iff proper_segment_def)
qed

lemma normalize_proper: "list_all proper_segment ss \<Longrightarrow> normalize_segments b acc ss = rev acc @ ss"
  by (induction ss arbitrary: acc) (auto simp: proper_segment_def)

lemma join_ends:
  assumes "list_all proper_segment ss" "ss \<noteq> []"
  shows "join ''/'' ss \<noteq> []" "hd (join ''/'' ss) \<noteq> CHR ''/''" "last (join ''/'' ss) \<noteq> CHR ''/''"
proof -
  have "hd a \<noteq> CHR ''/''" if "proper_segment a" for a using that hd_in_set [of a] unfolding proper_segment_def by metis
  then have h: "join ''/'' ss \<noteq> [] \<and> hd (join ''/'' ss) \<noteq> CHR ''/''" using assms by (cases ss) (auto simp: join_Cons proper_segment_def)
  have "join ''/'' ss \<noteq> [] \<and> last (join ''/'' ss) \<noteq> CHR ''/''"
    using assms by (induction ss) (auto simp: join_Cons proper_segment_def dest: last_in_set)
  with h show "join ''/'' ss \<noteq> []" "hd (join ''/'' ss) \<noteq> CHR ''/''" "last (join ''/'' ss) \<noteq> CHR ''/''" by blast+
qed

lemma posix_join_proper:
  assumes "list_all proper_segment ss" "ss \<noteq> []"
  shows "posix_join ss = join ''/'' ss"
proof -
  have "filter (\<lambda>p. p \<noteq> []) ss = ss" using assms(1) by (induction ss) (auto simp: proper_segment_def)
  moreover have "js_split ''/'' (join ''/'' ss) = ss" using assms by (intro js_split_join) (auto simp: list_all_iff proper_segment_def)
  ultimately show ?thesis
    using join_ends [OF assms] normalize_proper [OF assms(1), of True "[]"] by (simp add: posix_join_def posix_normalize_def Let_def)
qed

lemma joinKey_proper: "proper_segment pre \<Longrightarrow> list_all proper_segment ss \<Longrightarrow> joinKey pre ss = join ''/'' (pre # ss)"
  unfolding joinKey_def by (rule posix_join_proper) auto

lemma storage_prefixes [simp]: "proper_segment DEVICE_STORAGE_PREFIX" "proper_segment PACKAGE_STORAGE_PREFIX"
  by (simp_all add: proper_segment_def DEVICE_STORAGE_PREFIX_def PACKAGE_STORAGE_PREFIX_def)

section \<open>Sessions of devices\<close>

context url_signer
begin

lemma upload_signed: "signed upload target contentType key p = (Inr r, p') \<Longrightarrow> key = Inr (sq_objectKey r) \<and> sq_method r = PUT"
  by (auto simp: signed_def split: sum.splits prod.splits dest: upload_key)

lemma download_signed: "signed download target contentType key p = (Inr r, p') \<Longrightarrow> key = Inr (sq_objectKey r) \<and> sq_method r = GET"
  by (auto simp: signed_def split: sum.splits prod.splits dest: download_key)

lemma device_session:
  assumes "createDeviceUploadSession upload db authorization reply contentType deviceId path p = (Inr r, p') \<or>
    createDeviceDownloadSession download db authorization reply deviceId path p = (Inr r, p')"
  shows "\<exists>v. fst (deviceProcedure db authorization reply (device_input deviceId path)) = Inr v \<and> device_key deviceId path = Inr (sq_objectKey r)"
  using assms by (auto simp: createDeviceUploadSession_def createDeviceDownloadSession_def authenticated_def split: sum.splits dest: upload_signed download_signed)

lemma package_session:
  "createPackageUploadSession upload releaseToken authorization contentType path p = (Inr r, p') \<Longrightarrow> package_key path = Inr (sq_objectKey r)"
  "createPackageDownloadSession download db authorization reply deviceId path p = (Inr r, p') \<Longrightarrow> package_key path = Inr (sq_objectKey r)"
  by (auto simp: createPackageUploadSession_def createPackageDownloadSession_def authenticated_def split: sum.splits dest: upload_signed download_signed)

end

lemma device_input_id: "readDeviceIdFromInput (device_input deviceId path) = (if trim deviceId \<noteq> [] then Some (trim deviceId) else None)"
  by (simp add: readDeviceIdFromInput_def device_input_def obj_get_def)

lemma strip_slashes_none: "CHR ''/'' \<notin> set s \<Longrightarrow> strip_slashes s = s"
proof -
  have "dropWhile (\<lambda>c. c = CHR ''/'') t = t" if "CHR ''/'' \<notin> set t" for t using that by (cases t) auto
  moreover assume "CHR ''/'' \<notin> set s"
  ultimately show ?thesis by (simp add: strip_slashes_def)
qed

lemma strip_slashes_ends: "hd s \<noteq> CHR ''/'' \<Longrightarrow> last s \<noteq> CHR ''/'' \<Longrightarrow> strip_slashes s = s"
proof -
  have keep: "dropWhile (\<lambda>c. c = CHR ''/'') x = x" if "x = [] \<or> hd x \<noteq> CHR ''/''" for x using that by (cases x) auto
  assume "hd s \<noteq> CHR ''/''" "last s \<noteq> CHR ''/''"
  then show ?thesis using keep [of s] keep [of "rev s"] by (simp add: strip_slashes_def hd_rev)
qed

lemma single_segment:
  assumes "CHR ''/'' \<notin> set (trim d)" "normalizeSegments d f = Inr ss"
  shows "ss = [trim d]"
  using assms js_split_char_none [OF assms(1)] by (auto simp: normalizeSegments_def strip_slashes_none Let_def split: if_splits)

lemma device_keys:
  assumes "device_key d path = Inr key" "CHR ''/'' \<notin> set (trim d)"
  shows "\<exists>ss. ss \<noteq> [] \<and> list_all proper_segment (trim d # ss) \<and> key = join ''/'' (DEVICE_STORAGE_PREFIX # trim d # ss)"
proof -
  obtain ds ps where n: "normalizeSegments d ''deviceId'' = Inr ds" "normalizeSegments path ''path'' = Inr ps"
    and key: "key = joinKey DEVICE_STORAGE_PREFIX (ds @ ps)" using assms(1) by (auto simp: device_key_def split: sum.splits)
  moreover have "ds = [trim d]" using single_segment [OF assms(2) n(1)] .
  ultimately show ?thesis using normalizeSegments_proper [OF n(1)] normalizeSegments_proper [OF n(2)] by (intro exI [of _ ps]) (simp add: joinKey_proper)
qed


text \<open>
  C38. A session opens the storage of every device. For any logged-in user, whatever their role and
  whatever the authorization store says, a download or upload session for an active device is answered
  as it is for the device itself with its access token.
\<close>

theorem sessions_open_every_device:
  assumes v: "v \<in> set (bd_devices db)" "dv_isActive v" "distinct (map dv_id (bd_devices db))"
    and names: "trim (dv_id v) = dv_id v" "dv_id v \<noteq> []" "trim (dv_accessToken v) = dv_accessToken v" "dv_accessToken v \<noteq> []"
  shows "createDeviceDownloadSession download db None \<lparr>sn_user = Some u, sn_setCookie = cookie\<rparr> (dv_id v) path =
      createDeviceDownloadSession download db (Some (''Bearer '' @ dv_accessToken v)) reply (dv_id v) path \<and>
    createDeviceUploadSession upload db None \<lparr>sn_user = Some u, sn_setCookie = cookie\<rparr> contentType (dv_id v) path =
      createDeviceUploadSession upload db (Some (''Bearer '' @ dv_accessToken v)) reply contentType (dv_id v) path"
proof -
  have only: "w = v" if "w \<in> set (bd_devices db)" "dv_id w = dv_id v" for w using that v by (auto simp: distinct_map dest: inj_onD)
  have first: "find P (bd_devices db) = Some v" if "P v" "\<And>w. P w \<Longrightarrow> dv_id w = dv_id v" for P
  proof (cases "find P (bd_devices db)")
    case (Some w)
    then have "w \<in> set (bd_devices db)" "P w" by (auto simp: find_Some_iff)
    then show ?thesis using Some only that(2) by blast
  qed (use that(1) v(1) in \<open>auto simp: find_None_iff\<close>)
  have found: "find (\<lambda>w. dv_isActive w \<and> dv_id w = dv_id v) (bd_devices db) = Some v"
    "find (\<lambda>w. dv_accessToken w = dv_accessToken v \<and> dv_isActive w \<and> dv_id w = dv_id v) (bd_devices db) = Some v"
    by (rule first; use v(2) in simp)+
  have bearer: "readBearerToken None = None" "readBearerToken (Some (''Bearer '' @ dv_accessToken v)) = Some (dv_accessToken v)"
    using names(3,4) by (simp_all add: readBearerToken_def Let_def starts_with_def)
  have procs: "fst (deviceProcedure db None \<lparr>sn_user = Some u, sn_setCookie = cookie\<rparr> (device_input (dv_id v) path)) = Inr v"
    "fst (deviceProcedure db (Some (''Bearer '' @ dv_accessToken v)) reply (device_input (dv_id v) path)) = Inr v"
    using names(2) unfolding deviceProcedure_def bearer by (simp_all add: device_input_id names(1) found Let_def)
  show ?thesis unfolding createDeviceDownloadSession_def createDeviceUploadSession_def authenticated_def procs by (simp add: fun_eq_iff)
qed

section \<open>Releases\<close>

text \<open>
  C31. A released package is found and downloaded under the path it was uploaded to. An upload session for
  a path of the form service, version, platform, file signs a key from which the listing reads these
  four names; and the path the listing reports leads a device's download session to the same key.
\<close>

theorem release_roundtrip:
  assumes signer: "url_signer upload download"
    and path: "normalizeSegments path ''path'' = Inr [service, version, platform, fileName]" "is_semver version" "trim service = service" "trim fileName = fileName"
    and run: "createPackageUploadSession upload releaseToken authorization contentType path p = (Inr r, p')"
  shows "\<exists>a. parsePackageArtifact (sq_objectKey r) providerName sizeBytes updatedAt = Some a \<and>
    pa_serviceName a = service \<and> pa_version a = version \<and> pa_platform a = platform \<and> pa_fileName a = fileName \<and>
    (\<forall>db auth reply deviceId q r' q'. createPackageDownloadSession download db auth reply deviceId (pa_remotePath a) q = (Inr r', q') \<longrightarrow>
       sq_objectKey r' = sq_objectKey r)"
proof -
  let ?ss = "[service, version, platform, fileName]"
  have proper: "list_all proper_segment ?ss" using normalizeSegments_proper [OF path(1)] by blast
  have key: "sq_objectKey r = PACKAGE_STORAGE_PREFIX @ ''/'' @ join ''/'' ?ss"
    using url_signer.package_session(1) [OF signer run] path(1) joinKey_proper [OF storage_prefixes(2) proper] by (simp add: package_key_def)
  have split: "js_split ''/'' (join ''/'' ?ss) = ?ss" by (rule js_split_join) (use proper in \<open>auto simp: proper_segment_def\<close>)
  define a where "a = \<lparr>pa_fileName = fileName, pa_platform = platform, pa_provider = providerName, pa_remotePath = join ''/'' ?ss,
              pa_serviceName = service, pa_sizeBytes = sizeBytes, pa_updatedAt = updatedAt, pa_version = version\<rparr>"
  have "parsePackageArtifact ((PACKAGE_STORAGE_PREFIX @ ''/'') @ join ''/'' ?ss) providerName sizeBytes updatedAt = Some a"
    using split path(2) unfolding parsePackageArtifact_def Let_def by (simp only: starts_with_append append_eq_conv_conj append_same_eq
        drop_append_exact not_True_eq_False if_False list.case a_def)
  moreover have "package_key (join ''/'' ?ss) = Inr (sq_objectKey r)"
  proof -
    note ends = join_ends [OF proper]
    have "\<not> js_space (hd service)" "\<not> js_space (last fileName)" "service \<noteq> []" "fileName \<noteq> []"
      using trim_ends [of service] trim_ends [of fileName] path(3,4) proper by (auto simp: proper_segment_def)
    then have "trim (join ''/'' ?ss) = join ''/'' ?ss" by (intro trim_eq_self) (simp add: join_Cons)
    moreover have "strip_slashes (join ''/'' ?ss) = join ''/'' ?ss"
      using ends strip_slashes_ends by blast
    ultimately have "normalizeSegments (join ''/'' ?ss) ''path'' = Inr ?ss"
      using ends proper split by (simp add: normalizeSegments_def proper_segment_def)
    then show ?thesis using key joinKey_proper [OF storage_prefixes(2) proper] by (simp add: package_key_def)
  qed
  moreover have "sq_objectKey r' = sq_objectKey r"
    if "createPackageDownloadSession download db auth reply deviceId (pa_remotePath a) q = (Inr r', q')"
      "package_key (join ''/'' ?ss) = Inr (sq_objectKey r)" for db auth reply deviceId q r' q'
    using url_signer.package_session(2) [OF signer that(1)] that(2) by (simp add: a_def)
  ultimately show ?thesis using key by (intro exI [of _ a]) (simp add: a_def)
qed

definition comparison :: "('a \<Rightarrow> 'a \<Rightarrow> int) \<Rightarrow> bool" where
  "comparison c \<longleftrightarrow> (\<forall>a b. sgn (c a b) = - sgn (c b a)) \<and> (\<forall>a b d. c a b \<le> 0 \<longrightarrow> c b d \<le> 0 \<longrightarrow> c a d \<le> 0)"

definition version_numbers :: "string \<Rightarrow> int list" where
  "version_numbers v = map number_of_digits (js_split ''.'' v)"

lemma comparison_key: "comparison c \<Longrightarrow> comparison (\<lambda>a b. c (f a) (f b))"
  unfolding comparison_def by blast

lemma comparison_then:
  assumes "comparison c" "comparison d"
  shows "comparison (\<lambda>a b. if c a b \<noteq> 0 then c a b else d a b)"
proof -
  have sym: "sgn (c a b) = - sgn (c b a)" "sgn (d a b) = - sgn (d b a)" for a b using assms unfolding comparison_def by blast+
  have le: "c a b \<le> 0 \<longleftrightarrow> 0 \<le> c b a" "c a b = 0 \<longleftrightarrow> c b a = 0" for a b using sym(1) [of a b] by (auto simp: sgn_if split: if_splits)
  have trans: "c a b \<le> 0 \<Longrightarrow> c b e \<le> 0 \<Longrightarrow> c a e \<le> 0" "d a b \<le> 0 \<Longrightarrow> d b e \<le> 0 \<Longrightarrow> d a e \<le> 0" for a b e
    using assms unfolding comparison_def by blast+
  have both: "c a b = 0 \<and> c b e = 0" if "c a e = 0" "c a b \<le> 0" "c b e \<le> 0" for a b e
  proof -
    have "c e a \<le> 0" using le(2) [of a e] that(1) by simp
    then have "c b a \<le> 0" "c e b \<le> 0" using trans(1) that by blast+
    then show ?thesis using le(1) [of b a] le(1) [of e b] that by simp
  qed
  let ?m = "\<lambda>a b. if c a b \<noteq> 0 then c a b else d a b"
  have "sgn (?m a b) = - sgn (?m b a)" for a b using sym [of a b] le(2) [of a b] by simp
  moreover have "?m a e \<le> 0" if "?m a b \<le> 0" "?m b e \<le> 0" for a b e
  proof -
    have ab: "c a b \<le> 0" "c b e \<le> 0" using that by (auto split: if_splits)
    show ?thesis
    proof (cases "c a e = 0")
      case True
      then show ?thesis using both [OF True ab] that trans(2) by auto
    qed (use trans(1) [OF ab] in simp)
  qed
  ultimately show ?thesis unfolding comparison_def by blast
qed

lemma semver_sym: "semver_difference r l = - semver_difference l r"
  by (induction l r rule: semver_difference.induct) auto

lemma semver_trans: "semver_difference a b \<le> 0 \<Longrightarrow> semver_difference b c \<le> 0 \<Longrightarrow> semver_difference a c \<le> 0"
proof (induction a b arbitrary: c rule: semver_difference.induct)
  case 1
  then show ?case by simp
next
  case (2 l ls)
  then show ?case by (cases c) (force split: if_splits)+
next
  case (3 r rs)
  then show ?case by (cases c) (force split: if_splits)+
next
  case (4 l ls r rs)
  then show ?case by (cases c) (force split: if_splits)+
qed

lemma comparison_semver: "comparison compareSemverDesc"
  unfolding comparison_def compareSemverDesc_def
proof (intro conjI allI impI)
  fix a b
  show "sgn (semver_difference (map number_of_digits (js_split ''.'' a)) (map number_of_digits (js_split ''.'' b))) =
      - sgn (semver_difference (map number_of_digits (js_split ''.'' b)) (map number_of_digits (js_split ''.'' a)))"
    by (subst semver_sym) (simp add: sgn_if)
qed (rule semver_trans)

lemma comparison_artifacts: "comparison cmp \<Longrightarrow> comparison (artifact_compare cmp)"
  unfolding artifact_compare_def [abs_def]
  by (rule comparison_then [OF comparison_key comparison_then [OF comparison_key [OF comparison_semver] comparison_then [OF comparison_key comparison_key]]])

lemma insert_compared_set [simp]: "set (insert_compared c x ys) = insert x (set ys)" "mset (insert_compared c x ys) = add_mset x (mset ys)"
  by (induction ys) auto

lemma insert_compared_sorted:
  assumes "comparison c"
  shows "sorted_wrt (\<lambda>a b. c a b \<le> 0) ys \<Longrightarrow> sorted_wrt (\<lambda>a b. c a b \<le> 0) (insert_compared c x ys)"
proof (induction ys)
  case (Cons y ys)
  have "sgn (c x y) = - sgn (c y x)" using assms unfolding comparison_def by blast
  then have "c y x \<le> 0" if "\<not> c x y \<le> 0" using that by (auto simp: sgn_if split: if_splits)
  moreover have "c x z \<le> 0" if "c x y \<le> 0" "z \<in> set ys" for z
    using that Cons.prems assms unfolding comparison_def sorted_wrt.simps by blast
  ultimately show ?case using Cons by auto
qed simp

lemma sort_compared: "mset (sort_compared c xs) = mset xs" "comparison c \<Longrightarrow> sorted_wrt (\<lambda>a b. c a b \<le> 0) (sort_compared c xs)"
  unfolding sort_compared_def by (induction xs) (auto intro: insert_compared_sorted)

lemma semver_order: "length l = length r \<Longrightarrow> semver_difference l r \<le> 0 \<longleftrightarrow> r \<le> l"
  by (induction l r rule: semver_difference.induct) auto

lemma map_filter_member: "y \<in> set (List.map_filter f xs) \<Longrightarrow> \<exists>x. f x = Some y"
  by (auto simp: List.map_filter_def)

lemma parsed_semver: "parsePackageArtifact k n sizeBytes updatedAt = Some a \<Longrightarrow> is_semver (pa_version a)"
  by (auto simp: parsePackageArtifact_def Let_def split: if_splits list.splits)

text \<open>
  The listing shows every release it was given, newest first. The answer holds exactly the artifacts whose
  keys parse, among the objects the provider listed, in the order of the comparison; of two releases of
  one service the one listed first has the same or the higher version, compared number by number.
\<close>

theorem releases_newest_first:
  assumes cmp: "comparison cmp" and run: "listAvailable cmp providerName listObjects serviceName p = (Inr artifacts, p')"
  shows "\<exists>keyPrefix obs. listObjects (Some keyPrefix) DEFAULT_LIST_LIMIT p = (Inr obs, p') \<and>
    mset artifacts = mset (List.map_filter (\<lambda>ob. parsePackageArtifact (os_key ob) providerName (os_sizeBytes ob) (os_updatedAt ob)) obs) \<and>
    sorted_wrt (\<lambda>a b. artifact_compare cmp a b \<le> 0) artifacts \<and>
    (\<forall>i j. i < j \<and> j < length artifacts \<and> pa_serviceName (artifacts ! i) = pa_serviceName (artifacts ! j) \<longrightarrow>
       version_numbers (pa_version (artifacts ! j)) \<le> version_numbers (pa_version (artifacts ! i)))"
proof -
  let ?parse = "\<lambda>ob. parsePackageArtifact (os_key ob) providerName (os_sizeBytes ob) (os_updatedAt ob)"
  obtain keyPrefix obs where obs: "listObjects (Some keyPrefix) DEFAULT_LIST_LIMIT p = (Inr obs, p')"
    and arts: "artifacts = sort_compared (artifact_compare cmp) (List.map_filter ?parse obs)"
    using run by (auto simp: listAvailable_def split: sum.splits prod.splits)
  have m: "mset artifacts = mset (List.map_filter ?parse obs)" unfolding arts by (rule sort_compared)
  have sorted: "sorted_wrt (\<lambda>a b. artifact_compare cmp a b \<le> 0) artifacts"
    unfolding arts by (rule sort_compared(2) [OF comparison_artifacts [OF cmp]])
  have semver: "length (version_numbers (pa_version a)) = 3" if "a \<in> set artifacts" for a
  proof -
    have "a \<in> set (List.map_filter ?parse obs)" using that m by (metis set_mset_mset)
    from map_filter_member [OF this] obtain ob :: object_summary where "?parse ob = Some a" by blast
    from parsed_semver [OF this] show ?thesis by (simp add: is_semver_def version_numbers_def Let_def)
  qed
  have "version_numbers (pa_version (artifacts ! j)) \<le> version_numbers (pa_version (artifacts ! i))"
    if "i < j" "j < length artifacts" "pa_serviceName (artifacts ! i) = pa_serviceName (artifacts ! j)" for i j
  proof -
    have "cmp n n = 0" for n using cmp unfolding comparison_def by (metis equal_neg_zero sgn_0_0)
    moreover have "artifact_compare cmp (artifacts ! i) (artifacts ! j) \<le> 0" using sorted that by (simp add: sorted_wrt_iff_nth_less)
    ultimately have "compareSemverDesc (pa_version (artifacts ! i)) (pa_version (artifacts ! j)) \<le> 0"
      using that(3) by (auto simp: artifact_compare_def split: if_splits)
    then show ?thesis using semver_order semver that unfolding compareSemverDesc_def version_numbers_def [symmetric]
      by (metis nth_mem order.strict_trans)
  qed
  then show ?thesis using obs m sorted by blast
qed

section \<open>Examples\<close>

definition storage_db :: backend_db where
  "storage_db = \<lparr>bd_factories = [], bd_departments = [], bd_devices = [\<lparr>dv_id = ''v'', dv_departmentId = ''d'', dv_name = ''Camera'', dv_description = None,
     dv_accessToken = ''tok'', dv_isActive = True, dv_createdAt = 0\<rparr>], bd_catalog = [], bd_installations = [], bd_users = []\<rparr>"

definition no_session :: session_reply where
  "no_session = \<lparr>sn_user = None, sn_setCookie = None\<rparr>"

definition storage_config :: s3_config where
  "storage_config = \<lparr>sc_bucketName = ''b'', sc_deviceEndpoint = None, sc_ensureBucketExists = None, sc_providerName = S3,
     sc_publicEndpoint = None, sc_serverEndpoint = None\<rparr>"

definition demo_upload :: "unit s3_state signer" where
  "demo_upload = s3_getSignedUrlForUpload (\<lambda>_ _ _ w. (Inr Acknowledged, w)) (\<lambda>_ _ _ _. ''https://s'') (\<lambda>_. ''t'') 0 storage_config"

definition demo_download :: "unit s3_state signer" where
  "demo_download = s3_getSignedUrlForDownload (\<lambda>_ _ _ w. (Inr Acknowledged, w)) (\<lambda>_ _ _ _. ''https://s'') (\<lambda>_. ''t'') 0 storage_config"

definition demo_storage :: "unit s3_state" where
  "demo_storage = \<lparr>s3_ensured = False, s3_world = ()\<rparr>"

lemma demo_signer: "url_signer demo_upload demo_download"
  unfolding demo_upload_def demo_download_def by (rule s3_signer.url_signer_axioms)

lemma session_answer: "(case x of (Inr r, _) \<Rightarrow> P r | _ \<Rightarrow> False) \<Longrightarrow> \<exists>r p. x = (Inr r, p) \<and> P r"
  by (cases x; cases "fst x") auto


theorem sessions_open_every_device_witness:
  "createDeviceDownloadSession demo_download storage_db None \<lparr>sn_user = Some \<lparr>cl_id = ''mallory'', cl_role = None\<rparr>, sn_setCookie = None\<rparr> ''v'' ''logs/a'' =
   createDeviceDownloadSession demo_download storage_db (Some ''Bearer tok'') no_session ''v'' ''logs/a''"
proof -
  let ?v = "hd (bd_devices storage_db)"
  have v: "?v \<in> set (bd_devices storage_db)" "dv_isActive ?v" "distinct (map dv_id (bd_devices storage_db))" "trim (dv_id ?v) = dv_id ?v"
    "dv_id ?v \<noteq> []" "trim (dv_accessToken ?v) = dv_accessToken ?v" "dv_accessToken ?v \<noteq> []" by code_simp+
  have "dv_id ?v = ''v''" "dv_accessToken ?v = ''tok''" by code_simp+
  then show ?thesis
    using sessions_open_every_device [OF v, THEN conjunct1, of demo_download "\<lparr>cl_id = ''mallory'', cl_role = None\<rparr>" None "''logs/a''" no_session] by simp
qed

theorem release_roundtrip_witness:
  "\<exists>r p' a. createPackageUploadSession demo_upload None None None ''/cam/1.2.3/arm64/cam.deb'' demo_storage = (Inr r, p') \<and>
     parsePackageArtifact (sq_objectKey r) S3 None None = Some a \<and> pa_version a = ''1.2.3''"
proof -
  have seg: "normalizeSegments ''/cam/1.2.3/arm64/cam.deb'' ''path'' = Inr [''cam'', ''1.2.3'', ''arm64'', ''cam.deb'']"
    "is_semver ''1.2.3''" "trim ''cam'' = ''cam''" "trim ''cam.deb'' = ''cam.deb''" by code_simp+
  have "case createPackageUploadSession demo_upload None None None ''/cam/1.2.3/arm64/cam.deb'' demo_storage of (Inr r, _) \<Rightarrow> True | _ \<Rightarrow> False" by code_simp
  from session_answer [OF this] obtain r p' where run:
    "createPackageUploadSession demo_upload None None None ''/cam/1.2.3/arm64/cam.deb'' demo_storage = (Inr r, p')" by blast
  from release_roundtrip [OF demo_signer seg run, of S3 None None] run show ?thesis by blast
qed

definition demo_objects :: "string option \<Rightarrow> nat \<Rightarrow> unit \<Rightarrow> (storage_error + object_summary list) \<times> unit" where
  "demo_objects _ n p = (Inr (map (\<lambda>k. \<lparr>os_key = k, os_sizeBytes = None, os_updatedAt = None\<rparr>)
     [''device-packages/cam/1.9.0/arm64/a'', ''device-packages/cam/1.10.0/arm64/a'', ''device-packages/readme'']), p)"

theorem releases_newest_first_witness:
  "\<exists>a b. listAvailable (\<lambda>_ _. 0) S3 demo_objects (Some ''cam'') () = (Inr [a, b], ()) \<and>
     version_numbers (pa_version b) \<le> version_numbers (pa_version a)"
proof -
  have cmp: "comparison (\<lambda>(_ :: string) _. 0)" by (simp add: comparison_def)
  have "case listAvailable (\<lambda>_ _. 0) S3 demo_objects (Some ''cam'') () of
      (Inr as, _) \<Rightarrow> length as = 2 \<and> pa_serviceName (as ! 0) = pa_serviceName (as ! 1) | _ \<Rightarrow> False" by code_simp
  from session_answer [OF this] obtain as where run: "listAvailable (\<lambda>_ _. 0) S3 demo_objects (Some ''cam'') () = (Inr as, ())"
    and as: "length as = 2" "pa_serviceName (as ! 0) = pa_serviceName (as ! 1)" by auto
  then obtain a b where ab: "as = [a, b]" by (auto simp: numeral_2_eq_2 length_Suc_conv)
  from releases_newest_first [OF cmp run] have "version_numbers (pa_version (as ! 1)) \<le> version_numbers (pa_version (as ! 0))"
    by (elim exE conjE) (drule spec [of _ 0], drule spec [of _ 1], use as in simp)
  then show ?thesis using run unfolding ab by auto
qed

end
