(* ===== verification/Live_Client.thy ===== *)
theory Live_Client
  imports Ws_Handler
begin

text \<open>
  The browser's end of the live gateway (\<open>trakrai-live-transport/src/lib/live-client.ts\<close>): a WebSocket that
  reconnects, with a bounded queue of frames for the time without a connection. Sockets, handlers and
  timers are numbers; a socket keeps its ready state after the client has let go of it, because the
  browser still delivers its events to the handlers the client attached. Frames are the values that are
  stringified. Calls of handlers are effects; handlers do not call back into the client before the
  operation that called them returns.
\<close>

section \<open>Frames\<close>

record packet_draft =
  df_msgId :: "string option"
  df_payload :: jv
  df_service :: "string option"
  df_subtopic :: string
  df_timestamp :: "string option"
  df_type :: string

text \<open>\<open>url.replace(/\s+(?=[?#]|$)/g, '')\<close>: a run of white space goes when a query, a fragment or the end follows.\<close>

function strip_gaps :: "string \<Rightarrow> string" where
  "strip_gaps [] = []"
| "strip_gaps (c # cs) =
     (if js_space c
      then let rest = dropWhile js_space cs in
        if rest = [] \<or> hd rest = CHR ''?'' \<or> hd rest = CHR ''#'' then strip_gaps rest else c # takeWhile js_space cs @ strip_gaps rest
      else c # strip_gaps cs)"
  by pat_completeness auto
termination
  by (relation "measure length") (auto simp: le_imp_less_Suc length_dropWhile_le)

definition normalizeGatewayUrl :: "string \<Rightarrow> string" where
  "normalizeGatewayUrl url = trim (strip_gaps url)"

definition isTransportPacket :: "jv \<Rightarrow> bool" where
  "isTransportPacket value =
     (case value of
        JObj ps \<Rightarrow> js_typeof (obj_get ps ''deviceId'') = ''string'' \<and> js_typeof (obj_get ps ''subtopic'') = ''string'' \<and>
          (case obj_get ps ''envelope'' of JObj e \<Rightarrow> js_typeof (obj_get e ''type'') = ''string'' | _ \<Rightarrow> False)
      | _ \<Rightarrow> False)"

text \<open>\<open>JSON.stringify\<close> leaves out the properties that are \<open>undefined\<close>.\<close>

definition defined_fields :: "jobject \<Rightarrow> jobject" where
  "defined_fields ps = filter (\<lambda>(_, v). v \<noteq> JUndef) ps"

definition opt_str :: "string option \<Rightarrow> jv" where
  "opt_str s = (case s of None \<Rightarrow> JUndef | Some t \<Rightarrow> JStr t)"

definition buildPacketFrame :: "packet_draft \<Rightarrow> jobject" where
  "buildPacketFrame d =
     [(''kind'', JStr ''packet''),
      (''envelope'', JObj (defined_fields
         [(''msgId'', opt_str (df_msgId d)),
          (''payload'', case df_payload d of JUndef \<Rightarrow> JObj [] | JNull \<Rightarrow> JObj [] | p \<Rightarrow> p),
          (''timestamp'', opt_str (df_timestamp d)), (''type'', JStr (df_type d))])),
      (''service'', case blank_to_none (df_service d) of None \<Rightarrow> JNull | Some s \<Rightarrow> JStr s),
      (''subtopic'', JStr (trim (df_subtopic d)))]"

definition set_device_frame :: "string \<Rightarrow> jobject" where
  "set_device_frame deviceId = [(''deviceId'', JStr deviceId), (''kind'', JStr ''set-device'')]"

section \<open>State\<close>

definition MAX_QUEUE_SIZE :: nat where
  "MAX_QUEUE_SIZE = 32"

definition RECONNECT_DELAY_MS :: nat where
  "RECONNECT_DELAY_MS = 1500"

datatype status_event =
    StatusConnecting nat
  | StatusOpen
  | StatusClosed string
  | StatusReconnectScheduled nat
  | StatusError string

datatype live_effect =
    OpenSocket nat string
  | SendFrame nat jobject
  | CloseSocketCall nat
  | StatusCall nat status_event
  | MessageCall nat packet

record live_client =
  lc_url :: string
  lc_ws :: "nat option"
  lc_sockets :: "ready_state list"
  lc_messageHandlers :: "nat list"
  lc_statusHandlers :: "nat list"
  lc_reconnectTimer :: "nat option"
  lc_timers :: "nat list"
  lc_nextTimer :: nat
  lc_shouldReconnect :: bool
  lc_reconnectAttempt :: nat
  lc_outboundQueue :: "jobject list"

definition new_client :: "string \<Rightarrow> live_client" where
  "new_client url = \<lparr>lc_url = normalizeGatewayUrl url, lc_ws = None, lc_sockets = [], lc_messageHandlers = [], lc_statusHandlers = [],
     lc_reconnectTimer = None, lc_timers = [], lc_nextTimer = 0, lc_shouldReconnect = True, lc_reconnectAttempt = 0, lc_outboundQueue = []\<rparr>"

text \<open>\<open>this.ws?.readyState\<close>.\<close>

definition ws_ready :: "live_client \<Rightarrow> ready_state option" where
  "ws_ready c = (case lc_ws c of None \<Rightarrow> None | Some i \<Rightarrow> if i < length (lc_sockets c) then Some (lc_sockets c ! i) else None)"

section \<open>Operations\<close>

definition emitStatus :: "status_event \<Rightarrow> live_client \<Rightarrow> live_effect list" where
  "emitStatus ev c = map (\<lambda>h. StatusCall h ev) (lc_statusHandlers c)"

definition flushQueue :: "live_client \<Rightarrow> live_client \<times> live_effect list" where
  "flushQueue c =
     (case lc_ws c of
        Some i \<Rightarrow> if ws_ready c \<noteq> Some OPEN \<or> lc_outboundQueue c = [] then (c, [])
          else (c\<lparr>lc_outboundQueue := []\<rparr>, map (SendFrame i) (lc_outboundQueue c))
      | None \<Rightarrow> (c, []))"

definition connect :: "live_client \<Rightarrow> live_client \<times> live_effect list" where
  "connect c0 =
     (let c = c0\<lparr>lc_shouldReconnect := True\<rparr> in
      if ws_ready c = Some OPEN \<or> ws_ready c = Some CONNECTING \<or> lc_url c = [] then (c, [])
      else let i = length (lc_sockets c) in
        (c\<lparr>lc_ws := Some i, lc_sockets := lc_sockets c @ [CONNECTING]\<rparr>,
         emitStatus (StatusConnecting (lc_reconnectAttempt c + 1)) c @ [OpenSocket i (lc_url c)]))"

definition ws_onopen :: "live_client \<Rightarrow> live_client \<times> live_effect list" where
  "ws_onopen c0 =
     (let (c, es) = flushQueue (c0\<lparr>lc_reconnectAttempt := 0\<rparr>) in (c, es @ emitStatus StatusOpen c))"

text \<open>A packet as the gateway writes it; its service is a string or \<open>null\<close>.\<close>

definition packet_of_json :: "jobject \<Rightarrow> packet" where
  "packet_of_json ps =
     \<lparr>pk_deviceId = (case obj_get ps ''deviceId'' of JStr s \<Rightarrow> s | _ \<Rightarrow> []),
      pk_envelope = (case obj_get ps ''envelope'' of JObj e \<Rightarrow> e | _ \<Rightarrow> []),
      pk_service = (case obj_get ps ''service'' of JStr s \<Rightarrow> Some s | _ \<Rightarrow> None),
      pk_subtopic = (case obj_get ps ''subtopic'' of JStr s \<Rightarrow> s | _ \<Rightarrow> [])\<rparr>"

definition ws_onmessage :: "(string \<Rightarrow> jv option) \<Rightarrow> string \<Rightarrow> live_client \<Rightarrow> live_effect list" where
  "ws_onmessage json_parse data c =
     (case json_parse data of
        Some (JObj ps) \<Rightarrow> if isTransportPacket (JObj ps) then map (\<lambda>h. MessageCall h (packet_of_json ps)) (lc_messageHandlers c) else []
      | _ \<Rightarrow> [])"

definition ws_onclose :: "string \<Rightarrow> string \<Rightarrow> live_client \<Rightarrow> live_client \<times> live_effect list" where
  "ws_onclose code reason c0 =
     (let c = c0\<lparr>lc_ws := None\<rparr>;
          es = emitStatus (StatusClosed (if reason \<noteq> [] then reason else ''code '' @ code)) c
      in if \<not> lc_shouldReconnect c then (c, es)
         else (c\<lparr>lc_reconnectAttempt := lc_reconnectAttempt c + 1, lc_reconnectTimer := Some (lc_nextTimer c),
                 lc_timers := lc_timers c @ [lc_nextTimer c], lc_nextTimer := lc_nextTimer c + 1\<rparr>,
               es @ emitStatus (StatusReconnectScheduled RECONNECT_DELAY_MS) c))"

definition ws_onerror :: "live_client \<Rightarrow> live_effect list" where
  "ws_onerror c = emitStatus (StatusError ''WebSocket transport error'') c"

text \<open>Sending a frame, or queueing it while there is no open socket; a full queue drops its oldest frame.\<close>

definition send_or_queue :: "jobject \<Rightarrow> live_client \<Rightarrow> live_client \<times> live_effect list" where
  "send_or_queue frame c =
     (case lc_ws c of
        Some i \<Rightarrow> if ws_ready c = Some OPEN then (c, [SendFrame i frame])
          else (c\<lparr>lc_outboundQueue := (if length (lc_outboundQueue c) \<ge> MAX_QUEUE_SIZE then tl (lc_outboundQueue c) else lc_outboundQueue c) @ [frame]\<rparr>, [])
      | None \<Rightarrow>
          (c\<lparr>lc_outboundQueue := (if length (lc_outboundQueue c) \<ge> MAX_QUEUE_SIZE then tl (lc_outboundQueue c) else lc_outboundQueue c) @ [frame]\<rparr>, []))"

definition draft_frame :: "packet_draft \<Rightarrow> jobject option" where
  "draft_frame d =
     (if trim (df_subtopic d) = [] \<or> trim (df_type d) = [] then None
      else Some (buildPacketFrame (d\<lparr>df_subtopic := trim (df_subtopic d), df_type := trim (df_type d)\<rparr>)))"

definition client_sendPacket :: "packet_draft \<Rightarrow> live_client \<Rightarrow> live_client \<times> live_effect list" where
  "client_sendPacket d c = (case draft_frame d of None \<Rightarrow> (c, []) | Some frame \<Rightarrow> send_or_queue frame c)"

definition status_draft :: packet_draft where
  "status_draft = \<lparr>df_msgId = None, df_payload = JUndef, df_service = None, df_subtopic = ''command'', df_timestamp = None, df_type = ''get-status''\<rparr>"

definition requestStatus :: "live_client \<Rightarrow> live_client \<times> live_effect list" where
  "requestStatus c = client_sendPacket status_draft c"

definition client_setDevice :: "string \<Rightarrow> live_client \<Rightarrow> live_client \<times> live_effect list" where
  "client_setDevice deviceId c = (if trim deviceId = [] then (c, []) else send_or_queue (set_device_frame (trim deviceId)) c)"

definition onMessage :: "nat \<Rightarrow> live_client \<Rightarrow> live_client" where
  "onMessage h c = c\<lparr>lc_messageHandlers := jadd h (lc_messageHandlers c)\<rparr>"

definition offMessage :: "nat \<Rightarrow> live_client \<Rightarrow> live_client" where
  "offMessage h c = c\<lparr>lc_messageHandlers := filter (\<lambda>k. k \<noteq> h) (lc_messageHandlers c)\<rparr>"

definition onStatus :: "nat \<Rightarrow> live_client \<Rightarrow> live_client" where
  "onStatus h c = c\<lparr>lc_statusHandlers := jadd h (lc_statusHandlers c)\<rparr>"

definition offStatus :: "nat \<Rightarrow> live_client \<Rightarrow> live_client" where
  "offStatus h c = c\<lparr>lc_statusHandlers := filter (\<lambda>k. k \<noteq> h) (lc_statusHandlers c)\<rparr>"

definition disconnect :: "live_client \<Rightarrow> live_client \<times> live_effect list" where
  "disconnect c0 =
     (let c = c0\<lparr>lc_shouldReconnect := False, lc_reconnectAttempt := 0,
            lc_timers := (case lc_reconnectTimer c0 of None \<Rightarrow> lc_timers c0 | Some t \<Rightarrow> filter (\<lambda>k. k \<noteq> t) (lc_timers c0)), lc_reconnectTimer := None\<rparr>;
          (c1, es) = (case lc_ws c of
            Some i \<Rightarrow> if ws_ready c = Some OPEN \<or> ws_ready c = Some CONNECTING
              then (c\<lparr>lc_sockets := (lc_sockets c)[i := CLOSING]\<rparr>, [CloseSocketCall i]) else (c, [])
          | None \<Rightarrow> (c, []))
      in (c1\<lparr>lc_ws := None, lc_outboundQueue := [], lc_messageHandlers := [], lc_statusHandlers := []\<rparr>, es))"

section \<open>Events\<close>

text \<open>Calls of the owner, and what the browser reports: events of a socket and timers that run out.\<close>

datatype live_event =
    CallConnect
  | CallSendPacket packet_draft
  | CallRequestStatus
  | CallSetDevice string
  | CallOnMessage nat
  | CallOffMessage nat
  | CallOnStatus nat
  | CallOffStatus nat
  | CallDisconnect
  | SocketOpened nat
  | SocketMessage nat string
  | SocketError nat
  | SocketClosed nat string string
  | TimerFired nat

fun live_enabled :: "live_event \<Rightarrow> live_client \<Rightarrow> bool" where
  "live_enabled (SocketOpened i) c = (i < length (lc_sockets c) \<and> lc_sockets c ! i = CONNECTING)"
| "live_enabled (SocketMessage i _) c = (i < length (lc_sockets c) \<and> lc_sockets c ! i = OPEN)"
| "live_enabled (SocketError i) c = (i < length (lc_sockets c) \<and> lc_sockets c ! i \<noteq> CLOSED)"
| "live_enabled (SocketClosed i _ _) c = (i < length (lc_sockets c) \<and> lc_sockets c ! i \<noteq> CLOSED)"
| "live_enabled (TimerFired t) c = (t \<in> set (lc_timers c))"
| "live_enabled _ _ = True"

fun live_handle :: "(string \<Rightarrow> jv option) \<Rightarrow> live_event \<Rightarrow> live_client \<Rightarrow> live_client \<times> live_effect list" where
  "live_handle jp CallConnect c = connect c"
| "live_handle jp (CallSendPacket d) c = client_sendPacket d c"
| "live_handle jp CallRequestStatus c = requestStatus c"
| "live_handle jp (CallSetDevice d) c = client_setDevice d c"
| "live_handle jp (CallOnMessage h) c = (onMessage h c, [])"
| "live_handle jp (CallOffMessage h) c = (offMessage h c, [])"
| "live_handle jp (CallOnStatus h) c = (onStatus h c, [])"
| "live_handle jp (CallOffStatus h) c = (offStatus h c, [])"
| "live_handle jp CallDisconnect c = disconnect c"
| "live_handle jp (SocketOpened i) c = ws_onopen (c\<lparr>lc_sockets := (lc_sockets c)[i := OPEN]\<rparr>)"
| "live_handle jp (SocketMessage i data) c = (c, ws_onmessage jp data c)"
| "live_handle jp (SocketError i) c = (c, ws_onerror c)"
| "live_handle jp (SocketClosed i code reason) c = ws_onclose code reason (c\<lparr>lc_sockets := (lc_sockets c)[i := CLOSED]\<rparr>)"
| "live_handle jp (TimerFired t) c = connect (c\<lparr>lc_timers := filter (\<lambda>k. k \<noteq> t) (lc_timers c)\<rparr>)"

text \<open>
  A history: the client, the frames its owner asked to send, the frames that went out, and the number of
  frames given up (the oldest of a full queue, or the whole queue on \<open>disconnect\<close>).
\<close>

record live_history =
  lh_client :: live_client
  lh_accepted :: "jobject list"
  lh_sent :: "jobject list"
  lh_dropped :: nat

fun event_frame :: "live_event \<Rightarrow> jobject option" where
  "event_frame (CallSendPacket d) = draft_frame d"
| "event_frame CallRequestStatus = draft_frame status_draft"
| "event_frame (CallSetDevice d) = (if trim d = [] then None else Some (set_device_frame (trim d)))"
| "event_frame _ = None"

definition sent_frames :: "live_effect list \<Rightarrow> jobject list" where
  "sent_frames es = List.map_filter (\<lambda>e. case e of SendFrame _ f \<Rightarrow> Some f | _ \<Rightarrow> None) es"

definition given_up :: "live_event \<Rightarrow> live_client \<Rightarrow> nat" where
  "given_up ev c =
     (if ev = CallDisconnect then length (lc_outboundQueue c)
      else if event_frame ev \<noteq> None \<and> ws_ready c \<noteq> Some OPEN \<and> length (lc_outboundQueue c) \<ge> MAX_QUEUE_SIZE then 1 else 0)"

inductive live_step :: "(string \<Rightarrow> jv option) \<Rightarrow> live_history \<Rightarrow> live_history \<Rightarrow> bool" for jp where
  live_event: "live_enabled ev (lh_client s) \<Longrightarrow> live_handle jp ev (lh_client s) = (c, es) \<Longrightarrow>
    live_step jp s \<lparr>lh_client = c, lh_accepted = lh_accepted s @ (case event_frame ev of None \<Rightarrow> [] | Some f \<Rightarrow> [f]),
      lh_sent = lh_sent s @ sent_frames es, lh_dropped = lh_dropped s + given_up ev (lh_client s)\<rparr>"

definition live_start :: "live_history \<Rightarrow> bool" where
  "live_start s \<longleftrightarrow> (\<exists>url. s = \<lparr>lh_client = new_client url, lh_accepted = [], lh_sent = [], lh_dropped = 0\<rparr>)"

section \<open>The queue\<close>

definition queue_inv :: "live_client \<Rightarrow> jobject list \<Rightarrow> jobject list \<Rightarrow> nat \<Rightarrow> bool" where
  "queue_inv c sent accepted dropped \<longleftrightarrow>
     (\<forall>i. lc_ws c = Some i \<longrightarrow> i < length (lc_sockets c)) \<and>
     length (lc_outboundQueue c) \<le> MAX_QUEUE_SIZE \<and>
     (ws_ready c = Some OPEN \<longrightarrow> lc_outboundQueue c = []) \<and>
     subseq (sent @ lc_outboundQueue c) accepted \<and>
     length accepted = length sent + length (lc_outboundQueue c) + dropped"

definition live_inv :: "live_history \<Rightarrow> bool" where
  "live_inv s \<longleftrightarrow> queue_inv (lh_client s) (lh_sent s) (lh_accepted s) (lh_dropped s)"

lemma sent_frames_simps [simp]:
  "sent_frames [] = []" "sent_frames (es @ fs) = sent_frames es @ sent_frames fs" "sent_frames (map (SendFrame i) fr) = fr"
  "sent_frames (SendFrame i f # es) = f # sent_frames es" "sent_frames (emitStatus ev c) = []"
  "sent_frames (OpenSocket i u # es) = sent_frames es" "sent_frames (CloseSocketCall i # es) = sent_frames es"
  "sent_frames (map (\<lambda>h. MessageCall h p) hs) = []"
  by (induction fr) (auto simp: sent_frames_def emitStatus_def List.map_filter_def comp_def filter_empty_conv)

lemma onmessage_sends [simp]: "sent_frames (ws_onmessage jp data c) = []"
  by (auto simp: ws_onmessage_def split: option.splits jv.splits)

text \<open>The invariant reads the socket, the ready states and the queue only.\<close>

lemma queue_inv_cong:
  "queue_inv c S A D \<Longrightarrow> lc_ws d = lc_ws c \<Longrightarrow> lc_sockets d = lc_sockets c \<Longrightarrow> lc_outboundQueue d = lc_outboundQueue c \<Longrightarrow> queue_inv d S A D"
  by (simp add: queue_inv_def ws_ready_def cong: option.case_cong)

lemma queue_inv_close:
  assumes "queue_inv c S A D" "lc_ws d = None" "lc_outboundQueue d = lc_outboundQueue c"
  shows "queue_inv d S A D"
  using assms by (simp add: queue_inv_def ws_ready_def)

lemma subseq_drop_first: "subseq (xs @ ys) zs \<Longrightarrow> subseq (xs @ tl ys) zs"
proof (cases ys)
  case (Cons y ys')
  have "subseq (xs @ ys') (xs @ y # ys')" by (simp add: subseq_append' list_emb_Cons)
  moreover assume "subseq (xs @ ys) zs"
  ultimately show ?thesis using Cons subseq_order.trans by simp
qed simp

lemma queue_inv_send:
  assumes inv: "queue_inv c S A D" and run: "send_or_queue f c = (c', es)"
  shows "queue_inv c' (S @ sent_frames es) (A @ [f]) (D + (if ws_ready c \<noteq> Some OPEN \<and> length (lc_outboundQueue c) \<ge> MAX_QUEUE_SIZE then 1 else 0))"
proof (cases "ws_ready c = Some OPEN")
  case True
  then obtain i where "lc_ws c = Some i" by (auto simp: ws_ready_def split: option.splits)
  then have "c' = c" "es = [SendFrame i f]" using run True by (simp_all add: send_or_queue_def)
  then show ?thesis using inv True by (auto simp: queue_inv_def)
next
  case False
  define q where "q = (if length (lc_outboundQueue c) \<ge> MAX_QUEUE_SIZE then tl (lc_outboundQueue c) else lc_outboundQueue c)"
  have c': "c' = c\<lparr>lc_outboundQueue := q @ [f]\<rparr>" "es = []" using run False by (auto simp: send_or_queue_def q_def split: option.splits)
  have "subseq (S @ q) A" using inv subseq_drop_first by (auto simp: queue_inv_def q_def)
  then have "subseq ((S @ q) @ [f]) (A @ [f])" by (rule list_emb_append_mono) simp
  moreover have "ws_ready c' \<noteq> Some OPEN" using False unfolding c' by (auto simp: ws_ready_def split: option.splits)
  ultimately show ?thesis using inv False unfolding c' by (auto simp: queue_inv_def q_def MAX_QUEUE_SIZE_def ws_ready_def)
qed

lemma queue_inv_connect:
  assumes "queue_inv c S A D" "connect c = (c', es)"
  shows "queue_inv c' (S @ sent_frames es) A D"
  using assms by (auto simp: connect_def Let_def queue_inv_def ws_ready_def nth_append split: if_splits option.splits)

lemma queue_inv_open:
  assumes inv: "queue_inv c S A D" and i: "i < length (lc_sockets c)" and run: "ws_onopen (c\<lparr>lc_sockets := (lc_sockets c)[i := OPEN]\<rparr>) = (c', es)"
  shows "queue_inv c' (S @ sent_frames es) A D"
  using assms by (auto simp: ws_onopen_def flushQueue_def Let_def queue_inv_def ws_ready_def nth_list_update split: if_splits option.splits)

lemma queue_inv_disconnect:
  assumes "queue_inv c S A D" "disconnect c = (c', es)"
  shows "queue_inv c' (S @ sent_frames es) A (D + length (lc_outboundQueue c))"
proof -
  have "subseq S A" using assms(1) unfolding queue_inv_def by (metis subseq_order.trans list_emb_append2 prefix_imp_subseq prefixI)
  moreover have "lc_ws c' = None" "lc_outboundQueue c' = []" "sent_frames es = []"
    using assms(2) by (auto simp: disconnect_def Let_def split: option.splits if_splits)
  ultimately show ?thesis using assms(1) by (simp add: queue_inv_def ws_ready_def)
qed

lemma live_inv_step: "live_inv s \<Longrightarrow> live_step jp s t \<Longrightarrow> live_inv t"
proof -
  assume inv: "live_inv s" and step: "live_step jp s t"
  let ?c = "lh_client s"
  have q: "queue_inv ?c (lh_sent s) (lh_accepted s) (lh_dropped s)" using inv by (simp add: live_inv_def)
  from step obtain ev c es where ev: "live_enabled ev ?c" "live_handle jp ev ?c = (c, es)"
    and t: "t = \<lparr>lh_client = c, lh_accepted = lh_accepted s @ (case event_frame ev of None \<Rightarrow> [] | Some f \<Rightarrow> [f]),
      lh_sent = lh_sent s @ sent_frames es, lh_dropped = lh_dropped s + given_up ev ?c\<rparr>" by cases
  have "queue_inv c (lh_sent s @ sent_frames es) (lh_accepted s @ (case event_frame ev of None \<Rightarrow> [] | Some f \<Rightarrow> [f])) (lh_dropped s + given_up ev ?c)"
  proof (cases ev)
    case CallConnect
    then show ?thesis using queue_inv_connect [OF q] ev by (simp add: given_up_def)
  next
    case (CallSendPacket d)
    then show ?thesis using queue_inv_send [OF q] ev q by (cases "draft_frame d") (simp_all add: given_up_def client_sendPacket_def)
  next
    case CallRequestStatus
    then show ?thesis using queue_inv_send [OF q] ev q
      by (cases "draft_frame status_draft") (simp_all add: given_up_def client_sendPacket_def requestStatus_def)
  next
    case (CallSetDevice d)
    then show ?thesis using queue_inv_send [OF q] ev q by (cases "trim d = []") (simp_all add: given_up_def client_setDevice_def)
  next
    case CallDisconnect
    then show ?thesis using queue_inv_disconnect [OF q] ev by (simp add: given_up_def)
  next
    case (SocketOpened i)
    then show ?thesis using queue_inv_open [OF q, of i c es] ev by (simp add: given_up_def)
  next
    case (SocketClosed i code reason)
    then have "lc_ws c = None" "lc_outboundQueue c = lc_outboundQueue ?c" "sent_frames es = []"
      using ev by (auto simp: ws_onclose_def Let_def split: if_splits)
    then show ?thesis using queue_inv_close [OF q] SocketClosed by (simp add: given_up_def)
  next
    case (TimerFired t)
    have "queue_inv (?c\<lparr>lc_timers := filter (\<lambda>k. k \<noteq> t) (lc_timers ?c)\<rparr>) (lh_sent s) (lh_accepted s) (lh_dropped s)" by (rule queue_inv_cong [OF q]) simp_all
    from queue_inv_connect [OF this] show ?thesis using ev TimerFired by (simp add: given_up_def)
  qed (use ev q in \<open>auto simp: given_up_def onMessage_def offMessage_def onStatus_def offStatus_def ws_onerror_def intro: queue_inv_cong\<close>)
  then show ?thesis unfolding t live_inv_def by simp
qed

interpretation live: invariant_system live_start "live_step jp" live_inv for jp
proof
  show "live_inv s" if "live_start s" for s
    using that by (auto simp: live_start_def live_inv_def queue_inv_def new_client_def ws_ready_def)
qed (rule live_inv_step)

text \<open>
  C15. Frames go out in the order in which they were asked for. In every reachable state the frames sent,
  followed by those in the queue, are a subsequence of the frames the owner asked to send: none is
  duplicated, invented or overtaken. The queue never holds more than 32 frames and is empty while the
  client's socket is open; as long as no frame was given up, none is missing.
\<close>

theorem live_frames_in_order:
  assumes "reachable_from live_start (live_step jp) s"
  shows "subseq (lh_sent s @ lc_outboundQueue (lh_client s)) (lh_accepted s) \<and> length (lc_outboundQueue (lh_client s)) \<le> MAX_QUEUE_SIZE \<and>
    (ws_ready (lh_client s) = Some OPEN \<longrightarrow> lc_outboundQueue (lh_client s) = []) \<and>
    (lh_dropped s = 0 \<longrightarrow> lh_sent s @ lc_outboundQueue (lh_client s) = lh_accepted s)"
proof -
  have "queue_inv (lh_client s) (lh_sent s) (lh_accepted s) (lh_dropped s)" using live.inv_reachable [OF assms] by (simp add: live_inv_def)
  then show ?thesis using subseq_same_length by (force simp: queue_inv_def)
qed

section \<open>Reconnecting\<close>

text \<open>
  The end of an old socket takes the new one away. When a socket that the client has already replaced
  reports that it is closed, the client forgets its current socket, although that one stays connecting or
  open: packets are queued instead of sent, messages of the forgotten socket are still delivered, and
  when the timer that was started runs out a further socket is opened beside it.
\<close>

theorem stale_close_orphans_socket:
  assumes ws: "lc_ws c = Some j" "j < length (lc_sockets c)" "lc_sockets c ! j = CONNECTING \<or> lc_sockets c ! j = OPEN" "i \<noteq> j"
    and ev: "live_enabled (SocketClosed i code reason) c" "lc_shouldReconnect c" "lc_url c \<noteq> []"
    and run: "live_handle jp (SocketClosed i code reason) c = (c1, es)" "live_handle jp (TimerFired (lc_nextTimer c)) c1 = (c2, es')"
  shows "lc_ws c1 = None \<and> lc_sockets c1 ! j = lc_sockets c ! j \<and> (\<forall>d. snd (client_sendPacket d c1) = []) \<and>
    (\<forall>data. lc_sockets c ! j = OPEN \<longrightarrow> live_enabled (SocketMessage j data) c1 \<and> ws_onmessage jp data c1 = ws_onmessage jp data c) \<and>
    live_enabled (TimerFired (lc_nextTimer c)) c1 \<and> lc_ws c2 = Some (length (lc_sockets c)) \<and> lc_sockets c2 ! j = lc_sockets c ! j"
proof -
  have c1: "lc_ws c1 = None" "lc_sockets c1 = (lc_sockets c)[i := CLOSED]" "lc_nextTimer c \<in> set (lc_timers c1)" "lc_url c1 = lc_url c"
    "lc_messageHandlers c1 = lc_messageHandlers c"
    using run(1) ev(2) by (auto simp: ws_onclose_def Let_def)
  have "lc_ws c2 = Some (length (lc_sockets c1))" "lc_sockets c2 = lc_sockets c1 @ [CONNECTING]"
    using run(2) c1(1,4) ev(3) by (auto simp: connect_def ws_ready_def Let_def)
  then show ?thesis
    using c1 ws by (auto simp: nth_append client_sendPacket_def send_or_queue_def ws_onmessage_def split: option.splits jv.splits)
qed

section \<open>Examples\<close>

fun live_run :: "(string \<Rightarrow> jv option) \<Rightarrow> live_event list \<Rightarrow> live_history \<Rightarrow> live_history option" where
  "live_run jp [] s = Some s"
| "live_run jp (ev # evs) s =
     (if \<not> live_enabled ev (lh_client s) then None
      else let (c, es) = live_handle jp ev (lh_client s) in
        live_run jp evs \<lparr>lh_client = c, lh_accepted = lh_accepted s @ (case event_frame ev of None \<Rightarrow> [] | Some f \<Rightarrow> [f]),
          lh_sent = lh_sent s @ sent_frames es, lh_dropped = lh_dropped s + given_up ev (lh_client s)\<rparr>)"

lemma live_run_reaches:
  "live_run jp evs s = Some t \<Longrightarrow> reachable_from live_start (live_step jp) s \<Longrightarrow> reachable_from live_start (live_step jp) t"
  by (induction evs arbitrary: s) (auto split: if_splits prod.splits intro: reach_next live_event)

definition live_demo_start :: live_history where
  "live_demo_start = \<lparr>lh_client = new_client ''wss://gateway '', lh_accepted = [], lh_sent = [], lh_dropped = 0\<rparr>"

definition live_demo_events :: "live_event list" where
  "live_demo_events = [CallConnect, CallSetDevice ''cam'', CallRequestStatus, SocketOpened 0, CallDisconnect, CallConnect, SocketOpened 1]"

definition live_demo :: live_history where
  "live_demo = the (live_run (\<lambda>_. None) live_demo_events live_demo_start)"

lemma live_demo_reachable: "reachable_from live_start (live_step (\<lambda>_. None)) live_demo"
proof -
  have "live_run (\<lambda>_. None) live_demo_events live_demo_start = Some live_demo" by code_simp
  moreover have "live_start live_demo_start" by (auto simp: live_start_def live_demo_start_def)
  ultimately show ?thesis using live_run_reaches reach_start by metis
qed

theorem live_frames_in_order_witness: "lh_sent live_demo = lh_accepted live_demo \<and> length (lh_sent live_demo) = 2"
proof -
  have "lh_dropped live_demo = 0" "lc_outboundQueue (lh_client live_demo) = []" "length (lh_sent live_demo) = 2" by code_simp+
  then show ?thesis using live_frames_in_order [OF live_demo_reachable] by simp
qed

theorem stale_close_orphans_socket_witness:
  "\<exists>c1. fst (live_handle (\<lambda>_. None) (SocketClosed 0 ''1000'' []) (lh_client live_demo)) = c1 \<and> lc_ws c1 = None \<and> lc_sockets c1 ! 1 = OPEN"
proof -
  let ?c = "lh_client live_demo"
  have "lc_ws ?c = Some 1" "1 < length (lc_sockets ?c)" "lc_sockets ?c ! 1 = CONNECTING \<or> lc_sockets ?c ! 1 = OPEN" "0 \<noteq> (1 :: nat)"
    "live_enabled (SocketClosed 0 ''1000'' []) ?c" "lc_shouldReconnect ?c" "lc_url ?c \<noteq> []" by code_simp+
  moreover have "lc_sockets ?c ! 1 = OPEN" by code_simp
  ultimately show ?thesis using stale_close_orphans_socket [of ?c 1 0 "''1000''" "[]" "\<lambda>_. None", OF _ _ _ _ _ _ _ prod.collapse [symmetric] prod.collapse [symmetric]] by metis
qed

end
