(* ===== verification/Live_Transport.thy ===== *)
theory Live_Transport
  imports Live_Client
begin

text \<open>
  The transport provider of the browser (\<open>trakrai-live-transport/src/providers/live-transport-provider.tsx\<close>
  with \<open>lib/live-transport-utils.ts\<close>): requests that wait for an answer of the device, the state of the
  viewed device, and what incoming packets do to them. A promise and the timeout started with it share a
  number. Timeouts run out in any order. React's state setters are updates of the state, its effects
  and callbacks are operations; the rendered context and the log entries' ids and times are left out.
\<close>

section \<open>Types\<close>

datatype log_level = LogError | LogInfo | LogWarn

record device_view =
  dv_viewedId :: string
  dv_status :: "jv option"
  dv_heartbeatAt :: "int option"
  dv_heartbeatNow :: int
  dv_logs :: "(log_level \<times> string) list"
  dv_runtimeError :: "string option"

record request_error =
  re_message :: string
  re_packet :: "packet option"
  re_payload :: "jv option"
  re_requestId :: string
  re_responseType :: "string option"

record request_response =
  rr_packet :: packet
  rr_payload :: jv
  rr_requestId :: string
  rr_responseType :: "string option"

datatype settlement = Resolved request_response | Rejected request_error

record pending_request =
  pq_promise :: nat
  pq_responseSubtopics :: "string list"
  pq_responseTypes :: "string list option"
  pq_service :: "string option"

record request_timer =
  tm_requestId :: string
  tm_service :: "string option"
  tm_command :: string

record request_options =
  rq_command :: string
  rq_payload :: jobject
  rq_requestId :: "string option"
  rq_responseSubtopics :: "string list option"
  rq_responseTypes :: "string list option"
  rq_service :: "string option"
  rq_subtopic :: "string option"

datatype transport_mode = Cloud | Edge

datatype connection_state = Disconnected | Connecting | Connected | Reconnecting

record transport =
  tn_deviceId :: string
  tn_pending :: "(string, pending_request) jmap"
  tn_timers :: "(nat, request_timer) jmap"
  tn_next :: nat
  tn_settled :: "(nat \<times> settlement) list"
  tn_packetHandlers :: "nat list"
  tn_statusHandlers :: "nat list"
  tn_signalingUrl :: string
  tn_valid :: bool
  tn_activeDevice :: string
  tn_view :: device_view
  tn_staleReported :: bool
  tn_state :: connection_state
  tn_error :: "string option"

definition LOG_LIMIT :: nat where
  "LOG_LIMIT = 60"

definition STALE_HEARTBEAT_SECONDS :: int where
  "STALE_HEARTBEAT_SECONDS = 15"

definition DEFAULT_RESPONSE_SUBTOPICS :: "string list" where
  "DEFAULT_RESPONSE_SUBTOPICS = [''response'']"

section \<open>Envelopes and views\<close>

definition unwrapPayload :: "jobject \<Rightarrow> jv" where
  "unwrapPayload envelope =
     (if obj_in ''payload'' envelope \<and> obj_get envelope ''payload'' \<noteq> JUndef then obj_get envelope ''payload'' else JObj envelope)"

definition getEnvelopeType :: "jobject \<Rightarrow> string option" where
  "getEnvelopeType envelope = as_string (obj_get envelope ''type'')"

definition createDeviceViewState :: "string \<Rightarrow> device_view" where
  "createDeviceViewState deviceId =
     \<lparr>dv_viewedId = deviceId, dv_status = None, dv_heartbeatAt = None, dv_heartbeatNow = 0, dv_logs = [], dv_runtimeError = None\<rparr>"

definition getScopedDeviceViewState :: "device_view \<Rightarrow> string \<Rightarrow> device_view" where
  "getScopedDeviceViewState v deviceId = (if dv_viewedId v = deviceId then v else createDeviceViewState deviceId)"

definition clearRuntimeErrorForDeviceState :: "device_view \<Rightarrow> string \<Rightarrow> device_view" where
  "clearRuntimeErrorForDeviceState v deviceId = (getScopedDeviceViewState v deviceId)\<lparr>dv_runtimeError := None\<rparr>"

definition setHeartbeatNowForDeviceState :: "device_view \<Rightarrow> string \<Rightarrow> int \<Rightarrow> device_view" where
  "setHeartbeatNowForDeviceState v deviceId now = (getScopedDeviceViewState v deviceId)\<lparr>dv_heartbeatNow := now\<rparr>"

definition normalizeServiceName :: "string option \<Rightarrow> string option" where
  "normalizeServiceName s = blank_to_none s"

text \<open>A payload that is not an object has no request id; destructuring \<open>null\<close> raises, which the socket's handler swallows.\<close>

definition payload_field :: "packet \<Rightarrow> string \<Rightarrow> string option" where
  "payload_field p k = (case unwrapPayload (pk_envelope p) of JObj ps \<Rightarrow> as_string (obj_get ps k) | _ \<Rightarrow> None)"

definition readPacketRequestId :: "packet \<Rightarrow> string option" where
  "readPacketRequestId p = blank_to_none (payload_field p ''requestId'')"

definition ends_with :: "string \<Rightarrow> string \<Rightarrow> bool" where
  "ends_with e s \<longleftrightarrow> length e \<le> length s \<and> drop (length s - length e) s = e"

definition isErrorResponseType :: "string option \<Rightarrow> bool" where
  "isErrorResponseType t =
     (case t of None \<Rightarrow> False | Some s \<Rightarrow> s = ''service-unavailable'' \<or> s = ''error'' \<or> ends_with ''-error'' s)"

definition readRequestErrorMessage :: "string \<Rightarrow> packet \<Rightarrow> string option \<Rightarrow> string" where
  "readRequestErrorMessage rid p responseType =
     (case payload_field p ''error'' of
        Some e \<Rightarrow> if trim e \<noteq> [] then e else ''Device request '' @ rid @ '' failed'' @ (case responseType of None \<Rightarrow> [] | Some t \<Rightarrow> '' with '' @ t)
      | None \<Rightarrow> ''Device request '' @ rid @ '' failed'' @ (case responseType of None \<Rightarrow> [] | Some t \<Rightarrow> '' with '' @ t))"

definition isDeviceStatusPacket :: "packet \<Rightarrow> bool" where
  "isDeviceStatusPacket p \<longleftrightarrow> (pk_service p = None \<or> pk_service p = Some []) \<and>
     (pk_subtopic p = ''status'' \<or> (pk_subtopic p = ''response'' \<and> getEnvelopeType (pk_envelope p) = Some ''status''))"

definition appendLog :: "log_level \<Rightarrow> string \<Rightarrow> transport \<Rightarrow> transport" where
  "appendLog level message s =
     (let v = getScopedDeviceViewState (tn_view s) (tn_deviceId s)
      in s\<lparr>tn_view := v\<lparr>dv_logs := take LOG_LIMIT ((level, message) # dv_logs v)\<rparr>\<rparr>)"

section \<open>Requests\<close>

definition settle :: "nat \<Rightarrow> settlement \<Rightarrow> transport \<Rightarrow> transport" where
  "settle p r s = s\<lparr>tn_settled := tn_settled s @ [(p, r)]\<rparr>"

definition plain_error :: "string \<Rightarrow> string \<Rightarrow> request_error" where
  "plain_error message rid =
     \<lparr>re_message = message, re_packet = None, re_payload = None, re_requestId = rid, re_responseType = None\<rparr>"

text \<open>The timeout callback: it deletes the entry of its request id, whichever request it belongs to.\<close>

definition rejectTimedOutRequest :: "nat \<Rightarrow> transport \<Rightarrow> transport" where
  "rejectTimedOutRequest t s =
     (case jget (tn_timers s) t of
        None \<Rightarrow> s
      | Some tm \<Rightarrow>
          settle t (Rejected (plain_error (''Timed out waiting for '' @ (case tm_service tm of None \<Rightarrow> ''device'' | Some v \<Rightarrow> v) @ '':'' @ tm_command tm) (tm_requestId tm)))
            (s\<lparr>tn_timers := jdelete t (tn_timers s), tn_pending := jdelete (tm_requestId tm) (tn_pending s)\<rparr>))"

definition reject_entry :: "string \<Rightarrow> string \<times> pending_request \<Rightarrow> transport \<Rightarrow> transport" where
  "reject_entry reason e s =
     (case e of (r, q) \<Rightarrow> settle (pq_promise q) (Rejected (plain_error reason r)) (s\<lparr>tn_timers := jdelete (pq_promise q) (tn_timers s)\<rparr>))"

definition clearPendingRequests :: "string \<Rightarrow> transport \<Rightarrow> transport" where
  "clearPendingRequests reason s =
     fold (reject_entry reason) (tn_pending s) (s\<lparr>tn_pending := []\<rparr>)"

definition notify :: "string \<Rightarrow> jobject \<Rightarrow> string option \<Rightarrow> string option \<Rightarrow> packet_draft option" where
  "notify type payload service subtopic =
     (let normalizedType = trim type; normalizedSubtopic = trim (case subtopic of None \<Rightarrow> ''command'' | Some t \<Rightarrow> t) in
      if normalizedType = [] \<or> normalizedSubtopic = [] then None
      else Some \<lparr>df_msgId = None, df_payload = JObj payload, df_service = normalizeServiceName service, df_subtopic = normalizedSubtopic,
        df_timestamp = None, df_type = normalizedType\<rparr>)"

definition provider_sendPacket :: "packet_draft \<Rightarrow> packet_draft option" where
  "provider_sendPacket d =
     notify (df_type d) (case df_payload d of JObj ps \<Rightarrow> ps | _ \<Rightarrow> []) (df_service d) (Some (df_subtopic d))"

definition provider_requestDeviceStatus :: "packet_draft option" where
  "provider_requestDeviceStatus = notify ''get-status'' [] None (Some ''command'')"

text \<open>\<open>request\<close> of the provider: the promise is the number \<open>tn_next\<close>; the draft is handed to the client. \<open>fresh\<close> is \<open>createClientRequestId()\<close>.\<close>

definition provider_request :: "string \<Rightarrow> request_options \<Rightarrow> transport \<Rightarrow> transport \<times> packet_draft option" where
  "provider_request fresh opts s =
     (let command = trim (rq_command opts);
          subtopic = trim (case rq_subtopic opts of None \<Rightarrow> ''command'' | Some t \<Rightarrow> t);
          service = normalizeServiceName (rq_service opts);
          n = tn_next s
      in if \<not> tn_valid s \<or> command = [] \<or> subtopic = []
         then (settle n (Rejected (plain_error ''Device protocol request is not configured correctly.'' fresh)) (s\<lparr>tn_next := n + 1\<rparr>), None)
         else
           let rid = (case blank_to_none (rq_requestId opts) of None \<Rightarrow> fresh | Some r \<Rightarrow> r);
               subs = jset_of (filter (\<lambda>t. t \<noteq> []) (map trim (case rq_responseSubtopics opts of None \<Rightarrow> DEFAULT_RESPONSE_SUBTOPICS | Some ts \<Rightarrow> ts)));
               types = (case rq_responseTypes opts of None \<Rightarrow> None | Some [] \<Rightarrow> None | Some ts \<Rightarrow> Some (jset_of (filter (\<lambda>t. t \<noteq> []) (map trim ts))));
               q = \<lparr>pq_promise = n, pq_responseSubtopics = (if subs = [] then [''response''] else subs), pq_responseTypes = types, pq_service = service\<rparr>
           in (s\<lparr>tn_next := n + 1, tn_timers := jset n \<lparr>tm_requestId = rid, tm_service = service, tm_command = command\<rparr> (tn_timers s),
                 tn_pending := jset rid q (tn_pending s)\<rparr>,
               notify command (jset ''requestId'' (JStr rid) (rq_payload opts)) service (Some subtopic)))"

section \<open>Packets\<close>

definition show_packet :: "int \<Rightarrow> packet \<Rightarrow> transport \<Rightarrow> transport" where
  "show_packet now p s =
     (if isDeviceStatusPacket p then
        s\<lparr>tn_view := (getScopedDeviceViewState (tn_view s) (tn_deviceId s))\<lparr>dv_status := Some (unwrapPayload (pk_envelope p)),
             dv_heartbeatAt := Some now, dv_heartbeatNow := now, dv_runtimeError := None\<rparr>, tn_staleReported := False\<rparr>
      else if (pk_service p = None \<or> pk_service p = Some []) \<and> pk_subtopic p = ''response'' \<and> obj_get (pk_envelope p) ''type'' = JStr ''service-unavailable'' then
        (case payload_field p ''error'' of
           Some e \<Rightarrow> if trim e \<noteq> []
             then appendLog LogError e (s\<lparr>tn_view := (getScopedDeviceViewState (tn_view s) (tn_deviceId s))\<lparr>dv_runtimeError := Some e\<rparr>\<rparr>) else s
         | None \<Rightarrow> s)
      else s)"

definition answers :: "packet \<Rightarrow> pending_request \<Rightarrow> bool" where
  "answers p q \<longleftrightarrow> normalizeServiceName (pk_service p) = pq_service q \<and> pk_subtopic p \<in> set (pq_responseSubtopics q) \<and>
     (case pq_responseTypes q of None \<Rightarrow> True
      | Some ts \<Rightarrow> (case getEnvelopeType (pk_envelope p) of None \<Rightarrow> False | Some t \<Rightarrow> t \<in> set ts))"

definition answer_settlement :: "string \<Rightarrow> packet \<Rightarrow> settlement" where
  "answer_settlement rid p =
     (let responseType = getEnvelopeType (pk_envelope p); payload = unwrapPayload (pk_envelope p) in
      if isErrorResponseType responseType
      then Rejected \<lparr>re_message = readRequestErrorMessage rid p responseType, re_packet = Some p, re_payload = Some payload,
        re_requestId = rid, re_responseType = responseType\<rparr>
      else Resolved \<lparr>rr_packet = p, rr_payload = payload, rr_requestId = rid, rr_responseType = responseType\<rparr>)"

text \<open>\<open>dispatchPacket\<close>; the second component are the calls of the packet handlers.\<close>

definition dispatchPacket :: "int \<Rightarrow> packet \<Rightarrow> transport \<Rightarrow> transport \<times> (nat \<times> packet) list" where
  "dispatchPacket now p s0 =
     (let s = show_packet now p s0 in
      (case readPacketRequestId p of
         None \<Rightarrow> s
       | Some r \<Rightarrow>
           (case jget (tn_pending s) r of
              None \<Rightarrow> s
            | Some q \<Rightarrow>
                if \<not> answers p q then s
                else settle (pq_promise q) (answer_settlement r p)
                  (s\<lparr>tn_pending := jdelete r (tn_pending s), tn_timers := jdelete (pq_promise q) (tn_timers s)\<rparr>)),
       map (\<lambda>h. (h, p)) (tn_packetHandlers s0)))"

section \<open>Effects\<close>

definition readTransportStatusMessage :: "(nat \<Rightarrow> string) \<Rightarrow> status_event \<Rightarrow> string" where
  "readTransportStatusMessage print_nat ev =
     (case ev of
        StatusConnecting n \<Rightarrow> ''Opening gateway socket (attempt '' @ print_nat n @ '')''
      | StatusOpen \<Rightarrow> ''Gateway socket connected''
      | StatusClosed reason \<Rightarrow> ''Gateway socket closed ('' @ reason @ '')''
      | StatusReconnectScheduled ms \<Rightarrow> ''Retrying gateway connection in '' @ print_nat ms @ ''ms''
      | StatusError m \<Rightarrow> m)"

definition emitTransportStatus :: "status_event \<Rightarrow> transport \<Rightarrow> (nat \<times> status_event) list" where
  "emitTransportStatus ev s = map (\<lambda>h. (h, ev)) (tn_statusHandlers s)"

text \<open>The callback given to the client's \<open>onStatus\<close>; the calls of the status handlers come second.\<close>

definition handle_status :: "(nat \<Rightarrow> string) \<Rightarrow> status_event \<Rightarrow> transport \<Rightarrow> transport \<times> (nat \<times> status_event) list" where
  "handle_status print_nat ev s0 =
     (let s = appendLog (case ev of StatusError _ \<Rightarrow> LogError | StatusOpen \<Rightarrow> LogInfo | _ \<Rightarrow> LogWarn) (readTransportStatusMessage print_nat ev) s0 in
      (case ev of
         StatusConnecting n \<Rightarrow> s\<lparr>tn_state := (if n > 1 then Reconnecting else Connecting)\<rparr>
       | StatusOpen \<Rightarrow> s\<lparr>tn_state := Connected, tn_error := None\<rparr>
       | StatusClosed _ \<Rightarrow> s\<lparr>tn_state := Reconnecting\<rparr>
       | StatusReconnectScheduled _ \<Rightarrow> s\<lparr>tn_state := Reconnecting\<rparr>
       | StatusError m \<Rightarrow> s\<lparr>tn_error := Some m\<rparr>, emitTransportStatus ev s0))"

definition hasValidTransportConfig :: "transport_mode \<Rightarrow> string \<Rightarrow> string \<Rightarrow> string \<Rightarrow> string \<Rightarrow> bool" where
  "hasValidTransportConfig mode deviceId httpBaseUrl authorizedUrl token \<longleftrightarrow>
     deviceId \<noteq> [] \<and> httpBaseUrl \<noteq> [] \<and> authorizedUrl \<noteq> [] \<and> (mode = Edge \<or> token \<noteq> [])"

text \<open>The effect of the viewed device: waiting requests of another device are rejected, the client is told the new one.\<close>

definition device_effect :: "transport \<Rightarrow> transport" where
  "device_effect s =
     (if tn_activeDevice s \<noteq> [] \<and> tn_activeDevice s \<noteq> tn_deviceId s \<and> tn_pending s \<noteq> []
      then clearPendingRequests (''Device target changed from '' @ tn_activeDevice s @ '' to '' @ tn_deviceId s) s else s)
     \<lparr>tn_activeDevice := tn_deviceId s\<rparr>"

text \<open>
  A rendering with new properties. The effect of the connection and the one of the device depend on the
  same values (\<open>appendLog\<close> and \<open>dispatchPacket\<close> on the device, the client on its url and on the validity of the
  properties); React runs the clean-up of the old effects before the new effects. The first rendering has
  nothing to clean up.
\<close>

definition render :: "transport_mode \<Rightarrow> string \<Rightarrow> string \<Rightarrow> string \<Rightarrow> string \<Rightarrow> transport \<Rightarrow> transport" where
  "render mode deviceId httpBaseUrl url token s =
     (let valid = hasValidTransportConfig mode (trim deviceId) httpBaseUrl url token in
      if trim deviceId = tn_deviceId s \<and> url = tn_signalingUrl s \<and> valid = tn_valid s then s
      else let s1 = (if tn_valid s then clearPendingRequests ''Transport connection was reset'' s else s);
               s2 = s1\<lparr>tn_deviceId := trim deviceId, tn_signalingUrl := url, tn_valid := valid\<rparr>
        in if valid then device_effect s2 else s2)"

text \<open>What a rendering with a new device does to the client: \<open>hm\<close> and \<open>hs\<close> are the provider's two callbacks.\<close>

definition rerun_connection :: "nat \<Rightarrow> nat \<Rightarrow> string \<Rightarrow> live_client \<Rightarrow> live_client \<times> live_effect list" where
  "rerun_connection hm hs deviceId c0 =
     (let (c1, es1) = disconnect (offStatus hs (offMessage hm c0));
          (c2, es2) = connect (onStatus hs (onMessage hm c1));
          (c3, es3) = client_setDevice deviceId c2
      in (c3, es1 @ es2 @ es3))"

definition subscribeToPackets :: "nat \<Rightarrow> transport \<Rightarrow> transport" where
  "subscribeToPackets h s = s\<lparr>tn_packetHandlers := jadd h (tn_packetHandlers s)\<rparr>"

definition unsubscribeFromPackets :: "nat \<Rightarrow> transport \<Rightarrow> transport" where
  "unsubscribeFromPackets h s = s\<lparr>tn_packetHandlers := filter (\<lambda>k. k \<noteq> h) (tn_packetHandlers s)\<rparr>"

definition subscribeToTransportStatus :: "nat \<Rightarrow> transport \<Rightarrow> transport" where
  "subscribeToTransportStatus h s = s\<lparr>tn_statusHandlers := jadd h (tn_statusHandlers s)\<rparr>"

definition unsubscribeFromTransportStatus :: "nat \<Rightarrow> transport \<Rightarrow> transport" where
  "unsubscribeFromTransportStatus h s = s\<lparr>tn_statusHandlers := filter (\<lambda>k. k \<noteq> h) (tn_statusHandlers s)\<rparr>"

definition clearRuntimeError :: "transport \<Rightarrow> transport" where
  "clearRuntimeError s = s\<lparr>tn_view := clearRuntimeErrorForDeviceState (tn_view s) (tn_deviceId s)\<rparr>"

definition heartbeat_age :: "int \<Rightarrow> int \<Rightarrow> int" where
  "heartbeat_age now since = max 0 ((now - since) div 1000)"

text \<open>One tick of the heartbeat timer.\<close>

definition heartbeat_tick :: "(int \<Rightarrow> string) \<Rightarrow> int \<Rightarrow> transport \<Rightarrow> transport" where
  "heartbeat_tick print_int now s =
     (if tn_deviceId s = [] then s else
      let since = dv_heartbeatAt (getScopedDeviceViewState (tn_view s) (tn_deviceId s));
          s1 = s\<lparr>tn_view := setHeartbeatNowForDeviceState (tn_view s) (tn_deviceId s) now\<rparr>
      in case since of
           None \<Rightarrow> s1
         | Some a \<Rightarrow>
             if heartbeat_age now a \<ge> STALE_HEARTBEAT_SECONDS \<and> \<not> tn_staleReported s1
             then appendLog LogWarn (''Device heartbeat is stale ('' @ print_int (heartbeat_age now a) @ ''s)'') (s1\<lparr>tn_staleReported := True\<rparr>)
             else s1)"

definition new_transport :: "string \<Rightarrow> transport" where
  "new_transport deviceId = \<lparr>tn_deviceId = trim deviceId, tn_pending = [], tn_timers = [], tn_next = 0, tn_settled = [], tn_packetHandlers = [], tn_statusHandlers = [], tn_signalingUrl = [], tn_valid = False,
     tn_activeDevice = [], tn_view = createDeviceViewState (trim deviceId), tn_staleReported = False, tn_state = Disconnected, tn_error = None\<rparr>"

section \<open>Histories\<close>

inductive transport_step :: "transport \<Rightarrow> transport \<Rightarrow> bool" where
  step_request: "transport_step s (fst (provider_request fresh opts s))"
| step_packet: "transport_step s (fst (dispatchPacket now p s))"
| step_timeout: "transport_step s (rejectTimedOutRequest t s)"
| step_unmount: "transport_step s (clearPendingRequests ''Transport provider was unmounted'' s)"
| step_render: "transport_step s (render mode d httpBaseUrl url token s)"
| step_status: "transport_step s (fst (handle_status print_nat ev s))"
| step_heartbeat: "transport_step s (heartbeat_tick print_int now s)"
| step_subscribe: "transport_step s (subscribeToPackets h s)"
| step_unsubscribe: "transport_step s (unsubscribeFromPackets h s)"
| step_subscribe_status: "transport_step s (subscribeToTransportStatus h s)"
| step_unsubscribe_status: "transport_step s (unsubscribeFromTransportStatus h s)"
| step_log: "transport_step s (appendLog level message s)"
| step_clear_error: "transport_step s (clearRuntimeError s)"

definition transport_start :: "transport \<Rightarrow> bool" where
  "transport_start s \<longleftrightarrow> (\<exists>d. s = new_transport d)"

section \<open>Every request settles once\<close>

definition settles_inv :: "transport \<Rightarrow> bool" where
  "settles_inv s \<longleftrightarrow>
     distinct (jkeys (tn_pending s)) \<and> distinct (map fst (tn_settled s)) \<and>
     fst ` set (tn_settled s) \<union> dom (jget (tn_timers s)) = {..<tn_next s} \<and>
     fst ` set (tn_settled s) \<inter> dom (jget (tn_timers s)) = {} \<and>
     (tn_pending s \<noteq> [] \<longrightarrow> tn_valid s) \<and>
     (\<forall>r q. jget (tn_pending s) r = Some q \<longrightarrow> (\<exists>tm. jget (tn_timers s) (pq_promise q) = Some tm \<and> tm_requestId tm = r))"

text \<open>The invariant reads five fields; the operations on the view keep them.\<close>

definition request_fields where
  "request_fields s = (tn_pending s, tn_settled s, tn_timers s, tn_next s, tn_valid s)"

lemma settles_inv_cong: "settles_inv s \<Longrightarrow> request_fields t = request_fields s \<Longrightarrow> settles_inv t"
  by (simp add: settles_inv_def request_fields_def)

lemma view_fields [simp]:
  "request_fields (s\<lparr>tn_view := v\<rparr>) = request_fields s" "request_fields (s\<lparr>tn_activeDevice := d\<rparr>) = request_fields s"
  "request_fields (appendLog l m s) = request_fields s" "request_fields (show_packet now p s) = request_fields s"
  "request_fields (fst (handle_status print_nat ev s)) = request_fields s" "request_fields (heartbeat_tick print_int now s) = request_fields s"
  "request_fields (subscribeToPackets h s) = request_fields s" "request_fields (unsubscribeFromPackets h s) = request_fields s"
  "request_fields (subscribeToTransportStatus h s) = request_fields s" "request_fields (unsubscribeFromTransportStatus h s) = request_fields s"
  "request_fields (clearRuntimeError s) = request_fields s"
  by (auto simp: request_fields_def appendLog_def show_packet_def handle_status_def heartbeat_tick_def Let_def subscribeToPackets_def
      unsubscribeFromPackets_def subscribeToTransportStatus_def unsubscribeFromTransportStatus_def clearRuntimeError_def split: option.splits status_event.splits)

lemma dom_jmap: "dom (jget (jdelete k m)) = dom (jget m) - {k}" "dom (jget (jset k v m)) = insert k (dom (jget m))"
  by (auto simp: dom_def split: if_splits)

lemma settles_invI:
  assumes "distinct (jkeys (tn_pending s))" "distinct (map fst (tn_settled s))" "fst ` set (tn_settled s) = S" "dom (jget (tn_timers s)) = T"
    "S \<union> T = {..<tn_next s}" "S \<inter> T = {}" "tn_pending s \<noteq> [] \<Longrightarrow> tn_valid s"
    "\<And>r q. jget (tn_pending s) r = Some q \<Longrightarrow> \<exists>tm. jget (tn_timers s) (pq_promise q) = Some tm \<and> tm_requestId tm = r"
  shows "settles_inv s"
  unfolding settles_inv_def using assms(1,2,5-8) unfolding assms(3,4) by (intro conjI allI impI) 

text \<open>Settling a promise whose timeout runs, once its entry is gone.\<close>

lemma settle_inv:
  assumes inv: "settles_inv s" and t: "jget (tn_timers s) p = Some tm"
  shows "settles_inv (settle p r (s\<lparr>tn_timers := jdelete p (tn_timers s), tn_pending := jdelete (tm_requestId tm) (tn_pending s)\<rparr>))"
proof -
  let ?S = "fst ` set (tn_settled s)" and ?T = "dom (jget (tn_timers s))"
  have p: "p \<in> ?T" using t by blast
  have d: "distinct (jkeys (tn_pending s))" "distinct (map fst (tn_settled s))" "?S \<union> ?T = {..<tn_next s}" "?S \<inter> ?T = {}"
    "tn_pending s \<noteq> [] \<Longrightarrow> tn_valid s"
    using inv unfolding settles_inv_def by blast+
  have waiting: "\<exists>tm. jget (tn_timers s) (pq_promise q) = Some tm \<and> tm_requestId tm = i" if "jget (tn_pending s) i = Some q" for i q
    using inv that unfolding settles_inv_def by blast
  have other: "pq_promise q \<noteq> p" if entry: "jget (tn_pending s) i = Some q" "i \<noteq> tm_requestId tm" for i q
  proof
    assume "pq_promise q = p"
    moreover obtain tm' where "jget (tn_timers s) (pq_promise q) = Some tm'" "tm_requestId tm' = i" using waiting [OF entry(1)] by blast
    ultimately show False using t entry(2) by simp
  qed
  show ?thesis
  proof (rule settles_invI [of _ "insert p ?S" "?T - {p}"])
    show "distinct (map fst (tn_settled (settle p r (s\<lparr>tn_timers := jdelete p (tn_timers s), tn_pending := jdelete (tm_requestId tm) (tn_pending s)\<rparr>))))"
      using d p by (auto simp: settle_def)
    fix i q assume "jget (tn_pending (settle p r (s\<lparr>tn_timers := jdelete p (tn_timers s), tn_pending := jdelete (tm_requestId tm) (tn_pending s)\<rparr>))) i = Some q"
    then have "jget (tn_pending s) i = Some q" "i \<noteq> tm_requestId tm" by (simp_all add: settle_def split: if_splits)
    then show "\<exists>tm'. jget (tn_timers (settle p r (s\<lparr>tn_timers := jdelete p (tn_timers s), tn_pending := jdelete (tm_requestId tm) (tn_pending s)\<rparr>))) (pq_promise q) = Some tm' \<and> tm_requestId tm' = i"
      using other [of i q] waiting [of i q] by (simp add: settle_def)
  next
    show "tn_valid (settle p r (s\<lparr>tn_timers := jdelete p (tn_timers s), tn_pending := jdelete (tm_requestId tm) (tn_pending s)\<rparr>))"
      if "tn_pending (settle p r (s\<lparr>tn_timers := jdelete p (tn_timers s), tn_pending := jdelete (tm_requestId tm) (tn_pending s)\<rparr>)) \<noteq> []"
      using that d(5) by (cases "tn_pending s") (auto simp: settle_def)
  qed (use d p in \<open>auto simp: settle_def dom_jmap distinct_delete\<close>)
qed

lemma request_inv: "settles_inv s \<Longrightarrow> settles_inv (fst (provider_request fresh opts s))"
proof -
  assume inv: "settles_inv s"
  let ?S = "fst ` set (tn_settled s)" and ?T = "dom (jget (tn_timers s))" and ?n = "tn_next s"
  have d: "distinct (jkeys (tn_pending s))" "distinct (map fst (tn_settled s))" "?S \<union> ?T = {..<?n}" "?S \<inter> ?T = {}"
    "tn_pending s \<noteq> [] \<Longrightarrow> tn_valid s"
    and old: "\<And>r q. jget (tn_pending s) r = Some q \<Longrightarrow> \<exists>tm. jget (tn_timers s) (pq_promise q) = Some tm \<and> tm_requestId tm = r"
    using inv unfolding settles_inv_def by blast+
  have n: "?n \<notin> ?S" "?n \<notin> ?T" using d(3) by blast+
  have rejected: "settles_inv (settle ?n r (s\<lparr>tn_next := ?n + 1\<rparr>))" for r
    by (rule settles_invI [of _ "insert ?n ?S" ?T]) (use d n old in \<open>auto simp: settle_def lessThan_Suc\<close>)
  have waiting: "settles_inv (s\<lparr>tn_next := ?n + 1, tn_timers := jset ?n tm (tn_timers s), tn_pending := jset (tm_requestId tm) q (tn_pending s)\<rparr>)"
    if q: "pq_promise q = ?n" and valid: "tn_valid s" for q tm
  proof (rule settles_invI [of _ ?S "insert ?n ?T"])
    fix r q' assume "jget (tn_pending (s\<lparr>tn_next := ?n + 1, tn_timers := jset ?n tm (tn_timers s), tn_pending := jset (tm_requestId tm) q (tn_pending s)\<rparr>)) r = Some q'"
    then have "r = tm_requestId tm \<and> q' = q \<or> r \<noteq> tm_requestId tm \<and> jget (tn_pending s) r = Some q'" by (simp split: if_splits)
    moreover have "pq_promise q'' \<noteq> ?n" if "jget (tn_pending s) r = Some q''" for q'' using old [OF that] n(2) by auto
    ultimately show "\<exists>tm'. jget (tn_timers (s\<lparr>tn_next := ?n + 1, tn_timers := jset ?n tm (tn_timers s), tn_pending := jset (tm_requestId tm) q (tn_pending s)\<rparr>)) (pq_promise q') = Some tm' \<and> tm_requestId tm' = r"
      using q old by auto
  qed (use d n valid in \<open>auto simp: dom_jmap lessThan_Suc distinct_update\<close>)
  have "\<exists>q tm. fst (provider_request fresh opts s) = s\<lparr>tn_next := ?n + 1, tn_timers := jset ?n tm (tn_timers s), tn_pending := jset (tm_requestId tm) q (tn_pending s)\<rparr> \<and> pq_promise q = ?n"
    if "tn_valid s" "trim (rq_command opts) \<noteq> []" "trim (case rq_subtopic opts of None \<Rightarrow> ''command'' | Some t \<Rightarrow> t) \<noteq> []"
    using that by (simp add: provider_request_def Let_def) (metis pending_request.select_convs(1) request_timer.select_convs(1))
  moreover have "\<exists>r. fst (provider_request fresh opts s) = settle ?n r (s\<lparr>tn_next := ?n + 1\<rparr>)"
    if "\<not> (tn_valid s \<and> trim (rq_command opts) \<noteq> [] \<and> trim (case rq_subtopic opts of None \<Rightarrow> ''command'' | Some t \<Rightarrow> t) \<noteq> [])"
    using that by (auto simp: provider_request_def Let_def)
  ultimately show ?thesis using rejected waiting by metis
qed

lemma timeout_inv: "settles_inv s \<Longrightarrow> settles_inv (rejectTimedOutRequest t s)"
  by (auto simp: rejectTimedOutRequest_def settle_inv split: option.splits)

lemma settle_entry:
  assumes inv: "settles_inv s" and q: "jget (tn_pending s) r = Some q"
  shows "settles_inv (settle (pq_promise q) x (s\<lparr>tn_pending := jdelete r (tn_pending s), tn_timers := jdelete (pq_promise q) (tn_timers s)\<rparr>))"
proof -
  obtain tm where "jget (tn_timers s) (pq_promise q) = Some tm" "tm_requestId tm = r" using inv q unfolding settles_inv_def by blast
  moreover have "s\<lparr>tn_pending := P, tn_timers := T\<rparr> = s\<lparr>tn_timers := T, tn_pending := P\<rparr>" for P T by simp
  ultimately show ?thesis using settle_inv [OF inv] by metis
qed

lemma dispatch_inv: "settles_inv s \<Longrightarrow> settles_inv (fst (dispatchPacket now p s))"
proof -
  assume "settles_inv s"
  then have inv: "settles_inv (show_packet now p s)" by (rule settles_inv_cong) simp
  show ?thesis using inv settle_entry [OF inv] by (auto simp: dispatchPacket_def Let_def split: option.splits)
qed

lemma clear_entries_inv:
  "settles_inv (u\<lparr>tn_pending := m\<rparr>) \<Longrightarrow>
   settles_inv (fold (reject_entry reason) m (u\<lparr>tn_pending := []\<rparr>))"
proof (induction m arbitrary: u)
  case (Cons e m)
  obtain r q where e: "e = (r, q)" by force
  let ?s = "u\<lparr>tn_pending := e # m\<rparr>"
  have "r \<notin> fst ` set m" using Cons.prems e by (auto simp: settles_inv_def)
  then have "jdelete r m = m" by (induction m) auto
  then have "(reject_entry reason e u)\<lparr>tn_pending := m\<rparr> = settle (pq_promise q) (Rejected (plain_error reason r))
      (?s\<lparr>tn_pending := jdelete r (tn_pending ?s), tn_timers := jdelete (pq_promise q) (tn_timers ?s)\<rparr>)"
    using e by (simp add: reject_entry_def settle_def)
  then have "settles_inv ((reject_entry reason e u)\<lparr>tn_pending := m\<rparr>)" using settle_entry [OF Cons.prems, of r q] e by simp
  moreover have "reject_entry reason e (u\<lparr>tn_pending := []\<rparr>) = (reject_entry reason e u)\<lparr>tn_pending := []\<rparr>" using e by (simp add: reject_entry_def settle_def)
  ultimately show ?case using Cons.IH by simp
qed simp

lemma clear_inv: "settles_inv s \<Longrightarrow> settles_inv (clearPendingRequests reason s)"
  using clear_entries_inv [where u = s and m = "tn_pending s"] by (simp add: clearPendingRequests_def)

lemma clear_pending [simp]: "tn_pending (clearPendingRequests reason s) = []"
proof -
  have "tn_pending (fold (reject_entry reason) m u) = tn_pending u" for m u
    by (induction m arbitrary: u) (auto simp: settle_def reject_entry_def split: prod.splits)
  then show ?thesis by (simp add: clearPendingRequests_def)
qed

lemma render_reset:
  assumes "settles_inv s" "s1 = (if tn_valid s then clearPendingRequests reason s else s)"
  shows "settles_inv (s1\<lparr>tn_deviceId := d, tn_signalingUrl := url, tn_valid := valid\<rparr>) \<and> tn_pending s1 = []"
proof -
  have "settles_inv s1" "tn_pending s1 = []" using assms clear_inv by (auto simp: settles_inv_def)
  then show ?thesis by (simp add: settles_inv_def)
qed

text \<open>When the effect of the device runs no request waits any more.\<close>

lemma render_eq:
  assumes inv: "settles_inv s" and valid: "valid = hasValidTransportConfig mode (trim d) httpBaseUrl url token"
    and changed: "\<not> (trim d = tn_deviceId s \<and> url = tn_signalingUrl s \<and> valid = tn_valid s)"
    and s1: "s1 = (if tn_valid s then clearPendingRequests ''Transport connection was reset'' s else s)"
  shows "render mode d httpBaseUrl url token s =
    s1\<lparr>tn_deviceId := trim d, tn_signalingUrl := url, tn_valid := valid, tn_activeDevice := (if valid then trim d else tn_activeDevice s1)\<rparr>"
proof -
  have "tn_pending s1 = []" using render_reset [OF inv s1] by blast
  moreover have "render mode d httpBaseUrl url token s = (let s2 = s1\<lparr>tn_deviceId := trim d, tn_signalingUrl := url, tn_valid := valid\<rparr> in if valid then device_effect s2 else s2)"
    unfolding render_def Let_def valid [symmetric] s1 [symmetric] using changed by presburger
  ultimately show ?thesis by (simp add: device_effect_def)
qed

lemma render_inv: "settles_inv s \<Longrightarrow> settles_inv (render mode d httpBaseUrl url token s)"
proof -
  assume inv: "settles_inv s"
  let ?valid = "hasValidTransportConfig mode (trim d) httpBaseUrl url token"
  show ?thesis
  proof (cases "trim d = tn_deviceId s \<and> url = tn_signalingUrl s \<and> ?valid = tn_valid s")
    case True
    then have "render mode d httpBaseUrl url token s = s" unfolding render_def Let_def by (rule if_P)
    then show ?thesis using inv by simp
  next
    case False
    show ?thesis unfolding render_eq [OF inv refl False refl]
      by (rule settles_inv_cong [OF render_reset [OF inv refl, THEN conjunct1]]) (simp add: request_fields_def)
  qed
qed

lemma transport_inv_step: "transport_step s t \<Longrightarrow> settles_inv s \<Longrightarrow> settles_inv t"
  by (induction rule: transport_step.induct) (simp_all add: request_inv dispatch_inv timeout_inv clear_inv render_inv, (rule settles_inv_cong, assumption, simp)+)

interpretation transport: invariant_system transport_start transport_step settles_inv
proof
  show "settles_inv s" if "transport_start s" for s
    using that by (auto simp: transport_start_def new_transport_def settles_inv_def)
qed (rule transport_inv_step)

text \<open>
  C12. Every request settles exactly once. In every reachable state no promise was settled twice, each of
  the promises handed out is either settled or its timeout still runs, and not both; the entries that
  wait for an answer belong to running timeouts, and a timeout that runs out settles its promise. So no
  request waits for ever, whatever packets, renderings and timeouts come in whichever order.
\<close>

theorem request_settles_once:
  assumes "reachable_from transport_start transport_step s"
  shows "distinct (map fst (tn_settled s)) \<and>
    (\<forall>p < tn_next s. (p \<in> fst ` set (tn_settled s)) \<noteq> (jget (tn_timers s) p \<noteq> None)) \<and>
    (\<forall>r q. jget (tn_pending s) r = Some q \<longrightarrow> jget (tn_timers s) (pq_promise q) \<noteq> None) \<and>
    (\<forall>p. jget (tn_timers s) p \<noteq> None \<longrightarrow> p < tn_next s \<and> p \<in> fst ` set (tn_settled (rejectTimedOutRequest p s)))"
proof -
  let ?S = "fst ` set (tn_settled s)" and ?T = "dom (jget (tn_timers s))"
  have inv: "distinct (map fst (tn_settled s))" "?S \<union> ?T = {..<tn_next s}" "?S \<inter> ?T = {}"
    "\<And>r q. jget (tn_pending s) r = Some q \<Longrightarrow> \<exists>tm. jget (tn_timers s) (pq_promise q) = Some tm"
    using transport.inv_reachable [OF assms] unfolding settles_inv_def by blast+
  have "(p \<in> ?S) \<noteq> (p \<in> ?T)" if "p < tn_next s" for p using inv(2,3) that by blast
  moreover have "p < tn_next s" if "p \<in> ?T" for p using inv(2) that by blast
  moreover have "p \<in> fst ` set (tn_settled (rejectTimedOutRequest p s))" if "p \<in> ?T" for p
    using that by (auto simp: rejectTimedOutRequest_def settle_def)
  ultimately show ?thesis using inv(1,4) by (auto simp: domIff)
qed

lemma clear_settled:
  "tn_settled (clearPendingRequests reason s) = tn_settled s @ map (\<lambda>(r, q). (pq_promise q, Rejected (plain_error reason r))) (tn_pending s)"
proof -
  have "tn_settled (fold (reject_entry reason) m u) = tn_settled u @ map (\<lambda>(r, q). (pq_promise q, Rejected (plain_error reason r))) m" for m and u :: transport
    by (induction m arbitrary: u) (auto simp: reject_entry_def settle_def split: prod.splits)
  then show ?thesis by (simp add: clearPendingRequests_def)
qed

text \<open>
  A changed device rejects every waiting request, but not with its own message. In every reachable
  state, a rendering with another device settles exactly the waiting requests, in their order, as requests
  of a connection that was reset: the clean-up of the connection's effect runs first, so the effect of the
  device finds none left and the message naming the two devices is never given.
\<close>

theorem device_change_rejects_as_reset:
  assumes "reachable_from transport_start transport_step s" and "trim d \<noteq> tn_deviceId s"
  shows "tn_settled (render mode d httpBaseUrl url token s) =
      tn_settled s @ map (\<lambda>(r, q). (pq_promise q, Rejected (plain_error ''Transport connection was reset'' r))) (tn_pending s) \<and>
    tn_pending (render mode d httpBaseUrl url token s) = []"
proof -
  note inv = transport.inv_reachable [OF assms(1)]
  have "\<not> (trim d = tn_deviceId s \<and> url = tn_signalingUrl s \<and> hasValidTransportConfig mode (trim d) httpBaseUrl url token = tn_valid s)" using assms(2) by blast
  moreover have "tn_pending s = []" if "\<not> tn_valid s" using inv that by (auto simp: settles_inv_def)
  ultimately show ?thesis using render_eq [OF inv refl _ refl, where mode = mode and d = d and httpBaseUrl = httpBaseUrl and url = url and token = token] by (auto simp: clear_settled)
qed

section \<open>Request ids\<close>

lemma show_fields:
  "tn_pending (show_packet now a u) = tn_pending u" "tn_timers (show_packet now a u) = tn_timers u" "tn_settled (show_packet now a u) = tn_settled u"
  using view_fields(4) [of now a u] by (auto simp: request_fields_def)

text \<open>
  A timeout takes away the entry of another request. When two requests carry the same id, the second
  replaces the first one's entry; the first one's timeout then deletes the second one's entry, so the answer
  to the second is not recognised and it, too, ends by its timeout.
\<close>

theorem request_id_reuse_loses_answer:
  assumes first: "jget (tn_timers s) p = Some tm" "tm_requestId tm = rid"
    and second: "jget (tn_pending s) rid = Some q" "pq_promise q \<noteq> p" "jget (tn_timers s) (pq_promise q) = Some tm'"
    and answer: "readPacketRequestId a = Some rid" "answers a q"
  shows "(pq_promise q, answer_settlement rid a) \<in> set (tn_settled (fst (dispatchPacket now a s))) \<and>
    tn_settled (fst (dispatchPacket now a (rejectTimedOutRequest p s))) = tn_settled (rejectTimedOutRequest p s) \<and>
    jget (tn_timers (fst (dispatchPacket now a (rejectTimedOutRequest p s)))) (pq_promise q) = Some tm'"
  using assms by (auto simp: dispatchPacket_def Let_def show_fields rejectTimedOutRequest_def settle_def)

section \<open>From the request to its answer\<close>

lemma canClientPublish_type:
  "env_type e = env_type e' \<Longrightarrow> canClientPublishPacket (createPacket dev sv sub e) c = canClientPublishPacket (createPacket dev sv sub e') c"
  by (cases sv) (simp_all add: canClientPublishPacket_def createPacket_def)

definition request_id :: "string \<Rightarrow> request_options \<Rightarrow> string" where
  "request_id fresh opts = (case blank_to_none (rq_requestId opts) of None \<Rightarrow> fresh | Some r \<Rightarrow> r)"

lemma request_waits:
  assumes "provider_request fresh opts s = (t, Some d)" "rq_responseSubtopics opts = None" "rq_responseTypes opts = None"
  shows "tn_pending t = jset (request_id fresh opts) \<lparr>pq_promise = tn_next s, pq_responseSubtopics = [''response''], pq_responseTypes = None,
      pq_service = normalizeServiceName (rq_service opts)\<rparr> (tn_pending s) \<and> tn_settled t = tn_settled s \<and>
    trim (rq_command opts) \<noteq> [] \<and> trim (case rq_subtopic opts of None \<Rightarrow> ''command'' | Some u \<Rightarrow> u) \<noteq> [] \<and>
    d = \<lparr>df_msgId = None, df_payload = JObj (jset ''requestId'' (JStr (request_id fresh opts)) (rq_payload opts)),
      df_service = normalizeServiceName (rq_service opts), df_subtopic = trim (case rq_subtopic opts of None \<Rightarrow> ''command'' | Some u \<Rightarrow> u),
      df_timestamp = None, df_type = trim (rq_command opts)\<rparr>"
proof -
  have "trim ''response'' = ''response''" by code_simp
  then show ?thesis using assms by (auto simp: provider_request_def Let_def request_id_def DEFAULT_RESPONSE_SUBTOPICS_def notify_def normalizeServiceName_def split: if_splits)
qed

lemma read_request_id:
  "readPacketRequestId p = Some r \<Longrightarrow> requestId (readRoutingIds (JObj (pk_envelope p))) = Some r"
  by (auto simp: readPacketRequestId_def payload_field_def unwrapPayload_def readRoutingIds_def unwrapEnvelopePayload_def normalizeOptionalString_def
      split: jv.splits if_splits)


section \<open>A second connection\<close>

text \<open>
  Reconnecting the same client leaves two sockets behind. When the effects run again on a client whose
  socket is open (another device behind the same url), the old socket is told to close and a new one is
  opened, which the device is announced on. The old socket's end arrives afterwards: the client forgets
  the new socket, the timer opens a third one, and both stay open. The client goes on with the third,
  which is never told the device.
\<close>

theorem rerun_leaves_two_sockets:
  assumes ws: "lc_ws c = Some i" "i < length (lc_sockets c)" "lc_sockets c ! i = OPEN" "n = length (lc_sockets c)" "lc_url c \<noteq> []" "trim d \<noteq> []"
    and run: "rerun_connection hm hs d c = (c1, es1)" "live_handle jp (SocketOpened n) c1 = (c2, es2)"
      "live_handle jp (SocketClosed i code reason) c2 = (c3, es3)" "live_handle jp (TimerFired (lc_nextTimer c)) c3 = (c4, es4)"
      "live_handle jp (SocketOpened (Suc n)) c4 = (c5, es5)"
  shows "live_enabled (SocketOpened n) c1 \<and> live_enabled (SocketClosed i code reason) c2 \<and> live_enabled (TimerFired (lc_nextTimer c)) c3 \<and>
    live_enabled (SocketOpened (Suc n)) c4 \<and> sent_frames es2 = [set_device_frame (trim d)] \<and> lc_sockets c5 ! n = OPEN \<and> lc_sockets c5 ! Suc n = OPEN \<and>
    lc_ws c5 = Some (Suc n) \<and> sent_frames es5 = []"
proof -
  have c1: "lc_ws c1 = Some n" "lc_sockets c1 = (lc_sockets c)[i := CLOSING] @ [CONNECTING]" "lc_outboundQueue c1 = [set_device_frame (trim d)]"
    "lc_nextTimer c1 = lc_nextTimer c" "lc_url c1 = lc_url c" "lc_shouldReconnect c1"
    using run(1) ws by (auto simp: rerun_connection_def disconnect_def offStatus_def offMessage_def onStatus_def onMessage_def connect_def client_setDevice_def
        send_or_queue_def ws_ready_def Let_def MAX_QUEUE_SIZE_def nth_append split: prod.splits)
  have c2: "lc_ws c2 = Some n" "lc_sockets c2 = (lc_sockets c)[i := CLOSING] @ [OPEN]" "lc_outboundQueue c2 = []" "sent_frames es2 = [set_device_frame (trim d)]"
    "lc_nextTimer c2 = lc_nextTimer c" "lc_url c2 = lc_url c" "lc_shouldReconnect c2"
    using run(2) c1 ws(4) by (auto simp: ws_onopen_def flushQueue_def ws_ready_def Let_def list_update_append nth_append sent_frames_def emitStatus_def map_filter_def)
  have c3: "lc_ws c3 = None" "lc_sockets c3 = (lc_sockets c)[i := CLOSED] @ [OPEN]" "lc_outboundQueue c3 = []" "lc_nextTimer c \<in> set (lc_timers c3)" "lc_url c3 = lc_url c"
    using run(3) c2 ws(2,4) by (auto simp: ws_onclose_def Let_def list_update_append)
  have c4: "lc_ws c4 = Some (Suc n)" "lc_sockets c4 = (lc_sockets c)[i := CLOSED] @ [OPEN, CONNECTING]" "lc_outboundQueue c4 = []"
    using run(4) c3 ws(4,5) by (auto simp: connect_def ws_ready_def Let_def)
  have c5: "lc_ws c5 = Some (Suc n)" "lc_sockets c5 = (lc_sockets c)[i := CLOSED] @ [OPEN, OPEN]" "sent_frames es5 = []"
    using run(5) c4 ws(4) by (auto simp: ws_onopen_def flushQueue_def ws_ready_def Let_def list_update_append nth_append sent_frames_def emitStatus_def map_filter_def)
  show ?thesis using c1 c2 c3 c4 c5 ws by (simp add: nth_append)
qed

section \<open>Examples\<close>

definition demo_options :: "string \<Rightarrow> request_options" where
  "demo_options command = \<lparr>rq_command = command, rq_payload = [], rq_requestId = Some '' r1'', rq_responseSubtopics = None, rq_responseTypes = None,
     rq_service = Some ''roi'', rq_subtopic = None\<rparr>"

definition demo_answer :: packet where
  "demo_answer = \<lparr>pk_deviceId = ''cam'', pk_envelope = [(''type'', JStr ''list''), (''payload'', JObj [(''requestId'', JStr ''r1'')])],
     pk_service = Some ''roi'', pk_subtopic = ''response''\<rparr>"

definition demo_mounted :: transport where
  "demo_mounted = render Edge ''cam'' ''http://edge'' ''ws://edge'' [] (new_transport ''cam'')"

text \<open>Two requests with the id \<open>r1\<close> wait.\<close>

definition demo_waiting :: transport where
  "demo_waiting = fst (provider_request ''f'' (demo_options ''get'') (fst (provider_request ''f'' (demo_options ''list'') demo_mounted)))"

lemma demo_waiting_reachable: "reachable_from transport_start transport_step demo_waiting"
proof -
  have "reachable_from transport_start transport_step (new_transport ''cam'')" by (rule reach_start) (auto simp: transport_start_def)
  then have "reachable_from transport_start transport_step demo_mounted" unfolding demo_mounted_def by (rule reach_next) (rule step_render)
  then have "reachable_from transport_start transport_step (fst (provider_request ''f'' (demo_options ''list'') demo_mounted))" by (rule reach_next) (rule step_request)
  then show ?thesis unfolding demo_waiting_def by (rule reach_next) (rule step_request)
qed

theorem request_settles_once_witness:
  "tn_next demo_waiting = 2 \<and> tn_settled demo_waiting = [] \<and> 1 \<in> fst ` set (tn_settled (rejectTimedOutRequest 1 demo_waiting))"
proof -
  have "tn_next demo_waiting = 2" "tn_settled demo_waiting = []" "jget (tn_timers demo_waiting) 1 \<noteq> None" by code_simp+
  then show ?thesis using request_settles_once [OF demo_waiting_reachable] by blast
qed

theorem device_change_rejects_as_reset_witness:
  "length (tn_pending demo_waiting) = 1 \<and> tn_pending (render Edge ''door'' ''http://edge'' ''ws://edge'' [] demo_waiting) = [] \<and>
   length (tn_settled (render Edge ''door'' ''http://edge'' ''ws://edge'' [] demo_waiting)) = 1"
proof -
  have "trim ''door'' \<noteq> tn_deviceId demo_waiting" "length (tn_pending demo_waiting) = 1" "tn_settled demo_waiting = []" by code_simp+
  then show ?thesis using device_change_rejects_as_reset [OF demo_waiting_reachable, of "''door''" Edge "''http://edge''" "''ws://edge''" "[]"] by simp
qed

theorem request_id_reuse_loses_answer_witness:
  "tn_settled (fst (dispatchPacket 0 demo_answer (rejectTimedOutRequest 0 demo_waiting))) = tn_settled (rejectTimedOutRequest 0 demo_waiting)"
proof -
  have "jget (tn_timers demo_waiting) 0 = Some \<lparr>tm_requestId = ''r1'', tm_service = Some ''roi'', tm_command = ''list''\<rparr>"
    "jget (tn_pending demo_waiting) ''r1'' = Some \<lparr>pq_promise = 1, pq_responseSubtopics = [''response''], pq_responseTypes = None, pq_service = Some ''roi''\<rparr>"
    "jget (tn_timers demo_waiting) 1 = Some \<lparr>tm_requestId = ''r1'', tm_service = Some ''roi'', tm_command = ''get''\<rparr>"
    "readPacketRequestId demo_answer = Some ''r1''"
    "answers demo_answer \<lparr>pq_promise = 1, pq_responseSubtopics = [''response''], pq_responseTypes = None, pq_service = Some ''roi''\<rparr>" by code_simp+
  then show ?thesis using request_id_reuse_loses_answer [of demo_waiting 0 _ "''r1''" _ _ demo_answer 0] by simp
qed

definition demo_context :: client_context where
  "demo_context = \<lparr>allowedSelectors = [''list''], allowedServiceNames = [''roi''], cc_deviceId = ''cam'', cc_userId = ''u''\<rparr>"

definition demo_live_gateway :: gateway where
  "demo_live_gateway = \<lparr>clients = [(7, demo_context)], requestOwners = [], sessionOwners = [], clientRequests = [], clientSessions = [],
     lastKnownStatuses = [], inboundRateLimits = [], ready = (\<lambda>_. OPEN), listening = [7], awaiting = [], mqtt = \<lparr>mq_client = True, subscriptionRefs = []\<rparr>\<rparr>"

definition demo_request_frame :: jobject where
  "demo_request_frame = the (draft_frame (the (snd (provider_request ''f'' (demo_options ''list'') demo_mounted))))"


theorem rerun_leaves_two_sockets_witness:
  "\<exists>c1 c2 c3 c4 c5. fst (rerun_connection 5 6 ''door'' (lh_client live_demo)) = c1 \<and> fst (live_handle (\<lambda>_. None) (SocketOpened 2) c1) = c2 \<and>
     fst (live_handle (\<lambda>_. None) (SocketClosed 1 ''1000'' []) c2) = c3 \<and> fst (live_handle (\<lambda>_. None) (TimerFired 0) c3) = c4 \<and>
     fst (live_handle (\<lambda>_. None) (SocketOpened (Suc 2)) c4) = c5 \<and> lc_sockets c5 ! 2 = OPEN \<and> lc_sockets c5 ! Suc 2 = OPEN \<and> lc_ws c5 = Some (Suc 2)"
proof -
  let ?c = "lh_client live_demo" and ?jp = "\<lambda>_ :: string. None :: jv option"
  have start: "lc_ws ?c = Some 1" "1 < length (lc_sockets ?c)" "lc_sockets ?c ! 1 = OPEN" "2 = length (lc_sockets ?c)" "lc_url ?c \<noteq> []" "trim ''door'' \<noteq> []"
    by code_simp+
  have timer: "lc_nextTimer ?c = 0" by code_simp
  obtain c1 es1 where 1: "rerun_connection 5 6 ''door'' ?c = (c1, es1)" by force
  obtain c2 es2 where 2: "live_handle ?jp (SocketOpened 2) c1 = (c2, es2)" by force
  obtain c3 es3 where 3: "live_handle ?jp (SocketClosed 1 ''1000'' []) c2 = (c3, es3)" by force
  obtain c4 es4 where 4: "live_handle ?jp (TimerFired (lc_nextTimer ?c)) c3 = (c4, es4)" by force
  obtain c5 es5 where 5: "live_handle ?jp (SocketOpened (Suc 2)) c4 = (c5, es5)" by force
  have "lc_sockets c5 ! 2 = OPEN" "lc_sockets c5 ! Suc 2 = OPEN" "lc_ws c5 = Some (Suc 2)"
    using rerun_leaves_two_sockets [OF start 1 2 3 4 5] by blast+
  then show ?thesis using 1 2 3 4 5 unfolding timer by (metis fst_conv)
qed

end
