(* ===== verification/Device_Services.thy ===== *)
theory Device_Services
  imports Live_Transport
begin

text \<open>
  Services of a device as the browser uses them (\<open>trakrai-live-transport/src/lib/service-contract-runtime.ts\<close>,
  \<open>hooks/use-device-service.ts\<close>, \<open>hooks/use-typed-device-service.ts\<close>): contracts, the requests and
  subscriptions built from them, and what becomes of their answers in the provider and the gateway.
  The caching of answers by the query library is left out.
\<close>

section \<open>Contracts\<close>

datatype output_kind = KindError | KindEvent | KindSuccess

record contract_output =
  co_kind :: output_kind
  co_messageType :: string
  co_subtopic :: string

record contract_method =
  cm_aliases :: "string list"
  cm_outputs :: "contract_output list"
  cm_subtopic :: string

record service_contract =
  sc_methods :: "(string, contract_method) jmap"
  sc_name :: string

definition defineServiceContractMethod :: "string list option \<Rightarrow> contract_output list \<Rightarrow> string \<Rightarrow> contract_method" where
  "defineServiceContractMethod aliases outputs subtopic =
     \<lparr>cm_aliases = (case aliases of None \<Rightarrow> [] | Some as \<Rightarrow> as), cm_outputs = outputs, cm_subtopic = subtopic\<rparr>"

definition getServiceContractMethod :: "service_contract \<Rightarrow> string \<Rightarrow> string + contract_method" where
  "getServiceContractMethod c name =
     (case jget (sc_methods c) name of None \<Rightarrow> Inl (''Unknown service contract method: '' @ name) | Some m \<Rightarrow> Inr m)"

definition getServiceContractResponseOutputs :: "service_contract \<Rightarrow> string \<Rightarrow> string + contract_output list" where
  "getServiceContractResponseOutputs c name =
     (case getServiceContractMethod c name of Inl e \<Rightarrow> Inl e | Inr m \<Rightarrow> Inr (filter (\<lambda>o1. co_subtopic o1 = ''response'') (cm_outputs m)))"

fun find_event_output :: "contract_method list \<Rightarrow> string \<Rightarrow> contract_output option" where
  "find_event_output [] messageType = None"
| "find_event_output (m # ms) messageType =
     (case find (\<lambda>o1. co_kind o1 = KindEvent \<and> co_messageType o1 = messageType) (cm_outputs m) of
        Some o1 \<Rightarrow> Some o1 | None \<Rightarrow> find_event_output ms messageType)"

definition getServiceContractEventOutput :: "service_contract \<Rightarrow> string \<Rightarrow> contract_output option" where
  "getServiceContractEventOutput c messageType = find_event_output (map snd (sc_methods c)) messageType"

section \<open>Services\<close>

record service_event =
  sv_packet :: packet
  sv_payload :: jv
  sv_responseType :: "string option"

text \<open>The three functions of \<open>useDeviceService\<close>; the first argument is the service's name.\<close>

definition service_request ::
  "string \<Rightarrow> string \<Rightarrow> jobject \<Rightarrow> string option \<Rightarrow> string list option \<Rightarrow> string list option \<Rightarrow> string option \<Rightarrow> request_options" where
  "service_request serviceName command payload requestId' responseSubtopics responseTypes subtopic =
     \<lparr>rq_command = command, rq_payload = payload, rq_requestId = requestId', rq_responseSubtopics = responseSubtopics,
      rq_responseTypes = responseTypes, rq_service = Some (trim serviceName), rq_subtopic = subtopic\<rparr>"

definition service_notify :: "string \<Rightarrow> string \<Rightarrow> jobject \<Rightarrow> string option \<Rightarrow> packet_draft option" where
  "service_notify serviceName type payload subtopic = notify type payload (Some (trim serviceName)) subtopic"

definition service_subscription :: "string \<Rightarrow> string list option \<Rightarrow> string list option \<Rightarrow> packet \<Rightarrow> service_event option" where
  "service_subscription serviceName subtopics types p =
     (if (case pk_service p of None \<Rightarrow> [] | Some s \<Rightarrow> s) \<noteq> trim serviceName then None
      else if (case subtopics of None \<Rightarrow> False | Some ss \<Rightarrow> ss \<noteq> [] \<and> pk_subtopic p \<notin> set ss) then None
      else if (case types of None \<Rightarrow> False
               | Some ts \<Rightarrow> ts \<noteq> [] \<and> (case getEnvelopeType (pk_envelope p) of None \<Rightarrow> True | Some t \<Rightarrow> t \<notin> set ts)) then None
      else Some \<lparr>sv_packet = p, sv_payload = unwrapPayload (pk_envelope p), sv_responseType = getEnvelopeType (pk_envelope p)\<rparr>)"

section \<open>Typed services\<close>

definition DEFAULT_RESPONSE_SUBTOPIC :: string where
  "DEFAULT_RESPONSE_SUBTOPIC = ''response''"

definition resolved_service :: "service_contract \<Rightarrow> string option \<Rightarrow> string" where
  "resolved_service c serviceName = trim (case serviceName of None \<Rightarrow> sc_name c | Some s \<Rightarrow> trim s)"

definition typed_connected :: "service_contract \<Rightarrow> string option \<Rightarrow> connection_state \<Rightarrow> bool" where
  "typed_connected c serviceName transportState \<longleftrightarrow> resolved_service c serviceName \<noteq> [] \<and> transportState = Connected"

definition typed_request :: "service_contract \<Rightarrow> string option \<Rightarrow> string \<Rightarrow> jobject \<Rightarrow> string option \<Rightarrow> string + request_options" where
  "typed_request c serviceName methodName input requestId' =
     (case (getServiceContractMethod c methodName, getServiceContractResponseOutputs c methodName) of
        (Inr m, Inr outputs) \<Rightarrow>
          let subtopics = jset_of (map co_subtopic outputs) in
          Inr (service_request (resolved_service c serviceName) methodName input requestId'
                 (Some (if subtopics \<noteq> [] then subtopics else [DEFAULT_RESPONSE_SUBTOPIC])) (Some (map co_messageType outputs)) (Some (cm_subtopic m)))
      | (Inl e, _) \<Rightarrow> Inl e
      | (_, Inl e) \<Rightarrow> Inl e)"

definition typed_notify :: "service_contract \<Rightarrow> string option \<Rightarrow> string \<Rightarrow> jobject \<Rightarrow> string + packet_draft option" where
  "typed_notify c serviceName methodName input =
     (case getServiceContractMethod c methodName of
        Inl e \<Rightarrow> Inl e
      | Inr m \<Rightarrow> Inr (service_notify (resolved_service c serviceName) methodName input (Some (cm_subtopic m))))"

text \<open>The event the handler is called with, if it is called.\<close>

definition typed_subscription :: "service_contract \<Rightarrow> string option \<Rightarrow> string \<Rightarrow> packet \<Rightarrow> service_event option" where
  "typed_subscription c serviceName messageType p =
     (case getServiceContractEventOutput c messageType of
        None \<Rightarrow> None
      | Some o1 \<Rightarrow> service_subscription (resolved_service c serviceName) (Some [co_subtopic o1]) (Some [messageType]) p)"

section \<open>Answers of a typed request\<close>

definition declared_types :: "contract_method \<Rightarrow> string list" where
  "declared_types m = map co_messageType (filter (\<lambda>o1. co_subtopic o1 = ''response'') (cm_outputs m))"

text \<open>Message types that trimming does not change, as in the generated contracts.\<close>

definition plain_types :: "contract_method \<Rightarrow> bool" where
  "plain_types m \<longleftrightarrow> declared_types m \<noteq> [] \<and> (\<forall>t \<in> set (declared_types m). trim t = t \<and> t \<noteq> [])"

lemma typed_request_eq:
  assumes "jget (sc_methods c) methodName = Some m" "plain_types m"
  shows "typed_request c serviceName methodName input requestId' =
    Inr (service_request (resolved_service c serviceName) methodName input requestId' (Some [''response'']) (Some (declared_types m)) (Some (cm_subtopic m)))"
proof -
  have subtopics: "jset_of (map co_subtopic (filter (\<lambda>o1. co_subtopic o1 = ''response'') os)) =
      (if filter (\<lambda>o1. co_subtopic o1 = ''response'') os = [] then [] else [''response''])" for os
    by (induction os) auto
  show ?thesis
    using assms by (simp add: typed_request_def getServiceContractMethod_def getServiceContractResponseOutputs_def plain_types_def declared_types_def Let_def subtopics)
qed

lemma set_jset_trim: "(\<forall>t \<in> set ts. trim t = t \<and> t \<noteq> []) \<Longrightarrow> set (jset_of (filter (\<lambda>t. t \<noteq> []) (map trim ts))) = set ts"
  by force

lemma typed_waits:
  assumes meth: "jget (sc_methods c) methodName = Some m" "plain_types m" "typed_request c serviceName methodName input requestId' = Inr opts"
    and req: "provider_request fresh opts s = (t, Some d)"
  shows "\<exists>q. jget (tn_pending t) (request_id fresh opts) = Some q \<and> pq_promise q = tn_next s \<and> tn_settled t = tn_settled s \<and>
    (\<forall>p. answers p q \<longleftrightarrow> normalizeServiceName (pk_service p) = normalizeServiceName (Some (resolved_service c serviceName)) \<and> pk_subtopic p = ''response'' \<and>
       (\<exists>x \<in> set (declared_types m). getEnvelopeType (pk_envelope p) = Some x))"
proof -
  have opts: "opts = service_request (resolved_service c serviceName) methodName input requestId' (Some [''response'']) (Some (declared_types m)) (Some (cm_subtopic m))"
    using meth(3) unfolding typed_request_eq [OF meth(1,2)] by simp
  have service: "trim (resolved_service c serviceName) = resolved_service c serviceName" by (simp add: resolved_service_def)
  have types: "declared_types m \<noteq> []" "set (jset_of (filter (\<lambda>t. t \<noteq> []) (map trim (declared_types m)))) = set (declared_types m)"
    using meth(2) set_jset_trim unfolding plain_types_def by blast+
  obtain x xs where x: "declared_types m = x # xs" using types(1) by (cases "declared_types m") auto
  have "trim ''response'' = ''response''" by code_simp
  then have t: "tn_pending t = jset (request_id fresh opts) \<lparr>pq_promise = tn_next s, pq_responseSubtopics = [''response''],
      pq_responseTypes = Some (jset_of (filter (\<lambda>t. t \<noteq> []) (map trim (x # xs)))), pq_service = normalizeServiceName (Some (resolved_service c serviceName))\<rparr> (tn_pending s)"
    "tn_settled t = tn_settled s"
    using req unfolding opts
    by (auto simp: provider_request_def service_request_def Let_def x request_id_def service split: if_splits)
  show ?thesis unfolding t using types(2) by (auto simp: answers_def x split: option.splits simp del: list.map filter.simps jset_of.simps)
qed

text \<open>
  C14. A typed request takes the answers of its contract and no others. A packet with the request's id settles
  it exactly when it comes from the service as a response of a type the method declares; it is rejected
  when the contract marks that type as an error and resolved otherwise, for contracts whose error types
  are the ones the provider takes for errors.
\<close>

theorem typed_request_settles:
  assumes meth: "jget (sc_methods c) methodName = Some m" "plain_types m" "typed_request c serviceName methodName input requestId' = Inr opts"
    and named: "\<forall>o1 \<in> set (cm_outputs m). co_subtopic o1 = ''response'' \<longrightarrow> (co_kind o1 = KindError \<longleftrightarrow> isErrorResponseType (Some (co_messageType o1)))"
    and req: "provider_request fresh opts s = (t, Some d)"
    and packet: "readPacketRequestId p = Some (request_id fresh opts)"
  shows "if normalizeServiceName (pk_service p) = normalizeServiceName (Some (resolved_service c serviceName)) \<and> pk_subtopic p = ''response'' \<and>
      (\<exists>x \<in> set (declared_types m). getEnvelopeType (pk_envelope p) = Some x)
    then \<exists>o1 \<in> set (cm_outputs m). getEnvelopeType (pk_envelope p) = Some (co_messageType o1) \<and>
      (\<exists>x. tn_settled (fst (dispatchPacket now p t)) = tn_settled s @ [(tn_next s, x)] \<and> (case x of Rejected _ \<Rightarrow> co_kind o1 = KindError | Resolved _ \<Rightarrow> co_kind o1 \<noteq> KindError))
    else tn_settled (fst (dispatchPacket now p t)) = tn_settled s \<and> tn_pending (fst (dispatchPacket now p t)) = tn_pending t"
proof -
  obtain q where q: "jget (tn_pending t) (request_id fresh opts) = Some q" "pq_promise q = tn_next s" "tn_settled t = tn_settled s"
    "\<And>p. answers p q \<longleftrightarrow> normalizeServiceName (pk_service p) = normalizeServiceName (Some (resolved_service c serviceName)) \<and> pk_subtopic p = ''response'' \<and>
       (\<exists>x \<in> set (declared_types m). getEnvelopeType (pk_envelope p) = Some x)"
    using typed_waits [OF meth req] by blast
  show ?thesis
  proof (cases "answers p q")
    case True
    then obtain o1 where o1: "o1 \<in> set (cm_outputs m)" "co_subtopic o1 = ''response''" "getEnvelopeType (pk_envelope p) = Some (co_messageType o1)"
      using q(4) by (auto simp: declared_types_def)
    have "tn_settled (fst (dispatchPacket now p t)) = tn_settled s @ [(tn_next s, answer_settlement (request_id fresh opts) p)]"
      using True q(1-3) packet by (simp add: dispatchPacket_def Let_def show_fields settle_def)
    moreover have "case answer_settlement (request_id fresh opts) p of Rejected _ \<Rightarrow> co_kind o1 = KindError | Resolved _ \<Rightarrow> co_kind o1 \<noteq> KindError"
      using named o1 by (simp add: answer_settlement_def Let_def)
    ultimately show ?thesis using True q(4) o1 by auto
  next
    case False
    then have "tn_settled (fst (dispatchPacket now p t)) = tn_settled s \<and> tn_pending (fst (dispatchPacket now p t)) = tn_pending t"
      using q(1,3) packet by (simp add: dispatchPacket_def Let_def show_fields)
    then show ?thesis using False q(4) by auto
  qed
qed

section \<open>Refused requests\<close>

text \<open>
  C39. A refused request hears nothing. When the gateway refuses to publish a command for a service, all it
  does is send one packet to the client; the provider does not recognise it: no waiting request is
  settled or taken off the table and nothing is shown, so the request waits for its timeout.
\<close>

theorem refused_request_waits:
  assumes frame: "obj_get frame ''envelope'' = JObj env" "obj_get frame ''subtopic'' = JStr subtopic" "normalizeOptionalString (obj_get frame ''service'') = Some service"
    and refused: "clientOwnsSession g w (sessionId (readRoutingIds (JObj env)))"
      "\<not> canClientPublishPacket (createPacket (cc_deviceId cx) (Some service) (trim subtopic) (normalizeIncomingEnvelope (nonces 0) env)) cx"
    and "ready g w = OPEN"
  shows "\<exists>p. packet_frame_handler nonces w cx frame g = (g, [SendPacket w p]) \<and>
    (\<forall>now t. tn_settled (fst (dispatchPacket now p t)) = tn_settled t \<and> tn_pending (fst (dispatchPacket now p t)) = tn_pending t \<and>
       tn_view (fst (dispatchPacket now p t)) = tn_view t)"
proof -
  let ?p = "gateway_error_packet (nonces 1) (cc_deviceId cx) ''You do not have permission to publish this device app action.''
    (Some (env_type (normalizeIncomingEnvelope (nonces 0) env))) (Some service) (Some (trim subtopic))"
  have "packet_frame_handler nonces w cx frame g = (g, [SendPacket w ?p])"
    using assms by (simp add: packet_frame_handler_def Let_def sendGatewayError_def sendPacket_def createPacket_def)
  moreover have "readPacketRequestId ?p = None"
    by (simp add: readPacketRequestId_def payload_field_def unwrapPayload_def gateway_error_packet_def createPacket_def buildEnvelope_def)
  moreover have "service \<noteq> []" using frame(3) by (auto simp: normalizeOptionalString_def split: jv.splits if_splits)
  then have "show_packet now ?p t = t" for now and t :: transport
    by (simp add: show_packet_def isDeviceStatusPacket_def gateway_error_packet_def createPacket_def)
  ultimately show ?thesis by (intro exI [of _ ?p]) (simp add: dispatchPacket_def Let_def)
qed

section \<open>Examples\<close>

definition demo_contract :: service_contract where
  "demo_contract = \<lparr>sc_methods = [(''list'', defineServiceContractMethod None
     [\<lparr>co_kind = KindSuccess, co_messageType = ''list'', co_subtopic = ''response''\<rparr>, \<lparr>co_kind = KindError, co_messageType = ''roi-error'', co_subtopic = ''response''\<rparr>] ''command'')],
     sc_name = ''roi''\<rparr>"

definition demo_typed :: request_options where
  "demo_typed = projr (typed_request demo_contract None ''list'' [] (Some ''r1''))"

theorem typed_request_settles_witness:
  "\<exists>x. tn_settled (fst (dispatchPacket 0 demo_answer (fst (provider_request ''f'' demo_typed demo_mounted)))) = tn_settled demo_mounted @ [(tn_next demo_mounted, x)]"
proof -
  let ?m = "defineServiceContractMethod None
     [\<lparr>co_kind = KindSuccess, co_messageType = ''list'', co_subtopic = ''response''\<rparr>, \<lparr>co_kind = KindError, co_messageType = ''roi-error'', co_subtopic = ''response''\<rparr>] ''command''"
  let ?q = "provider_request ''f'' demo_typed demo_mounted"
  have meth: "jget (sc_methods demo_contract) ''list'' = Some ?m" "plain_types ?m" "typed_request demo_contract None ''list'' [] (Some ''r1'') = Inr demo_typed"
    "\<forall>o1 \<in> set (cm_outputs ?m). co_subtopic o1 = ''response'' \<longrightarrow> (co_kind o1 = KindError \<longleftrightarrow> isErrorResponseType (Some (co_messageType o1)))"
    by code_simp+
  have "snd ?q \<noteq> None" by code_simp
  then have req: "?q = (fst ?q, Some (the (snd ?q)))" by (simp add: prod_eq_iff)
  have packet: "readPacketRequestId demo_answer = Some (request_id ''f'' demo_typed)" by code_simp
  have fits: "normalizeServiceName (pk_service demo_answer) = normalizeServiceName (Some (resolved_service demo_contract None)) \<and> pk_subtopic demo_answer = ''response'' \<and>
      (\<exists>x \<in> set (declared_types ?m). getEnvelopeType (pk_envelope demo_answer) = Some x)" by code_simp
  from typed_request_settles [OF meth req packet, of 0, unfolded if_P [OF fits]] show ?thesis by blast
qed

theorem refused_request_waits_witness:
  "\<exists>p. packet_frame_handler (\<lambda>_. (''m'', ''t'')) 7 (demo_context\<lparr>allowedSelectors := []\<rparr>) demo_request_frame demo_live_gateway = (demo_live_gateway, [SendPacket 7 p]) \<and>
     tn_settled (fst (dispatchPacket 0 p demo_waiting)) = tn_settled demo_waiting"
proof -
  let ?cx = "demo_context\<lparr>allowedSelectors := []\<rparr>"
  let ?env = "[(''payload'', JObj [(''requestId'', JStr ''r1'')]), (''type'', JStr ''list'')]"
  have env: "obj_get demo_request_frame ''envelope'' = JObj ?env" by code_simp
  have "obj_get demo_request_frame ''subtopic'' = JStr ''command''" "normalizeOptionalString (obj_get demo_request_frame ''service'') = Some ''roi''"
    "clientOwnsSession demo_live_gateway 7 (sessionId (readRoutingIds (JObj ?env)))"
    "\<not> canClientPublishPacket (createPacket (cc_deviceId ?cx) (Some ''roi'') (trim ''command'') (normalizeIncomingEnvelope (''m'', ''t'') ?env)) ?cx"
    "ready demo_live_gateway 7 = OPEN"
    by code_simp+
  from refused_request_waits [OF env this(1-3), where nonces = "\<lambda>_. (''m'', ''t'')", OF this(4,5)] show ?thesis by blast
qed

end
