(* ===== verification/Object_Nodes.thy ===== *)
theory Object_Nodes
  imports Flow_Validation
begin

text \<open>
  The object nodes of \<open>trakrai-workflow-schemas/src/nodes\<close>: merging alternative inputs
  (\<open>merge/merge-node-handler.ts\<close>, \<open>merge-node-utils.ts\<close>), combining inputs into an object
  (\<open>combine-object-node-handlers.ts\<close>) and spreading an object (\<open>spread-object-node-handler.ts\<close>). What a node
  returns conforms to the output schema it announces when the values it receives conform to the schemas
  of its handles. Schemas in a node's configuration are JSON values; \<open>read_schema\<close> reads one as a schema.
  The list \<open>required\<close> of a schema holds strings.
\<close>

section \<open>Verdicts and paths\<close>

text \<open>The path of a validation only appears in its errors.\<close>

definition verdict_of :: "verdict option \<Rightarrow> bool option" where
  "verdict_of r = map_option (\<lambda>e. e = None) r"

lemma verdict_of_ok: "verdict_of r = Some True \<longleftrightarrow> r = Some None"
  by (auto simp: verdict_of_def)

lemma verdict_cases:
  "verdict_of r = verdict_of r' \<Longrightarrow> (r = None \<and> r' = None) \<or> (r = Some None \<and> r' = Some None) \<or> (\<exists>e e'. r = Some (Some e) \<and> r' = Some (Some e'))"
  by (cases r; cases r') (auto simp: verdict_of_def)

lemma verdict_first_error:
  "(\<And>x. x \<in> set xs \<Longrightarrow> verdict_of (f x) = verdict_of (g x)) \<Longrightarrow> verdict_of (first_error f xs) = verdict_of (first_error g xs)"
proof (induction xs)
  case (Cons x xs)
  then have "verdict_of (first_error f xs) = verdict_of (first_error g xs)" "verdict_of (f x) = verdict_of (g x)" by simp_all
  then show ?case using verdict_cases [of "f x" "g x"] by (auto simp: verdict_of_def)
qed simp

lemma verdict_count:
  "(\<And>x. x \<in> set xs \<Longrightarrow> verdict_of (f x) = verdict_of (g x)) \<Longrightarrow> count_valid f xs = count_valid g xs"
proof (induction xs)
  case (Cons x xs)
  then have "count_valid f xs = count_valid g xs" "verdict_of (f x) = verdict_of (g x)" by simp_all
  then show ?case using verdict_cases [of "f x" "g x"] by auto
qed simp

lemma verdict_and_then:
  "verdict_of r = verdict_of r' \<Longrightarrow> verdict_of s = verdict_of s' \<Longrightarrow> verdict_of (and_then r s) = verdict_of (and_then r' s')"
  using verdict_cases [of r r'] by (auto simp: and_then_def)

lemma verdict_error [simp]:
  "verdict_of (Some None) = Some True" "verdict_of (Some (buildSchemaError p x)) = Some False"
  "verdict_of (Some (if b then None else buildSchemaError p x)) = Some b" "verdict_of (Some (if b then buildSchemaError p x else None)) = Some (\<not> b)"
  by (auto simp: verdict_of_def buildSchemaError_def)

lemma verdict_literal: "verdict_of (Some (literal_checks s v p)) = verdict_of (Some (literal_checks s v q))"
  by (auto simp: literal_checks_def verdict_of_def buildSchemaError_def split: option.splits)

lemma verdict_shape:
  assumes "\<And>x w p q. verdict_of (validate x w p) = verdict_of (validate x w q)"
  shows "verdict_of (shape_checks validate s v p) = verdict_of (shape_checks validate s v q)"
proof -
  have additional: "verdict_of (additional_check validate s w p') = verdict_of (additional_check validate s w q')" for w p' q'
    by (auto simp: additional_check_def assms split: option.splits schema.splits)
  have entry: "verdict_of (entry_check validate s p kv) = verdict_of (entry_check validate s q kv)" for kv
    unfolding entry_check_def Let_def
    by (cases "map_of (normalizeProperties (s_properties s)) (fst kv)"; cases "s_propertyNames s")
      (auto intro!: verdict_and_then additional assms)
  have object: "verdict_of (validateObjectShape validate s ps p) = verdict_of (validateObjectShape validate s ps q)" for ps
    unfolding validateObjectShape_def by (intro verdict_and_then verdict_first_error entry) simp
  have array: "verdict_of (validateArrayItems validate s xs p) = verdict_of (validateArrayItems validate s xs q)" for xs
    unfolding validateArrayItems_def
    by (intro verdict_and_then) (auto intro!: verdict_first_error assms split: option.splits items.splits)
  show ?thesis unfolding shape_checks_def by (cases v) (simp_all add: array object)
qed

lemma verdict_path: "verdict_of (validateJsonSchemaValue n defs s v p) = verdict_of (validateJsonSchemaValue n defs s v q)"
proof (induction n arbitrary: s v p q)
  case (Suc n)
  consider (bool) "is_SBool s" | (ref) r where "\<not> is_SBool s" "s_ref s = Some r" | (variants) vs where "\<not> is_SBool s" "s_ref s = None" "variants_of s = Some vs"
    | (step) "\<not> is_SBool s" "s_ref s = None" "variants_of s = None" by blast
  then show ?case
  proof cases
    case bool
    then show ?thesis by (cases s) (simp_all add: validate_bool)
  next
    case ref
    then show ?thesis using Suc by (auto simp: validate_ref split: option.splits)
  next
    case variants
    have "count_valid (\<lambda>x. validateJsonSchemaValue n defs x v p) vs = count_valid (\<lambda>x. validateJsonSchemaValue n defs x v q) vs"
      by (rule verdict_count) (rule Suc)
    then show ?thesis using variants by (auto simp: validate_variants split: option.splits)
  next
    case step
    then show ?thesis
      by (simp add: validate_step) (intro verdict_and_then verdict_first_error verdict_literal verdict_shape Suc)
  qed
qed simp

lemma validate_path: "validateJsonSchemaValue n defs s v p = Some None \<Longrightarrow> validateJsonSchemaValue n defs s v q = Some None"
  using verdict_path [of n defs s v p q] by (simp add: verdict_of_ok [symmetric])

section \<open>Configured schemas\<close>

definition configured_like :: "(jv \<Rightarrow> schema) \<Rightarrow> configured_schema \<Rightarrow> 'z schema_like option" where
  "configured_like read_schema c =
     (case c of NoSchema \<Rightarrow> None | BoolSchema b \<Rightarrow> Some (Json (SBool b)) | ObjectSchema v \<Rightarrow> Some (Json (read_schema v)))"

text \<open>The object literals with \<open>type: 'object'\<close>, properties, required keys and \<open>additionalProperties: false\<close>.\<close>

definition closed_object :: "(string \<times> schema) list \<Rightarrow> jv list option \<Rightarrow> schema" where
  "closed_object ps required =
     Schema None None None None JUndef None (Some (TOne ''object'')) (Some ps) required None (Some (SBool False)) None None False"

text \<open>\<open>outputSchema.required ?? Object.keys(outputSchema.properties)\<close>.\<close>

definition required_or_all :: "schema \<Rightarrow> string list" where
  "required_or_all s =
     (case s_required s of Some rs \<Rightarrow> List.map_filter as_string rs | None \<Rightarrow> jkeys (normalizeProperties (s_properties s)))"

section \<open>Merging\<close>

definition MERGE_INPUTS_KEY :: string where "MERGE_INPUTS_KEY = ''mergeInputs''"

definition MERGE_OUTPUT_SCHEMA_KEY :: string where "MERGE_OUTPUT_SCHEMA_KEY = ''mergeOutputSchema''"

definition MERGE_HANDLE_SEPARATOR :: string where "MERGE_HANDLE_SEPARATOR = ''__''"

record merge_input =
  mi_id :: string
  mi_label :: "string option"

definition isMergeInputDefinition :: "jv \<Rightarrow> bool" where
  "isMergeInputDefinition v =
     (case v of
        JObj ps \<Rightarrow>
          (case obj_get ps ''id'' of JStr i \<Rightarrow> i \<noteq> [] | _ \<Rightarrow> False) \<and>
          (obj_get ps ''label'' = JUndef \<or> js_typeof (obj_get ps ''label'') = ''string'')
      | _ \<Rightarrow> False)"

definition merge_input_of :: "jv \<Rightarrow> merge_input" where
  "merge_input_of v =
     (case v of
        JObj ps \<Rightarrow> \<lparr>mi_id = (case obj_get ps ''id'' of JStr i \<Rightarrow> i | _ \<Rightarrow> []), mi_label = as_string (obj_get ps ''label'')\<rparr>
      | _ \<Rightarrow> \<lparr>mi_id = [], mi_label = None\<rparr>)"

definition getMergeInputsFromConfig :: "jobject \<Rightarrow> merge_input list" where
  "getMergeInputsFromConfig configuration =
     (case obj_get configuration MERGE_INPUTS_KEY of JArr vs \<Rightarrow> map merge_input_of (filter isMergeInputDefinition vs) | _ \<Rightarrow> [])"

definition buildMergeHandleId :: "string \<Rightarrow> string \<Rightarrow> string" where
  "buildMergeHandleId inputId field = inputId @ MERGE_HANDLE_SEPARATOR @ field"

text \<open>The handles in the order of the two loops; assigning to a property keeps the place of the first assignment.\<close>

definition merge_handles :: "schema \<Rightarrow> merge_input list \<Rightarrow> (string \<times> string \<times> schema) list" where
  "merge_handles outputSchema inputs =
     concat (map (\<lambda>i. map (\<lambda>(field, s). (buildMergeHandleId (mi_id i) field, field, s)) (normalizeProperties (s_properties outputSchema))) inputs)"

definition buildMergeInputSchema :: "schema \<Rightarrow> merge_input list \<Rightarrow> schema" where
  "buildMergeInputSchema outputSchema inputs =
     (let hs = merge_handles outputSchema inputs;
          required = map (\<lambda>(h, _, _). JStr h) (filter (\<lambda>(_, field, _). field \<in> set (required_or_all outputSchema)) hs)
      in closed_object (fold (\<lambda>(h, _, s) ps. jset h s ps) hs []) (if required \<noteq> [] then Some required else None))"

definition getMergeOutputSchema :: "'z zod_ops \<Rightarrow> (jv \<Rightarrow> schema) \<Rightarrow> flow_node \<Rightarrow> schema" where
  "getMergeOutputSchema z read_schema node =
     (case getSchemaFromConfiguration node MERGE_OUTPUT_SCHEMA_KEY of
        NoSchema \<Rightarrow> closed_object [] None
      | c \<Rightarrow> toObjectSchema z (configured_like read_schema c))"

definition has_all_required :: "schema \<Rightarrow> jobject \<Rightarrow> string \<Rightarrow> bool" where
  "has_all_required outputSchema input inputId = list_all (\<lambda>field. obj_in (buildMergeHandleId inputId field) input) (required_or_all outputSchema)"

definition has_any_field :: "schema \<Rightarrow> jobject \<Rightarrow> string \<Rightarrow> bool" where
  "has_any_field outputSchema input inputId =
     list_ex (\<lambda>field. obj_in (buildMergeHandleId inputId field) input) (jkeys (normalizeProperties (s_properties outputSchema)))"

definition selectMergeInputId :: "merge_input list \<Rightarrow> schema \<Rightarrow> jobject \<Rightarrow> string option" where
  "selectMergeInputId inputs outputSchema input =
     (case find (has_all_required outputSchema input) (map mi_id inputs) of
        Some i \<Rightarrow> Some i
      | None \<Rightarrow> find (has_any_field outputSchema input) (map mi_id inputs))"

definition quoted :: "string \<Rightarrow> string" where
  "quoted t = CHR 0x27 # t @ [CHR 0x27]"

text \<open>The loop that fills the output.\<close>

fun merge_fields :: "string \<Rightarrow> string list \<Rightarrow> jobject \<Rightarrow> string list \<Rightarrow> string + jobject" where
  "merge_fields i required input [] = Inr []"
| "merge_fields i required input (field # fs) =
     (if obj_in (buildMergeHandleId i field) input
      then (case merge_fields i required input fs of
              Inl e \<Rightarrow> Inl e | Inr out \<Rightarrow> Inr ((field, obj_get input (buildMergeHandleId i field)) # out))
      else if field \<in> set required then Inl (''Merge input '' @ quoted i @ '' is missing required field '' @ quoted field)
      else merge_fields i required input fs)"

definition merge_execute :: "'z zod_ops \<Rightarrow> (jv \<Rightarrow> schema) \<Rightarrow> flow_node \<Rightarrow> jobject \<Rightarrow> string + jobject" where
  "merge_execute z read_schema node input =
     (let inputs = getMergeInputsFromConfig (getNodeConfiguration (Some node)) in
      if inputs = [] then Inl ''Merge node has no inputs configured''
      else
        let outputSchema = toObjectSchema z (configured_like read_schema (getSchemaFromConfiguration node MERGE_OUTPUT_SCHEMA_KEY)) in
        (case selectMergeInputId inputs outputSchema input of
           None \<Rightarrow> Inl ''Merge node did not receive input values from any predecessor''
         | Some i \<Rightarrow> merge_fields i (required_or_all outputSchema) input (jkeys (normalizeProperties (s_properties outputSchema)))))"

definition merge_handler :: "'z zod_ops \<Rightarrow> (jv \<Rightarrow> schema) \<Rightarrow> 'z node_handler" where
  "merge_handler z read_schema =
     \<lparr>nh_getInputSchema = (\<lambda>node. Return (Some (Json (buildMergeInputSchema (getMergeOutputSchema z read_schema node)
        (getMergeInputsFromConfig (getNodeConfiguration (Some node))))))),
      nh_getOutputSchema = (\<lambda>node. Return (Some (Json (getMergeOutputSchema z read_schema node)))),
      nh_getEvents = (\<lambda>_. Return None),
      nh_getConfigurationFields = (\<lambda>_. Return (Some [JObj [(''key'', JStr MERGE_OUTPUT_SCHEMA_KEY), (''label'', JStr ''Output Schema''),
        (''description'', JStr ''Defines the unified output shape. Each merge input must supply values for these fields.''),
        (''field'', JStr ''jsonSchemaBuilder'')]])),
      nh_getCategory = (\<lambda>_. Return (Some ''object'')),
      nh_getDescription = (\<lambda>_. Return (Some ''Merges multiple inputs into one unified output and runs when any input completes.'')),
      nh_getDependencyMode = (\<lambda>_. ModeAny)\<rparr>"

section \<open>Combining\<close>

text \<open>\<open>outputHandle\<close> and \<open>inputSchemaField\<close> are the fields of the handler object; \<open>resolve\<close> is the context's \<open>resolveNodeSchema\<close>.\<close>

definition combine_edge ::
  "(string \<Rightarrow> resolved_schema option) \<Rightarrow> flow_node \<Rightarrow> flow_edge \<Rightarrow> (string \<times> schema) list \<times> string list \<Rightarrow> (string \<times> schema) list \<times> string list" where
  "combine_edge resolve node edge acc =
     (case ed_targetHandle edge of
        None \<Rightarrow> acc
      | Some h \<Rightarrow>
          if ed_target edge \<noteq> nd_id node \<or> h = [] \<or> h = TriggerHandle then acc
          else (case getSourcePropertySchema resolve edge of
                  None \<Rightarrow> acc | Some s \<Rightarrow> (jset h s (fst acc), jadd h (snd acc))))"

definition getCombinedInputSchema ::
  "'z zod_ops \<Rightarrow> (jv \<Rightarrow> schema) \<Rightarrow> string \<Rightarrow> (string \<Rightarrow> resolved_schema option) \<Rightarrow> flow_edge list \<Rightarrow> flow_node \<Rightarrow> schema" where
  "getCombinedInputSchema z read_schema inputSchemaField resolve edges node =
     (let s = toObjectSchema z (configured_like read_schema (getSchemaFromConfiguration node inputSchemaField));
          (ps, required) = fold (combine_edge resolve node) edges (normalizeProperties (s_properties s), jset_of (required_or_all s))
      in Schema (s_ref s) (s_anyOf s) (s_oneOf s) (s_allOf s) (s_const s) (s_enum s) (Some (TOne ''object'')) (Some ps)
           (Some (map JStr required)) (s_propertyNames s) (s_additionalProperties s) (s_items s) (s_prefixItems s) (s_hasDefault s))"

definition combine_getOutputSchema ::
  "'z zod_ops \<Rightarrow> (jv \<Rightarrow> schema) \<Rightarrow> string \<Rightarrow> string \<Rightarrow> (string \<Rightarrow> resolved_schema option) \<Rightarrow> flow_edge list \<Rightarrow> flow_node \<Rightarrow> schema" where
  "combine_getOutputSchema z read_schema outputHandle inputSchemaField resolve edges node =
     (let s = getCombinedInputSchema z read_schema inputSchemaField resolve edges node
      in closed_object [(outputHandle, closed_object (normalizeProperties (s_properties s)) (s_required s))] (Some [JStr outputHandle]))"

definition combine_execute :: "string \<Rightarrow> jobject \<Rightarrow> jobject" where
  "combine_execute outputHandle input = [(outputHandle, JObj input)]"

section \<open>Spreading\<close>

definition spread_getInputSchema :: "string \<Rightarrow> schema" where
  "spread_getInputSchema inputHandle =
     closed_object [(inputHandle, Schema None None None None JUndef None (Some (TOne ''object'')) None None None None None None False)] (Some [JStr inputHandle])"

definition spread_getOutputSchema ::
  "'z zod_ops \<Rightarrow> string \<Rightarrow> (string \<Rightarrow> resolved_schema option) \<Rightarrow> flow_edge list \<Rightarrow> flow_node \<Rightarrow> schema" where
  "spread_getOutputSchema z inputHandle resolve edges node =
     (case find (\<lambda>e. ed_target e = nd_id node \<and> ed_targetHandle e = Some inputHandle) edges of
        None \<Rightarrow> closed_object [] None
      | Some e \<Rightarrow>
          let s = toObjectSchema z (map_option Json (getSourcePropertySchema resolve e))
          in Schema (s_ref s) (s_anyOf s) (s_oneOf s) (s_allOf s) (s_const s) (s_enum s) (Some (TOne ''object'')) (Some (normalizeProperties (s_properties s)))
               (s_required s) (s_propertyNames s) (s_additionalProperties s) (s_items s) (s_prefixItems s) (s_hasDefault s))"

definition spread_execute :: "string \<Rightarrow> jobject \<Rightarrow> jobject" where
  "spread_execute inputHandle input = (case obj_get input inputHandle of JObj ps \<Rightarrow> ps | _ \<Rightarrow> [])"

section \<open>Plain object schemas\<close>

definition plain_object :: "schema \<Rightarrow> bool" where
  "plain_object s \<longleftrightarrow> \<not> is_SBool s \<and> s_ref s = None \<and> variants_of s = None \<and> all_of s = [] \<and> s_const s = JUndef \<and> s_enum s = None \<and>
     s_type s = Some (TOne ''object'') \<and> s_items s = None \<and> s_prefixItems s = None"

lemma plain_object_ok:
  assumes "plain_object s"
  shows "validateJsonSchemaValue (Suc n) defs s (JObj ps) p = Some None \<longleftrightarrow>
    (\<forall>k. requires s k \<longrightarrow> obj_in k ps) \<and> (\<forall>kv \<in> set ps. entry_check (validateJsonSchemaValue n defs) s p kv = Some None)"
proof -
  have "literal_checks s (JObj ps) p = None" using assms by (simp add: literal_checks_ok plain_object_def matchesPrimitiveType_def)
  then show ?thesis
    using assms by (auto simp: plain_object_def validate_step and_then_def shape_checks_def object_shape_ok required_keys_iff split: option.splits)
qed

lemma closed_object_plain [simp]: "plain_object (closed_object ps required)"
  by (simp add: plain_object_def closed_object_def variants_of_def all_of_def)

lemma requires_all: "requires s k \<Longrightarrow> k \<in> set (required_or_all s)"
  by (auto simp: requires_def required_list_def includes_str required_or_all_def set_strings split: option.splits)

section \<open>What merging returns\<close>

lemma merge_output_eq:
  "toObjectSchema z (configured_like read_schema (getSchemaFromConfiguration node MERGE_OUTPUT_SCHEMA_KEY)) = getMergeOutputSchema z read_schema node"
  by (auto simp: getMergeOutputSchema_def configured_like_def toObjectSchema_def EMPTY_OBJECT_SCHEMA_def closed_object_def split: configured_schema.splits)

lemma merge_fields_keys:
  "merge_fields i required input fs = Inr out \<Longrightarrow>
   out = map (\<lambda>f. (f, obj_get input (buildMergeHandleId i f))) (filter (\<lambda>f. obj_in (buildMergeHandleId i f) input) fs) \<and>
   (\<forall>f \<in> set fs. f \<in> set required \<longrightarrow> obj_in (buildMergeHandleId i f) input)"
  by (induction fs arbitrary: out) (auto split: if_splits sum.splits)

lemma merge_fields_complete:
  "\<forall>f \<in> set required. obj_in (buildMergeHandleId i f) input \<Longrightarrow>
   merge_fields i required input fs = Inr (map (\<lambda>f. (f, obj_get input (buildMergeHandleId i f))) (filter (\<lambda>f. obj_in (buildMergeHandleId i f) input) fs))"
  by (induction fs) auto

lemma assigned_schema:
  "(\<And>h f s. (h, f, s) \<in> set hs \<Longrightarrow> h = H \<Longrightarrow> s = S) \<Longrightarrow> \<exists>f. (H, f, S) \<in> set hs \<Longrightarrow>
   map_of (fold (\<lambda>(h, _, s) ps. jset h s ps) hs ps) H = Some S"
proof (induction hs rule: rev_induct)
  case (snoc x hs)
  obtain h f s where x: "x = (h, f, s)" by (cases x)
  show ?case
  proof (cases "h = H")
    case True
    then show ?thesis using snoc.prems(1) [of h f s] x by simp
  next
    case False
    then have "\<exists>f. (H, f, S) \<in> set hs" using snoc.prems(2) x by auto
    then have "map_of (fold (\<lambda>(h, _, s) ps. jset h s ps) hs ps) H = Some S" using snoc.prems(1) by (intro snoc.IH) auto
    then show ?thesis using False x by simp
  qed
qed simp

lemma find_member: "find P xs = Some x \<Longrightarrow> x \<in> set xs"
  by (auto simp: find_Some_iff)

lemma merge_handle_schema:
  assumes props: "s_properties s = Some ps" "distinct (jkeys ps)" "map_of ps f = Some t"
    and inj: "inj_on (\<lambda>(i, f). buildMergeHandleId i f) (set (map mi_id inputs) \<times> set (jkeys ps))" "i \<in> set (map mi_id inputs)"
  shows "map_of (normalizeProperties (s_properties (buildMergeInputSchema s inputs))) (buildMergeHandleId i f) = Some t"
proof -
  let ?H = "buildMergeHandleId i f"
  have f: "f \<in> set (jkeys ps)" using map_of_SomeD [OF props(3)] by force
  have "map_of (fold (\<lambda>(h, _, s) ps. jset h s ps) (merge_handles s inputs) []) ?H = Some t"
  proof (rule assigned_schema)
    fix h g u assume "(h, g, u) \<in> set (merge_handles s inputs)" "h = ?H"
    then obtain j where j: "j \<in> set (map mi_id inputs)" "(g, u) \<in> set ps" "buildMergeHandleId j g = ?H"
      using props(1) by (fastforce simp: merge_handles_def normalizeProperties_def)
    have "g \<in> set (jkeys ps)" using j(2) by force
    then have "(j, g) = (i, f)" using inj_onD [OF inj(1), of "(j, g)" "(i, f)"] j inj(2) f by auto
    then show "u = t" using props(2,3) j(2) by (metis Pair_inject map_of_is_SomeI option.inject)
  next
    show "\<exists>g. (?H, g, t) \<in> set (merge_handles s inputs)"
      using inj(2) map_of_SomeD [OF props(3)] props(1) by (force simp: merge_handles_def normalizeProperties_def)
  qed
  then show ?thesis by (simp add: buildMergeInputSchema_def Let_def closed_object_def normalizeProperties_def)
qed

lemma obj_in_key: "obj_in k (map (\<lambda>f. (f, g f)) fs) \<longleftrightarrow> k \<in> set fs"
  by (induction fs) auto


text \<open>
  The first complete input wins. When an input delivered every required field, the merge node succeeds
  with exactly the fields that the first such input delivered, in the order of the schema, whatever the
  other inputs delivered.
\<close>

theorem merge_takes_first_complete:
  assumes "inputs = getMergeInputsFromConfig (getNodeConfiguration (Some node))" "s = getMergeOutputSchema z read_schema node"
    and "map mi_id inputs = before @ i # after" "\<forall>j \<in> set before. \<not> has_all_required s input j" "has_all_required s input i"
  shows "merge_execute z read_schema node input =
    Inr (map (\<lambda>f. (f, obj_get input (buildMergeHandleId i f)))
      (filter (\<lambda>f. obj_in (buildMergeHandleId i f) input) (jkeys (normalizeProperties (s_properties s)))))"
proof -
  have "find (has_all_required s input) (before @ i # after) = Some i" using assms(4,5) by (induction before) auto
  moreover have "inputs \<noteq> []" using assms(3) by auto
  ultimately show ?thesis
    using assms merge_fields_complete [of "required_or_all s" i input]
    by (simp add: merge_execute_def Let_def merge_output_eq selectMergeInputId_def has_all_required_def list_all_iff)
qed

text \<open>
  With optional fields only, the first input always wins. An output schema whose list of required
  fields is empty makes every input complete, so the merge node takes its first input even when that one
  delivered nothing: it returns the empty object and drops what the others delivered.
\<close>

theorem merge_optional_drops_values:
  assumes "getMergeInputsFromConfig (getNodeConfiguration (Some node)) = i # inputs" "s = getMergeOutputSchema z read_schema node" "s_required s = Some []"
    and "\<forall>f \<in> set (jkeys (normalizeProperties (s_properties s))). \<not> obj_in (buildMergeHandleId (mi_id i) f) input"
  shows "merge_execute z read_schema node input = Inr []"
proof -
  have "has_all_required s input (mi_id i)" using assms(3) by (simp add: has_all_required_def required_or_all_def map_filter_simps)
  then show ?thesis
    using assms merge_fields_complete [of "required_or_all s" "mi_id i" input]
    by (simp add: merge_execute_def Let_def merge_output_eq selectMergeInputId_def has_all_required_def list_all_iff)
qed

section \<open>What combining and spreading return\<close>

lemma entry_check_known:
  "normalizeProperties (s_properties s) = normalizeProperties (s_properties t) \<Longrightarrow> k \<in> set (jkeys (normalizeProperties (s_properties s))) \<Longrightarrow>
   entry_check validate s p (k, v) = entry_check validate t p (k, v)"
  by (auto simp: entry_check_def Let_def map_of_eq_None_iff split: option.splits)

lemma closed_single:
  "entry_check validate (closed_object [(k, t)] req) p (k, v) = validate t v (pathForKey p k)"
  "requires (closed_object ps (Some [JStr k])) i \<longleftrightarrow> i = k"
  by (auto simp: closed_object_def entry_check_def Let_def normalizeProperties_def requires_def required_list_def includes_str)

lemma entry_check_same:
  "normalizeProperties (s_properties s) = normalizeProperties (s_properties t) \<Longrightarrow> s_propertyNames s = s_propertyNames t \<Longrightarrow>
   s_additionalProperties s = s_additionalProperties t \<Longrightarrow> entry_check validate s p kv = entry_check validate t p kv"
  by (auto simp: entry_check_def additional_check_def Let_def split: option.splits)

lemma normalized_requires:
  "s_required t = (case normalizeRequired (s_required s) of None \<Rightarrow> s_required s | Some rs \<Rightarrow> Some (map JStr rs)) \<Longrightarrow> requires t k = requires s k"
  by (auto simp: requires_def required_list_def normalizeRequired_def Let_def includes_str set_strings image_iff split: option.splits if_splits)

text \<open>
  Combine and spread nodes return what they announce. A combine node that received an object conforming
  to its input schema, with no key beyond the schema's properties, returns a value conforming to its
  output schema; a spread node that received an object conforming to the schema of the connected source
  returns a value conforming to its output schema.
\<close>

theorem combine_spread_conform:
  assumes combine: "s = getCombinedInputSchema z read_schema inputSchemaField resolve edges node" "plain_object s"
      "validateJsonSchemaValue (Suc n) defs s (JObj input) p = Some None"
      "\<forall>k \<in> set (jkeys input). k \<in> set (jkeys (normalizeProperties (s_properties s)))"
    and spread: "find (\<lambda>e. ed_target e = nd_id node' \<and> ed_targetHandle e = Some inputHandle) edges' = Some e"
      "getSourcePropertySchema resolve' e = Some r" "plain_object r"
      "validateJsonSchemaValue (Suc m) defs r (obj_get input' inputHandle) p = Some None"
  shows "validateJsonSchemaValue (Suc (Suc n)) defs (combine_getOutputSchema z read_schema outputHandle inputSchemaField resolve edges node)
      (JObj (combine_execute outputHandle input)) q = Some None \<and>
    validateJsonSchemaValue (Suc m) defs (spread_getOutputSchema z inputHandle resolve' edges' node') (JObj (spread_execute inputHandle input')) q = Some None"
proof
  let ?inner = "closed_object (normalizeProperties (s_properties s)) (s_required s)"
  have "validateJsonSchemaValue (Suc n) defs ?inner (JObj input) p = Some None"
    unfolding plain_object_ok [OF closed_object_plain]
  proof (intro conjI allI impI ballI)
    note ok = combine(3) [unfolded plain_object_ok [OF combine(2)]]
    show "obj_in k input" if "requires ?inner k" for k
      using that ok by (simp add: requires_def required_list_def closed_object_def)
    fix kv assume kv: "kv \<in> set input"
    obtain k v where k: "kv = (k, v)" by force
    have "k \<in> set (jkeys (normalizeProperties (s_properties s)))" using combine(4) kv k by force
    then have "entry_check (validateJsonSchemaValue n defs) s p (k, v) = entry_check (validateJsonSchemaValue n defs) ?inner p (k, v)"
      by (intro entry_check_known) (simp_all add: closed_object_def normalizeProperties_def)
    then show "entry_check (validateJsonSchemaValue n defs) ?inner p kv = Some None" using ok kv k by simp
  qed
  then have inner: "validateJsonSchemaValue (Suc n) defs ?inner (JObj input) p' = Some None" for p' by (rule validate_path)
  show "validateJsonSchemaValue (Suc (Suc n)) defs (combine_getOutputSchema z read_schema outputHandle inputSchemaField resolve edges node)
      (JObj (combine_execute outputHandle input)) q = Some None"
    unfolding combine_getOutputSchema_def combine(1) [symmetric] Let_def
    by (rule plain_object_ok [OF closed_object_plain, THEN iffD2]) (simp add: closed_single combine_execute_def inner)
next
  obtain ps where ps: "obj_get input' inputHandle = JObj ps"
    using spread(3,4) by (auto simp: plain_object_def validate_step and_then_ok literal_checks_ok matchesPrimitiveType_def
        elim!: isPlainObject.elims)
  show "validateJsonSchemaValue (Suc m) defs (spread_getOutputSchema z inputHandle resolve' edges' node') (JObj (spread_execute inputHandle input')) q = Some None"
  proof -
    let ?t = "spread_getOutputSchema z inputHandle resolve' edges' node'"
    have t: "?t = (let s = with_object_shape r in
        Schema (s_ref s) (s_anyOf s) (s_oneOf s) (s_allOf s) (s_const s) (s_enum s) (Some (TOne ''object'')) (Some (normalizeProperties (s_properties s)))
          (s_required s) (s_propertyNames s) (s_additionalProperties s) (s_items s) (s_prefixItems s) (s_hasDefault s))"
      using spread(1-3) by (simp add: spread_getOutputSchema_def toObjectSchema_def has_type_def plain_object_def)
    have plain: "plain_object ?t"
      using spread(3) by (auto simp: t Let_def with_object_shape_def plain_object_def variants_of_def all_of_def split: option.splits)
    have "requires ?t k = requires r k" for k by (rule normalized_requires) (simp add: t Let_def with_object_shape_def)
    moreover have "entry_check validate ?t p kv = entry_check validate r p kv" for validate kv
      by (rule entry_check_same) (simp_all add: t Let_def with_object_shape_def normalizeProperties_def)
    ultimately have "validateJsonSchemaValue (Suc m) defs ?t (JObj ps) p = Some None"
      using spread(4) ps unfolding plain_object_ok [OF plain] by (simp add: plain_object_ok [OF spread(3)])
    then show ?thesis unfolding spread_execute_def ps jv.case by (rule validate_path)
  qed
qed

section \<open>Examples\<close>

definition demo_zod :: "unit zod_ops" where
  "demo_zod = \<lparr>toJSONSchema = (\<lambda>_. SBool True), safeParse = (\<lambda>_ v. Inr v)\<rparr>"

definition demo_shape :: "string list \<Rightarrow> jv \<Rightarrow> schema" where
  "demo_shape required _ = object_schema [(''x'', type_schema ''string''), (''y'', type_schema ''number'')] required None"

definition demo_merge :: flow_node where
  "demo_merge = \<lparr>nd_id = ''m'', nd_type = Some ''merge'', nd_configuration =
     JObj [(''mergeInputs'', JArr [JObj [(''id'', JStr ''a'')], JNull, JObj [(''id'', JStr ''b'')]]), (''mergeOutputSchema'', JObj [])]\<rparr>"

definition demo_received :: jobject where
  "demo_received = [(''b__x'', JStr ''v'')]"


theorem merge_takes_first_complete_witness:
  "merge_execute demo_zod (demo_shape [''x'']) demo_merge demo_received = Inr [(''x'', JStr ''v'')]"
proof -
  let ?s = "getMergeOutputSchema demo_zod (demo_shape [''x'']) demo_merge"
  have "map mi_id (getMergeInputsFromConfig (getNodeConfiguration (Some demo_merge))) = [''a''] @ ''b'' # []"
    "\<forall>j \<in> set [''a'']. \<not> has_all_required ?s demo_received j" "has_all_required ?s demo_received ''b''" by code_simp+
  from merge_takes_first_complete [OF refl refl this]
  have "merge_execute demo_zod (demo_shape [''x'']) demo_merge demo_received =
    Inr (map (\<lambda>f. (f, obj_get demo_received (buildMergeHandleId ''b'' f)))
      (filter (\<lambda>f. obj_in (buildMergeHandleId ''b'' f) demo_received) (jkeys (normalizeProperties (s_properties ?s)))))" .
  moreover have "jkeys (normalizeProperties (s_properties ?s)) = [''x'', ''y'']" by code_simp
  ultimately show ?thesis by (simp add: demo_received_def buildMergeHandleId_def MERGE_HANDLE_SEPARATOR_def)
qed

theorem merge_optional_drops_values_witness:
  "obj_in ''b__x'' demo_received \<and> merge_execute demo_zod (demo_shape []) demo_merge demo_received = Inr []"
proof -
  let ?s = "getMergeOutputSchema demo_zod (demo_shape []) demo_merge"
  have "getMergeInputsFromConfig (getNodeConfiguration (Some demo_merge)) = \<lparr>mi_id = ''a'', mi_label = None\<rparr> # [\<lparr>mi_id = ''b'', mi_label = None\<rparr>]"
    "s_required ?s = Some []" "\<forall>f \<in> set (jkeys (normalizeProperties (s_properties ?s))). \<not> obj_in (buildMergeHandleId (mi_id \<lparr>mi_id = ''a'', mi_label = None\<rparr>) f) demo_received"
    by code_simp+
  moreover have "obj_in ''b__x'' demo_received" by code_simp
  ultimately show ?thesis using merge_optional_drops_values [OF _ refl] by blast
qed

definition demo_edge :: flow_edge where
  "demo_edge = \<lparr>ed_id = ''e'', ed_source = ''s'', ed_target = ''m'', ed_sourceHandle = Some ''o'', ed_targetHandle = Some ''object'', ed_configuration = JUndef\<rparr>"

definition demo_resolve :: "string \<Rightarrow> resolved_schema option" where
  "demo_resolve _ = Some \<lparr>rs_input = EMPTY_OBJECT_SCHEMA, rs_output = closed_object [(''o'', closed_object [(''x'', type_schema ''string'')] (Some [JStr ''x'']))] None,
     rs_events = None, rs_configurationFields = None, rs_category = [], rs_description = []\<rparr>"

theorem combine_spread_conform_witness:
  "validateJsonSchemaValue 5 None (combine_getOutputSchema demo_zod (\<lambda>_. SBool True) ''result'' ''inputSchema'' demo_resolve [demo_edge] demo_merge)
     (JObj (combine_execute ''result'' [(''object'', JObj [(''x'', JStr ''v'')])])) [] = Some None \<and>
   validateJsonSchemaValue 4 None (spread_getOutputSchema demo_zod ''object'' demo_resolve [demo_edge] demo_merge)
     (JObj (spread_execute ''object'' [(''object'', JObj [(''x'', JStr ''v'')])])) [] = Some None"
proof -
  let ?in = "[(''object'', JObj [(''x'', JStr ''v'')])]"
  let ?s = "getCombinedInputSchema demo_zod (\<lambda>_. SBool True) ''inputSchema'' demo_resolve [demo_edge] demo_merge"
  let ?r = "closed_object [(''x'', type_schema ''string'')] (Some [JStr ''x''])"
  have "plain_object ?s" "validateJsonSchemaValue (Suc 3) None ?s (JObj ?in) [] = Some None"
    "\<forall>k \<in> set (jkeys ?in). k \<in> set (jkeys (normalizeProperties (s_properties ?s)))"
    "find (\<lambda>e. ed_target e = nd_id demo_merge \<and> ed_targetHandle e = Some ''object'') [demo_edge] = Some demo_edge"
    "getSourcePropertySchema demo_resolve demo_edge = Some ?r" "plain_object ?r"
    "validateJsonSchemaValue (Suc 3) None ?r (obj_get ?in ''object'') [] = Some None"
    by code_simp+
  from combine_spread_conform [OF refl this, of "''result''" "[]"] show ?thesis by simp
qed

end
