(* ===== verification/Workflow_Triggers.thy ===== *)
theory Workflow_Triggers
  imports Flow_Runtime
begin

text \<open>
  How workflow runs start (\<open>trakrai-workflow-plugins/src/triggers\<close>): the endpoints and the event dispatcher
  that build the context of a run, the trigger nodes that decide whether they are the start of it, and the
  callbacks of the editor that keep the stored triggers equal to the configured ones. The callbacks of the
  host application (\<open>preCheck\<close>, \<open>triggerCallback\<close>, \<open>triggerWorkflow\<close>, the stores) and Zod schemas of the host are arguments.
\<close>

section \<open>Contexts and endpoints\<close>

record trigger_context =
  tg_type :: string
  tg_id :: string
  tg_eventName :: string
  tg_data :: jv

datatype trigger_reply =
    MethodNotAllowed
  | InvalidInput
  | Raised string
  | Started trigger_context

definition or_empty :: "jv \<Rightarrow> jv" where
  "or_empty v = (case v of JUndef \<Rightarrow> JObj [] | JNull \<Rightarrow> JObj [] | _ \<Rightarrow> v)"

definition or_null :: "jv \<Rightarrow> jv" where
  "or_null v = (case v of JUndef \<Rightarrow> JNull | _ \<Rightarrow> v)"

text \<open>\<open>z.record(z.string(), z.unknown()).nullable().optional()\<close>\<close>

fun is_optional_record :: "jv \<Rightarrow> bool" where
  "is_optional_record (JObj _) = True"
| "is_optional_record JNull = True"
| "is_optional_record JUndef = True"
| "is_optional_record _ = False"

definition cronTriggerInput :: "jv \<Rightarrow> string option" where
  "cronTriggerInput body =
     (case body of JObj ps \<Rightarrow> (case obj_get ps ''cronTriggerId'' of JStr i \<Rightarrow> if i = [] then None else Some i | _ \<Rightarrow> None) | _ \<Rightarrow> None)"

definition cron_post :: "(string \<Rightarrow> string + string) \<Rightarrow> jv \<Rightarrow> trigger_reply" where
  "cron_post preCheck body =
     (case cronTriggerInput body of
        None \<Rightarrow> InvalidInput
      | Some i \<Rightarrow>
          (case preCheck i of
             Inl e \<Rightarrow> Raised e
           | Inr nodeId \<Rightarrow> Started \<lparr>tg_type = ''cron'', tg_id = ''cron:'' @ nodeId, tg_eventName = [], tg_data = JUndef\<rparr>))"

definition httpTriggerInput :: "jv \<Rightarrow> (string \<times> jv) option" where
  "httpTriggerInput body =
     (case body of
        JObj ps \<Rightarrow>
          (case obj_get ps ''token'' of
             JStr t \<Rightarrow> if is_optional_record (obj_get ps ''data'') then Some (t, obj_get ps ''data'') else None
           | _ \<Rightarrow> None)
      | _ \<Rightarrow> None)"

definition http_post :: "(string \<Rightarrow> string + string) \<Rightarrow> string \<Rightarrow> jv \<Rightarrow> trigger_reply" where
  "http_post preCheck httpMethod body =
     (if httpMethod \<noteq> ''POST'' then MethodNotAllowed
      else case httpTriggerInput body of
        None \<Rightarrow> InvalidInput
      | Some (token, payload) \<Rightarrow>
          (case preCheck token of
             Inl e \<Rightarrow> Raised e
           | Inr nodeId \<Rightarrow> Started \<lparr>tg_type = ''http'', tg_id = ''http:'' @ nodeId, tg_eventName = [], tg_data = payload\<rparr>))"

record manual_payload =
  mp_context :: jobject
  mp_data :: jv
  mp_nodeId :: "string option"

definition manualTriggerPayload :: "jv \<Rightarrow> manual_payload option" where
  "manualTriggerPayload body =
     (case body of
        JObj ps \<Rightarrow>
          (case obj_get ps ''context'' of
             JObj c \<Rightarrow>
               if \<not> is_optional_record (obj_get ps ''data'') then None
               else (case obj_get ps ''nodeId'' of
                       JUndef \<Rightarrow> Some \<lparr>mp_context = c, mp_data = obj_get ps ''data'', mp_nodeId = None\<rparr>
                     | JStr n \<Rightarrow> Some \<lparr>mp_context = c, mp_data = obj_get ps ''data'', mp_nodeId = Some n\<rparr>
                     | _ \<Rightarrow> None)
           | _ \<Rightarrow> None)
      | _ \<Rightarrow> None)"

text \<open>\<open>parse_context\<close> is the host's \<open>contextSchema\<close>; \<open>preCheck\<close> may refuse the run.\<close>

definition manual_post ::
  "(jobject \<Rightarrow> jobject option) \<Rightarrow> (jobject \<Rightarrow> jv \<Rightarrow> string option \<Rightarrow> string option) \<Rightarrow> string \<Rightarrow> jv \<Rightarrow> trigger_reply" where
  "manual_post parse_context preCheck httpMethod body =
     (if httpMethod \<noteq> ''POST'' then MethodNotAllowed
      else case manualTriggerPayload body of
        None \<Rightarrow> InvalidInput
      | Some p \<Rightarrow>
          (case parse_context (mp_context p) of
             None \<Rightarrow> InvalidInput
           | Some c \<Rightarrow>
               (case preCheck c (or_null (mp_data p)) (mp_nodeId p) of
                  Some e \<Rightarrow> Raised e
                | None \<Rightarrow> Started \<lparr>tg_type = ''manual'', tg_id = ''manual:'' @ (case mp_nodeId p of None \<Rightarrow> ''default'' | Some n \<Rightarrow> n),
                    tg_eventName = [], tg_data = or_null (mp_data p)\<rparr>)))"

section \<open>The event dispatcher\<close>

record 'x event_target =
  et_dedupeKey :: string
  et_nodeId :: string
  et_executionContext :: 'x

text \<open>The set of the keys seen before is the first argument.\<close>

fun dedupe_targets :: "string list \<Rightarrow> 'x event_target list \<Rightarrow> 'x event_target list" where
  "dedupe_targets seen [] = []"
| "dedupe_targets seen (t # ts) =
     (if et_dedupeKey t \<in> set seen then dedupe_targets seen ts else t # dedupe_targets (jadd (et_dedupeKey t) seen) ts)"

definition dedupeTargets :: "'x event_target list \<Rightarrow> 'x event_target list" where
  "dedupeTargets targets = dedupe_targets [] targets"

definition event_context :: "string \<Rightarrow> jv \<Rightarrow> 'x event_target \<Rightarrow> 'x \<times> trigger_context" where
  "event_context eventName payload t =
     (et_executionContext t, \<lparr>tg_type = ''event'', tg_id = ''event:'' @ et_nodeId t, tg_eventName = eventName, tg_data = payload\<rparr>)"

text \<open>The calls of \<open>triggerWorkflow\<close> in order, up to the first that raises.\<close>

fun trigger_all :: "('x \<times> trigger_context \<Rightarrow> string + string) \<Rightarrow> ('x \<times> trigger_context) list \<Rightarrow> (string + string list) \<times> ('x \<times> trigger_context) list" where
  "trigger_all triggerWorkflow [] = (Inr [], [])"
| "trigger_all triggerWorkflow (c # cs) =
     (case triggerWorkflow c of
        Inl e \<Rightarrow> (Inl e, [c])
      | Inr i \<Rightarrow> (case trigger_all triggerWorkflow cs of (r, calls) \<Rightarrow> (map_sum (\<lambda>e. e) (\<lambda>is. i # is) r, c # calls)))"

text \<open>\<open>sendEvent\<close>: \<open>parse\<close> is the Zod schema of a registered event.\<close>

definition sendEvent ::
  "(string \<Rightarrow> (jv \<Rightarrow> string + jv) option) \<Rightarrow> (string \<Rightarrow> 'x event_target list) \<Rightarrow> ('x \<times> trigger_context \<Rightarrow> string + string) \<Rightarrow> string \<Rightarrow> jv \<Rightarrow>
   (string + string list) \<times> ('x \<times> trigger_context) list" where
  "sendEvent events getTargets triggerWorkflow eventName payload =
     (case events eventName of
        None \<Rightarrow> (Inl (''Event '' @ [CHR 0x22] @ eventName @ [CHR 0x22] @ '' is not registered''), [])
      | Some parse \<Rightarrow>
          (case parse payload of
             Inl e \<Rightarrow> (Inl e, [])
           | Inr v \<Rightarrow> trigger_all triggerWorkflow (map (event_context eventName v) (dedupeTargets (getTargets eventName)))))"

section \<open>Trigger nodes\<close>

definition not_active :: string where
  "not_active = ''Trigger is not active''"

definition cron_execute :: "flow_node \<Rightarrow> trigger_context \<Rightarrow> string + jv" where
  "cron_execute node c = (if tg_type c = ''cron'' \<and> tg_id c = ''cron:'' @ nd_id node then Inr (JObj []) else Inl not_active)"

definition http_execute :: "flow_node \<Rightarrow> trigger_context \<Rightarrow> string + jv" where
  "http_execute node c = (if tg_type c = ''http'' \<and> tg_id c = ''http:'' @ nd_id node then Inr (or_empty (tg_data c)) else Inl not_active)"

definition manual_execute :: "flow_node \<Rightarrow> trigger_context \<Rightarrow> string + jv" where
  "manual_execute node c = (if tg_type c = ''manual'' \<and> tg_id c = ''manual:'' @ nd_id node then Inr (or_empty (tg_data c)) else Inl not_active)"

definition getConfiguredEventName :: "jobject \<Rightarrow> string option" where
  "getConfiguredEventName configuration = (case obj_get configuration ''eventName'' of JStr s \<Rightarrow> if s = [] then None else Some s | _ \<Rightarrow> None)"

definition text_ends_with :: "string \<Rightarrow> string \<Rightarrow> bool" where
  "text_ends_with e s \<longleftrightarrow> length e \<le> length s \<and> drop (length s - length e) s = e"

definition matchesEventTriggerNode :: "string \<Rightarrow> string \<Rightarrow> bool" where
  "matchesEventTriggerNode triggerId nodeId \<longleftrightarrow> triggerId = ''event:'' @ nodeId \<or> text_ends_with ('':'' @ nodeId) triggerId"

text \<open>\<open>eventsByName\<close> maps the registered events to their schemas.\<close>

definition event_getOutputSchema :: "(string, schema) jmap \<Rightarrow> flow_node \<Rightarrow> schema" where
  "event_getOutputSchema eventsByName node =
     (case getConfiguredEventName (getNodeConfiguration (Some node)) of
        None \<Rightarrow> EMPTY_OBJECT_SCHEMA
      | Some n \<Rightarrow> (case jget eventsByName n of None \<Rightarrow> EMPTY_OBJECT_SCHEMA | Some s \<Rightarrow> s))"

definition event_execute :: "(string, schema) jmap \<Rightarrow> flow_node \<Rightarrow> trigger_context \<Rightarrow> string + jv" where
  "event_execute eventsByName node c =
     (case getConfiguredEventName (getNodeConfiguration (Some node)) of
        None \<Rightarrow> Inl ''Event trigger is not configured''
      | Some n \<Rightarrow>
          if jget eventsByName n = None then Inl (''Configured event '' @ [CHR 0x22] @ n @ [CHR 0x22] @ '' is not registered'')
          else if tg_type c = ''event'' \<and> matchesEventTriggerNode (tg_id c) (nd_id node) \<and> tg_eventName c = n
          then Inr (or_empty (tg_data c)) else Inl not_active)"

section \<open>Stored triggers\<close>

text \<open>The calls of a plugin's procedures; a store keeps one value for a node.\<close>

datatype 'v trigger_call = SaveTrigger string 'v | DeleteTrigger string

fun apply_call :: "'v trigger_call \<Rightarrow> (string \<rightharpoonup> 'v) \<Rightarrow> (string \<rightharpoonup> 'v)" where
  "apply_call (SaveTrigger n v) m = m(n \<mapsto> v)"
| "apply_call (DeleteTrigger n) m = m(n := None)"

definition getConfiguredCronExpression :: "flow_node \<Rightarrow> string option" where
  "getConfiguredCronExpression node = trimmed_string (obj_get (getNodeConfiguration (Some node)) ''cronExpression'')"

definition cron_onNodeAdded :: "flow_node \<Rightarrow> string trigger_call list" where
  "cron_onNodeAdded node = (case getConfiguredCronExpression node of None \<Rightarrow> [] | Some e \<Rightarrow> [SaveTrigger (nd_id node) e])"

definition cron_onNodeRemoved :: "flow_node \<Rightarrow> string trigger_call list" where
  "cron_onNodeRemoved node = [DeleteTrigger (nd_id node)]"

definition cron_onNodeUpdated :: "flow_node \<Rightarrow> flow_node \<Rightarrow> string trigger_call list" where
  "cron_onNodeUpdated node previousNode =
     (if getConfiguredCronExpression node = getConfiguredCronExpression previousNode then []
      else case getConfiguredCronExpression node of None \<Rightarrow> cron_onNodeRemoved node | Some e \<Rightarrow> [SaveTrigger (nd_id node) e])"

definition getPersistedEventName :: "(string, schema) jmap \<Rightarrow> flow_node \<Rightarrow> string option" where
  "getPersistedEventName eventsByName node =
     (case getConfiguredEventName (getNodeConfiguration (Some node)) of
        None \<Rightarrow> None | Some n \<Rightarrow> if jget eventsByName n = None then None else Some n)"

definition event_onNodeAdded :: "(string, schema) jmap \<Rightarrow> flow_node \<Rightarrow> string trigger_call list" where
  "event_onNodeAdded eventsByName node = (case getPersistedEventName eventsByName node of None \<Rightarrow> [] | Some e \<Rightarrow> [SaveTrigger (nd_id node) e])"

definition event_onNodeRemoved :: "flow_node \<Rightarrow> string trigger_call list" where
  "event_onNodeRemoved node = [DeleteTrigger (nd_id node)]"

definition event_onNodeUpdated :: "(string, schema) jmap \<Rightarrow> flow_node \<Rightarrow> flow_node \<Rightarrow> string trigger_call list" where
  "event_onNodeUpdated eventsByName node previousNode =
     (if getPersistedEventName eventsByName node = getPersistedEventName eventsByName previousNode then []
      else case getPersistedEventName eventsByName node of None \<Rightarrow> event_onNodeRemoved node | Some e \<Rightarrow> [SaveTrigger (nd_id node) e])"

text \<open>\<open>getSchemaFromConfiguration(node, 'payloadSchema') ?? null\<close> as a JSON value; two values are equal when their texts are.\<close>

definition payloadSchema :: "flow_node \<Rightarrow> jv" where
  "payloadSchema node =
     (case getSchemaFromConfiguration node ''payloadSchema'' of NoSchema \<Rightarrow> JNull | BoolSchema b \<Rightarrow> JBool b | ObjectSchema v \<Rightarrow> v)"

definition manual_onNodeAdded :: "flow_node \<Rightarrow> jv trigger_call list" where
  "manual_onNodeAdded node = [SaveTrigger (nd_id node) (payloadSchema node)]"

definition manual_onNodeRemoved :: "flow_node \<Rightarrow> jv trigger_call list" where
  "manual_onNodeRemoved node = [DeleteTrigger (nd_id node)]"

definition manual_onNodeUpdated :: "flow_node \<Rightarrow> flow_node \<Rightarrow> jv trigger_call list" where
  "manual_onNodeUpdated node previousNode =
     (if payloadSchema node = payloadSchema previousNode then [] else [SaveTrigger (nd_id node) (payloadSchema node)])"

section \<open>The store mirrors the workflow\<close>

text \<open>Edits of a workflow, as far as the trigger nodes of one kind are concerned.\<close>

datatype edit = AddNode flow_node | UpdateNode flow_node | RemoveNode string

fun edit_allowed :: "edit \<Rightarrow> (string \<rightharpoonup> flow_node) \<Rightarrow> bool" where
  "edit_allowed (AddNode n) nodes = (nodes (nd_id n) = None)"
| "edit_allowed (UpdateNode n) nodes = (nodes (nd_id n) \<noteq> None)"
| "edit_allowed (RemoveNode i) nodes = (nodes i \<noteq> None)"

fun edit_nodes :: "edit \<Rightarrow> (string \<rightharpoonup> flow_node) \<Rightarrow> (string \<rightharpoonup> flow_node)" where
  "edit_nodes (AddNode n) nodes = nodes(nd_id n \<mapsto> n)"
| "edit_nodes (UpdateNode n) nodes = nodes(nd_id n \<mapsto> n)"
| "edit_nodes (RemoveNode i) nodes = nodes(i := None)"

text \<open>The callbacks of a handler, with the previous node of an update and the removed node.\<close>

fun edit_calls ::
  "(flow_node \<Rightarrow> 'v trigger_call list) \<Rightarrow> (flow_node \<Rightarrow> flow_node \<Rightarrow> 'v trigger_call list) \<Rightarrow> (flow_node \<Rightarrow> 'v trigger_call list) \<Rightarrow>
   edit \<Rightarrow> (string \<rightharpoonup> flow_node) \<Rightarrow> 'v trigger_call list" where
  "edit_calls added updated removed (AddNode n) nodes = added n"
| "edit_calls added updated removed (UpdateNode n) nodes = updated n (the (nodes (nd_id n)))"
| "edit_calls added updated removed (RemoveNode i) nodes = removed (the (nodes i))"

fun run_edits ::
  "(flow_node \<Rightarrow> 'v trigger_call list) \<Rightarrow> (flow_node \<Rightarrow> flow_node \<Rightarrow> 'v trigger_call list) \<Rightarrow> (flow_node \<Rightarrow> 'v trigger_call list) \<Rightarrow>
   edit list \<Rightarrow> (string \<rightharpoonup> flow_node) \<Rightarrow> (string \<rightharpoonup> 'v) \<Rightarrow> ((string \<rightharpoonup> flow_node) \<times> (string \<rightharpoonup> 'v)) option" where
  "run_edits added updated removed [] nodes store = Some (nodes, store)"
| "run_edits added updated removed (e # es) nodes store =
     (if edit_allowed e nodes
      then run_edits added updated removed es (edit_nodes e nodes) (fold apply_call (edit_calls added updated removed e nodes) store)
      else None)"

definition nodes_keyed :: "(string \<rightharpoonup> flow_node) \<Rightarrow> bool" where
  "nodes_keyed nodes \<longleftrightarrow> (\<forall>i n. nodes i = Some n \<longrightarrow> nd_id n = i)"

definition mirrors :: "(flow_node \<Rightarrow> 'v option) \<Rightarrow> (string \<rightharpoonup> flow_node) \<Rightarrow> (string \<rightharpoonup> 'v) \<Rightarrow> bool" where
  "mirrors configured nodes store \<longleftrightarrow> nodes_keyed nodes \<and> (\<forall>i. store i = Option.bind (nodes i) configured)"

text \<open>What the three callbacks of a handler promise, and that the store then mirrors the workflow.\<close>

locale mirrored_trigger =
  fixes configured :: "flow_node \<Rightarrow> 'v option"
    and added :: "flow_node \<Rightarrow> 'v trigger_call list"
    and updated :: "flow_node \<Rightarrow> flow_node \<Rightarrow> 'v trigger_call list"
    and removed :: "flow_node \<Rightarrow> 'v trigger_call list"
  assumes added_stores: "store (nd_id n) = None \<Longrightarrow> fold apply_call (added n) store = store(nd_id n := configured n)"
    and updated_stores: "nd_id p = nd_id n \<Longrightarrow> store (nd_id n) = configured p \<Longrightarrow> fold apply_call (updated n p) store = store(nd_id n := configured n)"
    and removed_stores: "fold apply_call (removed n) store = store(nd_id n := None)"
begin

lemma mirrors_edit:
  assumes m: "mirrors configured nodes store" and ok: "edit_allowed e nodes"
  shows "mirrors configured (edit_nodes e nodes) (fold apply_call (edit_calls added updated removed e nodes) store)"
proof (cases e)
  case (AddNode n)
  have "store (nd_id n) = None" using m ok AddNode by (simp add: mirrors_def)
  from added_stores [of store n, OF this] show ?thesis using m AddNode by (auto simp: mirrors_def nodes_keyed_def)
next
  case (UpdateNode n)
  obtain p where p: "nodes (nd_id n) = Some p" "nd_id p = nd_id n" using m ok UpdateNode by (auto simp: mirrors_def nodes_keyed_def)
  have "store (nd_id n) = configured p" using m p by (simp add: mirrors_def)
  from updated_stores [of p n store, OF p(2) this] show ?thesis using m UpdateNode p by (auto simp: mirrors_def nodes_keyed_def)
next
  case (RemoveNode i)
  obtain n where n: "nodes i = Some n" "nd_id n = i" using m ok RemoveNode by (auto simp: mirrors_def nodes_keyed_def)
  then show ?thesis using m RemoveNode removed_stores [of n store] by (auto simp: mirrors_def nodes_keyed_def)
qed

lemma mirrors_run: "run_edits added updated removed es nodes store = Some (nodes', store') \<Longrightarrow> mirrors configured nodes store \<Longrightarrow> mirrors configured nodes' store'"
  by (induction es arbitrary: nodes store) (auto split: if_splits dest: mirrors_edit)

lemma store_mirrors:
  assumes "run_edits added updated removed es Map.empty Map.empty = Some (nodes, store)"
  shows "store i = Option.bind (nodes i) configured"
  using mirrors_run [OF assms] by (simp add: mirrors_def nodes_keyed_def)

end

interpretation cron: mirrored_trigger getConfiguredCronExpression cron_onNodeAdded cron_onNodeUpdated cron_onNodeRemoved
  by unfold_locales (auto simp: cron_onNodeAdded_def cron_onNodeUpdated_def cron_onNodeRemoved_def fun_eq_iff split: option.splits)

interpretation event: mirrored_trigger "getPersistedEventName ev" "event_onNodeAdded ev" "event_onNodeUpdated ev" event_onNodeRemoved for ev
  by unfold_locales (auto simp: event_onNodeAdded_def event_onNodeUpdated_def event_onNodeRemoved_def fun_eq_iff split: option.splits)

interpretation manual: mirrored_trigger "\<lambda>n. Some (payloadSchema n)" manual_onNodeAdded manual_onNodeUpdated manual_onNodeRemoved
  by unfold_locales (auto simp: manual_onNodeAdded_def manual_onNodeUpdated_def manual_onNodeRemoved_def fun_eq_iff)

text \<open>
  The stored triggers are the configured ones. After any allowed sequence of additions, updates and
  removals of trigger nodes, the store of the cron plugin holds exactly the nodes with a cron expression,
  each with the expression it has now, the store of the event plugin exactly the nodes with a registered
  event, and the store of the manual plugin every node with its current payload schema.
\<close>

theorem stored_triggers_mirror:
  assumes "run_edits cron_onNodeAdded cron_onNodeUpdated cron_onNodeRemoved es Map.empty Map.empty = Some (nodes, crons)"
    and "run_edits (event_onNodeAdded ev) (event_onNodeUpdated ev) event_onNodeRemoved es' Map.empty Map.empty = Some (nodes', events)"
    and "run_edits manual_onNodeAdded manual_onNodeUpdated manual_onNodeRemoved es'' Map.empty Map.empty = Some (nodes'', manuals)"
  shows "crons = (\<lambda>i. Option.bind (nodes i) getConfiguredCronExpression) \<and> events = (\<lambda>i. Option.bind (nodes' i) (getPersistedEventName ev)) \<and>
    manuals = (\<lambda>i. map_option payloadSchema (nodes'' i))"
  using cron.store_mirrors [OF assms(1)] event.store_mirrors [OF assms(2)] manual.store_mirrors [OF assms(3)]
  by (auto simp: fun_eq_iff map_option_case Option.bind_def split: option.splits)

section \<open>A run starts at its trigger\<close>

lemma event_suffix:
  assumes "CHR '':'' \<notin> set t"
  shows "text_ends_with ('':'' @ n) (''event:'' @ t) \<longleftrightarrow> t = n"
proof
  assume e: "text_ends_with ('':'' @ n) (''event:'' @ t)"
  then obtain u where u: "''event:'' @ t = u @ '':'' @ n" unfolding text_ends_with_def by (metis append_take_drop_id)
  have "''event'' @ CHR '':'' # t = u @ CHR '':'' # n" using u by simp
  moreover have "CHR '':'' \<notin> set ''event''" by simp
  ultimately have "u = ''event''" using assms by (fastforce simp: append_eq_append_conv2 Cons_eq_append_conv append_eq_Cons_conv)
  then show "t = n" using u by simp
qed (simp add: text_ends_with_def)

text \<open>
  A request starts the run at the node it was checked for. A run that the cron, the http or the manual
  endpoint started makes exactly the trigger node active that the host's check (or the caller of a manual
  run) named, with the payload of the request; every other node of that kind refuses.
\<close>

theorem endpoint_starts_its_node:
  assumes "cron_post pre b = Started c" and "http_post pre' meth b' = Started h"
    and "manual_post parse pre'' meth' b'' = Started m" "manualTriggerPayload b'' = Some p" "mp_nodeId p = Some k"
  shows "(\<exists>i j. cronTriggerInput b = Some i \<and> pre i = Inr j \<and> (\<forall>n. cron_execute n c = (if nd_id n = j then Inr (JObj []) else Inl not_active))) \<and>
    (\<exists>token payload j. httpTriggerInput b' = Some (token, payload) \<and> pre' token = Inr j \<and>
       (\<forall>n. http_execute n h = (if nd_id n = j then Inr (or_empty payload) else Inl not_active))) \<and>
    (\<forall>n. manual_execute n m = (if nd_id n = k then Inr (or_empty (mp_data p)) else Inl not_active))"
proof (intro conjI)
  show "\<exists>i j. cronTriggerInput b = Some i \<and> pre i = Inr j \<and> (\<forall>n. cron_execute n c = (if nd_id n = j then Inr (JObj []) else Inl not_active))"
  proof -
    obtain i j where "cronTriggerInput b = Some i" "pre i = Inr j"
      and "c = \<lparr>tg_type = ''cron'', tg_id = ''cron:'' @ j, tg_eventName = [], tg_data = JUndef\<rparr>"
      using assms(1) unfolding cron_post_def by (simp split: option.splits sum.splits)
    then show ?thesis by (simp add: cron_execute_def)
  qed
  show "\<exists>token payload j. httpTriggerInput b' = Some (token, payload) \<and> pre' token = Inr j \<and>
       (\<forall>n. http_execute n h = (if nd_id n = j then Inr (or_empty payload) else Inl not_active))"
  proof -
    obtain token payload j where "httpTriggerInput b' = Some (token, payload)" "pre' token = Inr j"
      and "h = \<lparr>tg_type = ''http'', tg_id = ''http:'' @ j, tg_eventName = [], tg_data = payload\<rparr>"
      using assms(2) unfolding http_post_def by (simp split: option.splits sum.splits prod.splits if_splits)
    then show ?thesis by (simp add: http_execute_def)
  qed
  have same: "or_empty (or_null v) = or_empty v" for v by (cases v) (simp_all add: or_empty_def or_null_def)
  show "\<forall>n. manual_execute n m = (if nd_id n = k then Inr (or_empty (mp_data p)) else Inl not_active)"
  proof -
    have "m = \<lparr>tg_type = ''manual'', tg_id = ''manual:'' @ k, tg_eventName = [], tg_data = or_null (mp_data p)\<rparr>"
      using assms(3) unfolding manual_post_def assms(4) by (simp add: assms(5) split: option.splits if_splits)
    then show ?thesis by (simp add: manual_execute_def same)
  qed
qed

lemma dedupe_keys: "map et_dedupeKey (dedupe_targets seen ts) = filter (\<lambda>k. k \<notin> set seen) (jset_of (map et_dedupeKey ts))"
proof (induction ts arbitrary: seen)
  case (Cons t ts)
  let ?a = "et_dedupeKey t" and ?ks = "jset_of (map et_dedupeKey ts)"
  show ?case
  proof (cases "?a \<in> set seen")
    case True
    then have "filter (\<lambda>k. k \<notin> set seen) (filter (\<lambda>y. y \<noteq> ?a) ?ks) = filter (\<lambda>k. k \<notin> set seen) ?ks"
      unfolding filter_filter by (intro filter_cong) auto
    then show ?thesis using True Cons.IH [of seen] by simp
  next
    case False
    then have "filter (\<lambda>k. k \<notin> set seen) (filter (\<lambda>y. y \<noteq> ?a) ?ks) = filter (\<lambda>k. k \<notin> set (jadd ?a seen)) ?ks"
      unfolding filter_filter by (intro filter_cong) (auto simp: jadd_def)
    then show ?thesis using False Cons.IH [of "jadd ?a seen"] by simp
  qed
qed simp

lemma dedupe_member: "t \<in> set (dedupe_targets seen ts) \<Longrightarrow> t \<in> set ts"
  by (induction ts arbitrary: seen) (auto split: if_splits)

lemma trigger_all_calls: "(\<And>c. c \<in> set cs \<Longrightarrow> \<exists>i. triggerWorkflow c = Inr i) \<Longrightarrow> snd (trigger_all triggerWorkflow cs) = cs \<and> (\<exists>is. fst (trigger_all triggerWorkflow cs) = Inr is \<and> length is = length cs)"
proof (induction cs)
  case (Cons c cs)
  obtain i where "triggerWorkflow c = Inr i" using Cons.prems by fastforce
  then show ?case using Cons by (auto split: prod.splits)
qed simp

text \<open>
  C33. An event reaches every target once. When its payload is valid and no run fails to start, sending a
  registered event starts one run for each deduplication key of its targets, in the order of the targets;
  the run of a target makes an event node active exactly when it is the target's node and is configured
  for this event, and that node returns the payload.
\<close>

theorem event_reaches_each_target:
  fixes getTargets :: "string \<Rightarrow> 'x event_target list"
  assumes "events eventName = Some parse" "parse payload = Inr v" "\<forall>c. \<exists>i. triggerWorkflow c = Inr i"
  shows "snd (sendEvent events getTargets triggerWorkflow eventName payload) = map (event_context eventName v) (dedupeTargets (getTargets eventName)) \<and>
    map et_dedupeKey (dedupeTargets (getTargets eventName)) = jset_of (map et_dedupeKey (getTargets eventName)) \<and>
    set (dedupeTargets (getTargets eventName)) \<subseteq> set (getTargets eventName) \<and>
    (\<forall>t \<in> set (getTargets eventName). CHR '':'' \<notin> set (et_nodeId t) \<longrightarrow>
       (\<forall>ev n w. event_execute ev n (snd (event_context eventName v t)) = Inr w \<longleftrightarrow>
          nd_id n = et_nodeId t \<and> getPersistedEventName ev n = Some eventName \<and> w = or_empty v))"
proof (intro conjI ballI impI allI)
  show "snd (sendEvent events getTargets triggerWorkflow eventName payload) = map (event_context eventName v) (dedupeTargets (getTargets eventName))"
    unfolding sendEvent_def using assms(1,2) by simp (rule trigger_all_calls [THEN conjunct1], use assms(3) in blast)
  show "map et_dedupeKey (dedupeTargets (getTargets eventName)) = jset_of (map et_dedupeKey (getTargets eventName))"
    by (simp add: dedupeTargets_def dedupe_keys)
  show "set (dedupeTargets (getTargets eventName)) \<subseteq> set (getTargets eventName)" using dedupe_member by (auto simp: dedupeTargets_def)
  fix t :: "'x event_target" and ev n w assume "CHR '':'' \<notin> set (et_nodeId t)"
  then show "event_execute ev n (snd (event_context eventName v t)) = Inr w \<longleftrightarrow>
      nd_id n = et_nodeId t \<and> getPersistedEventName ev n = Some eventName \<and> w = or_empty v"
    using event_suffix [of "et_nodeId t" "nd_id n"]
    by (auto simp: event_execute_def event_context_def matchesEventTriggerNode_def getPersistedEventName_def split: option.splits if_splits)
qed

section \<open>Examples\<close>

definition demo_trigger :: "string \<Rightarrow> string \<Rightarrow> flow_node" where
  "demo_trigger i e = \<lparr>nd_id = i, nd_type = Some ''trigger'', nd_configuration = JObj [(''cronExpression'', JStr e), (''eventName'', JStr e)]\<rparr>"

definition demo_edits :: "edit list" where
  "demo_edits = [AddNode (demo_trigger ''a'' '' 0 * * * * ''), AddNode (demo_trigger ''b'' []), UpdateNode (demo_trigger ''b'' ''up''), RemoveNode ''a'']"

theorem stored_triggers_mirror_witness:
  "\<exists>nodes crons nodes' events nodes'' manuals.
     run_edits cron_onNodeAdded cron_onNodeUpdated cron_onNodeRemoved demo_edits Map.empty Map.empty = Some (nodes, crons) \<and> crons ''b'' = Some ''up'' \<and>
     run_edits (event_onNodeAdded [(''up'', EMPTY_OBJECT_SCHEMA)]) (event_onNodeUpdated [(''up'', EMPTY_OBJECT_SCHEMA)]) event_onNodeRemoved demo_edits Map.empty Map.empty =
       Some (nodes', events) \<and> events ''b'' = Some ''up'' \<and>
     run_edits manual_onNodeAdded manual_onNodeUpdated manual_onNodeRemoved demo_edits Map.empty Map.empty = Some (nodes'', manuals) \<and> manuals ''b'' = Some JNull"
proof -
  let ?ev = "[(''up'', EMPTY_OBJECT_SCHEMA)]"
  let ?c = "run_edits cron_onNodeAdded cron_onNodeUpdated cron_onNodeRemoved demo_edits Map.empty Map.empty"
  let ?e = "run_edits (event_onNodeAdded ?ev) (event_onNodeUpdated ?ev) event_onNodeRemoved demo_edits Map.empty Map.empty"
  let ?m = "run_edits manual_onNodeAdded manual_onNodeUpdated manual_onNodeRemoved demo_edits Map.empty Map.empty"
  have runs: "map_option (\<lambda>r. fst r ''b'') ?c = Some (Some (demo_trigger ''b'' ''up''))" "map_option (\<lambda>r. fst r ''b'') ?e = Some (Some (demo_trigger ''b'' ''up''))"
    "map_option (\<lambda>r. fst r ''b'') ?m = Some (Some (demo_trigger ''b'' ''up''))"
    by (simp_all add: demo_edits_def demo_trigger_def)
  obtain nodes crons where c: "?c = Some (nodes, crons)" "nodes ''b'' = Some (demo_trigger ''b'' ''up'')" using runs(1) by auto
  obtain nodes' events where e: "?e = Some (nodes', events)" "nodes' ''b'' = Some (demo_trigger ''b'' ''up'')" using runs(2) by auto
  obtain nodes'' manuals where m: "?m = Some (nodes'', manuals)" "nodes'' ''b'' = Some (demo_trigger ''b'' ''up'')" using runs(3) by auto
  have "getConfiguredCronExpression (demo_trigger ''b'' ''up'') = Some ''up''" "getPersistedEventName ?ev (demo_trigger ''b'' ''up'') = Some ''up''"
    "payloadSchema (demo_trigger ''b'' ''up'') = JNull" by code_simp+
  then show ?thesis using stored_triggers_mirror [OF c(1) e(1) m(1)] c e m by auto
qed

theorem endpoint_starts_its_node_witness:
  "\<exists>c. cron_post (\<lambda>i. Inr i) (JObj [(''cronTriggerId'', JStr ''a'')]) = Started c \<and> cron_execute (demo_trigger ''a'' ''e'') c = Inr (JObj []) \<and>
     cron_execute (demo_trigger ''b'' ''e'') c = Inl not_active"
proof -
  let ?cb = "JObj [(''cronTriggerId'', JStr ''a'')]" and ?hb = "JObj [(''token'', JStr ''a'')]" and ?mb = "JObj [(''context'', JObj []), (''nodeId'', JStr ''a'')]"
  have c: "cron_post (\<lambda>i. Inr i) ?cb = Started \<lparr>tg_type = ''cron'', tg_id = ''cron:a'', tg_eventName = [], tg_data = JUndef\<rparr>" by code_simp
  have h: "http_post (\<lambda>i. Inr i) ''POST'' ?hb = Started \<lparr>tg_type = ''http'', tg_id = ''http:a'', tg_eventName = [], tg_data = JUndef\<rparr>" by code_simp
  have m: "manual_post Some (\<lambda>_ _ _. None) ''POST'' ?mb = Started \<lparr>tg_type = ''manual'', tg_id = ''manual:a'', tg_eventName = [], tg_data = JNull\<rparr>"
    "manualTriggerPayload ?mb = Some \<lparr>mp_context = [], mp_data = JUndef, mp_nodeId = Some ''a''\<rparr>" "mp_nodeId \<lparr>mp_context = [], mp_data = JUndef, mp_nodeId = Some ''a''\<rparr> = Some ''a''"
    by code_simp+
  have "cronTriggerInput ?cb = Some ''a''" by code_simp
  then show ?thesis using endpoint_starts_its_node [OF c h m] c by (auto simp: demo_trigger_def)
qed

theorem event_reaches_each_target_witness:
  "length (snd (sendEvent (\<lambda>_. Some Inr) (\<lambda>_. [\<lparr>et_dedupeKey = ''k'', et_nodeId = ''a'', et_executionContext = ()\<rparr>, \<lparr>et_dedupeKey = ''k'', et_nodeId = ''a'', et_executionContext = ()\<rparr>])
     (\<lambda>_. Inr ''run'') ''up'' JNull)) = 1"
proof -
  let ?ts = "[\<lparr>et_dedupeKey = ''k'', et_nodeId = ''a'', et_executionContext = ()\<rparr>, \<lparr>et_dedupeKey = ''k'', et_nodeId = ''a'', et_executionContext = ()\<rparr>]"
  have "\<forall>c :: unit \<times> trigger_context. \<exists>i. (\<lambda>_ :: unit \<times> trigger_context. Inr ''run'' :: string + string) c = Inr i" by simp
  from event_reaches_each_target [of "\<lambda>_. Some Inr" "''up''" Inr JNull JNull "\<lambda>_. Inr ''run''" "\<lambda>_. ?ts", OF refl refl this]
  have "map et_dedupeKey (dedupeTargets ?ts) = jset_of [''k'', ''k'']"
    "snd (sendEvent (\<lambda>_. Some Inr) (\<lambda>_. ?ts) (\<lambda>_. Inr ''run'') ''up'' JNull) = map (event_context ''up'' JNull) (dedupeTargets ?ts)" by simp_all
  moreover have "length (jset_of [''k'', ''k'']) = 1" by simp
  ultimately have "length (dedupeTargets ?ts) = 1" "length (snd (sendEvent (\<lambda>_. Some Inr) (\<lambda>_. ?ts) (\<lambda>_. Inr ''run'') ''up'' JNull)) = length (dedupeTargets ?ts)"
    by (metis length_map)+
  then show ?thesis by simp
qed

end
