(* ===== verification/Workflow_Scheduler.thy ===== *)
theory Workflow_Scheduler
  imports Workflow_Triggers
begin

text \<open>
  The scheduler of cron triggers (\<open>apps/trakrai-workflow-scheduler/src\<close>): the client of the job queue
  (\<open>queue.ts\<close>), the list of active triggers (\<open>source-client.ts\<close>), the reconciliation (\<open>reconciler.ts\<close>) and the
  requests of its interface (\<open>api/router.ts\<close>). The queue is a third-party library: its calls are the record
  \<open>queue_client\<close>, what is relied on is the locale \<open>job_queue\<close>. Whether a text is a UUID is Zod's decision. Logging is
  left out.
\<close>

section \<open>Data\<close>

record cron_trigger =
  cronExpression :: string
  cronTriggerId :: string
  cron_flowId :: string
  cron_nodeId :: string

record flow_job =
  job_cronTriggerId :: string
  job_flowId :: string
  job_nodeId :: string

record scheduled_job =
  sj_pattern :: string
  sj_data :: flow_job
  sj_name :: string

record scheduler_entry =
  se_id :: jv
  se_key :: jv

record 'q queue_client =
  qc_upsert :: "string \<Rightarrow> scheduled_job \<Rightarrow> 'q \<Rightarrow> (string + unit) \<times> 'q"
  qc_remove :: "string \<Rightarrow> 'q \<Rightarrow> (string + bool) \<times> 'q"
  qc_list :: "'q \<Rightarrow> string + scheduler_entry list"

section \<open>The queue\<close>

definition job_of_trigger :: "cron_trigger \<Rightarrow> scheduled_job" where
  "job_of_trigger t =
     \<lparr>sj_pattern = cronExpression t,
      sj_data = \<lparr>job_cronTriggerId = cronTriggerId t, job_flowId = cron_flowId t, job_nodeId = cron_nodeId t\<rparr>,
      sj_name = ''cron:'' @ cron_nodeId t\<rparr>"

definition upsertScheduledCronTrigger :: "'q queue_client \<Rightarrow> cron_trigger \<Rightarrow> 'q \<Rightarrow> (string + unit) \<times> 'q" where
  "upsertScheduledCronTrigger c t q = qc_upsert c (cronTriggerId t) (job_of_trigger t) q"

definition removeScheduledCronTrigger :: "'q queue_client \<Rightarrow> string \<Rightarrow> 'q \<Rightarrow> (string + unit) \<times> 'q" where
  "removeScheduledCronTrigger c i q = (case qc_remove c i q of (r, q') \<Rightarrow> (map_sum (\<lambda>e. e) (\<lambda>_. ()) r, q'))"

text \<open>\<open>[id, key].find(value => typeof value === 'string' && value.length > 0)\<close>\<close>

definition scheduler_id :: "scheduler_entry \<Rightarrow> string option" where
  "scheduler_id e = List.find (\<lambda>i. i \<noteq> []) (List.map_filter as_string [se_id e, se_key e])"

definition listScheduledCronTriggerIds :: "scheduler_entry list \<Rightarrow> string list" where
  "listScheduledCronTriggerIds entries = List.map_filter scheduler_id entries"

text \<open>The worker: what a job makes of the response of the trigger endpoint, whose status and body are arguments.\<close>

definition process_job :: "(nat \<Rightarrow> string) \<Rightarrow> (flow_job \<Rightarrow> string + nat \<times> string) \<Rightarrow> (string \<Rightarrow> jv option) \<Rightarrow> flow_job \<Rightarrow> string + jv" where
  "process_job print_nat fetch json_parse job =
     (case fetch job of
        Inl e \<Rightarrow> Inl e
      | Inr (status, body) \<Rightarrow>
          if \<not> (200 \<le> status \<and> status \<le> 299)
          then Inl (''Workflow trigger request failed with status '' @ print_nat status @ '': '' @ body)
          else (case json_parse body of None \<Rightarrow> Inl ''Unexpected token'' | Some v \<Rightarrow> Inr v))"

section \<open>The active triggers\<close>

definition nonempty_field :: "jobject \<Rightarrow> string \<Rightarrow> string option" where
  "nonempty_field ps k = (case obj_get ps k of JStr s \<Rightarrow> if s = [] then None else Some s | _ \<Rightarrow> None)"

definition uuid_field :: "(string \<Rightarrow> bool) \<Rightarrow> jobject \<Rightarrow> string \<Rightarrow> string option" where
  "uuid_field is_uuid ps k = (case obj_get ps k of JStr s \<Rightarrow> if is_uuid s then Some s else None | _ \<Rightarrow> None)"

definition parse_active_trigger :: "(string \<Rightarrow> bool) \<Rightarrow> jv \<Rightarrow> cron_trigger option" where
  "parse_active_trigger is_uuid v =
     (case v of
        JObj ps \<Rightarrow>
          (case (nonempty_field ps ''cronExpression'', nonempty_field ps ''cronTriggerId'', uuid_field is_uuid ps ''flowId'', uuid_field is_uuid ps ''nodeId'') of
             (Some e, Some i, Some f, Some n) \<Rightarrow> Some \<lparr>cronExpression = e, cronTriggerId = i, cron_flowId = f, cron_nodeId = n\<rparr>
           | _ \<Rightarrow> None)
      | _ \<Rightarrow> None)"

definition parse_active_triggers :: "(string \<Rightarrow> bool) \<Rightarrow> jv \<Rightarrow> cron_trigger list option" where
  "parse_active_triggers is_uuid v =
     (case v of
        JArr vs \<Rightarrow> if list_all (\<lambda>x. parse_active_trigger is_uuid x \<noteq> None) vs then Some (map (the \<circ> parse_active_trigger is_uuid) vs) else None
      | _ \<Rightarrow> None)"

text \<open>The response is a status and a JSON value, or the fetch failed.\<close>

definition listActiveCronTriggersFromWebApp :: "(nat \<Rightarrow> string) \<Rightarrow> (string \<Rightarrow> bool) \<Rightarrow> string + nat \<times> jv \<Rightarrow> string + cron_trigger list" where
  "listActiveCronTriggersFromWebApp print_nat is_uuid response =
     (case response of
        Inl e \<Rightarrow> Inl e
      | Inr (status, body) \<Rightarrow>
          if \<not> (200 \<le> status \<and> status \<le> 299) then Inl (''Failed to fetch active cron triggers with status '' @ print_nat status)
          else (case parse_active_triggers is_uuid body of None \<Rightarrow> Inl ''Invalid active cron trigger response'' | Some ts \<Rightarrow> Inr ts))"

section \<open>Reconciliation\<close>

fun remove_stale :: "'q queue_client \<Rightarrow> string list \<Rightarrow> string list \<Rightarrow> nat \<Rightarrow> 'q \<Rightarrow> (string + nat) \<times> 'q" where
  "remove_stale c active [] n q = (Inr n, q)"
| "remove_stale c active (i # is) n q =
     (if i \<in> set active then remove_stale c active is n q
      else case removeScheduledCronTrigger c i q of
        (Inl e, q') \<Rightarrow> (Inl e, q')
      | (Inr _, q') \<Rightarrow> remove_stale c active is (n + 1) q')"

fun upsert_all :: "'q queue_client \<Rightarrow> cron_trigger list \<Rightarrow> 'q \<Rightarrow> (string + unit) \<times> 'q" where
  "upsert_all c [] q = (Inr (), q)"
| "upsert_all c (t # ts) q =
     (case upsertScheduledCronTrigger c t q of
        (Inl e, q') \<Rightarrow> (Inl e, q')
      | (Inr _, q') \<Rightarrow> upsert_all c ts q')"

text \<open>The result carries the two numbers that are logged.\<close>

definition reconcileCronTriggers :: "'q queue_client \<Rightarrow> string + cron_trigger list \<Rightarrow> 'q \<Rightarrow> (string + nat \<times> nat) \<times> 'q" where
  "reconcileCronTriggers c active q =
     (case (active, qc_list c q) of
        (Inl e, _) \<Rightarrow> (Inl e, q)
      | (Inr _, Inl e) \<Rightarrow> (Inl e, q)
      | (Inr ts, Inr entries) \<Rightarrow>
          (case remove_stale c (jset_of (map cronTriggerId ts)) (listScheduledCronTriggerIds entries) 0 q of
             (Inl e, q1) \<Rightarrow> (Inl e, q1)
           | (Inr n, q1) \<Rightarrow>
               (case upsert_all c ts q1 of
                  (Inl e, q2) \<Rightarrow> (Inl e, q2)
                | (Inr _, q2) \<Rightarrow> (Inr (length ts, n), q2))))"

section \<open>The laws of the queue\<close>

text \<open>
  What the library documents: the jobs form a map by scheduler id, an upsert with an accepted pattern sets
  one, one with a pattern that cannot be parsed raises and stores nothing, a removal deletes one, and the
  list names every scheduler.
\<close>

definition schedule_all :: "cron_trigger list \<Rightarrow> (string \<rightharpoonup> scheduled_job) \<Rightarrow> (string \<rightharpoonup> scheduled_job)" where
  "schedule_all ts m = fold (\<lambda>t m. m(cronTriggerId t \<mapsto> job_of_trigger t)) ts m"

lemma schedule_all_simps [simp]:
  "schedule_all [] m = m" "schedule_all (t # ts) m = schedule_all ts (m(cronTriggerId t \<mapsto> job_of_trigger t))"
  "schedule_all (ts @ [t]) m = (schedule_all ts m)(cronTriggerId t \<mapsto> job_of_trigger t)"
  by (simp_all add: schedule_all_def)

lemma schedule_all_apply: "schedule_all ts m i = (if i \<in> cronTriggerId ` set ts then schedule_all ts Map.empty i else m i)"
  by (induction ts rule: rev_induct) auto

lemma upsert_all_append:
  "upsert_all c (xs @ ys) q = (case upsert_all c xs q of (Inl e, q') \<Rightarrow> (Inl e, q') | (Inr _, q') \<Rightarrow> upsert_all c ys q')"
  by (induction xs arbitrary: q) (auto split: prod.splits sum.splits)

locale job_queue =
  fixes client :: "'q queue_client"
    and jobs :: "'q \<Rightarrow> (string \<rightharpoonup> scheduled_job)"
    and accepts :: "string \<Rightarrow> bool"
  assumes upsert_accepted: "accepts (sj_pattern j) \<Longrightarrow> i \<noteq> [] \<Longrightarrow> fst (qc_upsert client i j q) = Inr () \<and> jobs (snd (qc_upsert client i j q)) = (jobs q)(i \<mapsto> j)"
    and upsert_refused: "\<not> accepts (sj_pattern j) \<Longrightarrow> \<exists>e. qc_upsert client i j q = (Inl e, q)"
    and remove_deletes: "\<exists>b. fst (qc_remove client i q) = Inr b \<and> jobs (snd (qc_remove client i q)) = (jobs q)(i := None)"
    and list_names: "\<exists>es. qc_list client q = Inr es \<and> set (listScheduledCronTriggerIds es) = dom (jobs q)"
begin

lemma remove_stale_jobs:
  "\<exists>n' q'. remove_stale client active is n q = (Inr n', q') \<and> jobs q' = (\<lambda>i. if i \<in> set is \<and> i \<notin> set active then None else jobs q i)"
proof (induction "is" arbitrary: n q)
  case (Cons i "is")
  obtain b q1 where q1: "qc_remove client i q = (Inr b, q1)" "jobs q1 = (jobs q)(i := None)"
    using remove_deletes [of i q] by (metis prod.collapse)
  show ?case using Cons.IH [of n q] Cons.IH [of "n + 1" q1] q1 by (auto simp: removeScheduledCronTrigger_def fun_eq_iff)
qed simp

lemma upsert_all_jobs:
  "\<forall>t \<in> set ts. accepts (cronExpression t) \<and> cronTriggerId t \<noteq> [] \<Longrightarrow> \<exists>q'. upsert_all client ts q = (Inr (), q') \<and> jobs q' = schedule_all ts (jobs q)"
proof (induction ts arbitrary: q)
  case (Cons t ts)
  let ?r = "qc_upsert client (cronTriggerId t) (job_of_trigger t) q"
  have "fst ?r = Inr () \<and> jobs (snd ?r) = (jobs q)(cronTriggerId t \<mapsto> job_of_trigger t)"
    using Cons.prems by (intro upsert_accepted) (simp_all add: job_of_trigger_def)
  then obtain q1 where q1: "?r = (Inr (), q1)" "jobs q1 = (jobs q)(cronTriggerId t \<mapsto> job_of_trigger t)" by (metis prod.collapse)
  obtain q2 where "upsert_all client ts q1 = (Inr (), q2)" "jobs q2 = schedule_all ts (jobs q1)" using Cons.IH [of q1] Cons.prems by auto
  then show ?case unfolding q1(2) using q1(1) by (simp add: upsertScheduledCronTrigger_def)
qed simp

lemma upsert_all_stops:
  assumes "\<forall>t \<in> set xs. accepts (cronExpression t) \<and> cronTriggerId t \<noteq> []" "\<not> accepts (cronExpression t)"
  shows "\<exists>e q'. upsert_all client (xs @ t # ys) q = (Inl e, q') \<and> jobs q' = schedule_all xs (jobs q)"
proof -
  obtain q1 where q1: "upsert_all client xs q = (Inr (), q1)" "jobs q1 = schedule_all xs (jobs q)" using upsert_all_jobs [OF assms(1)] by blast
  obtain e where "qc_upsert client (cronTriggerId t) (job_of_trigger t) q1 = (Inl e, q1)"
    using upsert_refused [of "job_of_trigger t"] assms(2) by (auto simp: job_of_trigger_def)
  then have "upsert_all client (t # ys) q1 = (Inl e, q1)" by (simp add: upsertScheduledCronTrigger_def)
  then show ?thesis using q1 upsert_all_append [of client xs "t # ys" q] by simp
qed

lemma stale_removed:
  obtains n q1 es where "qc_list client q = Inr es"
    "remove_stale client (jset_of (map cronTriggerId ts)) (listScheduledCronTriggerIds es) 0 q = (Inr n, q1)"
    "jobs q1 = (\<lambda>i. if i \<in> cronTriggerId ` set ts then jobs q i else None)"
proof -
  obtain es where es: "qc_list client q = Inr es" "set (listScheduledCronTriggerIds es) = dom (jobs q)" using list_names by blast
  obtain n q1 where "remove_stale client (jset_of (map cronTriggerId ts)) (listScheduledCronTriggerIds es) 0 q = (Inr n, q1)"
    "jobs q1 = (\<lambda>i. if i \<in> set (listScheduledCronTriggerIds es) \<and> i \<notin> set (jset_of (map cronTriggerId ts)) then None else jobs q i)"
    using remove_stale_jobs by blast
  then show thesis using that es by (auto simp: fun_eq_iff domIff split: if_splits)
qed

lemma reconcile_jobs:
  assumes "\<forall>t \<in> set ts. accepts (cronExpression t) \<and> cronTriggerId t \<noteq> []"
  shows "\<exists>k q'. reconcileCronTriggers client (Inr ts) q = (Inr k, q') \<and> jobs q' = schedule_all ts Map.empty"
proof -
  obtain n q1 es where q1: "qc_list client q = Inr es" "remove_stale client (jset_of (map cronTriggerId ts)) (listScheduledCronTriggerIds es) 0 q = (Inr n, q1)"
    "jobs q1 = (\<lambda>i. if i \<in> cronTriggerId ` set ts then jobs q i else None)" by (rule stale_removed)
  obtain q2 where "upsert_all client ts q1 = (Inr (), q2)" "jobs q2 = schedule_all ts (jobs q1)" using upsert_all_jobs [OF assms] by blast
  moreover have "schedule_all ts (jobs q1) = schedule_all ts Map.empty"
  proof
    show "schedule_all ts (jobs q1) i = schedule_all ts Map.empty i" for i
      using schedule_all_apply [of ts "jobs q1" i] schedule_all_apply [of ts Map.empty i] fun_cong [OF q1(3), of i] by presburger
  qed
  ultimately show ?thesis using q1(1,2) by (simp add: reconcileCronTriggers_def)
qed

lemma reconcile_stops:
  assumes "\<forall>t \<in> set xs. accepts (cronExpression t) \<and> cronTriggerId t \<noteq> []" "\<not> accepts (cronExpression t)"
    and "i \<notin> cronTriggerId ` set xs" "jobs q i = None"
  shows "\<exists>e q'. reconcileCronTriggers client (Inr (xs @ t # ys)) q = (Inl e, q') \<and> jobs q' i = None"
proof -
  obtain n q1 es where q1: "qc_list client q = Inr es"
    "remove_stale client (jset_of (map cronTriggerId (xs @ t # ys))) (listScheduledCronTriggerIds es) 0 q = (Inr n, q1)"
    "jobs q1 = (\<lambda>i. if i \<in> cronTriggerId ` set (xs @ t # ys) then jobs q i else None)" by (rule stale_removed)
  obtain e q2 where "upsert_all client (xs @ t # ys) q1 = (Inl e, q2)" "jobs q2 = schedule_all xs (jobs q1)" using upsert_all_stops [OF assms(1,2)] by blast
  then show ?thesis using q1 assms(3,4) schedule_all_apply [of xs "jobs q1" i] by (auto simp: reconcileCronTriggers_def)
qed

end

text \<open>A queue that keeps its schedulers in a list.\<close>

definition list_queue :: "(string \<Rightarrow> bool) \<Rightarrow> (string, scheduled_job) jmap queue_client" where
  "list_queue accepts =
     \<lparr>qc_upsert = (\<lambda>i j q. if accepts (sj_pattern j) then (Inr (), jset i j q) else (Inl ''Invalid cron pattern'', q)),
      qc_remove = (\<lambda>i q. (Inr (jhas q i), jdelete i q)),
      qc_list = (\<lambda>q. Inr (map (\<lambda>i. \<lparr>se_id = JStr i, se_key = JUndef\<rparr>) (jkeys q)))\<rparr>"

definition queue_jobs :: "(string, scheduled_job) jmap \<Rightarrow> (string \<rightharpoonup> scheduled_job)" where
  "queue_jobs q i = (if i = [] then None else jget q i)"

lemma list_queue_ids: "listScheduledCronTriggerIds (map (\<lambda>i. \<lparr>se_id = JStr i, se_key = JUndef\<rparr>) is) = filter (\<lambda>i. i \<noteq> []) is"
  by (induction "is") (auto simp: listScheduledCronTriggerIds_def scheduler_id_def List.map_filter_simps)

interpretation list_queue: job_queue "list_queue accepts" queue_jobs accepts for accepts
proof
  show "\<exists>es. qc_list (list_queue accepts) q = Inr es \<and> set (listScheduledCronTriggerIds es) = dom (queue_jobs q)" for q
  proof -
    have "i \<in> dom (queue_jobs q) \<longleftrightarrow> i \<in> set (jkeys q) \<and> i \<noteq> []" for i
      using map_of_eq_None_iff [of q i] by (simp only: queue_jobs_def domIff set_map split: if_split) blast
    then have "set (listScheduledCronTriggerIds (map (\<lambda>i. \<lparr>se_id = JStr i, se_key = JUndef\<rparr>) (jkeys q))) = dom (queue_jobs q)"
      unfolding list_queue_ids by auto
    then show ?thesis by (simp only: list_queue_def queue_client.select_convs) blast
  qed
qed (auto simp: list_queue_def queue_jobs_def fun_eq_iff)

section \<open>From the workflow to the queue\<close>

lemma schedule_all_distinct:
  "distinct (map cronTriggerId ts) \<Longrightarrow> schedule_all ts Map.empty i = Some j \<longleftrightarrow> (\<exists>t \<in> set ts. cronTriggerId t = i \<and> job_of_trigger t = j)"
proof (induction ts rule: rev_induct)
  case (snoc t ts)
  then show ?case by (auto simp: image_iff)
qed simp

text \<open>
  C20. The schedule follows the workflow. Take any history of edits of cron trigger nodes, let the web
  application list a trigger for every stored one, and let the queue accept their expressions: the next
  reconciliation succeeds from any state of the queue, after it the scheduled jobs are exactly those of
  the nodes with a cron expression, with that expression, and reconciling again changes nothing.
\<close>

theorem schedule_follows_workflow:
  assumes queue: "job_queue client jobs accepts"
    and edits: "run_edits cron_onNodeAdded cron_onNodeUpdated cron_onNodeRemoved es Map.empty Map.empty = Some (nodes, stored)"
    and listed: "set (map (\<lambda>t. (cron_nodeId t, cronExpression t)) ts) = {(n, e). stored n = Some e}" "distinct (map cronTriggerId ts)"
      "\<forall>t \<in> set ts. accepts (cronExpression t) \<and> cronTriggerId t \<noteq> []"
  shows "\<exists>k q'. reconcileCronTriggers client (Inr ts) q = (Inr k, q') \<and>
    (\<forall>n e. (\<exists>i j. jobs q' i = Some j \<and> job_nodeId (sj_data j) = n \<and> sj_pattern j = e) \<longleftrightarrow>
       (\<exists>node. nodes n = Some node \<and> getConfiguredCronExpression node = Some e)) \<and>
    (\<exists>k' q''. reconcileCronTriggers client (Inr ts) q' = (Inr k', q'') \<and> jobs q'' = jobs q')"
proof -
  obtain k q' where q': "reconcileCronTriggers client (Inr ts) q = (Inr k, q')" "jobs q' = schedule_all ts Map.empty"
    using job_queue.reconcile_jobs [OF queue listed(3)] by blast
  obtain k' q'' where q'': "reconcileCronTriggers client (Inr ts) q' = (Inr k', q'')" "jobs q'' = schedule_all ts Map.empty"
    using job_queue.reconcile_jobs [OF queue listed(3)] by blast
  have "(\<exists>i j. jobs q' i = Some j \<and> job_nodeId (sj_data j) = n \<and> sj_pattern j = e) \<longleftrightarrow> (\<exists>t \<in> set ts. cron_nodeId t = n \<and> cronExpression t = e)" for n e
    unfolding q'(2) schedule_all_distinct [OF listed(2)] by (fastforce simp: job_of_trigger_def)
  moreover have "(\<exists>t \<in> set ts. cron_nodeId t = n \<and> cronExpression t = e) \<longleftrightarrow> stored n = Some e" for n e
    using listed(1) [unfolded set_eq_iff, rule_format, of "(n, e)"] by (auto simp: image_iff)
  moreover have "stored n = Some e \<longleftrightarrow> (\<exists>node. nodes n = Some node \<and> getConfiguredCronExpression node = Some e)" for n e
    using cron.store_mirrors [OF edits, of n] by (auto simp: Option.bind_eq_Some_conv)
  ultimately show ?thesis using q' q'' by simp
qed

text \<open>
  C40. One bad expression blocks the triggers after it. A reconciliation raises at the first trigger whose
  expression the queue refuses; triggers later in the list that were not scheduled before stay
  unscheduled, however often the reconciliation is repeated.
\<close>

theorem bad_cron_blocks_later:
  assumes queue: "job_queue client jobs accepts"
    and bad: "\<forall>t \<in> set before. accepts (cronExpression t) \<and> cronTriggerId t \<noteq> []" "\<not> accepts (cronExpression t)"
    and later: "u \<in> set later" "cronTriggerId u \<notin> cronTriggerId ` set before" "jobs q (cronTriggerId u) = None"
  shows "jobs (((\<lambda>q. snd (reconcileCronTriggers client (Inr (before @ t # later)) q)) ^^ k) q) (cronTriggerId u) = None \<and>
    (\<exists>e. fst (reconcileCronTriggers client (Inr (before @ t # later)) q) = Inl e)"
proof -
  note stop = job_queue.reconcile_stops [OF queue bad later(2)]
  have step: "jobs (snd (reconcileCronTriggers client (Inr (before @ t # later)) p)) (cronTriggerId u) = None" if "jobs p (cronTriggerId u) = None" for p
    using stop [OF that, of later] by auto
  have "jobs (((\<lambda>q. snd (reconcileCronTriggers client (Inr (before @ t # later)) q)) ^^ k) q) (cronTriggerId u) = None"
    by (induction k) (simp_all add: later(3) step)
  then show ?thesis using stop [OF later(3), of later] by auto
qed

text \<open>
  One foreign identifier blocks everything. The trigger plugin lets the host list any non-empty flow and
  node identifier; the scheduler refuses the whole list when one of them is not a UUID, so the
  reconciliation raises and leaves the queue as it is.
\<close>

theorem foreign_id_blocks_schedule:
  assumes "JObj ps \<in> set vs" "obj_get ps ''flowId'' = JStr f" "\<not> is_uuid f"
  shows "\<exists>e. reconcileCronTriggers client (listActiveCronTriggersFromWebApp print_nat is_uuid (Inr (200, JArr vs))) q = (Inl e, q)"
proof -
  have "parse_active_trigger is_uuid (JObj ps) = None" using assms(2,3) by (simp add: parse_active_trigger_def uuid_field_def split: option.splits)
  then have "\<not> list_all (\<lambda>x. parse_active_trigger is_uuid x \<noteq> None) vs" using assms(1) by (auto simp: list_all_iff)
  then have "parse_active_triggers is_uuid (JArr vs) = None" unfolding parse_active_triggers_def by simp
  then show ?thesis by (simp add: listActiveCronTriggersFromWebApp_def reconcileCronTriggers_def)
qed

section \<open>Examples\<close>

definition demo_cron :: "string \<Rightarrow> string \<Rightarrow> cron_trigger" where
  "demo_cron n e = \<lparr>cronExpression = e, cronTriggerId = ''t-'' @ n, cron_flowId = ''f'', cron_nodeId = n\<rparr>"

theorem schedule_follows_workflow_witness:
  "\<exists>k q'. reconcileCronTriggers (list_queue (\<lambda>_. True)) (Inr [demo_cron ''b'' ''up'']) [(''old'', job_of_trigger (demo_cron ''x'' ''y''))] = (Inr k, q') \<and>
     (\<exists>i j. queue_jobs q' i = Some j \<and> job_nodeId (sj_data j) = ''b'' \<and> sj_pattern j = ''up'') \<and>
     \<not> (\<exists>i j. queue_jobs q' i = Some j \<and> job_nodeId (sj_data j) = ''x'' \<and> sj_pattern j = ''y'')"
proof -
  let ?run = "run_edits cron_onNodeAdded cron_onNodeUpdated cron_onNodeRemoved demo_edits Map.empty Map.empty"
  have expr: "getConfiguredCronExpression (demo_trigger ''b'' ''up'') = Some ''up''" "getConfiguredCronExpression (demo_trigger ''a'' '' 0 * * * * '') = Some ''0 * * * *''"
    "getConfiguredCronExpression (demo_trigger ''b'' []) = None" by code_simp+
  have ids: "nd_id (demo_trigger i e) = i" for i e by (simp add: demo_trigger_def)
  obtain nodes stored where run: "?run = Some (nodes, stored)" "nodes = [''b'' \<mapsto> demo_trigger ''b'' ''up'']"
    by (simp add: demo_edits_def ids)
  have "stored n = Some e \<longleftrightarrow> n = ''b'' \<and> e = ''up''" for n e
    using cron.store_mirrors [OF run(1), of n] expr(1) run(2) by auto
  then have "set (map (\<lambda>t. (cron_nodeId t, cronExpression t)) [demo_cron ''b'' ''up'']) = {(n, e). stored n = Some e}"
    by (auto simp: demo_cron_def)
  moreover have "distinct (map cronTriggerId [demo_cron ''b'' ''up''])" "\<forall>t \<in> set [demo_cron ''b'' ''up'']. True \<and> cronTriggerId t \<noteq> []"
    by (simp_all add: demo_cron_def)
  ultimately obtain k q' where q': "reconcileCronTriggers (list_queue (\<lambda>_. True)) (Inr [demo_cron ''b'' ''up'']) [(''old'', job_of_trigger (demo_cron ''x'' ''y''))] = (Inr k, q')"
    "\<And>n e. (\<exists>i j. queue_jobs q' i = Some j \<and> job_nodeId (sj_data j) = n \<and> sj_pattern j = e) \<longleftrightarrow>
       (\<exists>node. nodes n = Some node \<and> getConfiguredCronExpression node = Some e)"
    using schedule_follows_workflow [OF list_queue.job_queue_axioms run(1), of "[demo_cron ''b'' ''up'']" "\<lambda>_. True" "[(''old'', job_of_trigger (demo_cron ''x'' ''y''))]"]
    by blast
  have "\<exists>i j. queue_jobs q' i = Some j \<and> job_nodeId (sj_data j) = ''b'' \<and> sj_pattern j = ''up''" unfolding q'(2) using expr(1) run(2) by simp
  moreover have "\<not> (\<exists>i j. queue_jobs q' i = Some j \<and> job_nodeId (sj_data j) = ''x'' \<and> sj_pattern j = ''y'')" unfolding q'(2) using run(2) by simp
  ultimately show ?thesis using q'(1) by blast
qed

theorem bad_cron_blocks_later_witness:
  "queue_jobs (((\<lambda>q. snd (reconcileCronTriggers (list_queue (\<lambda>e. e \<noteq> ''bad'')) (Inr ([] @ demo_cron ''a'' ''bad'' # [demo_cron ''b'' ''up''])) q)) ^^ 9) []) ''t-b'' = None"
  using bad_cron_blocks_later [OF list_queue.job_queue_axioms, of "[]" "\<lambda>e. e \<noteq> ''bad''" "demo_cron ''a'' ''bad''" "demo_cron ''b'' ''up''" "[demo_cron ''b'' ''up'']" "[]" 9]
  by (simp add: demo_cron_def queue_jobs_def)

theorem foreign_id_blocks_schedule_witness:
  "\<exists>e. reconcileCronTriggers (list_queue (\<lambda>_. True)) (listActiveCronTriggersFromWebApp (\<lambda>_. []) (\<lambda>s. s = ''uuid'')
     (Inr (200, JArr [JObj [(''cronExpression'', JStr ''c''), (''cronTriggerId'', JStr ''i''), (''flowId'', JStr ''flow-1''), (''nodeId'', JStr ''uuid'')]]))) [] = (Inl e, [])"
  by (rule foreign_id_blocks_schedule [of "[(''cronExpression'', JStr ''c''), (''cronTriggerId'', JStr ''i''), (''flowId'', JStr ''flow-1''), (''nodeId'', JStr ''uuid'')]" _ "''flow-1''"]) simp_all

end
