(* ===== verification/Editor_Mutations.thy ===== *)
theory Editor_Mutations
  imports Workflow_Triggers
begin

text \<open>
  What the workflow editor tells the node handlers (\<open>trakrai-workflow-ui/src/ui\<close>): the snapshot of the canvas
  (\<open>workflow-data-utils.ts\<close>), the changes between two snapshots and their dispatch (\<open>node-mutation-utils.ts\<close>),
  and the effect of \<open>use-fluxery-editor-state.ts\<close> that queues the dispatches one after the other. The package
  \<open>fast-deep-equal\<close> is the argument \<open>equal\<close>; a callback of a handler changes a world and may raise. The
  stores of the trigger plugins (\<open>Workflow_Triggers\<close>) are parts of that world.
\<close>

section \<open>Snapshots\<close>

record editor_node =
  en_id :: string
  en_type :: "string option"
  en_position :: jv
  en_data :: jv
  en_measured :: jv

text \<open>A node of the canvas also has the fields React Flow keeps (\<open>selected\<close>, \<open>dragging\<close>, ...).\<close>

record canvas_node = editor_node +
  cn_internal :: jobject

record workflow_data =
  wd_nodes :: "editor_node list"
  wd_edges :: "jv list"

definition serialize_edge :: "jobject \<Rightarrow> jv" where
  "serialize_edge e =
     JObj (map (\<lambda>k. (k, obj_get e k))
       [''source'', ''sourceHandle'', ''target'', ''targetHandle'', ''id'', ''data'', ''type'', ''animated''])"

definition serializeWorkflowData :: "canvas_node list \<Rightarrow> jobject list \<Rightarrow> workflow_data" where
  "serializeWorkflowData nodes edges = \<lparr>wd_nodes = map editor_node.truncate nodes, wd_edges = map serialize_edge edges\<rparr>"

text \<open>The node as the handlers of the engine see it.\<close>

definition flow_of :: "editor_node \<Rightarrow> flow_node" where
  "flow_of n = \<lparr>nd_id = en_id n, nd_type = en_type n,
     nd_configuration = (case en_data n of JObj ps \<Rightarrow> obj_get ps ''configuration'' | _ \<Rightarrow> JUndef)\<rparr>"

section \<open>Mutations\<close>

datatype node_mutation = Added editor_node | Removed editor_node | Updated editor_node editor_node

definition nodes_by_id :: "editor_node list \<Rightarrow> (string, editor_node) jmap" where
  "nodes_by_id nodes = fold (\<lambda>n. jset (en_id n) n) nodes []"

definition removed_mutations :: "editor_node list \<Rightarrow> editor_node list \<Rightarrow> node_mutation list" where
  "removed_mutations previous current =
     List.map_filter (\<lambda>p. case jget (nodes_by_id current) (en_id p) of
         None \<Rightarrow> Some (Removed p)
       | Some c \<Rightarrow> if en_type p \<noteq> en_type c then Some (Removed p) else None) previous"

definition current_mutation :: "(jv \<Rightarrow> jv \<Rightarrow> bool) \<Rightarrow> editor_node list \<Rightarrow> editor_node \<Rightarrow> node_mutation option" where
  "current_mutation equal previous c =
     (case jget (nodes_by_id previous) (en_id c) of
        None \<Rightarrow> Some (Added c)
      | Some p \<Rightarrow> if en_type p \<noteq> en_type c then Some (Added c)
                  else if \<not> equal (en_data p) (en_data c) then Some (Updated c p) else None)"

definition getNodeMutations :: "(jv \<Rightarrow> jv \<Rightarrow> bool) \<Rightarrow> workflow_data \<Rightarrow> workflow_data \<Rightarrow> node_mutation list" where
  "getNodeMutations equal previous current =
     removed_mutations (wd_nodes previous) (wd_nodes current) @
     List.map_filter (current_mutation equal (wd_nodes previous)) (wd_nodes current)"

section \<open>Dispatch\<close>

text \<open>A callback returns the world it leaves and the error it raised, if any.\<close>

record 'w node_callbacks =
  onNodeAdded :: "editor_node \<Rightarrow> 'w \<Rightarrow> 'w \<times> string option"
  onNodeRemoved :: "editor_node \<Rightarrow> 'w \<Rightarrow> 'w \<times> string option"
  onNodeUpdated :: "editor_node \<Rightarrow> editor_node \<Rightarrow> 'w \<Rightarrow> 'w \<times> string option"

type_synonym 'w callback_registry = "(string, 'w node_callbacks) jmap"

fun mutated :: "node_mutation \<Rightarrow> editor_node" where
  "mutated (Added n) = n"
| "mutated (Removed n) = n"
| "mutated (Updated n p) = n"

fun call_back :: "'w node_callbacks \<Rightarrow> node_mutation \<Rightarrow> 'w \<Rightarrow> 'w \<times> string option" where
  "call_back h (Added n) w = onNodeAdded h n w"
| "call_back h (Removed n) w = onNodeRemoved h n w"
| "call_back h (Updated n p) w = onNodeUpdated h n p w"

definition dispatch_one :: "'w callback_registry \<Rightarrow> node_mutation \<Rightarrow> 'w \<Rightarrow> 'w \<times> string option" where
  "dispatch_one handlers m w =
     (case en_type (mutated m) of
        None \<Rightarrow> (w, None)
      | Some t \<Rightarrow> (case jget handlers t of None \<Rightarrow> (w, None) | Some h \<Rightarrow> call_back h m w))"

fun dispatch_all :: "'w callback_registry \<Rightarrow> node_mutation list \<Rightarrow> 'w \<Rightarrow> 'w \<times> string option" where
  "dispatch_all handlers [] w = (w, None)"
| "dispatch_all handlers (m # ms) w =
     (case dispatch_one handlers m w of (w', None) \<Rightarrow> dispatch_all handlers ms w' | (w', Some e) \<Rightarrow> (w', Some e))"

definition dispatchNodeMutationCallbacks ::
  "(jv \<Rightarrow> jv \<Rightarrow> bool) \<Rightarrow> 'w callback_registry option \<Rightarrow> workflow_data \<Rightarrow> workflow_data \<Rightarrow> 'w \<Rightarrow> 'w \<times> string option" where
  "dispatchNodeMutationCallbacks equal nodeHandlers previous current w =
     (case nodeHandlers of None \<Rightarrow> (w, None) | Some hs \<Rightarrow> dispatch_all hs (getNodeMutations equal previous current) w)"

section \<open>The editor's effect and its queue\<close>

definition node_equal :: "(jv \<Rightarrow> jv \<Rightarrow> bool) \<Rightarrow> editor_node \<Rightarrow> editor_node \<Rightarrow> bool" where
  "node_equal equal a b \<longleftrightarrow> en_id a = en_id b \<and> en_type a = en_type b \<and> equal (en_position a) (en_position b) \<and>
     equal (en_data a) (en_data b) \<and> equal (en_measured a) (en_measured b)"

text \<open>\<open>equal\<close> on two snapshots compares the arrays of nodes and edges element by element.\<close>

definition data_equal :: "(jv \<Rightarrow> jv \<Rightarrow> bool) \<Rightarrow> workflow_data \<Rightarrow> workflow_data \<Rightarrow> bool" where
  "data_equal equal a b \<longleftrightarrow> list_all2 (node_equal equal) (wd_nodes a) (wd_nodes b) \<and> list_all2 equal (wd_edges a) (wd_edges b)"

text \<open>
  \<open>es_previous\<close> is \<open>previousNodeMutationDataRef\<close>; \<open>es_queue\<close> are the dispatches chained to
  \<open>nodeMutationCallbackQueueRef\<close> that have not run; \<open>es_reported\<close> are the errors given to \<open>reportError\<close>.
\<close>

record 'w editor_state =
  es_previous :: "workflow_data option"
  es_queue :: "(workflow_data \<times> workflow_data) list"
  es_reported :: "string list"
  es_world :: 'w

definition mutation_effect ::
  "(jv \<Rightarrow> jv \<Rightarrow> bool) \<Rightarrow> canvas_node list \<Rightarrow> jobject list \<Rightarrow> 'w editor_state \<Rightarrow> 'w editor_state" where
  "mutation_effect equal nodes edges s =
     (let currentData = serializeWorkflowData nodes edges; s' = s\<lparr>es_previous := Some currentData\<rparr> in
      case es_previous s of
        None \<Rightarrow> s'
      | Some previousData \<Rightarrow>
          if data_equal equal previousData currentData then s'
          else if getNodeMutations equal previousData currentData = [] then s'
          else s'\<lparr>es_queue := es_queue s @ [(previousData, currentData)]\<rparr>)"

definition run_job :: "(jv \<Rightarrow> jv \<Rightarrow> bool) \<Rightarrow> 'w callback_registry option \<Rightarrow> 'w editor_state \<Rightarrow> 'w editor_state" where
  "run_job equal nodeHandlers s =
     (case es_queue s of
        [] \<Rightarrow> s
      | (p, c) # jobs \<Rightarrow>
          (case dispatchNodeMutationCallbacks equal nodeHandlers p c (es_world s) of
             (w, e) \<Rightarrow> s\<lparr>es_queue := jobs, es_world := w,
               es_reported := es_reported s @ (case e of None \<Rightarrow> [] | Some x \<Rightarrow> [x])\<rparr>))"

datatype editor_event = Render "canvas_node list" "jobject list" | RunJob

fun editor_step :: "(jv \<Rightarrow> jv \<Rightarrow> bool) \<Rightarrow> 'w callback_registry option \<Rightarrow> editor_event \<Rightarrow> 'w editor_state \<Rightarrow> 'w editor_state" where
  "editor_step equal nodeHandlers (Render nodes edges) s = mutation_effect equal nodes edges s"
| "editor_step equal nodeHandlers RunJob s = run_job equal nodeHandlers s"

section \<open>Snapshots with distinct ids\<close>

definition ids_distinct :: "workflow_data \<Rightarrow> bool" where
  "ids_distinct d \<longleftrightarrow> distinct (map en_id (wd_nodes d))"

definition node_at :: "editor_node list \<Rightarrow> string \<Rightarrow> editor_node option" where
  "node_at nodes i = map_of (map (\<lambda>n. (en_id n, n)) nodes) i"

lemma flow_of_simps [simp]: "nd_id (flow_of n) = en_id n" "nd_type (flow_of n) = en_type n"
  by (simp_all add: flow_of_def)

lemma node_at_simps [simp]:
  "node_at [] i = None" "node_at (n # ns) i = (if en_id n = i then Some n else node_at ns i)"
  by (simp_all add: node_at_def)

lemma node_at_member: "n \<in> set ns \<Longrightarrow> distinct (map en_id ns) \<Longrightarrow> node_at ns (en_id n) = Some n"
  by (induction ns) (auto simp: image_iff)

lemma node_at_SomeD: "node_at ns i = Some n \<Longrightarrow> n \<in> set ns \<and> en_id n = i"
  by (induction ns) (auto split: if_splits)

lemma node_at_None: "node_at ns i = None \<longleftrightarrow> (\<forall>n \<in> set ns. en_id n \<noteq> i)"
  by (induction ns) auto

lemma nodes_by_id_get:
  assumes "distinct (map en_id ns)"
  shows "jget (nodes_by_id ns) i = node_at ns i"
proof -
  have "jget (fold (\<lambda>n. jset (en_id n) n) ns m) i = (case node_at ns i of None \<Rightarrow> jget m i | Some n \<Rightarrow> Some n)" for m
    using assms
  proof (induction ns arbitrary: m)
    case (Cons a ns)
    have "node_at ns (en_id a) = None" using Cons.prems by (force simp: node_at_None image_iff)
    then show ?case using Cons by (auto split: option.splits)
  qed simp
  then show ?thesis by (simp add: nodes_by_id_def split: option.splits)
qed

section \<open>A plugin's store follows the snapshots\<close>

text \<open>A handler that makes the calls of its plugin on the plugin's store, and one that leaves the store alone.\<close>

definition makes_calls ::
  "('w \<Rightarrow> string \<rightharpoonup> 'v) \<Rightarrow> (flow_node \<Rightarrow> 'v trigger_call list) \<Rightarrow> (flow_node \<Rightarrow> flow_node \<Rightarrow> 'v trigger_call list) \<Rightarrow>
   (flow_node \<Rightarrow> 'v trigger_call list) \<Rightarrow> 'w node_callbacks \<Rightarrow> bool" where
  "makes_calls store added updated removed h \<longleftrightarrow>
     (\<forall>n p w. snd (onNodeAdded h n w) = None \<and> store (fst (onNodeAdded h n w)) = fold apply_call (added (flow_of n)) (store w) \<and>
        snd (onNodeRemoved h n w) = None \<and> store (fst (onNodeRemoved h n w)) = fold apply_call (removed (flow_of n)) (store w) \<and>
        snd (onNodeUpdated h n p w) = None \<and> store (fst (onNodeUpdated h n p w)) = fold apply_call (updated (flow_of n) (flow_of p)) (store w))"

definition leaves_store :: "('w \<Rightarrow> string \<rightharpoonup> 'v) \<Rightarrow> 'w node_callbacks \<Rightarrow> bool" where
  "leaves_store store h \<longleftrightarrow>
     (\<forall>n p w. snd (onNodeAdded h n w) = None \<and> store (fst (onNodeAdded h n w)) = store w \<and>
        snd (onNodeRemoved h n w) = None \<and> store (fst (onNodeRemoved h n w)) = store w \<and>
        snd (onNodeUpdated h n p w) = None \<and> store (fst (onNodeUpdated h n p w)) = store w)"

definition stored_for :: "(flow_node \<Rightarrow> 'v option) \<Rightarrow> string \<Rightarrow> editor_node \<Rightarrow> 'v option" where
  "stored_for configured kind n = (if en_type n = Some kind then configured (flow_of n) else None)"

definition store_follows :: "(flow_node \<Rightarrow> 'v option) \<Rightarrow> string \<Rightarrow> workflow_data \<Rightarrow> (string \<rightharpoonup> 'v) \<Rightarrow> bool" where
  "store_follows configured kind d store \<longleftrightarrow> (\<forall>i. store i = Option.bind (node_at (wd_nodes d) i) (stored_for configured kind))"

lemma fold_at_ids:
  assumes "distinct (map en_id ns)"
    and "\<And>n t. n \<in> set ns \<Longrightarrow> t (en_id n) = s (en_id n) \<Longrightarrow> f n t = t(en_id n := v n)"
  shows "fold f ns s i = (case node_at ns i of None \<Rightarrow> s i | Some n \<Rightarrow> v n)"
proof -
  have "fold f ns t i = (case node_at ns i of None \<Rightarrow> t i | Some n \<Rightarrow> v n)" if "\<forall>n \<in> set ns. t (en_id n) = s (en_id n)" for t
    using assms that
  proof (induction ns arbitrary: t)
    case (Cons a ns)
    have a: "f a t = t(en_id a := v a)" by (rule Cons.prems(2)) (use Cons.prems(3) in simp_all)
    have fresh: "node_at ns (en_id a) = None" using Cons.prems(1) by (force simp: node_at_None image_iff)
    have "\<forall>n \<in> set ns. (t(en_id a := v a)) (en_id n) = s (en_id n)" using Cons.prems(3) fresh by (auto simp: node_at_None)
    then have "fold f ns (t(en_id a := v a)) i = (case node_at ns i of None \<Rightarrow> (t(en_id a := v a)) i | Some n \<Rightarrow> v n)"
      by (rule Cons.IH [rotated 2]) (use Cons.prems(1) in simp, rule Cons.prems(2), simp_all)
    then show ?case using a fresh by (auto split: option.splits)
  qed simp
  then show ?thesis by simp
qed

lemma map_filter_if: "(\<And>x. f x = (if Q x then Some (g x) else None)) \<Longrightarrow> List.map_filter f xs = map g (filter Q xs)"
  by (induction xs) (auto simp: List.map_filter_simps)

lemma fold_map_filter: "fold g (List.map_filter f xs) s = fold (\<lambda>x. case f x of None \<Rightarrow> (\<lambda>s. s) | Some y \<Rightarrow> g y) xs s"
  by (induction xs arbitrary: s) (auto simp: List.map_filter_simps split: option.splits)

fun mutation_calls ::
  "(flow_node \<Rightarrow> 'v trigger_call list) \<Rightarrow> (flow_node \<Rightarrow> flow_node \<Rightarrow> 'v trigger_call list) \<Rightarrow> (flow_node \<Rightarrow> 'v trigger_call list) \<Rightarrow>
   node_mutation \<Rightarrow> 'v trigger_call list" where
  "mutation_calls added updated removed (Added n) = added (flow_of n)"
| "mutation_calls added updated removed (Removed n) = removed (flow_of n)"
| "mutation_calls added updated removed (Updated n p) = updated (flow_of n) (flow_of p)"

definition kind_calls ::
  "(flow_node \<Rightarrow> 'v trigger_call list) \<Rightarrow> (flow_node \<Rightarrow> flow_node \<Rightarrow> 'v trigger_call list) \<Rightarrow> (flow_node \<Rightarrow> 'v trigger_call list) \<Rightarrow>
   string \<Rightarrow> node_mutation \<Rightarrow> 'v trigger_call list" where
  "kind_calls added updated removed kind m = (if en_type (mutated m) = Some kind then mutation_calls added updated removed m else [])"

lemma dispatch_one_store:
  assumes "jget handlers kind = Some h" "makes_calls store added updated removed h"
    and "\<And>t h'. jget handlers t = Some h' \<Longrightarrow> t \<noteq> kind \<Longrightarrow> leaves_store store h'"
  shows "snd (dispatch_one handlers m w) = None \<and> store (fst (dispatch_one handlers m w)) = fold apply_call (kind_calls added updated removed kind m) (store w)"
proof (cases "en_type (mutated m)")
  case (Some t)
  show ?thesis
  proof (cases "t = kind")
    case True
    then show ?thesis using Some assms(1,2) by (cases m) (simp_all add: dispatch_one_def kind_calls_def makes_calls_def)
  next
    case False
    show ?thesis
    proof (cases "jget handlers t")
      case (Some h')
      from assms(3) [OF this False] show ?thesis
        using Some False \<open>en_type (mutated m) = Some t\<close> by (cases m) (simp_all add: dispatch_one_def kind_calls_def leaves_store_def)
    qed (simp add: dispatch_one_def kind_calls_def Some False)
  qed
qed (simp add: dispatch_one_def kind_calls_def)

lemma dispatch_all_store:
  assumes "jget handlers kind = Some h" "makes_calls store added updated removed h"
    and "\<And>t h'. jget handlers t = Some h' \<Longrightarrow> t \<noteq> kind \<Longrightarrow> leaves_store store h'"
  shows "snd (dispatch_all handlers ms w) = None \<and>
    store (fst (dispatch_all handlers ms w)) = fold (\<lambda>m. fold apply_call (kind_calls added updated removed kind m)) ms (store w)"
proof (induction ms arbitrary: w)
  case (Cons m ms)
  obtain w' e where d: "dispatch_one handlers m w = (w', e)" by fastforce
  show ?case using dispatch_one_store [where m = m and w = w, OF assms] Cons.IH [of w'] d by simp
qed simp

context mirrored_trigger
begin

lemma removed_fold:
  "fold (\<lambda>m. fold apply_call (kind_calls added updated removed kind m)) (map Removed ns) s i =
     (if \<exists>n \<in> set ns. en_id n = i \<and> en_type n = Some kind then None else s i)"
proof (induction ns arbitrary: s)
  case (Cons n ns)
  have "fold apply_call (kind_calls added updated removed kind (Removed n)) s = (if en_type n = Some kind then s(en_id n := None) else s)"
    using removed_stores [of "flow_of n" s] by (simp add: kind_calls_def)
  then show ?case by (auto simp: Cons.IH)
qed simp

lemma mutations_store:
  assumes previous: "store_follows configured kind p s" and ids: "ids_distinct p" "ids_distinct c"
    and same: "\<And>a b. en_id a = en_id b \<Longrightarrow> equal (en_data a) (en_data b) \<Longrightarrow> configured (flow_of a) = configured (flow_of b)"
  shows "store_follows configured kind c (fold (\<lambda>m. fold apply_call (kind_calls added updated removed kind m)) (getNodeMutations equal p c) s)"
proof -
  let ?f = "\<lambda>m. fold apply_call (kind_calls added updated removed kind m)" and ?P = "wd_nodes p" and ?C = "wd_nodes c"
  let ?gone = "\<lambda>n. case node_at ?C (en_id n) of None \<Rightarrow> True | Some m \<Rightarrow> en_type n \<noteq> en_type m"
  have dp: "distinct (map en_id ?P)" and dc: "distinct (map en_id ?C)" using ids by (simp_all add: ids_distinct_def)
  have rem: "removed_mutations ?P ?C = map Removed (filter ?gone ?P)"
    unfolding removed_mutations_def nodes_by_id_get [OF dc] by (rule map_filter_if) (auto split: option.splits)
  define s1 where "s1 = fold ?f (removed_mutations ?P ?C) s"
  have s1: "s1 i = (if \<exists>n \<in> set ?P. ?gone n \<and> en_id n = i \<and> en_type n = Some kind then None else s i)" for i
    unfolding s1_def rem removed_fold by auto
  have s: "s i = Option.bind (node_at ?P i) (stored_for configured kind)" for i using previous by (simp add: store_follows_def)
  have kept: "s1 i = (case node_at ?P i of Some n \<Rightarrow> if ?gone n then None else stored_for configured kind n | None \<Rightarrow> None)" for i
  proof (cases "node_at ?P i")
    case None
    then show ?thesis using s [of i] s1 [of i] by simp
  next
    case (Some n)
    have "(\<exists>m \<in> set ?P. ?gone m \<and> en_id m = i \<and> en_type m = Some kind) \<longleftrightarrow> ?gone n \<and> en_type n = Some kind"
      using node_at_SomeD [OF Some] node_at_member [OF _ dp] Some by (metis option.inject)
    then show ?thesis using s [of i] s1 [of i] Some by (simp add: stored_for_def)
  qed
  let ?g = "\<lambda>n. case current_mutation equal ?P n of None \<Rightarrow> (\<lambda>s. s) | Some m \<Rightarrow> ?f m"
  have step: "?g n t = t(en_id n := stored_for configured kind n)" if n: "n \<in> set ?C" and t: "t (en_id n) = s1 (en_id n)" for n t
  proof -
    have at: "node_at ?C (en_id n) = Some n" using node_at_member [OF n dc] .
    show ?thesis
    proof (cases "node_at ?P (en_id n)")
      case None
      then show ?thesis using t kept [of "en_id n"] added_stores [of t "flow_of n"]
        by (auto simp: current_mutation_def nodes_by_id_get [OF dp] kind_calls_def stored_for_def)
    next
      case (Some q)
      have q: "en_id q = en_id n" using node_at_SomeD [OF Some] by simp
      show ?thesis
      proof (cases "en_type q = en_type n \<and> en_type n = Some kind")
        case True
        have "t (en_id n) = configured (flow_of q)" using t kept [of "en_id n"] Some q at True by (simp add: stored_for_def)
        then show ?thesis using Some q True same [of q n] updated_stores [of "flow_of q" "flow_of n" t]
          by (auto simp: current_mutation_def nodes_by_id_get [OF dp] kind_calls_def stored_for_def)
      next
        case False
        then have "t (en_id n) = None" using t kept [of "en_id n"] Some q at by (auto simp: stored_for_def)
        then show ?thesis using Some q False added_stores [of t "flow_of n"]
          by (auto simp: current_mutation_def nodes_by_id_get [OF dp] kind_calls_def stored_for_def)
      qed
    qed
  qed
  have "fold ?f (getNodeMutations equal p c) s = fold ?g ?C s1"
    by (simp add: getNodeMutations_def s1_def fold_map_filter)
  then have "fold ?f (getNodeMutations equal p c) s i = (case node_at ?C i of None \<Rightarrow> s1 i | Some n \<Rightarrow> stored_for configured kind n)" for i
    using fold_at_ids [OF dc, of s1 ?g] step by simp
  then show ?thesis using kept by (auto simp: store_follows_def split: option.splits dest: node_at_SomeD)
qed

text \<open>One dispatch keeps the store in step, and so does a whole session of the editor.\<close>

lemma dispatch_in_step:
  assumes "jget hs kind = Some h" "makes_calls store added updated removed h"
    and "\<And>t h'. jget hs t = Some h' \<Longrightarrow> t \<noteq> kind \<Longrightarrow> leaves_store store h'"
    and same: "\<And>a b. en_id a = en_id b \<Longrightarrow> equal (en_data a) (en_data b) \<Longrightarrow> configured (flow_of a) = configured (flow_of b)"
    and "store_follows configured kind p (store w)" "ids_distinct p" "ids_distinct c"
  shows "store_follows configured kind c (store (fst (dispatchNodeMutationCallbacks equal (Some hs) p c w)))"
  using dispatch_all_store [where ms = "getNodeMutations equal p c" and w = w, OF assms(1-3)] mutations_store [OF assms(5-7) same]
  by (simp add: dispatchNodeMutationCallbacks_def)

end

section \<open>The queue\<close>

text \<open>The world once every queued dispatch has run.\<close>

definition drained_world :: "(jv \<Rightarrow> jv \<Rightarrow> bool) \<Rightarrow> 'w callback_registry option \<Rightarrow> 'w editor_state \<Rightarrow> 'w" where
  "drained_world equal hs s = fold (\<lambda>(p, c) w. fst (dispatchNodeMutationCallbacks equal hs p c w)) (es_queue s) (es_world s)"

lemma run_job_drained [simp]:
  "drained_world equal hs (run_job equal hs s) = drained_world equal hs s"
  "es_previous (run_job equal hs s) = es_previous s"
  "length (es_queue (run_job equal hs s)) = length (es_queue s) - 1"
  by (auto simp: run_job_def drained_world_def split: list.splits prod.splits)

lemma drain:
  "length (es_queue s) = k \<Longrightarrow> es_queue ((run_job equal hs ^^ k) s) = [] \<and> es_world ((run_job equal hs ^^ k) s) = drained_world equal hs s"
proof (induction k arbitrary: s)
  case 0
  then show ?case by (simp add: drained_world_def)
next
  case (Suc k)
  have "length (es_queue (run_job equal hs s)) = k" using Suc.prems by simp
  from Suc.IH [OF this] show ?case by (simp add: funpow_Suc_right del: funpow.simps)
qed

definition rendered :: "editor_event list \<Rightarrow> workflow_data list" where
  "rendered evs = List.map_filter (\<lambda>e. case e of Render nodes edges \<Rightarrow> Some (serializeWorkflowData nodes edges) | RunJob \<Rightarrow> None) evs"

lemma rendered_simps [simp]:
  "rendered [] = []" "rendered (Render nodes edges # evs) = serializeWorkflowData nodes edges # rendered evs" "rendered (RunJob # evs) = rendered evs"
  by (simp_all add: rendered_def List.map_filter_simps)

lemma effect_previous [simp]: "es_previous (mutation_effect equal nodes edges s) = Some (serializeWorkflowData nodes edges)"
  by (simp add: mutation_effect_def Let_def split: option.split)

lemma session_previous:
  "es_previous s = Some d \<Longrightarrow> es_previous (fold (editor_step equal hs) evs s) = Some (last (d # rendered evs))"
proof (induction evs arbitrary: s d)
  case (Cons e evs)
  show ?case
  proof (cases e)
    case (Render nodes edges)
    show ?thesis using Cons.IH [OF effect_previous] Render by simp
  next
    case RunJob
    then show ?thesis using Cons.IH [of "run_job equal hs s" d] Cons.prems by simp
  qed
qed simp

lemma equal_nodes_at:
  assumes "list_all2 (node_equal equal) ns ms"
    and "\<And>a b. en_id a = en_id b \<Longrightarrow> equal (en_data a) (en_data b) \<Longrightarrow> configured (flow_of a) = configured (flow_of b)"
  shows "Option.bind (node_at ns i) (stored_for configured kind) = Option.bind (node_at ms i) (stored_for configured kind)"
  using assms(1) by induction (auto simp: node_equal_def stored_for_def intro: assms(2))

definition editor_in_step ::
  "(jv \<Rightarrow> jv \<Rightarrow> bool) \<Rightarrow> 'w callback_registry option \<Rightarrow> (flow_node \<Rightarrow> 'v option) \<Rightarrow> string \<Rightarrow> ('w \<Rightarrow> string \<rightharpoonup> 'v) \<Rightarrow> 'w editor_state \<Rightarrow> bool" where
  "editor_in_step equal hs configured kind store s \<longleftrightarrow>
     (\<exists>d. es_previous s = Some d \<and> ids_distinct d \<and> store_follows configured kind d (store (drained_world equal hs s)))"

context mirrored_trigger
begin

lemma effect_in_step:
  assumes hs: "jget hs kind = Some h" "makes_calls store added updated removed h"
    "\<And>t h'. jget hs t = Some h' \<Longrightarrow> t \<noteq> kind \<Longrightarrow> leaves_store store h'"
    and same: "\<And>a b. en_id a = en_id b \<Longrightarrow> equal (en_data a) (en_data b) \<Longrightarrow> configured (flow_of a) = configured (flow_of b)"
    and s: "editor_in_step equal (Some hs) configured kind store s" and ids: "ids_distinct (serializeWorkflowData nodes edges)"
  shows "editor_in_step equal (Some hs) configured kind store (mutation_effect equal nodes edges s)"
proof -
  let ?c = "serializeWorkflowData nodes edges"
  obtain d where d: "es_previous s = Some d" "ids_distinct d" "store_follows configured kind d (store (drained_world equal (Some hs) s))"
    using s by (auto simp: editor_in_step_def)
  have next_step: "store_follows configured kind ?c (store (fst (dispatchNodeMutationCallbacks equal (Some hs) d ?c (drained_world equal (Some hs) s))))"
    by (rule dispatch_in_step) (use hs same d ids in auto)
  consider "data_equal equal d ?c" | "\<not> data_equal equal d ?c" "getNodeMutations equal d ?c = []"
    | "\<not> data_equal equal d ?c" "getNodeMutations equal d ?c \<noteq> []" by blast
  then have "store_follows configured kind ?c (store (drained_world equal (Some hs) (mutation_effect equal nodes edges s)))"
  proof cases
    case 1
    have "store_follows configured kind ?c (store (drained_world equal (Some hs) s))"
      using d(3) equal_nodes_at [of equal "wd_nodes d" "wd_nodes ?c" configured, OF _ same] 1 by (simp add: store_follows_def data_equal_def)
    then show ?thesis using 1 d(1) by (simp add: mutation_effect_def drained_world_def)
  next
    case 2
    then show ?thesis using next_step d(1) by (simp add: mutation_effect_def drained_world_def dispatchNodeMutationCallbacks_def)
  next
    case 3
    then show ?thesis using next_step d(1) by (simp add: mutation_effect_def drained_world_def Let_def)
  qed
  then show ?thesis using ids by (simp add: editor_in_step_def)
qed

lemma session_in_step:
  assumes hs: "jget hs kind = Some h" "makes_calls store added updated removed h"
    "\<And>t h'. jget hs t = Some h' \<Longrightarrow> t \<noteq> kind \<Longrightarrow> leaves_store store h'"
    and same: "\<And>a b. en_id a = en_id b \<Longrightarrow> equal (en_data a) (en_data b) \<Longrightarrow> configured (flow_of a) = configured (flow_of b)"
  shows "editor_in_step equal (Some hs) configured kind store s \<Longrightarrow> list_all ids_distinct (rendered evs) \<Longrightarrow>
    editor_in_step equal (Some hs) configured kind store (fold (editor_step equal (Some hs)) evs s)"
proof (induction evs arbitrary: s)
  case (Cons e evs)
  show ?case
  proof (cases e)
    case (Render nodes edges)
    then show ?thesis using Cons effect_in_step [where equal = equal, OF hs same Cons.prems(1)] by simp
  next
    case RunJob
    have "editor_in_step equal (Some hs) configured kind store (run_job equal (Some hs) s)" using Cons.prems(1) by (simp add: editor_in_step_def)
    then show ?thesis using Cons.IH [of "run_job equal (Some hs) s"] Cons.prems RunJob by simp
  qed
qed simp

end


section \<open>The stores of the trigger plugins\<close>

text \<open>
  What \<open>fast-deep-equal\<close> documents, as far as it is used: equal values are the same string or are both no
  string, both objects or both none, and equal objects have equal values under every key.
\<close>

definition deep_equality :: "(jv \<Rightarrow> jv \<Rightarrow> bool) \<Rightarrow> bool" where
  "deep_equality equal \<longleftrightarrow>
     (\<forall>a b. equal a b \<longrightarrow> as_string a = as_string b \<and> (as_object a = None \<longleftrightarrow> as_object b = None)) \<and>
     (\<forall>ps qs k. equal (JObj ps) (JObj qs) \<longrightarrow> equal (obj_get ps k) (obj_get qs k))"

lemma equal_configuration:
  assumes e: "deep_equality equal" "equal (en_data a) (en_data b)"
  shows "as_string (obj_get (getNodeConfiguration (Some (flow_of a))) k) = as_string (obj_get (getNodeConfiguration (Some (flow_of b))) k)"
proof -
  have strs: "as_string x = as_string y" if "equal x y" for x y using e(1) that by (simp add: deep_equality_def)
  have objs: "(\<exists>ps. x = JObj ps) \<longleftrightarrow> (\<exists>qs. y = JObj qs)" if "equal x y" for x y
  proof -
    have "as_object x = None \<longleftrightarrow> as_object y = None" using e(1) that by (simp add: deep_equality_def)
    then show ?thesis unfolding as_object_iff [symmetric] by (metis not_None_eq)
  qed
  have inner: "equal (obj_get ps k) (obj_get qs k)" if "equal (JObj ps) (JObj qs)" for ps qs k
    using e(1) that by (simp add: deep_equality_def)
  let ?c = "\<lambda>n. nd_configuration (flow_of n)"
  consider ps qs where "en_data a = JObj ps" "en_data b = JObj qs" "equal (?c a) (?c b)" | "?c a = JUndef" "?c b = JUndef"
    using objs [OF e(2)] inner e(2) by (cases "en_data a"; cases "en_data b") (auto simp: flow_of_def)
  then show ?thesis
  proof cases
    case 1
    show ?thesis
    proof (cases "\<exists>us. ?c a = JObj us")
      case True
      then obtain us vs where "?c a = JObj us" "?c b = JObj vs" using objs [OF 1(3)] by blast
      then show ?thesis using strs [OF inner, of us vs k] 1(3) by (simp add: getNodeConfiguration_def)
    next
      case False
      then have "\<not> (\<exists>vs. ?c b = JObj vs)" using objs [OF 1(3)] by blast
      then show ?thesis using False by (auto simp: getNodeConfiguration_def split: jv.splits)
    qed
  qed (simp add: getNodeConfiguration_def)
qed

lemma equal_cron:
  "deep_equality equal \<Longrightarrow> equal (en_data a) (en_data b) \<Longrightarrow> getConfiguredCronExpression (flow_of a) = getConfiguredCronExpression (flow_of b)"
  by (simp add: getConfiguredCronExpression_def trimmed_string_def equal_configuration)

lemma configured_event_string:
  "getConfiguredEventName c = Option.bind (as_string (obj_get c ''eventName'')) (\<lambda>s. if s = [] then None else Some s)"
  by (cases "obj_get c ''eventName''") (simp_all add: getConfiguredEventName_def)

lemma equal_event:
  "deep_equality equal \<Longrightarrow> equal (en_data a) (en_data b) \<Longrightarrow> getPersistedEventName ev (flow_of a) = getPersistedEventName ev (flow_of b)"
  unfolding getPersistedEventName_def configured_event_string by (simp only: equal_configuration)


text \<open>
  A callback that fails loses the rest of its edit. When the callback of the first change of a queued dispatch
  raises, the dispatch ends with what that callback did: the error is reported, the callbacks of the other
  changes are not called, and since the editor already remembers the new canvas, rendering that canvas
  again queues nothing.
\<close>

theorem failed_callback_loses_rest:
  assumes q: "es_queue s = [(p, c)]" and m: "getNodeMutations equal p c = m # ms" and r: "dispatch_one hs m (es_world s) = (w, Some e)"
    and c: "c = serializeWorkflowData nodes edges" "es_previous s = Some c" and refl: "\<And>v. equal v v"
  shows "(mutation_effect equal nodes edges \<circ> run_job equal (Some hs)) s =
    s\<lparr>es_queue := [], es_world := w, es_reported := es_reported s @ [e]\<rparr>"
proof -
  have same: "data_equal equal c c" using refl by (simp add: data_equal_def node_equal_def list_all2_same)
  have "run_job equal (Some hs) s = s\<lparr>es_queue := [], es_world := w, es_reported := es_reported s @ [e]\<rparr>"
    by (simp add: run_job_def q dispatchNodeMutationCallbacks_def m r)
  then show ?thesis using same c by (simp add: mutation_effect_def Let_def)
qed


section \<open>Examples\<close>

text \<open>A world of two stores; a callback of a plugin makes its calls on one of them.\<close>

definition cron_plugin :: "((string \<rightharpoonup> string) \<times> (string \<rightharpoonup> string)) node_callbacks" where
  "cron_plugin = \<lparr>onNodeAdded = (\<lambda>n (c, e). ((fold apply_call (cron_onNodeAdded (flow_of n)) c, e), None)),
     onNodeRemoved = (\<lambda>n (c, e). ((fold apply_call (cron_onNodeRemoved (flow_of n)) c, e), None)),
     onNodeUpdated = (\<lambda>n p (c, e). ((fold apply_call (cron_onNodeUpdated (flow_of n) (flow_of p)) c, e), None))\<rparr>"

definition event_plugin :: "(string, schema) jmap \<Rightarrow> ((string \<rightharpoonup> string) \<times> (string \<rightharpoonup> string)) node_callbacks" where
  "event_plugin ev = \<lparr>onNodeAdded = (\<lambda>n (c, e). ((c, fold apply_call (event_onNodeAdded ev (flow_of n)) e), None)),
     onNodeRemoved = (\<lambda>n (c, e). ((c, fold apply_call (event_onNodeRemoved (flow_of n)) e), None)),
     onNodeUpdated = (\<lambda>n p (c, e). ((c, fold apply_call (event_onNodeUpdated ev (flow_of n) (flow_of p)) e), None))\<rparr>"

lemma demo_plugins:
  "makes_calls fst cron_onNodeAdded cron_onNodeUpdated cron_onNodeRemoved cron_plugin" "leaves_store snd cron_plugin"
  "makes_calls snd (event_onNodeAdded ev) (event_onNodeUpdated ev) event_onNodeRemoved (event_plugin ev)" "leaves_store fst (event_plugin ev)"
  by (auto simp: makes_calls_def leaves_store_def cron_plugin_def event_plugin_def)

definition drawn :: "string \<Rightarrow> string \<Rightarrow> string \<Rightarrow> canvas_node" where
  "drawn i ty e = \<lparr>en_id = i, en_type = Some ty, en_position = JNull,
     en_data = JObj [(''configuration'', JObj [(''cronExpression'', JStr e), (''eventName'', JStr e)])], en_measured = JUndef, cn_internal = []\<rparr>"

definition demo_registry :: "((string \<rightharpoonup> string) \<times> (string \<rightharpoonup> string)) callback_registry" where
  "demo_registry = [(''cron'', cron_plugin), (''event'', event_plugin [(''up'', EMPTY_OBJECT_SCHEMA)])]"

text \<open>A cron node is drawn, saved, and replaced by an event node of the same id and a new cron node.\<close>

definition demo_session :: "editor_event list" where
  "demo_session =
     [Render [drawn ''a'' ''cron'' ''hourly''] [], RunJob, Render [drawn ''a'' ''event'' ''up'', drawn ''b'' ''cron'' ''daily''] []]"

definition session_start :: "((string \<rightharpoonup> string) \<times> (string \<rightharpoonup> string)) editor_state" where
  "session_start = \<lparr>es_previous = None, es_queue = [], es_reported = [], es_world = (Map.empty, Map.empty)\<rparr>"

definition demo_state :: "((string \<rightharpoonup> string) \<times> (string \<rightharpoonup> string)) editor_state" where
  "demo_state = fold (editor_step (=) (Some demo_registry)) (Render [] [] # demo_session) session_start"


definition failing_registry :: "string list callback_registry" where
  "failing_registry =
     [(''cron'', \<lparr>onNodeAdded = (\<lambda>n w. if en_id n = ''a'' then (w, Some ''offline'') else (en_id n # w, None)), onNodeRemoved = (\<lambda>n w. (w, None)), onNodeUpdated = (\<lambda>n p w. (w, None))\<rparr>)]"

definition demo_canvas :: "canvas_node list" where
  "demo_canvas = [drawn ''a'' ''cron'' ''hourly'', drawn ''b'' ''cron'' ''daily'']"

definition failing_state :: "string list editor_state" where
  "failing_state = \<lparr>es_previous = Some (serializeWorkflowData demo_canvas []),
     es_queue = [(serializeWorkflowData [] [], serializeWorkflowData demo_canvas [])], es_reported = [], es_world = []\<rparr>"

theorem failed_callback_loses_rest_witness:
  "es_world ((mutation_effect (=) demo_canvas [] \<circ> run_job (=) (Some failing_registry)) failing_state) = [] \<and> es_queue ((mutation_effect (=) demo_canvas [] \<circ> run_job (=) (Some failing_registry)) failing_state) = []"
proof -
  let ?n = "\<lambda>i e. editor_node.truncate (drawn i ''cron'' e)"
  have m: "getNodeMutations (=) (serializeWorkflowData [] []) (serializeWorkflowData demo_canvas []) = [Added (?n ''a'' ''hourly''), Added (?n ''b'' ''daily'')]"
    by (simp add: demo_canvas_def getNodeMutations_def removed_mutations_def current_mutation_def nodes_by_id_def serializeWorkflowData_def List.map_filter_simps)
  have r: "dispatch_one failing_registry (Added (?n ''a'' ''hourly'')) (es_world failing_state) = ([], Some ''offline'')"
    by (simp add: dispatch_one_def failing_registry_def failing_state_def drawn_def editor_node.truncate_def)
  have q: "es_queue failing_state = [(serializeWorkflowData [] [], serializeWorkflowData demo_canvas [])]" "es_previous failing_state = Some (serializeWorkflowData demo_canvas [])" by (simp_all add: failing_state_def)
  show ?thesis using failed_callback_loses_rest [OF q(1) m r refl q(2)] by simp
qed

end
