(* ===== verification/Schema_Builder.thy ===== *)
theory Schema_Builder
  imports Flow_Schema
begin

text \<open>
  The editable form of a JSON schema (\<open>trakrai-workflow-core/src/core/schema/schema-definition-to-json-schema.ts\<close>)
  and the builder that shows it (\<open>trakrai-workflow-ui/src/ui/json-schema-builder/json-schema-builder.tsx\<close>): the
  conversions in both directions and what survives them. \<open>number_text\<close> prints a finite number, as
  \<open>String\<close> does. Property names that are array indices, which JavaScript enumerates before all others, are not used.
\<close>

section \<open>Definitions\<close>

datatype schema_kind = KString | KNumber | KBoolean | KNull | KObject | KArray | KEnum | KLiteral | KUnion

datatype 'd property_descriptor = Property (pd_name: string) (pd_required: bool) (pd_nullable: bool) (pd_schema: 'd)

datatype schema_definition =
    DString
  | DNumber
  | DBoolean
  | DNull
  | DObject "schema_definition property_descriptor list"
  | DArray schema_definition
  | DEnum "string list"
  | DLiteral jv
  | DUnion "schema_definition list"

definition typed :: "string \<Rightarrow> schema" where
  "typed t = Schema None None None None JUndef None (Some (TOne t)) None None None None None None False"

definition any_of :: "schema list \<Rightarrow> schema" where
  "any_of vs = Schema None (Some vs) None None JUndef None None None None None None None None False"

definition wrapNullable :: "schema \<Rightarrow> bool \<Rightarrow> schema" where
  "wrapNullable s nullable = (if nullable then any_of [s, typed ''null''] else s)"

text \<open>The object schema with its properties and the list of the required ones, left out when empty.\<close>

definition built_object :: "(string \<times> schema) list \<Rightarrow> string list \<Rightarrow> schema" where
  "built_object properties required =
     Schema None None None None JUndef None (Some (TOne ''object'')) (Some properties)
       (if required = [] then None else Some (map JStr required)) None (Some (SBool False)) None None False"

lemma property_size_less [termination_simp]: "p \<in> set ps \<Longrightarrow> size (pd_schema p) < Suc (size_list (size_property_descriptor size) ps)"
proof (induction ps)
  case (Cons a ps)
  then show ?case by (cases a) auto
qed simp

fun definitionToJsonSchema :: "schema_definition \<Rightarrow> schema" where
  "definitionToJsonSchema DString = typed ''string''"
| "definitionToJsonSchema DNumber = typed ''number''"
| "definitionToJsonSchema DBoolean = typed ''boolean''"
| "definitionToJsonSchema DNull = typed ''null''"
| "definitionToJsonSchema (DObject ps) =
     built_object (fold (\<lambda>p. jset (pd_name p) (wrapNullable (definitionToJsonSchema (pd_schema p)) (pd_nullable p))) ps [])
       (map pd_name (filter pd_required ps))"
| "definitionToJsonSchema (DArray d) =
     Schema None None None None JUndef None (Some (TOne ''array'')) None None None None (Some (ItemsOne (definitionToJsonSchema d))) None False"
| "definitionToJsonSchema (DEnum vs) = Schema None None None None JUndef (Some (map JStr vs)) None None None None None None None False"
| "definitionToJsonSchema (DLiteral v) = Schema None None None None v None None None None None None None None False"
| "definitionToJsonSchema (DUnion ds) = any_of (map definitionToJsonSchema ds)"

section \<open>Reading a schema\<close>

text \<open>\<open>String(v)\<close>; an array joins its elements and shows \<open>null\<close> and \<open>undefined\<close> as nothing.\<close>

fun js_String :: "(rat \<Rightarrow> string) \<Rightarrow> jv \<Rightarrow> string" where
  "js_String number_text JUndef = ''undefined''"
| "js_String number_text JNull = ''null''"
| "js_String number_text (JBool b) = (if b then ''true'' else ''false'')"
| "js_String number_text (JNum n) =
     (case n of NaN \<Rightarrow> ''NaN'' | PosInf \<Rightarrow> ''Infinity'' | NegInf \<Rightarrow> ''-Infinity'' | NegZero \<Rightarrow> ''0'' | Fin q \<Rightarrow> number_text q)"
| "js_String number_text (JStr s) = s"
| "js_String number_text (JArr vs) =
     join '','' (map (\<lambda>v. if v = JNull \<or> v = JUndef then [] else js_String number_text v) vs)"
| "js_String number_text (JObj _) = ''[object Object]''"

definition non_null :: "schema list \<Rightarrow> schema list" where
  "non_null vs = filter (\<lambda>v. \<not> has_type ''null'' v) vs"

text \<open>The variants of a nullable schema other than \<open>null\<close>, when there is exactly one.\<close>

definition unwrapped :: "schema list \<Rightarrow> schema option" where
  "unwrapped vs = (if length (non_null vs) < length vs \<and> length (non_null vs) = 1 then Some (hd (non_null vs)) else None)"

definition property_inner :: "schema \<Rightarrow> schema \<times> bool" where
  "property_inner s =
     (case variants_of s of
        None \<Rightarrow> (s, False)
      | Some vs \<Rightarrow> (case unwrapped vs of None \<Rightarrow> (s, False) | Some inner \<Rightarrow> (inner, True)))"

lemma unwrapped_member: "unwrapped vs = Some v \<Longrightarrow> v \<in> set vs \<and> \<not> has_type ''null'' v"
proof -
  assume u: "unwrapped vs = Some v"
  then have "v \<in> set (non_null vs)" by (cases "non_null vs") (auto simp: unwrapped_def split: if_splits)
  then show ?thesis by (auto simp: non_null_def)
qed

lemma property_inner_size: "size (fst (property_inner s)) \<le> size s"
  by (auto simp: property_inner_def split: option.splits dest!: unwrapped_member dest: variants_size intro: less_imp_le)

function jsonSchemaToDefinition :: "(rat \<Rightarrow> string) \<Rightarrow> schema \<Rightarrow> schema_definition" where
  "jsonSchemaToDefinition number_text s =
     (if is_SBool s then DString
      else if s_const s \<noteq> JUndef then DLiteral (s_const s)
      else case s_enum s of
        Some es \<Rightarrow> DEnum (map (js_String number_text) es)
      | None \<Rightarrow>
      (case variants_of s of
        Some vs \<Rightarrow>
          (case unwrapped vs of
             Some inner \<Rightarrow> jsonSchemaToDefinition number_text inner
           | None \<Rightarrow> DUnion (map (jsonSchemaToDefinition number_text) (non_null vs)))
      | None \<Rightarrow>
        if has_type ''string'' s then DString
        else if has_type ''number'' s \<or> has_type ''integer'' s then DNumber
        else if has_type ''boolean'' s then DBoolean
        else if has_type ''null'' s then DNull
        else if has_type ''array'' s then
          (case s_items s of Some (ItemsOne i) \<Rightarrow> DArray (jsonSchemaToDefinition number_text i) | _ \<Rightarrow> DArray DString)
        else if has_type ''object'' s then
          (case s_properties s of
             None \<Rightarrow> DObject []
           | Some ps \<Rightarrow>
               DObject (map (\<lambda>(name, propertySchema).
                 Property name (JStr name \<in> set (required_list s)) (snd (property_inner propertySchema))
                   (jsonSchemaToDefinition number_text (fst (property_inner propertySchema)))) ps))
        else DString))"
  by pat_completeness auto
termination
  by (relation "measure (\<lambda>(_, s). size s)")
    (auto simp: non_null_def dest!: unwrapped_member dest: variants_size [OF sym] variants_size part_size [OF sym] part_size
      intro: le_less_trans [OF property_inner_size] dest: property_size [OF sym] property_size)

declare jsonSchemaToDefinition.simps [simp del]

section \<open>The builder\<close>

fun createDefaultDefinition :: "schema_kind \<Rightarrow> schema_definition" where
  "createDefaultDefinition KString = DString"
| "createDefaultDefinition KNumber = DNumber"
| "createDefaultDefinition KBoolean = DBoolean"
| "createDefaultDefinition KNull = DNull"
| "createDefaultDefinition KObject = DObject []"
| "createDefaultDefinition KArray = DArray DString"
| "createDefaultDefinition KEnum = DEnum [''value1'']"
| "createDefaultDefinition KLiteral = DLiteral (JStr [])"
| "createDefaultDefinition KUnion = DUnion [DString, DNumber]"

definition createDefaultProperty :: "string \<Rightarrow> schema_definition property_descriptor" where
  "createDefaultProperty name = Property name True False DString"

text \<open>The properties the builder shows for its value, and the value it reports for edited properties.\<close>

definition builder_properties :: "(rat \<Rightarrow> string) \<Rightarrow> schema option \<Rightarrow> schema_definition property_descriptor list" where
  "builder_properties number_text value =
     (case value of None \<Rightarrow> [] | Some s \<Rightarrow> (case jsonSchemaToDefinition number_text s of DObject ps \<Rightarrow> ps | _ \<Rightarrow> []))"

definition handlePropertiesChange :: "schema_definition property_descriptor list \<Rightarrow> schema" where
  "handlePropertiesChange properties = definitionToJsonSchema (DObject properties)"

text \<open>\<open>addProperty\<close> with its search for an unused name, \<open>updateProperty\<close> (of a shown index), \<open>removeProperty\<close> and the choice of a type.\<close>

fun counter_text :: "nat \<Rightarrow> string" where
  "counter_text n = (if n < 10 then [char_of (48 + n)] else counter_text (n div 10) @ [char_of (48 + n mod 10)])"

declare counter_text.simps [simp del]

lemma counter_text_value: "foldl (\<lambda>m c. 10 * m + (of_char c - 48)) 0 (counter_text n) = n"
proof (induction n rule: counter_text.induct)
  case (1 n)
  have "of_char (char_of (48 + k) :: char) = 48 + k" if "k < 10" for k :: nat using that by (simp add: of_char_of)
  then show ?case using 1 by (subst counter_text.simps) (simp del: of_char_of)
qed

lemma counter_text_inj [simp]: "counter_text m = counter_text n \<longleftrightarrow> m = n"
  using counter_text_value by metis

lemma finite_counters: "finite {j. c \<le> j \<and> ''newProperty'' @ counter_text j \<in> set names}"
proof (rule finite_surj)
  show "finite (set names)" by simp
  show "{j. c \<le> j \<and> ''newProperty'' @ counter_text j \<in> set names} \<subseteq> (\<lambda>n. foldl (\<lambda>m c. 10 * m + (of_char c - 48)) 0 (drop 11 n)) ` set names"
    by (auto simp: image_iff counter_text_value intro!: bexI [where x = "''newProperty'' @ counter_text _"])
qed

function property_name :: "string list \<Rightarrow> string \<Rightarrow> nat \<Rightarrow> string" where
  "property_name existingNames name counter =
     (if name \<in> set existingNames then property_name existingNames (''newProperty'' @ counter_text counter) (counter + 1) else name)"
  by pat_completeness auto
termination
proof (relation "measure (\<lambda>(names, name, c). 2 * card {j. c \<le> j \<and> ''newProperty'' @ counter_text j \<in> set names} + (if name \<in> set names then 1 else 0))")
  fix names :: "string list" and name c
  let ?J = "\<lambda>c. {j. c \<le> j \<and> ''newProperty'' @ counter_text j \<in> set names}"
  assume "name \<in> set names"
  moreover have "2 * card (?J (c + 1)) + (if ''newProperty'' @ counter_text c \<in> set names then 1 else 0) \<le> 2 * card (?J c)"
  proof (cases "''newProperty'' @ counter_text c \<in> set names")
    case True
    then have "?J c = insert c (?J (c + 1))" by (auto simp: Suc_le_eq order_le_less)
    then show ?thesis using finite_counters [of "c + 1" names] True by simp
  next
    case False
    have "card (?J (c + 1)) \<le> card (?J c)" by (rule card_mono [OF finite_counters]) auto
    then show ?thesis using False by simp
  qed
  ultimately show "((names, ''newProperty'' @ counter_text c, c + 1), names, name, c)
      \<in> measure (\<lambda>(names, name, c). 2 * card {j. c \<le> j \<and> ''newProperty'' @ counter_text j \<in> set names} + (if name \<in> set names then 1 else 0))"
    by simp
qed simp

declare property_name.simps [simp del]

definition addProperty :: "schema_definition property_descriptor list \<Rightarrow> schema_definition property_descriptor list" where
  "addProperty properties = properties @ [createDefaultProperty (property_name (map pd_name properties) ''newProperty'' 1)]"

definition updateProperty :: "nat \<Rightarrow> schema_definition property_descriptor \<Rightarrow> schema_definition property_descriptor list \<Rightarrow> schema_definition property_descriptor list" where
  "updateProperty index updated properties = properties[index := updated]"

definition without_index :: "nat \<Rightarrow> 'a list \<Rightarrow> 'a list" where
  "without_index index xs = map snd (filter (\<lambda>(i, _). i \<noteq> index) (List.enumerate 0 xs))"

definition removeProperty :: "nat \<Rightarrow> schema_definition property_descriptor list \<Rightarrow> schema_definition property_descriptor list" where
  "removeProperty index properties = without_index index properties"

definition handleTypeChange :: "schema_kind \<Rightarrow> schema_definition property_descriptor \<Rightarrow> schema_definition property_descriptor" where
  "handleTypeChange newType p = Property (pd_name p) (pd_required p) (pd_nullable p) (createDefaultDefinition newType)"

section \<open>What survives the conversions\<close>

text \<open>
  The definitions the builder can store: distinct names in every object, no nullable \<open>null\<close> property, no \<open>null\<close>
  variant in a union.
\<close>

fun storable :: "schema_definition \<Rightarrow> bool" where
  "storable (DObject ps) \<longleftrightarrow> distinct (map pd_name ps) \<and> (\<forall>p \<in> set ps. storable (pd_schema p) \<and> \<not> (pd_nullable p \<and> pd_schema p = DNull))"
| "storable (DArray d) \<longleftrightarrow> storable d"
| "storable (DLiteral v) \<longleftrightarrow> v \<noteq> JUndef"
| "storable (DUnion ds) \<longleftrightarrow> (\<forall>d \<in> set ds. storable d \<and> d \<noteq> DNull)"
| "storable _ \<longleftrightarrow> True"

lemma has_type_simps [simp]:
  "has_type t (typed u) \<longleftrightarrow> t = u" "\<not> has_type t (any_of vs)" "has_type t (built_object ps rs) \<longleftrightarrow> t = ''object''" "\<not> has_type t (SBool b)"
  by (auto simp: has_type_def typed_def any_of_def built_object_def)

lemma keyword_simps [simp]:
  "variants_of (typed u) = None" "variants_of (any_of vs) = Some vs" "variants_of (built_object ps rs) = None"
  "s_const (typed u) = JUndef" "s_const (any_of vs) = JUndef" "s_const (built_object ps rs) = JUndef"
  "s_enum (typed u) = None" "s_enum (any_of vs) = None" "s_enum (built_object ps rs) = None"
  "\<not> is_SBool (typed u)" "\<not> is_SBool (any_of vs)" "\<not> is_SBool (built_object ps rs)"
  "s_properties (built_object ps rs) = Some ps" "required_list (built_object ps rs) = map JStr rs"
  by (auto simp: variants_of_def typed_def any_of_def built_object_def required_list_def)

lemma null_definition [simp]: "has_type ''null'' (definitionToJsonSchema d) \<longleftrightarrow> d = DNull"
  by (cases d) (auto simp: has_type_def typed_def any_of_def built_object_def)

lemma imported_null: "jsonSchemaToDefinition nt s = DNull \<Longrightarrow> has_type ''null'' s"
proof (induction s rule: measure_induct_rule [where f = size])
  case (less s)
  have inner: "jsonSchemaToDefinition nt v \<noteq> DNull" if "variants_of s = Some vs" "unwrapped vs = Some v" for vs v
    using less.IH [of v] variants_size [OF that(1)] unwrapped_member [OF that(2)] by blast
  show ?case using less.prems unfolding jsonSchemaToDefinition.simps [of nt s]
    by (simp add: inner split: if_splits option.splits items.splits)
qed

text \<open>The two conversions are inverse on a definition exactly when it is storable.\<close>

lemma fold_property_list:
  "distinct (map fst kvs @ map k ps) \<Longrightarrow> fold (\<lambda>p. jset (k p) (v p)) ps kvs = kvs @ map (\<lambda>p. (k p, v p)) ps"
proof (induction ps arbitrary: kvs)
  case (Cons p ps)
  have "k p \<notin> fst ` set kvs" using Cons.prems by auto
  then have "jset (k p) (v p) kvs = kvs @ [(k p, v p)]" by (induction kvs) auto
  then show ?case using Cons.IH [of "kvs @ [(k p, v p)]"] Cons.prems by simp
qed simp

lemma fold_property_keys: "distinct (map fst kvs) \<Longrightarrow> distinct (map fst (fold (\<lambda>p. jset (k p) (v p)) ps kvs))"
  by (induction ps arbitrary: kvs) (auto simp: distinct_update)

lemma property_inner_wrapped:
  "property_inner (wrapNullable s True) = (if has_type ''null'' s then (wrapNullable s True, False) else (s, True))"
  by (simp add: wrapNullable_def property_inner_def unwrapped_def non_null_def)

lemma non_null_definitions: "non_null (map definitionToJsonSchema ds) = map definitionToJsonSchema (filter (\<lambda>d. d \<noteq> DNull) ds)"
  by (induction ds) (auto simp: non_null_def)

lemma property_inner_plain: "storable d \<Longrightarrow> property_inner (definitionToJsonSchema d) = (definitionToJsonSchema d, False)"
proof (cases d)
  case (DUnion ds)
  assume "storable d"
  then have "filter (\<lambda>d. d \<noteq> DNull) ds = ds" using DUnion by simp
  then show ?thesis using DUnion by (simp add: property_inner_def unwrapped_def non_null_definitions)
qed (simp_all add: property_inner_def, simp_all add: variants_of_def)

lemma roundtrip_storable: "storable d \<Longrightarrow> jsonSchemaToDefinition nt (definitionToJsonSchema d) = d"
proof (induction d rule: definitionToJsonSchema.induct)
  case (5 ps)
  have dist: "distinct (map pd_name ps)" using 5 by simp
  have each: "(\<lambda>(name, s). Property name (JStr name \<in> set (map JStr (map pd_name (filter pd_required ps)))) (snd (property_inner s))
      (jsonSchemaToDefinition nt (fst (property_inner s)))) (pd_name p, wrapNullable (definitionToJsonSchema (pd_schema p)) (pd_nullable p)) = p"
    if p: "p \<in> set ps" for p
  proof -
    have "JStr (pd_name p) \<in> set (map JStr (map pd_name (filter pd_required ps))) \<longleftrightarrow> pd_required p"
      using p dist by (auto simp: image_iff distinct_map dest: inj_onD)
    moreover have "storable (pd_schema p)" "pd_nullable p \<Longrightarrow> pd_schema p \<noteq> DNull" using 5(2) p by auto
    moreover have "jsonSchemaToDefinition nt (definitionToJsonSchema (pd_schema p)) = pd_schema p" using 5 p by auto
    ultimately show ?thesis using property_inner_plain [of "pd_schema p"]
      by (cases "pd_nullable p") (auto simp: property_inner_wrapped wrapNullable_def [of _ False] intro: property_descriptor.expand)
  qed
  show ?case
    unfolding definitionToJsonSchema.simps jsonSchemaToDefinition.simps [of nt "built_object _ _"] using each dist
    by (simp add: fold_property_list [where kvs = "[]"] map_idI)
next
  case (9 ds)
  then have "filter (\<lambda>d. d \<noteq> DNull) ds = ds" by simp
  then show ?case using 9 unfolding definitionToJsonSchema.simps jsonSchemaToDefinition.simps [of nt "any_of _"]
    by (simp add: unwrapped_def non_null_definitions map_idI)
next
  case (6 d)
  then show ?case by (subst jsonSchemaToDefinition.simps) (simp add: variants_of_def has_type_def)
next
  case (7 vs)
  then show ?case by (subst jsonSchemaToDefinition.simps) (simp add: comp_def)
next
  case (8 v)
  then show ?case by (subst jsonSchemaToDefinition.simps) simp
qed (subst jsonSchemaToDefinition.simps, simp)+

text \<open>An object has every key once, so the properties of a schema and of every schema inside it have distinct names.\<close>

function keys_distinct :: "schema \<Rightarrow> bool" where
  "keys_distinct s \<longleftrightarrow>
     (case s_properties s of None \<Rightarrow> True | Some ps \<Rightarrow> distinct (map fst ps) \<and> list_all (\<lambda>(k, x). keys_distinct x) ps) \<and>
     (case variants_of s of None \<Rightarrow> True | Some vs \<Rightarrow> list_all keys_distinct vs) \<and>
     (case s_items s of Some (ItemsOne i) \<Rightarrow> keys_distinct i | _ \<Rightarrow> True)"
  by pat_completeness auto
termination
  by (relation "measure size") (auto dest: variants_size [OF sym] variants_size part_size [OF sym] part_size property_size [OF sym] property_size)

declare keys_distinct.simps [simp del]

lemma keys_distinct_variant: "keys_distinct s \<Longrightarrow> variants_of s = Some vs \<Longrightarrow> v \<in> set vs \<Longrightarrow> keys_distinct v"
  by (subst (asm) keys_distinct.simps) (simp add: list_all_iff)

lemma keys_distinct_property: "keys_distinct s \<Longrightarrow> s_properties s = Some ps \<Longrightarrow> distinct (map fst ps) \<and> (\<forall>(k, x) \<in> set ps. keys_distinct x)"
  by (subst (asm) keys_distinct.simps) (simp add: list_all_iff)

lemma keys_distinct_items: "keys_distinct s \<Longrightarrow> s_items s = Some (ItemsOne i) \<Longrightarrow> keys_distinct i"
  by (subst (asm) keys_distinct.simps) simp

lemma inner_keys_distinct: "keys_distinct s \<Longrightarrow> keys_distinct (fst (property_inner s))"
  by (auto simp: property_inner_def split: option.splits dest: unwrapped_member keys_distinct_variant)

lemma inner_not_null: "snd (property_inner s) \<Longrightarrow> \<not> has_type ''null'' (fst (property_inner s))"
  by (auto simp: property_inner_def split: option.splits if_splits dest: unwrapped_member)

lemma imported_storable: "keys_distinct s \<Longrightarrow> storable (jsonSchemaToDefinition nt s)"
proof (induction s rule: measure_induct_rule [where f = size])
  case (less s)
  have variant: "storable (jsonSchemaToDefinition nt v)" if "variants_of s = Some vs" "v \<in> set vs" for vs v
    using less.IH variants_size [OF that] keys_distinct_variant [OF less.prems that] by blast
  have union: "storable (DUnion (map (jsonSchemaToDefinition nt) (non_null vs)))" if "variants_of s = Some vs" for vs
    using variant [OF that] imported_null by (auto simp: non_null_def)
  have item: "storable (jsonSchemaToDefinition nt i)" if "s_items s = Some (ItemsOne i)" for i
    using less.IH part_size(3) [OF that] keys_distinct_items [OF less.prems that] by blast
  have property: "storable (jsonSchemaToDefinition nt (fst (property_inner x)))" if "s_properties s = Some ps" "(k, x) \<in> set ps" for ps k x
  proof (rule less.IH)
    show "size (fst (property_inner x)) < size s" using property_inner_size [of x] property_size [OF that] by simp
    show "keys_distinct (fst (property_inner x))" using inner_keys_distinct keys_distinct_property [OF less.prems that(1)] that(2) by blast
  qed
  have object: "storable (DObject (map (\<lambda>(name, x). Property name (JStr name \<in> set (required_list s)) (snd (property_inner x))
      (jsonSchemaToDefinition nt (fst (property_inner x)))) ps))" if "s_properties s = Some ps" for ps
  proof -
    have "map pd_name (map (\<lambda>(name, x). Property name (JStr name \<in> set (required_list s)) (snd (property_inner x))
      (jsonSchemaToDefinition nt (fst (property_inner x)))) ps) = map fst ps" by (auto simp: case_prod_beta)
    then show ?thesis using property [OF that] keys_distinct_property [OF less.prems that] inner_not_null imported_null
      by (fastforce simp del: map_map)
  qed
  show ?case unfolding jsonSchemaToDefinition.simps [of nt s]
    by (simp add: union item object variant unwrapped_member del: storable.simps(1,4) split: option.splits items.splits)
      (auto dest: unwrapped_member intro: variant)
qed

lemma keys_distinct_simps [simp]:
  "keys_distinct (typed t)" "keys_distinct (any_of vs) \<longleftrightarrow> list_all keys_distinct vs"
  "keys_distinct (built_object ps rs) \<longleftrightarrow> distinct (map fst ps) \<and> list_all (\<lambda>(k, x). keys_distinct x) ps"
  by (subst keys_distinct.simps, simp add: typed_def any_of_def built_object_def variants_of_def)+

lemma in_set_jset: "(k, x) \<in> set (jset k' x' kvs) \<Longrightarrow> (k, x) \<in> set kvs \<or> x = x'"
  by (induction kvs) (auto split: if_splits)

lemma exported_keys_distinct: "keys_distinct (definitionToJsonSchema d)"
proof (induction d rule: definitionToJsonSchema.induct)
  case (5 ps)
  let ?v = "\<lambda>p. wrapNullable (definitionToJsonSchema (pd_schema p)) (pd_nullable p)"
  have "(k, x) \<in> set (fold (\<lambda>p. jset (pd_name p) (?v p)) qs kvs) \<Longrightarrow> (k, x) \<in> set kvs \<or> (\<exists>p \<in> set qs. x = ?v p)" for k x qs kvs
  proof (induction qs arbitrary: kvs)
    case (Cons q qs)
    from Cons.IH [OF Cons.prems [simplified]] show ?case by (auto dest: in_set_jset)
  qed simp
  then have from_ps: "\<exists>p \<in> set ps. x = ?v p" if "(k, x) \<in> set (fold (\<lambda>p. jset (pd_name p) (?v p)) ps [])" for k x using that by fastforce
  have "keys_distinct (?v p)" if "p \<in> set ps" for p using 5 that by (simp add: wrapNullable_def)
  then show ?case using from_ps by (fastforce simp: list_all_iff fold_property_keys)
next
  case (6 d)
  then show ?case by (subst keys_distinct.simps) (simp add: variants_of_def)
next
  case (9 ds)
  then show ?case by (simp add: list_all_iff)
qed (simp_all, (subst keys_distinct.simps, simp add: variants_of_def)+)

section \<open>The builder keeps what is edited\<close>

lemma storable_object: "storable (DObject ps) \<longleftrightarrow> distinct (map pd_name ps) \<and> (\<forall>p \<in> set ps. storable (pd_schema p) \<and> \<not> (pd_nullable p \<and> pd_schema p = DNull))"
  by simp

lemma builder_shows: "storable (DObject ps) \<Longrightarrow> builder_properties nt (Some (handlePropertiesChange ps)) = ps"
  using roundtrip_storable [of "DObject ps" nt] by (simp add: builder_properties_def handlePropertiesChange_def)

lemma property_name_fresh: "property_name names name c \<notin> set names"
proof (induction names name c rule: property_name.induct)
  case (1 names name c)
  then show ?case by (subst property_name.simps) simp
qed

lemma default_storable [simp]: "storable (createDefaultDefinition k)" "createDefaultDefinition k = DNull \<longleftrightarrow> k = KNull"
  by (cases k; simp)+

lemma without_index_simps [simp]:
  "without_index i [] = []" "without_index 0 (x # xs) = xs" "without_index (Suc i) (x # xs) = x # without_index i xs"
proof -
  have shift: "map snd (filter (\<lambda>(j, _). j \<noteq> Suc i) (List.enumerate (Suc n) xs)) = map snd (filter (\<lambda>(j, _). j \<noteq> i) (List.enumerate n xs))" for n i xs
    by (induction xs arbitrary: n) auto
  have all: "map snd (filter (\<lambda>(j, _). j \<noteq> 0) (List.enumerate (Suc n) xs)) = xs" for n xs
    by (induction xs arbitrary: n) auto
  show "without_index i [] = []" "without_index 0 (x # xs) = xs" "without_index (Suc i) (x # xs) = x # without_index i xs"
    using shift [of i 0] all [of 0] by (simp_all add: without_index_def)
qed

lemma without_index_eq: "without_index i xs = take i xs @ drop (Suc i) xs"
proof (induction xs arbitrary: i)
  case (Cons x xs)
  then show ?case by (cases i) simp_all
qed simp

lemma without_index_distinct: "distinct (map f xs) \<Longrightarrow> distinct (map f (without_index i xs)) \<and> set (without_index i xs) \<subseteq> set xs"
proof (induction xs arbitrary: i)
  case (Cons x xs)
  then show ?case by (cases i) fastforce+
qed simp

text \<open>
  C32. A schema survives the editor. A definition is read back from the JSON schema written for it exactly when its
  objects have distinct names, no nullable property is \<open>null\<close> and no union has a \<open>null\<close> variant; and
  whatever schema a definition was read from, writing and reading it again changes nothing more.
\<close>

theorem schema_definition_roundtrip:
  "(jsonSchemaToDefinition nt (definitionToJsonSchema d) = d \<longleftrightarrow> storable d) \<and>
   (keys_distinct s \<longrightarrow> jsonSchemaToDefinition nt (definitionToJsonSchema (jsonSchemaToDefinition nt s)) = jsonSchemaToDefinition nt s)"
  using roundtrip_storable imported_storable exported_keys_distinct by metis

text \<open>
  The builder shows the edits it reports. With properties it can store, what it shows after adding a property, removing
  one, or choosing another type for one (other than \<open>null\<close> for a nullable property) is exactly the edited list;
  the added property has a name of its own.
\<close>

theorem builder_keeps_edits:
  assumes "storable (DObject ps)"
  shows "builder_properties nt (Some (handlePropertiesChange (addProperty ps))) = addProperty ps \<and>
    builder_properties nt (Some (handlePropertiesChange (removeProperty i ps))) = take i ps @ drop (Suc i) ps \<and>
    (i < length ps \<longrightarrow> \<not> (pd_nullable (ps ! i) \<and> k = KNull) \<longrightarrow>
       builder_properties nt (Some (handlePropertiesChange (updateProperty i (handleTypeChange k (ps ! i)) ps))) =
         ps[i := Property (pd_name (ps ! i)) (pd_required (ps ! i)) (pd_nullable (ps ! i)) (createDefaultDefinition k)])"
proof (intro conjI impI)
  have ps: "distinct (map pd_name ps)" "\<And>p. p \<in> set ps \<Longrightarrow> storable (pd_schema p) \<and> \<not> (pd_nullable p \<and> pd_schema p = DNull)"
    using assms by simp_all
  have "storable (DObject (addProperty ps))" unfolding storable_object
    using ps property_name_fresh [of "map pd_name ps" "''newProperty''" 1] by (auto simp: addProperty_def createDefaultProperty_def)
  then show "builder_properties nt (Some (handlePropertiesChange (addProperty ps))) = addProperty ps" by (rule builder_shows)
  have "storable (DObject (removeProperty i ps))" unfolding storable_object removeProperty_def using without_index_distinct [OF ps(1)] ps(2) by blast
  from builder_shows [OF this] show "builder_properties nt (Some (handlePropertiesChange (removeProperty i ps))) = take i ps @ drop (Suc i) ps"
    by (simp add: removeProperty_def without_index_eq)
  assume i: "i < length ps" and k: "\<not> (pd_nullable (ps ! i) \<and> k = KNull)"
  let ?u = "handleTypeChange k (ps ! i)"
  have "map pd_name (ps[i := ?u]) = map pd_name ps" using i by (simp add: map_update handleTypeChange_def list_update_same_conv)
  moreover have "p = ?u \<or> p \<in> set ps" if "p \<in> set (ps[i := ?u])" for p using that set_update_subset_insert by fastforce
  moreover have "storable (pd_schema ?u) \<and> \<not> (pd_nullable ?u \<and> pd_schema ?u = DNull)" using k by (auto simp: handleTypeChange_def)
  ultimately have "storable (DObject (ps[i := ?u]))" unfolding storable_object using ps by metis
  from builder_shows [OF this]
  show "builder_properties nt (Some (handlePropertiesChange (updateProperty i ?u ps))) =
      ps[i := Property (pd_name (ps ! i)) (pd_required (ps ! i)) (pd_nullable (ps ! i)) (createDefaultDefinition k)]"
    by (simp add: updateProperty_def handleTypeChange_def)
qed

text \<open>
  A repeated name loses a property. When a property is renamed to the name of another one, and be it while its name is
  being typed, the builder shows fewer properties than it reported: one for each name.
\<close>

theorem duplicate_name_loses_property:
  assumes "\<not> distinct (map pd_name ps)"
  shows "length (builder_properties nt (Some (handlePropertiesChange ps))) < length ps"
proof -
  let ?v = "\<lambda>p. wrapNullable (definitionToJsonSchema (pd_schema p)) (pd_nullable p)"
  let ?m = "fold (\<lambda>p. jset (pd_name p) (?v p)) ps []"
  have len: "length (builder_properties nt (Some (handlePropertiesChange ps))) = length ?m"
    unfolding builder_properties_def handlePropertiesChange_def definitionToJsonSchema.simps option.case jsonSchemaToDefinition.simps [of nt "built_object _ _"]
    by simp
  have keys: "fst ` set (fold (\<lambda>p. jset (pd_name p) (?v p)) qs kvs) = pd_name ` set qs \<union> fst ` set kvs" for qs kvs
    by (induction qs arbitrary: kvs) (auto simp: dom_update)
  have "length ?m = card (pd_name ` set ps)"
    using distinct_card [OF fold_property_keys [of "[]" pd_name ?v ps]] keys [of ps "[]"] by simp
  also have "\<dots> < length ps" using assms card_distinct [of "map pd_name ps"] card_length [of "map pd_name ps"] by (auto simp: order_less_le)
  finally show ?thesis by (simp add: len)
qed

section \<open>Examples\<close>

theorem schema_definition_roundtrip_witness:
  "jsonSchemaToDefinition (\<lambda>_. []) (definitionToJsonSchema (DObject [Property ''a'' True True (DUnion [DString, DNumber])])) =
     DObject [Property ''a'' True True (DUnion [DString, DNumber])] \<and>
   jsonSchemaToDefinition (\<lambda>_. []) (definitionToJsonSchema (DUnion [DString, DNull])) \<noteq> DUnion [DString, DNull] \<and>
   jsonSchemaToDefinition (\<lambda>_. []) (definitionToJsonSchema (jsonSchemaToDefinition (\<lambda>_. []) (any_of [typed ''integer'', typed ''null'']))) =
     jsonSchemaToDefinition (\<lambda>_. []) (any_of [typed ''integer'', typed ''null''])"
proof -
  have k: "keys_distinct (any_of [typed ''integer'', typed ''null''])" by simp
  have "storable (DObject [Property ''a'' True True (DUnion [DString, DNumber])])" "\<not> storable (DUnion [DString, DNull])" by simp_all
  then show ?thesis
    using schema_definition_roundtrip [of "\<lambda>_. []" "DObject [Property ''a'' True True (DUnion [DString, DNumber])]" "any_of [typed ''integer'', typed ''null'']"]
      schema_definition_roundtrip [of "\<lambda>_. []" "DUnion [DString, DNull]" "any_of []"] k by blast
qed

theorem builder_keeps_edits_witness:
  "map pd_name (builder_properties (\<lambda>_. []) (Some (handlePropertiesChange (addProperty [Property ''newProperty'' True False DNull])))) = [''newProperty'', ''newProperty1'']"
proof -
  have "storable (DObject [Property ''newProperty'' True False DNull])" by simp
  moreover have "map pd_name (addProperty [Property ''newProperty'' True False DNull]) = [''newProperty'', ''newProperty1'']"
    by code_simp
  ultimately show ?thesis using builder_keeps_edits [of "[Property ''newProperty'' True False DNull]" "\<lambda>_. []"] by simp
qed

theorem duplicate_name_loses_property_witness:
  "length (builder_properties (\<lambda>_. []) (Some (handlePropertiesChange [Property ''a'' True False DString, Property ''a'' False False DNumber]))) < 2"
  using duplicate_name_loses_property [of "[Property ''a'' True False DString, Property ''a'' False False DNumber]" "\<lambda>_. []"] by simp

end
