(* ===== verification/Spec2Isabelle.thy ===== *)
theory Spec2Isabelle
  imports Gateway_Sharing Flow_Engine Component_Manifest Block_Templates Workspace_Props Package_Artifacts Device_Services
    Object_Nodes Workflow_Scheduler Editor_Mutations Schema_Builder
begin

text \<open>
  Verification of the TrakrAI platform's TypeScript core (\<open>src/web\<close>).

  \<^bold>\<open>The program.\<close> Browsers watch and control devices through a live gateway: a WebSocket server that
  admits a client with a signed token, forwards its commands to the device's MQTT topics and routes
  what the device publishes back to the clients. The backend issues the token after asking an
  OpenFGA authorization store which components of the device the user may read or write; its
  routers keep the factories, departments and devices of a database in step with that store, answer
  the pages of the management console and of the workspaces, and sign storage requests. A workflow
  engine validates graphs of nodes, resolves the schemas of their handles and runs them durably on
  Inngest; its editor groups nodes into reusable blocks.

  \<^bold>\<open>Shared theories.\<close> \<open>Prelude\<close>: JavaScript maps and sets as ordered association lists and distinct
  lists, the locales \<open>keyed_store\<close> and \<open>invariant_system\<close>. \<open>Js_String\<close>: the string operations used, for
  code units up to 255, ASCII letter case, and the stable sort by a locale's order, which is an
  argument. \<open>Js_Value\<close>: values of \<open>JSON.parse\<close> and \<open>undefined\<close>, numbers with \<open>NaN\<close>, infinities and
  negative zero, the equalities of the language.

  \<^bold>\<open>Live gateway\<close> (\<open>apps/live-gateway/src\<close>, \<open>trakrai-backend/src/lib/gateway-access-token.ts\<close>).
  \<^item> \<open>Topics\<close> models \<open>config.ts\<close>: building and parsing device topics is a round trip.
  \<^item> \<open>Rate_Limit\<close> models the limiter of \<open>ws-handler.ts\<close>; through the locale \<open>sliding_window\<close>, interpreted for
    messages and for commands, no window accepts more than the normalised limit.
  \<^item> \<open>Gateway_Token\<close> models selectors, signing and verification; the signature library is a parameter.
  \<^item> \<open>Mqtt_Client\<close> models \<open>mqtt-client.ts\<close>: the connection promise settles once, subscriptions are
    counted per device.
  \<^item> \<open>Ws_Handler\<close> has one definition per function of \<open>ws-handler.ts\<close>; module state is the record
    \<open>gateway\<close>, handlers return the new state and their effects in order, a raise is an error value.
  \<^item> \<open>Gateway_Routes\<close> states the owner tables of requests and sessions as the locale \<open>owner_index\<close>.
  \<^item> \<open>Gateway_System\<close> is the transition system over the handlers: sockets open, send and close, the broker
    answers, in any order. \<open>Gateway_Safety\<close> and \<open>Gateway_Sharing\<close> prove, for every reachable state,
    device isolation, publish authority, routing of answers and that subscriptions follow clients, and
    exhibit three states in which the sharing goes wrong.

  \<^bold>\<open>Browser end of the gateway\<close> (\<open>trakrai-live-transport/src\<close>).
  \<^item> \<open>Live_Client\<close> models \<open>lib/live-client.ts\<close>, a reconnecting socket with a bounded queue. Sockets, handlers and
    timers are numbers; events arrive in any order. Frames leave in the order in which they were asked
    for, and the end of an old socket makes the client forget its new one.
  \<^item> \<open>Live_Transport\<close> models \<open>providers/live-transport-provider.tsx\<close>: requests, answers, timeouts and renderings as
    steps. Every request settles exactly once, and is answered through the gateway's own handlers; two
    theorems show how a request and a connection get lost.
  \<^item> \<open>Device_Services\<close> models the contracts of device services and the hooks built on them: a typed request takes
    exactly the answers its contract declares; a request that the gateway refuses hears nothing.

  \<^bold>\<open>Authorization\<close> (\<open>trakrai-backend/src/lib/authz\<close>, \<open>lib/device-component-manifest.ts\<close>).
  \<^item> \<open>Authz_Names\<close> models \<open>constants.ts\<close>; \<open>Authz_Model\<close> models \<open>model.ts\<close> with the meaning of its rewrite rules as an
    inductive relation over tuples, and reduces reading, writing and managing to a closed form.
  \<^item> \<open>Authz_Store\<close> models \<open>openfga-state.ts\<close>, \<open>mutations.ts\<close>, \<open>relations.ts\<close> and \<open>assignments.ts\<close> over a client record;
    paged reads take fuel. \<open>Authz_Laws\<close> states the server's contract as the locales \<open>tuple_store\<close> and
    \<open>checked_store\<close> and interprets them on a server that keeps a list of tuples; \<open>Authz_Props\<close> proves the
    effect of every mutation and the exactness of the listing.
  \<^item> \<open>Component_Manifest\<close> computes the actions of components; \<open>Device_Access\<close> models \<open>device-access.ts\<close> and
    follows a grant through the token to the gateway's decision on a message.

  \<^bold>\<open>Backend requests\<close> (\<open>trakrai-backend/src/server\<close>, \<open>db/schema.ts\<close>, \<open>lib/storage\<close>).
  \<^item> \<open>Backend_Db\<close> has the tables with their keys, and the handlers as functions on database and store that
    return a result or an error; \<open>Access_Control\<close> has the requests of the access control and devices
    routers. \<open>Access_Sync\<close> makes them a transition system and proves that rows and links of the store agree
    after every request; \<open>Access_Rights\<close> proves who may change grants, that a new device is complete, that
    a deleted one is forgotten and that device tokens are shown to system administrators only.
  \<^item> \<open>Sql_Query\<close> gives meaning to joins, conditions, grouping, order and pages; \<open>Access_Queries\<close> and
    \<open>Workspace_Queries\<close> have the queries of \<open>queries.ts\<close>, \<open>management-console.ts\<close> and the workspace router.
    \<open>Query_Laws\<close> holds the laws of pages and joins; \<open>Query_Props\<close> and \<open>Workspace_Props\<close> prove that a listing shows the
    devices of a scope exactly once and that a workspace shows nothing beyond the caller's grants, and
    state four defects.
  \<^item> \<open>Storage_Provider\<close> models the two storage providers against the locale \<open>url_signer\<close>; \<open>Package_Artifacts\<close> models
    device authentication in \<open>trpc.ts\<close> and the package routes: a device's token reaches its own files only,
    releases are listed as they were uploaded, newest first.

  \<^bold>\<open>Workflow engine\<close> (\<open>trakrai-workflow-core/src\<close>, \<open>trakrai-workflow-inngest/src/execution\<close>).
  \<^item> \<open>Flow_Schema\<close> models schemas, the subset test and the validator (\<open>schema-validator.ts\<close>, parts of
    \<open>schema-utils.ts\<close>); \<open>Flow_Schema_Props\<close> proves that enough fuel gives an answer that more fuel keeps, and
    that the subset test is sound on the schemas of handles, with counterexamples beyond them.
  \<^item> \<open>Flow_Graph\<close> models dependency maps, topological sort and asynchronous barriers, against reference
    definitions by paths; recursion is structural or has a measure.
  \<^item> \<open>Flow_Runtime\<close> models schema resolution (\<open>create-node-runtime.ts\<close>); handlers are parameters, and as many
    units of fuel as nodes, plus one, are enough (locale \<open>total_resolver\<close>).
  \<^item> \<open>Flow_Validation\<close> models \<open>workflow-validator.ts\<close> and \<open>connection-validator.ts\<close>.
  \<^item> \<open>Flow_Automation\<close> models \<open>workflowAutomation.ts\<close> as a step relation in which nodes interleave between
    waits; \<open>Flow_Engine\<close> proves that nodes succeed only over passed dependencies, that results are final
    and that a run of an accepted workflow ends, and runs an example.

  \<^bold>\<open>Nodes, triggers and schedule\<close> (\<open>trakrai-workflow-schemas/src/nodes\<close>, \<open>trakrai-workflow-plugins/src/triggers\<close>,
  \<open>apps/trakrai-workflow-scheduler/src\<close>).
  \<^item> \<open>Object_Nodes\<close> models the merge, combine and spread nodes: what they return conforms to the schema they
    announce, and verdicts of the validator do not depend on the path.
  \<^item> \<open>Workflow_Triggers\<close> models the endpoints, the event dispatcher, the trigger nodes and the editor's callbacks; by
    the locale \<open>mirrored_trigger\<close>, interpreted for three kinds of triggers, the stored triggers are always
    the configured ones.
  \<^item> \<open>Workflow_Scheduler\<close> models the reconciliation of the job queue, whose contract is the locale \<open>job_queue\<close>: after
    it the queue holds exactly the cron nodes of the workflow, unless one bad trigger blocks the others.

  \<^bold>\<open>Workflow editor\<close> (\<open>trakrai-workflow-plugins/src/blocks/block-utils.ts\<close>, \<open>trakrai-workflow-ui/src/ui\<close>).
  \<^item> \<open>Editor_Mutations\<close> models the snapshots of the canvas, the changes between them, their dispatch to the node
    handlers and the queue of dispatches; with the contract \<open>mirrored_trigger\<close> of the trigger plugins it proves that
    the stored triggers follow the canvas, and that a failing callback loses the rest of its edit.
  \<^item> \<open>Schema_Builder\<close> models the editable form of JSON schemas and the builder: which definitions survive the
    conversions, exactly, and that the builder shows the edits it reports unless a name is repeated.
  \<^item> \<open>Display_Name\<close> models \<open>createDisplayName\<close>; \<open>Blocks\<close> has one definition per function of the module.
  \<^item> \<open>Blocks_Props\<close> and \<open>Block_Templates\<close> prove that the shown graph is a faithful view: its nodes
    partition the raw ones, its edges resolve to the raw connections, writing a layout back shows it
    (locale \<open>placed_view\<close>), and templates instantiate to renamed copies.

  \<^bold>\<open>Bounds and abstractions.\<close> Integer-like keys of plain objects are not moved to the front of the
  enumeration. Positions and timestamps are exact numbers. The order of the locale, signatures,
  hashes, base64, random identifiers, the broker, the OpenFGA server, the database's text order and
  pattern match, the storage libraries, the session library, the step library and node handlers are
  arguments, with what the code relies on as hypotheses or locales. Requests of the backend run one
  after the other, and a failure between a write to the database and one to the store is not
  modelled. The limits of input schemas are not modelled. Of time stamps only the creation time that
  queries order by is kept. In queries an unknown truth value counts as false, which is right without
  negation. Handlers called by the live client do not call back into it while they run.

  \<^bold>\<open>Not modelled.\<close> React components, hooks and the design system, which render state; generated contracts
  and GraphQL types; sessions, tracing and logs, which wire third-party libraries; the printing of
  schemas as type strings; the functions of the arithmetic, date, text and
  array nodes and the code, email and AI nodes, which are parameters of the engine; start-up and
  shut-down of the services; and the Go and Python services of the device.
\<close>

end
